(* ===== verification/Caption_Prelude.thy ===== *)
theory Caption_Prelude
  imports Main "HOL-Library.Word" "HOL-Library.Sublist"
begin

text \<open>
  Shared vocabulary of the development: the types that stand for Python's own values (strings,
  timestamps, identifiers), the result type that stands for raising and returning, the operations of
  Python's \<open>str\<close> and of slices that the sources call, and the list operations that stand for
  SQL statements over a table (select, update, delete, max).

  A Python \<open>str\<close> is a sequence of Unicode code points. It is a \<open>nat list\<close> here and not a
  HOL \<open>string\<close>, whose characters are bytes: offsets and lengths of the members' (Chinese)
  texts count code points. HOL's \<open>string\<close> is kept for the closed vocabularies of ASCII
  identifiers (error codes, resource types), and \<open>tx\<close> turns an ASCII literal into a text.
\<close>

section \<open>Named collections\<close>

named_theorems table_simps \<open>rewrite rules of the SQL-like list operations\<close>
named_theorems handler_defs \<open>definitions of the request handlers\<close>
named_theorems inv_intros \<open>preservation lemmas of the stored-data invariant\<close>

section \<open>Values\<close>

type_synonym pystr = "nat list"           \<comment> \<open>\<open>str\<close>: Unicode code points\<close>
type_synonym uuid = "128 word"            \<comment> \<open>\<open>uuid.UUID\<close>\<close>
type_synonym instant = int                \<comment> \<open>\<open>datetime\<close> in UTC, microseconds\<close>

definition seconds :: "int \<Rightarrow> instant" where
  "seconds s = s * 1000000"

definition tx :: "string \<Rightarrow> pystr" where
  "tx s = map of_char s"

lemma length_tx [simp]: "length (tx s) = length s"
  by (simp add: tx_def)

lemma tx_Nil [simp]: "tx [] = []"
  by (simp add: tx_def)

lemma tx_inject [simp]: "tx a = tx b \<longleftrightarrow> a = b"
  unfolding tx_def by (metis inj_of_char list.inj_map_strong of_char_eq_iff)

section \<open>Results\<close>

text \<open>
  \<open>Inl e\<close> is a raised exception, \<open>Inr v\<close> a returned value. \<open>bind_result\<close> is
  sequential composition: an exception skips the rest.
\<close>

definition bind_result :: "'e + 'a \<Rightarrow> ('a \<Rightarrow> 'e + 'b) \<Rightarrow> 'e + 'b" where
  "bind_result r k = (case r of Inl e \<Rightarrow> Inl e | Inr v \<Rightarrow> k v)"

lemma bind_result_simps [simp]:
  "bind_result (Inl e) k = Inl e"
  "bind_result (Inr v) k = k v"
  by (simp_all add: bind_result_def)

lemma bind_result_InrE:
  assumes "bind_result r k = Inr y"
  obtains v where "r = Inr v" and "k v = Inr y"
  using assms by (cases r) auto

lemma bind_result_eq_Inr_iff:
  "bind_result r k = Inr y \<longleftrightarrow> (\<exists>v. r = Inr v \<and> k v = Inr y)"
  by (cases r) auto

definition require :: "bool \<Rightarrow> 'e \<Rightarrow> 'e + unit" where
  "require b e = (if b then Inr () else Inl e)"

lemma require_simps [simp]:
  "require True e = Inr ()"
  "require False e = Inl e"
  "require b e = Inr u \<longleftrightarrow> b"
  "require b e = Inl e' \<longleftrightarrow> \<not> b \<and> e' = e"
  by (auto simp: require_def)

definition map_error :: "('e \<Rightarrow> 'f) \<Rightarrow> 'e + 'a \<Rightarrow> 'f + 'a" where
  "map_error h r = (case r of Inl e \<Rightarrow> Inl (h e) | Inr v \<Rightarrow> Inr v)"

lemma map_error_simps [simp]:
  "map_error h (Inl e) = Inl (h e)"
  "map_error h (Inr v) = Inr v"
  "map_error h r = Inr v \<longleftrightarrow> r = Inr v"
  by (cases r; simp add: map_error_def)+

definition of_option :: "'e \<Rightarrow> 'a option \<Rightarrow> 'e + 'a" where
  "of_option e x = (case x of None \<Rightarrow> Inl e | Some v \<Rightarrow> Inr v)"

lemma of_option_simps [simp]:
  "of_option e None = Inl e"
  "of_option e (Some v) = Inr v"
  "of_option e x = Inr v \<longleftrightarrow> x = Some v"
  "of_option e x = Inl e' \<longleftrightarrow> x = None \<and> e' = e"
  by (cases x; auto simp: of_option_def)+

section \<open>Python's str\<close>

text \<open>
  \<open>str.isspace\<close> of one character, by code point: the characters Python 3 counts as white
  space (bidirectional type WS, B or S, or category Zs).
\<close>

definition is_space :: "nat \<Rightarrow> bool" where
  "is_space c \<longleftrightarrow>
     9 \<le> c \<and> c \<le> 13 \<or> 28 \<le> c \<and> c \<le> 32 \<or> c = 133 \<or> c = 160 \<or> c = 5760 \<or>
     8192 \<le> c \<and> c \<le> 8202 \<or> c = 8232 \<or> c = 8233 \<or> c = 8239 \<or> c = 8287 \<or> c = 12288"

definition lstrip :: "pystr \<Rightarrow> pystr" where
  "lstrip s = dropWhile is_space s"

definition rstrip :: "pystr \<Rightarrow> pystr" where
  "rstrip s = rev (dropWhile is_space (rev s))"

definition strip :: "pystr \<Rightarrow> pystr" where
  "strip s = rstrip (lstrip s)"

definition rstrip_char :: "nat \<Rightarrow> pystr \<Rightarrow> pystr" where
  "rstrip_char c s = rev (dropWhile (\<lambda>x. x = c) (rev s))"

text \<open>A string is falsy when empty: \<open>s.strip()\<close> used as a condition tests \<open>blank\<close>.\<close>

definition blank :: "pystr \<Rightarrow> bool" where
  "blank s \<longleftrightarrow> strip s = []"

lemma blank_iff: "blank s \<longleftrightarrow> (\<forall>c \<in> set s. is_space c)"
proof -
  have "strip s = [] \<longleftrightarrow> (\<forall>c \<in> set (dropWhile is_space s). is_space c)"
    by (simp add: strip_def rstrip_def lstrip_def dropWhile_eq_Nil_conv)
  also have "\<dots> \<longleftrightarrow> (\<forall>c \<in> set s. is_space c)"
    by (metis dropWhile_eq_Nil_conv hd_dropWhile hd_in_set set_dropWhileD)
  finally show ?thesis by (simp add: blank_def)
qed

lemma rstrip_idem [simp]: "rstrip (rstrip s) = rstrip s"
  by (simp add: rstrip_def)

lemma rstrip_snoc:
  "rstrip (xs @ [x]) = (if is_space x then rstrip xs else xs @ [x])"
  by (simp add: rstrip_def)

lemma lstrip_rstrip_of_stripped:
  assumes "lstrip s = s"
  shows "lstrip (rstrip s) = rstrip s"
  using assms
proof (induction s rule: rev_induct)
  case Nil
  then show ?case by (simp add: rstrip_def lstrip_def)
next
  case (snoc x xs)
  show ?case
  proof (cases "is_space x")
    case True
    show ?thesis
    proof (cases xs)
      case Nil
      then show ?thesis using True by (simp add: rstrip_def lstrip_def)
    next
      case (Cons y ys)
      with snoc.prems have "\<not> is_space y"
        by (auto simp: lstrip_def split: if_splits)
          (metis append_is_Nil_conv dropWhile_append3 dropWhile_cong hd_dropWhile
            impossible_Cons length_dropWhile_le list.sel(1) not_Cons_self2)
      then have "lstrip xs = xs" by (simp add: Cons lstrip_def)
      then show ?thesis using True snoc.IH by (simp add: rstrip_snoc)
    qed
  next
    case False
    then show ?thesis using snoc.prems by (simp add: rstrip_snoc)
  qed
qed

lemma strip_idem [simp]: "strip (strip s) = strip s"
proof -
  have "lstrip (lstrip s) = lstrip s" by (simp add: lstrip_def)
  then have "lstrip (rstrip (lstrip s)) = rstrip (lstrip s)"
    by (rule lstrip_rstrip_of_stripped)
  then show ?thesis by (simp add: strip_def)
qed


text \<open>\<open>s[a:b]\<close> for \<open>0 \<le> a\<close>, \<open>0 \<le> b\<close>, and \<open>s[:n]\<close> for any integer \<open>n\<close> (a negative one counts
  from the end).\<close>

definition slice :: "'a list \<Rightarrow> nat \<Rightarrow> nat \<Rightarrow> 'a list" where
  "slice s a b = drop a (take b s)"

definition take_int :: "int \<Rightarrow> 'a list \<Rightarrow> 'a list" where
  "take_int n s = (if 0 \<le> n then take (nat n) s else take (length s - nat (- n)) s)"

lemma length_slice: "length (slice s a b) = min b (length s) - a"
  by (simp add: slice_def min.commute)

lemma length_take_int_le: "0 \<le> n \<Longrightarrow> int (length (take_int n s)) \<le> n"
  by (simp add: take_int_def)

lemma set_take_int_subset: "set (take_int n s) \<subseteq> set s"
  by (simp add: take_int_def set_take_subset)

lemma distinct_map_take_int: "distinct (map f s) \<Longrightarrow> distinct (map f (take_int n s))"
  by (simp add: take_int_def flip: take_map)

section \<open>Occurrences of a fragment\<close>

text \<open>
  \<open>content.find(sub, start)\<close>: the least index from \<open>start\<close> on at which \<open>sub\<close> occurs;
  \<open>None\<close> stands for \<open>-1\<close>.
\<close>

definition occurs_at :: "'a list \<Rightarrow> 'a list \<Rightarrow> nat \<Rightarrow> bool" where
  "occurs_at content sub p \<longleftrightarrow>
     p + length sub \<le> length content \<and> take (length sub) (drop p content) = sub"

function find_from :: "'a list \<Rightarrow> 'a list \<Rightarrow> nat \<Rightarrow> nat option" where
  "find_from content sub start =
     (if length content < start + length sub then None
      else if take (length sub) (drop start content) = sub then Some start
      else find_from content sub (Suc start))"
  by pat_completeness auto
termination
  by (relation "measure (\<lambda>(content, sub, start). Suc (length content) - start)") auto

declare find_from.simps [simp del]

lemma find_from_Some:
  "find_from content sub start = Some p \<Longrightarrow>
     occurs_at content sub p \<and> start \<le> p \<and> (\<forall>q. start \<le> q \<and> q < p \<longrightarrow> \<not> occurs_at content sub q)"
proof (induction content sub start rule: find_from.induct)
  case (1 content sub start)
  show ?case
  proof (cases "length content < start + length sub \<or> take (length sub) (drop start content) = sub")
    case True
    with "1.prems" show ?thesis
      by (auto simp: find_from.simps [of content sub start] occurs_at_def split: if_splits)
  next
    case False
    with "1.prems" have "find_from content sub (Suc start) = Some p"
      by (simp add: find_from.simps [of content sub start])
    with "1.IH" False have "occurs_at content sub p \<and> Suc start \<le> p
        \<and> (\<forall>q. Suc start \<le> q \<and> q < p \<longrightarrow> \<not> occurs_at content sub q)" by simp
    with False show ?thesis
      by (metis Suc_leI le_antisym not_less_eq_eq occurs_at_def Suc_leD)
  qed
qed

lemma find_from_None:
  "find_from content sub start = None \<Longrightarrow> start \<le> q \<Longrightarrow> \<not> occurs_at content sub q"
proof (induction content sub start rule: find_from.induct)
  case (1 content sub start)
  show ?case
  proof (cases "length content < start + length sub")
    case True
    with "1.prems" show ?thesis by (simp add: occurs_at_def)
  next
    case False
    with "1.prems" have ne: "take (length sub) (drop start content) \<noteq> sub"
      and rest: "find_from content sub (Suc start) = None"
      by (auto simp: find_from.simps [of content sub start] split: if_splits)
    show ?thesis
    proof (cases "q = start")
      case True
      with ne show ?thesis by (simp add: occurs_at_def)
    next
      case neq: False
      with "1.prems" have "Suc start \<le> q" by simp
      with "1.IH" False ne rest show ?thesis by blast
    qed
  qed
qed

text \<open>
  \<open>fits content t start k\<close>: from \<open>start\<close> on, \<open>content\<close> has room for \<open>k\<close> pairwise
  disjoint occurrences of \<open>t\<close>. This is what "kept with its number of repetitions" means; it
  mentions no search order.
\<close>

definition fits :: "'a list \<Rightarrow> 'a list \<Rightarrow> nat \<Rightarrow> nat \<Rightarrow> bool" where
  "fits content t start k \<longleftrightarrow>
     (\<exists>ps. length ps = k \<and> (\<forall>p \<in> set ps. start \<le> p \<and> occurs_at content t p)
        \<and> sorted_wrt (\<lambda>p q. p + length t \<le> q) ps)"

lemma fits_0 [simp]: "fits content t start 0"
  by (simp add: fits_def)

lemma fits_Suc_find:
  "fits content t start (Suc k) \<longleftrightarrow>
     (\<exists>p. find_from content t start = Some p \<and> fits content t (p + length t) k)"
proof
  assume "fits content t start (Suc k)"
  then obtain q qs where k: "length qs = k" and q: "start \<le> q" "occurs_at content t q"
    and occ: "\<forall>p \<in> set qs. start \<le> p \<and> occurs_at content t p"
    and gap: "\<forall>p \<in> set qs. q + length t \<le> p" and srt: "sorted_wrt (\<lambda>p q. p + length t \<le> q) qs"
    by (auto simp: fits_def length_Suc_conv)
  from q obtain p where p: "find_from content t start = Some p"
    using find_from_None [of content t start q] by (cases "find_from content t start") auto
  with q have "p \<le> q" using find_from_Some [OF p] by (meson leI)
  with gap have "\<forall>x \<in> set qs. p + length t \<le> x" by fastforce
  with k occ srt have "fits content t (p + length t) k" by (auto simp: fits_def)
  with p show "\<exists>p. find_from content t start = Some p \<and> fits content t (p + length t) k" by blast
next
  assume "\<exists>p. find_from content t start = Some p \<and> fits content t (p + length t) k"
  then obtain p ps where p: "find_from content t start = Some p" and "length ps = k"
    and ps: "\<forall>x \<in> set ps. p + length t \<le> x \<and> occurs_at content t x"
    and srt: "sorted_wrt (\<lambda>p q. p + length t \<le> q) ps"
    by (auto simp: fits_def)
  with find_from_Some [OF p] have "length (p # ps) = Suc k"
    "\<forall>x \<in> set (p # ps). start \<le> x \<and> occurs_at content t x"
    "sorted_wrt (\<lambda>p q. p + length t \<le> q) (p # ps)"
    by force+
  then show "fits content t start (Suc k)" unfolding fits_def by blast
qed

lemma fits_mono: "fits content t start (Suc k) \<Longrightarrow> fits content t start k"
proof (induction k arbitrary: start)
  case (Suc k)
  then show ?case by (metis fits_Suc_find)
qed simp

section \<open>Tables\<close>

text \<open>
  A table is the list of its rows. \<open>SELECT ... WHERE p\<close> is \<open>filter p\<close>; a scalar select is
  \<open>find p\<close>; \<open>UPDATE ... SET f WHERE p\<close> is \<open>update_where p f\<close>; \<open>DELETE ... WHERE p\<close>
  is \<open>filter (\<lambda>r. \<not> p r)\<close>; \<open>coalesce(max(col), d)\<close> is \<open>max_or\<close>.
\<close>

definition update_where :: "('r \<Rightarrow> bool) \<Rightarrow> ('r \<Rightarrow> 'r) \<Rightarrow> 'r list \<Rightarrow> 'r list" where
  "update_where p f rows = map (\<lambda>r. if p r then f r else r) rows"

definition max_or :: "int \<Rightarrow> int list \<Rightarrow> int" where
  "max_or d xs = (case xs of [] \<Rightarrow> d | x # xs' \<Rightarrow> fold max xs' x)"

lemma update_where_simps [simp]:
  "update_where p f [] = []"
  "update_where p f (r # rs) = (if p r then f r else r) # update_where p f rs"
  "length (update_where p f rows) = length rows"
  by (simp_all add: update_where_def)

lemma set_update_where:
  "x \<in> set (update_where p f rows) \<longleftrightarrow> (\<exists>r \<in> set rows. x = (if p r then f r else r))"
  by (auto simp: update_where_def)

lemma map_update_where [table_simps]:
  assumes "\<And>r. p r \<Longrightarrow> g (f r) = g r"
  shows "map g (update_where p f rows) = map g rows"
  using assms by (simp add: update_where_def)

lemma find_Some_mem: "find p xs = Some x \<Longrightarrow> x \<in> set xs \<and> p x"
  by (metis find_Some_iff nth_mem)

lemma find_None_notin: "find p xs = None \<Longrightarrow> x \<in> set xs \<Longrightarrow> \<not> p x"
  by (metis find_None_iff)

lemma find_distinct_key:
  assumes "distinct (map key xs)" and "x \<in> set xs"
  shows "find (\<lambda>r. key r = key x) xs = Some x"
  using assms by (induction xs) (auto simp: rev_image_eqI)

lemma distinct_key_eq:
  assumes "distinct (map key xs)" and "x \<in> set xs" and "y \<in> set xs" and "key x = key y"
  shows "x = y"
  using assms by (metis find_distinct_key option.inject)

lemma find_map_same: "(\<And>x. P (f x) = P x) \<Longrightarrow> find P (map f xs) = map_option f (find P xs)"
  by (induction xs) auto

lemma find_append: "find P (xs @ ys) = (case find P xs of None \<Rightarrow> find P ys | Some x \<Rightarrow> Some x)"
  by (induction xs) auto

lemma fold_max_ge: "a \<le> fold max xs a \<and> (\<forall>x \<in> set xs. x \<le> fold max xs (a :: int))"
proof (induction xs arbitrary: a)
  case (Cons y ys)
  from Cons.IH [of "max y a"] show ?case by auto
qed simp

lemma max_or_ge: "x \<in> set xs \<Longrightarrow> x \<le> max_or d xs"
  by (cases xs) (auto simp: max_or_def fold_max_ge)

lemma max_or_fresh: "max_or d xs + 1 \<notin> set xs"
  using max_or_ge [of "max_or d xs + 1" xs d] by auto

end
