(* ===== verification/Py_Json.thy ===== *)
theory Py_Json
  imports Caption_Prelude
begin

text \<open>
  JSON values and their compact text form, as Python's \<open>json.dumps(..., ensure_ascii=False,
  separators=(",", ":"))\<close> writes them (with \<open>sort_keys=True\<close> for \<open>dumps_sorted\<close>), the text
  form of a UUID and its parser, decimal numerals, and UTF-8. The AI operations store request
  payloads as JSON, hash a canonical JSON text, and put JSON into prompts.
\<close>

section \<open>Values\<close>

text \<open>\<open>JDec m e\<close> is the decimal fraction \<open>m / 10 ^ e\<close>.\<close>

datatype json =
    JNull
  | JBool bool
  | JInt int
  | JDec int nat
  | JStr pystr
  | JArr "json list"
  | JObj "(pystr \<times> json) list"

definition jget :: "pystr \<Rightarrow> (pystr \<times> json) list \<Rightarrow> json option" where
  "jget k members = map_of members k"

text \<open>Python's truth value of a decoded JSON value.\<close>

fun truthy :: "json \<Rightarrow> bool" where
  "truthy JNull = False"
| "truthy (JBool b) = b"
| "truthy (JInt n) = (n \<noteq> 0)"
| "truthy (JDec m _) = (m \<noteq> 0)"
| "truthy (JStr s) = (s \<noteq> [])"
| "truthy (JArr xs) = (xs \<noteq> [])"
| "truthy (JObj ms) = (ms \<noteq> [])"

section \<open>Numerals\<close>

fun show_nat :: "nat \<Rightarrow> pystr" where
  "show_nat n = (if n < 10 then [48 + n] else show_nat (n div 10) @ [48 + n mod 10])"

declare show_nat.simps [simp del]

definition show_int :: "int \<Rightarrow> pystr" where
  "show_int i = (if i < 0 then 45 # show_nat (nat (- i)) else show_nat (nat i))"

definition hex_char :: "nat \<Rightarrow> nat" where
  "hex_char d = (if d < 10 then 48 + d else 87 + d)"

text \<open>\<open>hex_fixed w n\<close>: the \<open>w\<close> low hexadecimal digits of \<open>n\<close>, most significant first.\<close>

fun hex_fixed :: "nat \<Rightarrow> nat \<Rightarrow> pystr" where
  "hex_fixed 0 n = []"
| "hex_fixed (Suc w) n = hex_fixed w (n div 16) @ [hex_char (n mod 16)]"

definition hex_value :: "nat \<Rightarrow> nat option" where
  "hex_value c =
     (if 48 \<le> c \<and> c \<le> 57 then Some (c - 48)
      else if 97 \<le> c \<and> c \<le> 102 then Some (c - 87)
      else if 65 \<le> c \<and> c \<le> 70 then Some (c - 55)
      else None)"

fun parse_hex :: "nat \<Rightarrow> pystr \<Rightarrow> nat option" where
  "parse_hex acc [] = Some acc"
| "parse_hex acc (c # cs) =
     (case hex_value c of None \<Rightarrow> None | Some d \<Rightarrow> parse_hex (acc * 16 + d) cs)"

lemma length_hex_fixed [simp]: "length (hex_fixed w n) = w"
  by (induction w arbitrary: n) auto

lemma hex_value_hex_char: "d < 16 \<Longrightarrow> hex_value (hex_char d) = Some d"
  by (auto simp: hex_value_def hex_char_def)

lemma parse_hex_append:
  "parse_hex acc (xs @ ys) = Option.bind (parse_hex acc xs) (\<lambda>a. parse_hex a ys)"
  by (induction xs arbitrary: acc) (auto split: option.splits)

lemma parse_hex_fixed: "parse_hex acc (hex_fixed w n) = Some (acc * 16 ^ w + n mod 16 ^ w)"
proof (induction w arbitrary: n)
  case (Suc w)
  have "n mod 16 ^ Suc w = 16 * ((n div 16) mod 16 ^ w) + n mod 16"
    using mod_mult2_eq [of n 16 "16 ^ w"] by simp
  with Suc show ?case
    by (simp add: parse_hex_append hex_value_hex_char algebra_simps)
qed simp

lemma hex_char_range: "d < 16 \<Longrightarrow> 48 \<le> hex_char d \<and> hex_char d \<le> 102 \<and> hex_char d \<noteq> 45"
  by (auto simp: hex_char_def)

lemma hex_fixed_no_dash: "45 \<notin> set (hex_fixed w n)"
  using hex_char_range by (induction w arbitrary: n) force+

section \<open>UUIDs\<close>

text \<open>\<open>str(uuid)\<close>: 32 hexadecimal digits in groups of 8, 4, 4, 4 and 12.\<close>

definition uuid_str :: "uuid \<Rightarrow> pystr" where
  "uuid_str x =
     (let h = hex_fixed 32 (unat x)
      in take 8 h @ [45] @ take 4 (drop 8 h) @ [45] @ take 4 (drop 12 h) @ [45] @
         take 4 (drop 16 h) @ [45] @ drop 20 h)"

text \<open>Parsing drops the hyphens and reads 32 hexadecimal digits.\<close>

definition uuid_of_str :: "pystr \<Rightarrow> uuid option" where
  "uuid_of_str s =
     (let h = filter (\<lambda>c. c \<noteq> 45) s
      in if length h = 32 then map_option of_nat (parse_hex 0 h) else None)"

lemma uuid_groups:
  "take 8 h @ take 4 (drop 8 h) @ take 4 (drop 12 h) @ take 4 (drop 16 h) @ drop 20 h = h"
proof -
  have "take 4 (drop 16 h) @ drop 20 h = drop 16 h"
    using append_take_drop_id [of 4 "drop 16 h"] by simp
  moreover have "take 4 (drop 12 h) @ drop 16 h = drop 12 h"
    using append_take_drop_id [of 4 "drop 12 h"] by simp
  moreover have "take 4 (drop 8 h) @ drop 12 h = drop 8 h"
    using append_take_drop_id [of 4 "drop 8 h"] by simp
  ultimately show ?thesis by simp
qed

lemma uuid_roundtrip [simp]: "uuid_of_str (uuid_str x) = Some x"
proof -
  let ?h = "hex_fixed 32 (unat x)"
  have keep: "filter (\<lambda>c. c \<noteq> 45) ys = ys" if "set ys \<subseteq> set ?h" for ys
    using that hex_fixed_no_dash [of 32 "unat x"] by (auto simp: filter_id_conv)
  have "set (take i (drop j ?h)) \<subseteq> set ?h" for i j
    by (meson set_drop_subset set_take_subset subset_trans)
  then have "filter (\<lambda>c. c \<noteq> 45) (uuid_str x) =
      take 8 ?h @ take 4 (drop 8 ?h) @ take 4 (drop 12 ?h) @ take 4 (drop 16 ?h) @ drop 20 ?h"
    by (simp add: uuid_str_def Let_def keep set_take_subset set_drop_subset)
  also have "\<dots> = ?h" by (rule uuid_groups)
  finally have h: "filter (\<lambda>c. c \<noteq> 45) (uuid_str x) = ?h" .
  have "unat x mod 16 ^ 32 = unat x"
    using unsigned_less [where w = x and ?'a = nat] by simp
  then have "parse_hex 0 ?h = Some (unat x)"
    using parse_hex_fixed [of 0 32 "unat x"] by simp
  with h show ?thesis by (simp add: uuid_of_str_def)
qed

lemma uuid_str_inject [simp]: "uuid_str x = uuid_str y \<longleftrightarrow> x = y"
  by (metis option.inject uuid_roundtrip)

section \<open>Compact text\<close>

text \<open>The escapes of \<open>json.dumps\<close>: quote, backslash, the five short control escapes and
  \<open>\u00XX\<close> for the other control characters.\<close>

definition json_char :: "nat \<Rightarrow> pystr" where
  "json_char c =
     (if c = 34 then [92, 34] else if c = 92 then [92, 92]
      else if c = 10 then [92, 110] else if c = 13 then [92, 114] else if c = 9 then [92, 116]
      else if c = 12 then [92, 102] else if c = 8 then [92, 98]
      else if c < 32 then [92, 117] @ hex_fixed 4 c
      else [c])"

definition json_quote :: "pystr \<Rightarrow> pystr" where
  "json_quote s = [34] @ concat (map json_char s) @ [34]"

definition show_dec :: "int \<Rightarrow> nat \<Rightarrow> pystr" where
  "show_dec m e =
     show_int (m div 10 ^ e) @ (if e = 0 then tx ''.0'' else tx ''.'' @ show_nat (nat (m mod 10 ^ e)))"

fun dumps :: "json \<Rightarrow> pystr"
  and dumps_arr :: "json list \<Rightarrow> pystr"
  and dumps_obj :: "(pystr \<times> json) list \<Rightarrow> pystr" where
  "dumps JNull = tx ''null''"
| "dumps (JBool b) = (if b then tx ''true'' else tx ''false'')"
| "dumps (JInt n) = show_int n"
| "dumps (JDec m e) = show_dec m e"
| "dumps (JStr s) = json_quote s"
| "dumps (JArr xs) = tx ''['' @ dumps_arr xs @ tx '']''"
| "dumps (JObj ms) = tx ''{'' @ dumps_obj ms @ tx ''}''"
| "dumps_arr [] = []"
| "dumps_arr [x] = dumps x"
| "dumps_arr (x # y # xs) = dumps x @ tx '','' @ dumps_arr (y # xs)"
| "dumps_obj [] = []"
| "dumps_obj [(k, v)] = json_quote k @ tx '':'' @ dumps v"
| "dumps_obj ((k, v) # m # ms) = json_quote k @ tx '':'' @ dumps v @ tx '','' @ dumps_obj (m # ms)"

text \<open>\<open>sort_keys=True\<close>: the members of every object in the order of their keys.\<close>

fun str_le :: "pystr \<Rightarrow> pystr \<Rightarrow> bool" where
  "str_le [] ys = True"
| "str_le (x # xs) [] = False"
| "str_le (x # xs) (y # ys) = (x < y \<or> x = y \<and> str_le xs ys)"

fun insert_member :: "pystr \<times> json \<Rightarrow> (pystr \<times> json) list \<Rightarrow> (pystr \<times> json) list" where
  "insert_member m [] = [m]"
| "insert_member m (n # ns) =
     (if str_le (fst m) (fst n) then m # n # ns else n # insert_member m ns)"

fun sort_keys :: "json \<Rightarrow> json"
  and sort_keys_arr :: "json list \<Rightarrow> json list"
  and sort_keys_obj :: "(pystr \<times> json) list \<Rightarrow> (pystr \<times> json) list" where
  "sort_keys (JArr xs) = JArr (sort_keys_arr xs)"
| "sort_keys (JObj ms) = JObj (sort_keys_obj ms)"
| "sort_keys v = v"
| "sort_keys_arr [] = []"
| "sort_keys_arr (x # xs) = sort_keys x # sort_keys_arr xs"
| "sort_keys_obj [] = []"
| "sort_keys_obj ((k, v) # ms) = insert_member (k, sort_keys v) (sort_keys_obj ms)"

definition dumps_sorted :: "json \<Rightarrow> pystr" where
  "dumps_sorted v = dumps (sort_keys v)"

section \<open>UTF-8\<close>

definition utf8_char :: "nat \<Rightarrow> nat list" where
  "utf8_char c =
     (if c < 128 then [c]
      else if c < 2048 then [192 + c div 64, 128 + c mod 64]
      else if c < 65536 then [224 + c div 4096, 128 + (c div 64) mod 64, 128 + c mod 64]
      else [240 + c div 262144, 128 + (c div 4096) mod 64, 128 + (c div 64) mod 64, 128 + c mod 64])"

definition utf8 :: "pystr \<Rightarrow> nat list" where
  "utf8 s = concat (map utf8_char s)"

end
