(* ===== verification/Ai_Errors.thy ===== *)
theory Ai_Errors
  imports Py_Json
begin

text \<open>
  Provider-independent errors: src/backend/app/modules/ai/errors.py. The Chinese messages are given
  by their code points.
\<close>

datatype ai_error_code =
    AUTHENTICATION_FAILED | INSUFFICIENT_QUOTA | RATE_LIMITED | INVALID_REQUEST
  | MODEL_UNAVAILABLE | TIMEOUT | NETWORK_ERROR | INVALID_RESPONSE | PRESERVATION_FAILED
  | INVALID_ENDPOINT | PROVIDER_ERROR

fun ai_error_code_value :: "ai_error_code \<Rightarrow> string" where
  "ai_error_code_value AUTHENTICATION_FAILED = ''provider_authentication_failed''"
| "ai_error_code_value INSUFFICIENT_QUOTA = ''provider_insufficient_quota''"
| "ai_error_code_value RATE_LIMITED = ''provider_rate_limited''"
| "ai_error_code_value INVALID_REQUEST = ''provider_invalid_request''"
| "ai_error_code_value MODEL_UNAVAILABLE = ''provider_model_unavailable''"
| "ai_error_code_value TIMEOUT = ''provider_timeout''"
| "ai_error_code_value NETWORK_ERROR = ''provider_network_error''"
| "ai_error_code_value INVALID_RESPONSE = ''provider_invalid_response''"
| "ai_error_code_value PRESERVATION_FAILED = ''locked_text_changed''"
| "ai_error_code_value INVALID_ENDPOINT = ''provider_invalid_endpoint''"
| "ai_error_code_value PROVIDER_ERROR = ''provider_error''"

fun ai_error_messages :: "ai_error_code \<Rightarrow> pystr" where
  "ai_error_messages AUTHENTICATION_FAILED =
     [27169, 22411, 26381, 21153, 37492, 26435, 22833, 36133, 65292, 35831, 26816, 26597,
      32, 65, 80, 73, 32, 75, 101, 121, 12290]"
| "ai_error_messages INSUFFICIENT_QUOTA =
     [27169, 22411, 26381, 21153, 39069, 24230, 19981, 36275, 65292, 35831, 26816, 26597,
      36134, 25143, 20313, 39069, 25110, 37197, 39069, 12290]"
| "ai_error_messages RATE_LIMITED =
     [27169, 22411, 26381, 21153, 35831, 27714, 36807, 20110, 39057, 32321, 65292, 35831,
      31245, 21518, 37325, 35797, 12290]"
| "ai_error_messages INVALID_REQUEST =
     [27169, 22411, 26381, 21153, 26080, 27861, 22788, 29702, 26412, 27425, 35831, 27714,
      65292, 35831, 26816, 26597, 27169, 22411, 21644, 20869, 23481, 35774, 32622, 12290]"
| "ai_error_messages MODEL_UNAVAILABLE =
     [25152, 36873, 27169, 22411, 26242, 26102, 19981, 21487, 29992, 65292, 35831, 31245,
      21518, 37325, 35797, 25110, 32852, 31995, 31649, 29702, 21592, 12290]"
| "ai_error_messages TIMEOUT =
     [27169, 22411, 26381, 21153, 21709, 24212, 36229, 26102, 65292, 35831, 31245, 21518,
      37325, 35797, 12290]"
| "ai_error_messages NETWORK_ERROR =
     [26080, 27861, 36830, 25509, 27169, 22411, 26381, 21153, 65292, 35831, 26816, 26597,
      35831, 27714, 22320, 22336, 25110, 32593, 32476, 12290]"
| "ai_error_messages INVALID_RESPONSE =
     [27169, 22411, 26381, 21153, 36820, 22238, 20102, 26080, 27861, 35782, 21035, 30340,
      32467, 26524, 65292, 35831, 37325, 35797, 12290]"
| "ai_error_messages PRESERVATION_FAILED =
     [27169, 22411, 25913, 21160, 20102, 20445, 30041, 25991, 23383, 65292, 26412, 27425,
      32467, 26524, 26410, 20445, 23384, 65292, 35831, 37325, 35797, 12290]"
| "ai_error_messages INVALID_ENDPOINT =
     [35831, 27714, 22320, 22336, 36820, 22238, 20102, 32593, 39029, 65292, 35831, 26816,
      26597, 32, 65, 80, 73, 32, 22320, 22336, 26159, 21542, 21253, 21547, 27491, 30830,
      36335, 24452, 65288, 36890, 24120, 20026, 32, 47, 118, 49, 65289, 12290]"
| "ai_error_messages PROVIDER_ERROR =
     [27169, 22411, 26381, 21153, 35843, 29992, 22833, 36133, 65292, 35831, 31245, 21518,
      37325, 35797, 12290]"

declare ai_error_messages.simps [simp del]

record ai_error =
  ae_code :: ai_error_code
  ae_message :: pystr
  ae_retryable :: bool
  ae_details :: "(pystr \<times> json) list"

text \<open>The constructor \<open>AiError(code, retryable=..., details=...)\<close>.\<close>

definition mk_ai_error :: "ai_error_code \<Rightarrow> bool \<Rightarrow> (pystr \<times> json) list \<Rightarrow> ai_error" where
  "mk_ai_error code retryable details =
     \<lparr>ae_code = code, ae_message = ai_error_messages code, ae_retryable = retryable,
      ae_details = details\<rparr>"

text \<open>\<open>{k: v, **d}\<close>: the entries of \<open>d\<close> replace or follow.\<close>

definition dict_merge ::
  "(pystr \<times> json) list \<Rightarrow> (pystr \<times> json) list \<Rightarrow> (pystr \<times> json) list" where
  "dict_merge base extra =
     map (\<lambda>(k, v). (k, case map_of extra k of None \<Rightarrow> v | Some w \<Rightarrow> w)) base @
     filter (\<lambda>(k, v). k \<notin> fst ` set base) extra"

text \<open>\<open>as_dict\<close>, as the triple (code, message, details).\<close>

definition as_dict :: "ai_error \<Rightarrow> string \<times> pystr \<times> (pystr \<times> json) list" where
  "as_dict e =
     (ai_error_code_value (ae_code e), ae_message e,
      dict_merge [(tx ''retryable'', JBool (ae_retryable e))] (ae_details e))"

text \<open>\<open>str.lower\<close> on the ASCII letters. It is only used to look for ASCII words made of letters no
  other character lowers to.\<close>

definition ascii_lower :: "pystr \<Rightarrow> pystr" where
  "ascii_lower s = map (\<lambda>c. if 65 \<le> c \<and> c \<le> 90 then c + 32 else c) s"

definition contains :: "pystr \<Rightarrow> pystr \<Rightarrow> bool" where
  "contains word s \<longleftrightarrow> find_from s word 0 \<noteq> None"

definition error_for_status :: "int \<Rightarrow> pystr option \<Rightarrow> ai_error" where
  "error_for_status status_code provider_code =
     (let normalized_code = ascii_lower (case provider_code of None \<Rightarrow> [] | Some c \<Rightarrow> c);
          code =
            (if status_code \<in> {401, 403} then AUTHENTICATION_FAILED
             else if status_code = 402 \<or>
               (status_code = 429 \<and>
                list_ex (\<lambda>word. contains word normalized_code) [tx ''quota'', tx ''billing''])
             then INSUFFICIENT_QUOTA
             else if status_code = 429 then RATE_LIMITED
             else if status_code = 404 then MODEL_UNAVAILABLE
             else if status_code \<in> {400, 413, 422} then INVALID_REQUEST
             else if status_code = 408 then TIMEOUT
             else PROVIDER_ERROR)
      in mk_ai_error code (status_code \<in> {408, 409, 429} \<or> 500 \<le> status_code) [])"

end
