(* ===== verification/Fragment_Scan.thy ===== *)
theory Fragment_Scan
  imports Caption_Prelude
begin

text \<open>
  The contract of a preservation check. Two places of the program look for locked fragments in a
  candidate text, each with a loop that keeps one search cursor per fragment text in a dictionary:
  \<open>validate_lock_constraints\<close> (src/backend/app/modules/tasks/domain.py) and
  \<open>validate_locked_fragments\<close> (src/backend/app/modules/ai/validation.py). The locale states what
  the two loops have in common and proves once that the greedy search is complete: it reports
  nothing exactly when the candidate has room for disjoint copies of every fragment, as many as
  were locked, in any positions and any relative order.
\<close>

definition cursor :: "(pystr \<rightharpoonup> nat) \<Rightarrow> pystr \<Rightarrow> nat" where
  "cursor m t = (case m t of None \<Rightarrow> 0 | Some n \<Rightarrow> n)"

lemma cursor_simps [simp]:
  "cursor Map.empty t = 0"
  "cursor (m(t \<mapsto> n)) t' = (if t' = t then n else cursor m t')"
  by (simp_all add: cursor_def)

locale fragment_scan =
  fixes scan :: "pystr \<Rightarrow> (pystr \<rightharpoonup> nat) \<Rightarrow> 'l list \<Rightarrow> 'v list"
    and ltext :: "'l \<Rightarrow> pystr"
    and report :: "'l \<Rightarrow> 'v"
  assumes scan_Nil: "scan c m [] = []"
    and scan_hit: "find_from c (ltext l) (cursor m (ltext l)) = Some p \<Longrightarrow>
      scan c m (l # ls) = scan c (m(ltext l \<mapsto> p + length (ltext l))) ls"
    and scan_miss: "find_from c (ltext l) (cursor m (ltext l)) = None \<Longrightarrow>
      scan c m (l # ls) = report l # scan c m ls"
begin

lemma scan_subset: "set (scan c m ls) \<subseteq> report ` set ls"
proof (induction ls arbitrary: m)
  case Nil
  show ?case by (simp add: scan_Nil)
next
  case (Cons l ls)
  show ?case
  proof (cases "find_from c (ltext l) (cursor m (ltext l))")
    case None
    with Cons [of m] show ?thesis by (auto simp: scan_miss)
  next
    case (Some p)
    with Cons [of "m(ltext l \<mapsto> p + length (ltext l))"] show ?thesis
      by (auto simp: scan_hit simp del: fun_upd_apply)
  qed
qed

lemma scan_empty_iff:
  "scan c m ls = [] \<longleftrightarrow> (\<forall>t. fits c t (cursor m t) (count_list (map ltext ls) t))"
proof (induction ls arbitrary: m)
  case Nil
  show ?case by (simp add: scan_Nil)
next
  case (Cons l ls)
  show ?case
  proof (cases "find_from c (ltext l) (cursor m (ltext l))")
    case None
    then have "\<not> fits c (ltext l) (cursor m (ltext l)) (count_list (map ltext (l # ls)) (ltext l))"
      by (simp add: fits_Suc_find)
    with None show ?thesis by (metis list.distinct(1) scan_miss)
  next
    case (Some p)
    let ?m = "m(ltext l \<mapsto> p + length (ltext l))"
    have "scan c m (l # ls) = [] \<longleftrightarrow>
        (\<forall>t. fits c t (cursor ?m t) (count_list (map ltext ls) t))"
      using Some by (simp add: scan_hit Cons.IH del: fun_upd_apply)
    also have "\<dots> \<longleftrightarrow> (\<forall>t. fits c t (cursor m t) (count_list (map ltext (l # ls)) t))"
      using Some by (auto simp: fits_Suc_find simp del: fun_upd_apply)
    finally show ?thesis .
  qed
qed

lemma scan_start_empty_iff:
  "scan c Map.empty ls = [] \<longleftrightarrow> (\<forall>t. fits c t 0 (count_list (map ltext ls) t))"
  by (simp add: scan_empty_iff)

lemma scan_order_irrelevant:
  assumes "\<And>t. count_list (map ltext ls) t = count_list (map ltext ls') t"
  shows "scan c Map.empty ls = [] \<longleftrightarrow> scan c Map.empty ls' = []"
  using assms by (simp add: scan_empty_iff)

end

end
