(* ===== verification/Task_Domain.thy ===== *)
theory Task_Domain
  imports Fragment_Scan "HOL-Library.Multiset"
begin

text \<open>
  The task workflow rules: src/backend/app/modules/tasks/domain.py (states, transition table, lock
  constraints) and src/backend/app/modules/tasks/service.py (\<open>TaskDomainService\<close>, selection and
  range checks). A \<open>StrEnum\<close> is a datatype with the source's members; a \<open>ValueError\<close> and its
  subclasses are values of \<open>value_error\<close>.
\<close>

section \<open>Vocabulary of domain.py\<close>

datatype task_state =
    DRAFT | ANALYZING | ANALYSIS_READY | SUGGESTING | SUGGESTIONS_READY
  | GENERATING | EDITING | REVISING | FINALIZED | ARCHIVED

datatype version_kind = FIRST_DRAFT_VERSION | AI_REVISION | MANUAL_EDIT

datatype validation_status = NOT_CHECKED | SATISFIED | CHECK_FAILED

datatype suggestion_priority = PRIMARY | OPTIONAL

datatype suggestion_decision = PENDING | ACCEPTED | REJECTED

datatype ai_operation_kind = ANALYSIS | SUGGESTIONS | FIRST_DRAFT | REVISION

datatype ai_operation_status = QUEUED | RUNNING | SUCCEEDED | FAILED | CANCELLED

text \<open>Python's \<open>ValueError\<close> and the subclasses the task modules raise. \<open>ValidationError\<close> is
  pydantic's: a model was built from data its declaration rejects.\<close>

datatype value_error =
    InvalidTaskTransition task_state task_state
  | FirstDraftAlreadyExists
  | ValueError string
  | ValidationError string

section \<open>The transition table\<close>

fun allowed_transitions :: "task_state \<Rightarrow> task_state list" where
  "allowed_transitions DRAFT = [ANALYZING]"
| "allowed_transitions ANALYZING = [ANALYSIS_READY, DRAFT]"
| "allowed_transitions ANALYSIS_READY = [ANALYZING, SUGGESTING]"
| "allowed_transitions SUGGESTING = [SUGGESTIONS_READY, ANALYSIS_READY]"
| "allowed_transitions SUGGESTIONS_READY = [SUGGESTING, GENERATING]"
| "allowed_transitions GENERATING = [EDITING, SUGGESTIONS_READY]"
| "allowed_transitions EDITING = [REVISING, FINALIZED]"
| "allowed_transitions REVISING = [EDITING]"
| "allowed_transitions FINALIZED = [REVISING]"
| "allowed_transitions ARCHIVED = []"

definition assert_transition :: "task_state \<Rightarrow> task_state \<Rightarrow> value_error + unit" where
  "assert_transition current target =
     (if target = ARCHIVED \<and> current \<noteq> ARCHIVED then Inr ()
      else if target \<notin> set (allowed_transitions current)
      then Inl (InvalidTaskTransition current target)
      else Inr ())"

text \<open>The states a task is in while an AI operation is queued or running for it.\<close>

definition running_states :: "task_state list" where
  "running_states = [ANALYZING, SUGGESTING, GENERATING, REVISING]"

lemma assert_transition_ok_iff:
  "assert_transition c t = Inr u \<longleftrightarrow>
     (t = ARCHIVED \<and> c \<noteq> ARCHIVED) \<or> t \<in> set (allowed_transitions c)"
  by (auto simp: assert_transition_def)

lemma transition_into_running:
  assumes "assert_transition c t = Inr u" and "t \<in> set running_states"
  shows "c \<notin> set running_states \<and> c \<noteq> ARCHIVED"
  using assms by (cases c) (auto simp: assert_transition_ok_iff running_states_def)

lemma transition_into_running_iff:
  "t \<in> set running_states \<Longrightarrow> assert_transition c t = Inr u \<longleftrightarrow> t \<in> set (allowed_transitions c)"
  by (auto simp: assert_transition_ok_iff running_states_def)

section \<open>Lock constraints\<close>

record lock_constraint =
  lc_text :: pystr
  lc_order_index :: int

fun lock_constraint_loop ::
  "pystr \<Rightarrow> (pystr \<rightharpoonup> nat) \<Rightarrow> lock_constraint list \<Rightarrow> pystr list" where
  "lock_constraint_loop content cursors [] = []"
| "lock_constraint_loop content cursors (lock # locks) =
     (case find_from content (lc_text lock) (cursor cursors (lc_text lock)) of
        None \<Rightarrow> lc_text lock # lock_constraint_loop content cursors locks
      | Some position \<Rightarrow>
          lock_constraint_loop content
            (cursors(lc_text lock \<mapsto> position + length (lc_text lock))) locks)"

definition validate_lock_constraints :: "pystr \<Rightarrow> lock_constraint list \<Rightarrow> pystr list" where
  "validate_lock_constraints content locks =
     lock_constraint_loop content Map.empty (sort_key lc_order_index locks)"

interpretation lcs: fragment_scan lock_constraint_loop lc_text lc_text
  by unfold_locales simp_all

lemma count_list_map_sort_key: "count_list (map f (sort_key g xs)) t = count_list (map f xs) t"
  by (metis count_mset mset_map mset_sort)

lemma validate_lock_constraints_empty_iff:
  "validate_lock_constraints c locks = [] \<longleftrightarrow>
     (\<forall>t. fits c t 0 (count_list (map lc_text locks) t))"
  by (simp add: validate_lock_constraints_def lcs.scan_start_empty_iff count_list_map_sort_key)

section \<open>TaskDomainService\<close>

record task_snapshot =
  sn_id :: uuid
  sn_owner_id :: uuid
  sn_state :: task_state
  sn_archived_from_state :: "task_state option"
  sn_version_kinds :: "version_kind list"

definition transition :: "task_snapshot \<Rightarrow> task_state \<Rightarrow> value_error + task_snapshot" where
  "transition task target =
     bind_result (assert_transition (sn_state task) target) (\<lambda>_. Inr (task\<lparr>sn_state := target\<rparr>))"

definition archive :: "task_snapshot \<Rightarrow> task_snapshot" where
  "archive task =
     (if sn_state task = ARCHIVED then task
      else task\<lparr>sn_archived_from_state := Some (sn_state task), sn_state := ARCHIVED\<rparr>)"

definition restore :: "task_snapshot \<Rightarrow> value_error + task_snapshot" where
  "restore task =
     (case (sn_state task = ARCHIVED, sn_archived_from_state task) of
        (True, Some previous) \<Rightarrow>
          Inr (task\<lparr>sn_state := previous, sn_archived_from_state := None\<rparr>)
      | _ \<Rightarrow> Inl (ValueError ''Only an archived task with a previous state can be restored''))"

definition register_first_draft :: "task_snapshot \<Rightarrow> value_error + task_snapshot" where
  "register_first_draft task =
     (if FIRST_DRAFT_VERSION \<in> set (sn_version_kinds task) then Inl FirstDraftAlreadyExists
      else bind_result (assert_transition (sn_state task) EDITING)
        (\<lambda>_. Inr (task\<lparr>sn_version_kinds := sn_version_kinds task @ [FIRST_DRAFT_VERSION],
                        sn_state := EDITING\<rparr>)))"

definition register_revision :: "task_snapshot \<Rightarrow> version_kind \<Rightarrow> value_error + task_snapshot" where
  "register_revision task kind =
     (if kind = FIRST_DRAFT_VERSION then Inl (ValueError ''Use register_first_draft for a first draft'')
      else if FIRST_DRAFT_VERSION \<notin> set (sn_version_kinds task)
      then Inl (ValueError ''A revision requires an existing first draft'')
      else Inr (task\<lparr>sn_version_kinds := sn_version_kinds task @ [kind]\<rparr>))"

datatype permission_error = PermissionError string

definition assert_owned :: "uuid \<Rightarrow> uuid \<Rightarrow> permission_error + unit" where
  "assert_owned resource_owner_id actor_id =
     (if resource_owner_id \<noteq> actor_id
      then Inl (PermissionError ''Resource does not belong to the authenticated member'')
      else Inr ())"

definition selected_text :: "pystr \<Rightarrow> int \<Rightarrow> int \<Rightarrow> value_error + pystr" where
  "selected_text content start_offset end_offset =
     (if start_offset < 0 \<or> end_offset \<le> start_offset \<or> int (length content) < end_offset
      then Inl (ValueError ''Selection is outside the source version'')
      else Inr (slice content (nat start_offset) (nat end_offset)))"

definition assert_no_overlapping_range ::
  "int \<Rightarrow> int \<Rightarrow> (int \<times> int) list \<Rightarrow> value_error + unit" where
  "assert_no_overlapping_range start_offset end_offset existing_ranges =
     (if list_ex (\<lambda>(existing_start, existing_end).
                    start_offset < existing_end \<and> existing_start < end_offset) existing_ranges
      then Inl (ValueError ''Locked fragments cannot overlap'')
      else Inr ())"

lemma selected_text_ok:
  assumes "selected_text c s e = Inr t"
  shows "t \<noteq> []" and "0 \<le> s" and "s < e" and "e \<le> int (length c)"
    and "length t = nat (e - s)" and "occurs_at c t (nat s)"
proof -
  from assms have b: "0 \<le> s" "s < e" "e \<le> int (length c)"
    and t: "t = take (nat e - nat s) (drop (nat s) c)"
    by (auto simp: selected_text_def slice_def drop_take split: if_splits)
  from b have le: "nat e - nat s \<le> length c - nat s" and pos: "0 < nat e - nat s" by linarith+
  with t have len: "length t = nat e - nat s" by simp
  from b show "0 \<le> s" "s < e" "e \<le> int (length c)" by simp_all
  from len pos show "t \<noteq> []" by auto
  from len b show "length t = nat (e - s)" by simp
  from len b t show "occurs_at c t (nat s)" by (simp add: occurs_at_def)
qed

lemma assert_no_overlapping_range_ok_iff:
  "assert_no_overlapping_range s e rs = Inr u \<longleftrightarrow> (\<forall>(a, b) \<in> set rs. b \<le> s \<or> e \<le> a)"
  by (simp add: assert_no_overlapping_range_def list_ex_iff case_prod_beta)
    (meson not_le)

section \<open>What the workflow rules guarantee\<close>

text \<open>The lock check of manual edits reports nothing exactly when every locked text has as
  many pairwise disjoint occurrences in the content as there are locks with that text.\<close>

theorem lock_constraints_satisfied_iff:
  "validate_lock_constraints content locks = [] \<longleftrightarrow>
     (\<forall>t. fits content t 0 (count_list (map lc_text locks) t))"
  by (rule validate_lock_constraints_empty_iff)

text \<open>Archiving a task that is not archived and restoring it gives back its state, and clears
  the remembered one; restoring anything else is refused.\<close>

theorem archive_restore_roundtrip:
  "(if sn_state task \<noteq> ARCHIVED
    then restore (archive task) = Inr (task\<lparr>sn_archived_from_state := None\<rparr>)
    else archive task = task) \<and>
   (restore task = Inr task' \<longleftrightarrow>
      sn_state task = ARCHIVED \<and>
      (\<exists>previous. sn_archived_from_state task = Some previous \<and>
         task' = task\<lparr>sn_state := previous, sn_archived_from_state := None\<rparr>))"
  by (auto simp: archive_def restore_def split: option.splits bool.splits)

text \<open>An AI state is entered only from a state that is neither an AI state nor archived, and
  every AI state has a way back to each state it is entered from or on to the next one.\<close>

theorem ai_states_entered_from_resting_states:
  "t \<in> set running_states \<Longrightarrow> assert_transition s t = Inr () \<Longrightarrow>
     s \<notin> set running_states \<and> s \<noteq> ARCHIVED \<and>
     (\<exists>next. assert_transition t next = Inr () \<and> next \<notin> set running_states \<and> next \<noteq> ARCHIVED)"
  by (cases t; cases s) (auto simp: running_states_def assert_transition_ok_iff
      intro: exI [of _ ANALYSIS_READY] exI [of _ SUGGESTIONS_READY] exI [of _ EDITING])

theorem ai_states_entered_from_resting_states_witness:
  "REVISING \<in> set running_states \<and> assert_transition FINALIZED REVISING = Inr () \<and>
   FINALIZED \<notin> set running_states"
  using ai_states_entered_from_resting_states [of REVISING FINALIZED]
  by (simp add: running_states_def assert_transition_ok_iff)

end
