(* ===== verification/Ai_Dto.thy ===== *)
theory Ai_Dto
  imports Ai_Errors Task_Domain
begin

text \<open>
  The data contracts of the AI module: src/backend/app/modules/ai/dto.py. A frozen pydantic model is
  a record; \<open>enc_\<close> functions are \<open>model_dump(mode="json")\<close>; \<open>dec_\<close> functions are
  validation from decoded JSON (declared field types and lengths, \<open>extra="forbid"\<close>, then the
  \<open>model_validator\<close>), with \<open>None\<close> for \<open>ValidationError\<close>. Decoding an encoded valid value
  gives the value back.
\<close>

section \<open>Decoding\<close>

definition dec_str :: "json \<Rightarrow> pystr option" where
  "dec_str v = (case v of JStr s \<Rightarrow> Some s | _ \<Rightarrow> None)"

text \<open>\<open>NonBlank = Annotated[str, Field(min_length=1)]\<close>\<close>

definition dec_nonblank :: "json \<Rightarrow> pystr option" where
  "dec_nonblank v = (case v of JStr s \<Rightarrow> if s = [] then None else Some s | _ \<Rightarrow> None)"

definition dec_bool :: "json \<Rightarrow> bool option" where
  "dec_bool v = (case v of JBool b \<Rightarrow> Some b | _ \<Rightarrow> None)"

definition dec_int :: "json \<Rightarrow> int option" where
  "dec_int v = (case v of JInt n \<Rightarrow> Some n | _ \<Rightarrow> None)"

fun dec_all :: "('a \<Rightarrow> 'b option) \<Rightarrow> 'a list \<Rightarrow> 'b list option" where
  "dec_all f [] = Some []"
| "dec_all f (x # xs) =
     Option.bind (f x) (\<lambda>y. Option.bind (dec_all f xs) (\<lambda>ys. Some (y # ys)))"

definition dec_list :: "(json \<Rightarrow> 'b option) \<Rightarrow> json \<Rightarrow> 'b list option" where
  "dec_list f v = (case v of JArr xs \<Rightarrow> dec_all f xs | _ \<Rightarrow> None)"

definition dec_nullable :: "(json \<Rightarrow> 'b option) \<Rightarrow> json \<Rightarrow> 'b option option" where
  "dec_nullable f v = (case v of JNull \<Rightarrow> Some None | _ \<Rightarrow> map_option Some (f v))"

text \<open>A required field, a field with a default, and the members of an object all of whose keys
  are declared.\<close>

definition req_field :: "string \<Rightarrow> (json \<Rightarrow> 'b option) \<Rightarrow> (pystr \<times> json) list \<Rightarrow> 'b option" where
  "req_field k f ms = Option.bind (jget (tx k) ms) f"

definition opt_field ::
  "string \<Rightarrow> 'b \<Rightarrow> (json \<Rightarrow> 'b option) \<Rightarrow> (pystr \<times> json) list \<Rightarrow> 'b option" where
  "opt_field k d f ms = (case jget (tx k) ms of None \<Rightarrow> Some d | Some v \<Rightarrow> f v)"

definition dec_members :: "string list \<Rightarrow> json \<Rightarrow> (pystr \<times> json) list option" where
  "dec_members keys v =
     (case v of JObj ms \<Rightarrow> if list_all (\<lambda>m. fst m \<in> tx ` set keys) ms then Some ms else None
      | _ \<Rightarrow> None)"

lemmas dec_defs = dec_str_def dec_nonblank_def dec_bool_def dec_int_def dec_list_def
  dec_nullable_def req_field_def opt_field_def dec_members_def jget_def

lemma dec_all_map:
  "(\<And>x. x \<in> set xs \<Longrightarrow> f (g x) = Some x) \<Longrightarrow> dec_all f (map g xs) = Some xs"
  by (induction xs) auto

lemma dec_all_Some:
  "dec_all f xs = Some ys \<Longrightarrow> list_all2 (\<lambda>x y. f x = Some y) xs ys"
  by (induction xs arbitrary: ys) (auto split: Option.bind_splits)

definition enc_strs :: "pystr list \<Rightarrow> json" where
  "enc_strs xs = JArr (map JStr xs)"

lemma dec_enc_strs [simp]: "dec_list dec_str (enc_strs xs) = Some xs"
  by (simp add: enc_strs_def dec_list_def dec_all_map dec_str_def)

section \<open>Analysis\<close>

record content_overview =
  co_theme :: pystr
  co_core_viewpoint :: pystr
  co_target_audience :: pystr
  co_expected_action :: pystr

record structure_segment =
  sg_segment_id :: pystr
  sg_kind :: pystr
  sg_source_excerpt :: pystr
  sg_purpose :: pystr

record paragraph_finding =
  pf_segment_id :: pystr
  pf_relationship :: pystr
  pf_issues :: "pystr list"

record expression_analysis =
  ea_persona_consistency :: pystr
  ea_language_style :: pystr
  ea_spoken_fluency :: pystr
  ea_emotional_intensity :: pystr
  ea_information_density :: pystr
  ea_spoken_rhythm :: pystr

record content_highlight =
  ch_excerpt :: pystr
  ch_reason :: pystr

datatype risk_category =
    LOGIC_GAP | REPETITION | INFORMATION_GAP | FACT_RISK | SENSITIVE_EXPRESSION
  | DROP_OFF_RISK | OTHER_RISK

record risk_issue =
  ri_issue_id :: pystr
  ri_category :: risk_category
  ri_description :: pystr
  ri_source_excerpt :: pystr

record analysis_conclusion =
  ac_summary :: pystr
  ac_key_issue_ids :: "pystr list"

record analysis =
  an_content_overview :: content_overview
  an_structure_map :: "structure_segment list"
  an_paragraph_analysis :: "paragraph_finding list"
  an_expression_analysis :: expression_analysis
  an_content_highlights :: "content_highlight list"
  an_problems_and_risks :: "risk_issue list"
  an_conclusion :: analysis_conclusion

text \<open>\<open>AnalysisResult = Analysis | TextAnalysis\<close>\<close>

datatype analysis_result = StructuredAnalysis analysis | TextAnalysis pystr

definition validate_internal_references :: "analysis \<Rightarrow> value_error + analysis" where
  "validate_internal_references a =
     (let segment_ids = map sg_segment_id (an_structure_map a);
          issue_ids = map ri_issue_id (an_problems_and_risks a)
      in if length segment_ids \<noteq> length (remdups segment_ids)
         then Inl (ValueError ''structure segment identifiers must be unique'')
         else if length issue_ids \<noteq> length (remdups issue_ids)
         then Inl (ValueError ''analysis issue identifiers must be unique'')
         else if \<not> list_all (\<lambda>i. i \<in> set segment_ids) (map pf_segment_id (an_paragraph_analysis a))
         then Inl (ValueError ''paragraph analysis references an unknown segment'')
         else if \<not> list_all (\<lambda>i. i \<in> set issue_ids) (ac_key_issue_ids (an_conclusion a))
         then Inl (ValueError ''analysis conclusion references an unknown issue'')
         else Inr a)"

subsection \<open>Encoding and decoding\<close>

definition enc_overview :: "content_overview \<Rightarrow> json" where
  "enc_overview o' = JObj
     [(tx ''theme'', JStr (co_theme o')), (tx ''core_viewpoint'', JStr (co_core_viewpoint o')),
      (tx ''target_audience'', JStr (co_target_audience o')),
      (tx ''expected_action'', JStr (co_expected_action o'))]"

definition dec_overview :: "json \<Rightarrow> content_overview option" where
  "dec_overview v =
     Option.bind (dec_members [''theme'', ''core_viewpoint'', ''target_audience'', ''expected_action''] v)
     (\<lambda>ms. Option.bind (req_field ''theme'' dec_nonblank ms)
     (\<lambda>a. Option.bind (req_field ''core_viewpoint'' dec_nonblank ms)
     (\<lambda>b. Option.bind (req_field ''target_audience'' dec_nonblank ms)
     (\<lambda>c. Option.bind (req_field ''expected_action'' dec_nonblank ms)
     (\<lambda>d. Some \<lparr>co_theme = a, co_core_viewpoint = b, co_target_audience = c,
                  co_expected_action = d\<rparr>)))))"

definition enc_segment :: "structure_segment \<Rightarrow> json" where
  "enc_segment s = JObj
     [(tx ''segment_id'', JStr (sg_segment_id s)), (tx ''kind'', JStr (sg_kind s)),
      (tx ''source_excerpt'', JStr (sg_source_excerpt s)), (tx ''purpose'', JStr (sg_purpose s))]"

definition dec_segment :: "json \<Rightarrow> structure_segment option" where
  "dec_segment v =
     Option.bind (dec_members [''segment_id'', ''kind'', ''source_excerpt'', ''purpose''] v)
     (\<lambda>ms. Option.bind (req_field ''segment_id'' dec_nonblank ms)
     (\<lambda>a. Option.bind (req_field ''kind'' dec_nonblank ms)
     (\<lambda>b. Option.bind (req_field ''source_excerpt'' dec_nonblank ms)
     (\<lambda>c. Option.bind (req_field ''purpose'' dec_nonblank ms)
     (\<lambda>d. Some \<lparr>sg_segment_id = a, sg_kind = b, sg_source_excerpt = c, sg_purpose = d\<rparr>)))))"

definition enc_finding :: "paragraph_finding \<Rightarrow> json" where
  "enc_finding p = JObj
     [(tx ''segment_id'', JStr (pf_segment_id p)), (tx ''relationship'', JStr (pf_relationship p)),
      (tx ''issues'', enc_strs (pf_issues p))]"

definition dec_finding :: "json \<Rightarrow> paragraph_finding option" where
  "dec_finding v =
     Option.bind (dec_members [''segment_id'', ''relationship'', ''issues''] v)
     (\<lambda>ms. Option.bind (req_field ''segment_id'' dec_nonblank ms)
     (\<lambda>a. Option.bind (req_field ''relationship'' dec_nonblank ms)
     (\<lambda>b. Option.bind (req_field ''issues'' (dec_list dec_str) ms)
     (\<lambda>c. Some \<lparr>pf_segment_id = a, pf_relationship = b, pf_issues = c\<rparr>))))"

definition enc_expression :: "expression_analysis \<Rightarrow> json" where
  "enc_expression e = JObj
     [(tx ''persona_consistency'', JStr (ea_persona_consistency e)),
      (tx ''language_style'', JStr (ea_language_style e)),
      (tx ''spoken_fluency'', JStr (ea_spoken_fluency e)),
      (tx ''emotional_intensity'', JStr (ea_emotional_intensity e)),
      (tx ''information_density'', JStr (ea_information_density e)),
      (tx ''spoken_rhythm'', JStr (ea_spoken_rhythm e))]"

definition dec_expression :: "json \<Rightarrow> expression_analysis option" where
  "dec_expression v =
     Option.bind (dec_members [''persona_consistency'', ''language_style'', ''spoken_fluency'',
       ''emotional_intensity'', ''information_density'', ''spoken_rhythm''] v)
     (\<lambda>ms. Option.bind (req_field ''persona_consistency'' dec_nonblank ms)
     (\<lambda>a. Option.bind (req_field ''language_style'' dec_nonblank ms)
     (\<lambda>b. Option.bind (req_field ''spoken_fluency'' dec_nonblank ms)
     (\<lambda>c. Option.bind (req_field ''emotional_intensity'' dec_nonblank ms)
     (\<lambda>d. Option.bind (req_field ''information_density'' dec_nonblank ms)
     (\<lambda>e. Option.bind (req_field ''spoken_rhythm'' dec_nonblank ms)
     (\<lambda>f. Some \<lparr>ea_persona_consistency = a, ea_language_style = b, ea_spoken_fluency = c,
                  ea_emotional_intensity = d, ea_information_density = e,
                  ea_spoken_rhythm = f\<rparr>)))))))"

definition enc_highlight :: "content_highlight \<Rightarrow> json" where
  "enc_highlight h = JObj [(tx ''excerpt'', JStr (ch_excerpt h)), (tx ''reason'', JStr (ch_reason h))]"

definition dec_highlight :: "json \<Rightarrow> content_highlight option" where
  "dec_highlight v =
     Option.bind (dec_members [''excerpt'', ''reason''] v)
     (\<lambda>ms. Option.bind (req_field ''excerpt'' dec_nonblank ms)
     (\<lambda>a. Option.bind (req_field ''reason'' dec_nonblank ms)
     (\<lambda>b. Some \<lparr>ch_excerpt = a, ch_reason = b\<rparr>)))"

fun risk_category_value :: "risk_category \<Rightarrow> string" where
  "risk_category_value LOGIC_GAP = ''logic_gap''"
| "risk_category_value REPETITION = ''repetition''"
| "risk_category_value INFORMATION_GAP = ''information_gap''"
| "risk_category_value FACT_RISK = ''fact_risk''"
| "risk_category_value SENSITIVE_EXPRESSION = ''sensitive_expression''"
| "risk_category_value DROP_OFF_RISK = ''drop_off_risk''"
| "risk_category_value OTHER_RISK = ''other''"

definition dec_category :: "json \<Rightarrow> risk_category option" where
  "dec_category v =
     (case v of
        JStr s \<Rightarrow> find (\<lambda>c. tx (risk_category_value c) = s)
          [LOGIC_GAP, REPETITION, INFORMATION_GAP, FACT_RISK, SENSITIVE_EXPRESSION, DROP_OFF_RISK,
           OTHER_RISK]
      | _ \<Rightarrow> None)"

definition enc_risk :: "risk_issue \<Rightarrow> json" where
  "enc_risk r = JObj
     [(tx ''issue_id'', JStr (ri_issue_id r)),
      (tx ''category'', JStr (tx (risk_category_value (ri_category r)))),
      (tx ''description'', JStr (ri_description r)),
      (tx ''source_excerpt'', JStr (ri_source_excerpt r))]"

definition dec_risk :: "json \<Rightarrow> risk_issue option" where
  "dec_risk v =
     Option.bind (dec_members [''issue_id'', ''category'', ''description'', ''source_excerpt''] v)
     (\<lambda>ms. Option.bind (req_field ''issue_id'' dec_nonblank ms)
     (\<lambda>a. Option.bind (req_field ''category'' dec_category ms)
     (\<lambda>b. Option.bind (req_field ''description'' dec_nonblank ms)
     (\<lambda>c. Option.bind (req_field ''source_excerpt'' dec_str ms)
     (\<lambda>d. Some \<lparr>ri_issue_id = a, ri_category = b, ri_description = c, ri_source_excerpt = d\<rparr>)))))"

definition enc_conclusion :: "analysis_conclusion \<Rightarrow> json" where
  "enc_conclusion c = JObj
     [(tx ''summary'', JStr (ac_summary c)), (tx ''key_issue_ids'', enc_strs (ac_key_issue_ids c))]"

definition dec_conclusion :: "json \<Rightarrow> analysis_conclusion option" where
  "dec_conclusion v =
     Option.bind (dec_members [''summary'', ''key_issue_ids''] v)
     (\<lambda>ms. Option.bind (req_field ''summary'' dec_nonblank ms)
     (\<lambda>a. Option.bind (req_field ''key_issue_ids'' (dec_list dec_str) ms)
     (\<lambda>b. Some \<lparr>ac_summary = a, ac_key_issue_ids = b\<rparr>)))"

definition enc_analysis :: "analysis \<Rightarrow> json" where
  "enc_analysis a = JObj
     [(tx ''content_overview'', enc_overview (an_content_overview a)),
      (tx ''structure_map'', JObj [(tx ''segments'', JArr (map enc_segment (an_structure_map a)))]),
      (tx ''paragraph_analysis'', JArr (map enc_finding (an_paragraph_analysis a))),
      (tx ''expression_analysis'', enc_expression (an_expression_analysis a)),
      (tx ''content_highlights'', JArr (map enc_highlight (an_content_highlights a))),
      (tx ''problems_and_risks'', JArr (map enc_risk (an_problems_and_risks a))),
      (tx ''conclusion'', enc_conclusion (an_conclusion a))]"

definition dec_structure_map :: "json \<Rightarrow> structure_segment list option" where
  "dec_structure_map v =
     Option.bind (dec_members [''segments''] v) (req_field ''segments'' (dec_list dec_segment))"

definition dec_analysis :: "json \<Rightarrow> analysis option" where
  "dec_analysis v =
     Option.bind (dec_members [''content_overview'', ''structure_map'', ''paragraph_analysis'',
       ''expression_analysis'', ''content_highlights'', ''problems_and_risks'', ''conclusion''] v)
     (\<lambda>ms. Option.bind (req_field ''content_overview'' dec_overview ms)
     (\<lambda>a. Option.bind (req_field ''structure_map'' dec_structure_map ms)
     (\<lambda>b. Option.bind (req_field ''paragraph_analysis'' (dec_list dec_finding) ms)
     (\<lambda>c. Option.bind (req_field ''expression_analysis'' dec_expression ms)
     (\<lambda>d. Option.bind (req_field ''content_highlights'' (dec_list dec_highlight) ms)
     (\<lambda>e. Option.bind (req_field ''problems_and_risks'' (dec_list dec_risk) ms)
     (\<lambda>f. Option.bind (req_field ''conclusion'' dec_conclusion ms)
     (\<lambda>g. case validate_internal_references
              \<lparr>an_content_overview = a, an_structure_map = b, an_paragraph_analysis = c,
               an_expression_analysis = d, an_content_highlights = e, an_problems_and_risks = f,
               an_conclusion = g\<rparr> of Inl _ \<Rightarrow> None | Inr x \<Rightarrow> Some x))))))))"

definition dec_text_analysis :: "json \<Rightarrow> pystr option" where
  "dec_text_analysis v = Option.bind (dec_members [''content''] v) (req_field ''content'' dec_nonblank)"

definition enc_analysis_result :: "analysis_result \<Rightarrow> json" where
  "enc_analysis_result r =
     (case r of StructuredAnalysis a \<Rightarrow> enc_analysis a
      | TextAnalysis c \<Rightarrow> JObj [(tx ''content'', JStr c)])"

text \<open>The union is tried member by member; no value is accepted by both.\<close>

definition dec_analysis_result :: "json \<Rightarrow> analysis_result option" where
  "dec_analysis_result v =
     (case dec_analysis v of Some a \<Rightarrow> Some (StructuredAnalysis a)
      | None \<Rightarrow> map_option TextAnalysis (dec_text_analysis v))"

text \<open>Well-formed values: what the declared field constraints and the validator accept.\<close>

definition valid_analysis :: "analysis \<Rightarrow> bool" where
  "valid_analysis a \<longleftrightarrow>
     co_theme (an_content_overview a) \<noteq> [] \<and> co_core_viewpoint (an_content_overview a) \<noteq> [] \<and>
     co_target_audience (an_content_overview a) \<noteq> [] \<and>
     co_expected_action (an_content_overview a) \<noteq> [] \<and>
     list_all (\<lambda>s. sg_segment_id s \<noteq> [] \<and> sg_kind s \<noteq> [] \<and> sg_source_excerpt s \<noteq> [] \<and>
       sg_purpose s \<noteq> []) (an_structure_map a) \<and>
     list_all (\<lambda>p. pf_segment_id p \<noteq> [] \<and> pf_relationship p \<noteq> []) (an_paragraph_analysis a) \<and>
     ea_persona_consistency (an_expression_analysis a) \<noteq> [] \<and>
     ea_language_style (an_expression_analysis a) \<noteq> [] \<and>
     ea_spoken_fluency (an_expression_analysis a) \<noteq> [] \<and>
     ea_emotional_intensity (an_expression_analysis a) \<noteq> [] \<and>
     ea_information_density (an_expression_analysis a) \<noteq> [] \<and>
     ea_spoken_rhythm (an_expression_analysis a) \<noteq> [] \<and>
     list_all (\<lambda>h. ch_excerpt h \<noteq> [] \<and> ch_reason h \<noteq> []) (an_content_highlights a) \<and>
     list_all (\<lambda>r. ri_issue_id r \<noteq> [] \<and> ri_description r \<noteq> []) (an_problems_and_risks a) \<and>
     ac_summary (an_conclusion a) \<noteq> [] \<and>
     validate_internal_references a = Inr a"

definition valid_analysis_result :: "analysis_result \<Rightarrow> bool" where
  "valid_analysis_result r =
     (case r of StructuredAnalysis a \<Rightarrow> valid_analysis a | TextAnalysis c \<Rightarrow> c \<noteq> [])"

lemma dec_enc_overview:
  "co_theme x \<noteq> [] \<Longrightarrow> co_core_viewpoint x \<noteq> [] \<Longrightarrow> co_target_audience x \<noteq> [] \<Longrightarrow>
   co_expected_action x \<noteq> [] \<Longrightarrow> dec_overview (enc_overview x) = Some x"
  by (simp add: dec_overview_def enc_overview_def dec_defs)

lemma dec_enc_segment:
  "sg_segment_id x \<noteq> [] \<Longrightarrow> sg_kind x \<noteq> [] \<Longrightarrow> sg_source_excerpt x \<noteq> [] \<Longrightarrow> sg_purpose x \<noteq> [] \<Longrightarrow>
   dec_segment (enc_segment x) = Some x"
  by (simp add: dec_segment_def enc_segment_def dec_defs)

lemma dec_enc_finding:
  "pf_segment_id x \<noteq> [] \<Longrightarrow> pf_relationship x \<noteq> [] \<Longrightarrow> dec_finding (enc_finding x) = Some x"
  using dec_enc_strs [of "pf_issues x"] by (simp add: dec_finding_def enc_finding_def dec_defs)

lemma dec_enc_expression:
  "ea_persona_consistency x \<noteq> [] \<Longrightarrow> ea_language_style x \<noteq> [] \<Longrightarrow> ea_spoken_fluency x \<noteq> [] \<Longrightarrow>
   ea_emotional_intensity x \<noteq> [] \<Longrightarrow> ea_information_density x \<noteq> [] \<Longrightarrow> ea_spoken_rhythm x \<noteq> [] \<Longrightarrow>
   dec_expression (enc_expression x) = Some x"
  by (simp add: dec_expression_def enc_expression_def dec_defs)

lemma dec_enc_highlight:
  "ch_excerpt x \<noteq> [] \<Longrightarrow> ch_reason x \<noteq> [] \<Longrightarrow> dec_highlight (enc_highlight x) = Some x"
  by (simp add: dec_highlight_def enc_highlight_def dec_defs)

lemma dec_category_value [simp]: "dec_category (JStr (tx (risk_category_value c))) = Some c"
  by (cases c) (simp_all add: dec_category_def)

lemma dec_enc_risk:
  "ri_issue_id x \<noteq> [] \<Longrightarrow> ri_description x \<noteq> [] \<Longrightarrow> dec_risk (enc_risk x) = Some x"
  by (simp add: dec_risk_def enc_risk_def dec_defs)

lemma dec_enc_conclusion: "ac_summary x \<noteq> [] \<Longrightarrow> dec_conclusion (enc_conclusion x) = Some x"
  using dec_enc_strs [of "ac_key_issue_ids x"]
  by (simp add: dec_conclusion_def enc_conclusion_def dec_defs)

lemma dec_list_enc:
  "(\<And>x. x \<in> set xs \<Longrightarrow> f (g x) = Some x) \<Longrightarrow> dec_list f (JArr (map g xs)) = Some xs"
  by (simp add: dec_list_def dec_all_map)

lemma dec_enc_structure_map:
  "list_all (\<lambda>s. sg_segment_id s \<noteq> [] \<and> sg_kind s \<noteq> [] \<and> sg_source_excerpt s \<noteq> [] \<and>
      sg_purpose s \<noteq> []) xs \<Longrightarrow>
   dec_structure_map (JObj [(tx ''segments'', JArr (map enc_segment xs))]) = Some xs"
  by (simp add: dec_structure_map_def dec_members_def req_field_def jget_def dec_list_enc
      dec_enc_segment list_all_iff)

lemma dec_enc_analysis:
  assumes "valid_analysis a"
  shows "dec_analysis (enc_analysis a) = Some a"
proof -
  note v = assms [unfolded valid_analysis_def]
  have eta: "\<lparr>an_content_overview = an_content_overview a, an_structure_map = an_structure_map a,
      an_paragraph_analysis = an_paragraph_analysis a,
      an_expression_analysis = an_expression_analysis a,
      an_content_highlights = an_content_highlights a,
      an_problems_and_risks = an_problems_and_risks a, an_conclusion = an_conclusion a\<rparr> = a"
    by simp
  have "dec_list dec_finding (JArr (map enc_finding (an_paragraph_analysis a))) =
      Some (an_paragraph_analysis a)"
    using v by (intro dec_list_enc) (simp add: list_all_iff dec_enc_finding)
  moreover have "dec_list dec_highlight (JArr (map enc_highlight (an_content_highlights a))) =
      Some (an_content_highlights a)"
    using v by (intro dec_list_enc) (simp add: list_all_iff dec_enc_highlight)
  moreover have "dec_list dec_risk (JArr (map enc_risk (an_problems_and_risks a))) =
      Some (an_problems_and_risks a)"
    using v by (intro dec_list_enc) (simp add: list_all_iff dec_enc_risk)
  ultimately show ?thesis
    using v by (simp add: eta dec_analysis_def enc_analysis_def dec_members_def req_field_def jget_def
        dec_enc_overview dec_enc_expression dec_enc_conclusion dec_enc_structure_map)
qed

lemma dec_enc_analysis_result:
  "valid_analysis_result r \<Longrightarrow> dec_analysis_result (enc_analysis_result r) = Some r"
proof (cases r)
  case (StructuredAnalysis a)
  then show "valid_analysis_result r \<Longrightarrow> ?thesis"
    by (simp add: valid_analysis_result_def dec_analysis_result_def enc_analysis_result_def
        dec_enc_analysis)
next
  case (TextAnalysis c)
  have "dec_analysis (JObj [(tx ''content'', JStr c)]) = None"
    by (simp add: dec_analysis_def dec_members_def)
  with TextAnalysis show "valid_analysis_result r \<Longrightarrow> ?thesis"
    by (simp add: valid_analysis_result_def dec_analysis_result_def enc_analysis_result_def
        dec_text_analysis_def dec_members_def req_field_def jget_def dec_nonblank_def)
qed

section \<open>Stored analyses\<close>

text \<open>C25: a valid analysis read back from its stored JSON is the same analysis, whether it is the
  structured or the text form.\<close>

theorem stored_analysis_roundtrip:
  "valid_analysis_result r \<Longrightarrow> dec_analysis_result (enc_analysis_result r) = Some r"
  by (rule dec_enc_analysis_result)

theorem stored_analysis_roundtrip_witness:
  "valid_analysis_result (TextAnalysis (tx ''ok'')) \<and>
   dec_analysis_result (enc_analysis_result (TextAnalysis (tx ''ok''))) = Some (TextAnalysis (tx ''ok''))"
proof -
  have "valid_analysis_result (TextAnalysis (tx ''ok''))" by code_simp
  with stored_analysis_roundtrip show ?thesis by blast
qed

end
