(* ===== verification/Ai_Validation.thy ===== *)
theory Ai_Validation
  imports Ai_Dto
begin

text \<open>
  The second half of src/backend/app/modules/ai/dto.py (suggestions, locked fragments, selections,
  workflow inputs, completion requests and results, validation results), and
  src/backend/app/modules/ai/validation.py and src/backend/app/modules/ai/parsing.py. A model whose
  constructor can raise has an \<open>mk_\<close> function with \<open>Inl (ValidationError ...)\<close> for the failure.
\<close>

section \<open>Suggestions\<close>

record suggestion =
  su_suggestion_id :: pystr
  su_priority :: suggestion_priority
  su_title :: pystr
  su_analysis_issue_ids :: "pystr list"
  su_problem :: pystr
  su_direction :: pystr
  su_rationale :: pystr
  su_impact_scope :: pystr
  su_example :: pystr

definition valid_suggestion :: "suggestion \<Rightarrow> bool" where
  "valid_suggestion s \<longleftrightarrow>
     su_suggestion_id s \<noteq> [] \<and> su_title s \<noteq> [] \<and> su_analysis_issue_ids s \<noteq> [] \<and>
     su_problem s \<noteq> [] \<and> su_direction s \<noteq> [] \<and> su_rationale s \<noteq> [] \<and>
     su_impact_scope s \<noteq> [] \<and> su_example s \<noteq> []"

definition mk_suggestion :: "suggestion \<Rightarrow> value_error + suggestion" where
  "mk_suggestion s = (if valid_suggestion s then Inr s else Inl (ValidationError ''Suggestion''))"

text \<open>\<open>SuggestionSet\<close>: five to eight suggestions with distinct identifiers.\<close>

definition valid_suggestion_set :: "suggestion list \<Rightarrow> bool" where
  "valid_suggestion_set xs \<longleftrightarrow>
     list_all valid_suggestion xs \<and> 5 \<le> length xs \<and> length xs \<le> 8 \<and>
     length (map su_suggestion_id xs) = length (remdups (map su_suggestion_id xs))"

definition mk_suggestion_set :: "suggestion list \<Rightarrow> value_error + suggestion list" where
  "mk_suggestion_set xs =
     (if valid_suggestion_set xs then Inr xs else Inl (ValidationError ''SuggestionSet''))"

lemma length_remdups_distinct: "length xs = length (remdups xs) \<longleftrightarrow> distinct xs"
  by (metis card_distinct distinct_card length_remdups_card_conv)

lemma valid_suggestion_set_iff:
  "valid_suggestion_set xs \<longleftrightarrow>
     list_all valid_suggestion xs \<and> 5 \<le> length xs \<and> length xs \<le> 8 \<and>
     distinct (map su_suggestion_id xs)"
  unfolding valid_suggestion_set_def by (simp only: length_remdups_distinct)

fun priority_value :: "suggestion_priority \<Rightarrow> string" where
  "priority_value PRIMARY = ''primary''"
| "priority_value OPTIONAL = ''optional''"

definition dec_priority :: "json \<Rightarrow> suggestion_priority option" where
  "dec_priority v =
     (case v of JStr s \<Rightarrow> find (\<lambda>p. tx (priority_value p) = s) [PRIMARY, OPTIONAL] | _ \<Rightarrow> None)"

definition enc_suggestion :: "suggestion \<Rightarrow> json" where
  "enc_suggestion s = JObj
     [(tx ''suggestion_id'', JStr (su_suggestion_id s)),
      (tx ''priority'', JStr (tx (priority_value (su_priority s)))),
      (tx ''title'', JStr (su_title s)),
      (tx ''analysis_issue_ids'', enc_strs (su_analysis_issue_ids s)),
      (tx ''problem'', JStr (su_problem s)), (tx ''direction'', JStr (su_direction s)),
      (tx ''rationale'', JStr (su_rationale s)), (tx ''impact_scope'', JStr (su_impact_scope s)),
      (tx ''example'', JStr (su_example s))]"

definition dec_suggestion :: "json \<Rightarrow> suggestion option" where
  "dec_suggestion v =
     Option.bind (dec_members [''suggestion_id'', ''priority'', ''title'', ''analysis_issue_ids'',
       ''problem'', ''direction'', ''rationale'', ''impact_scope'', ''example''] v)
     (\<lambda>ms. Option.bind (req_field ''suggestion_id'' dec_str ms)
     (\<lambda>a. Option.bind (req_field ''priority'' dec_priority ms)
     (\<lambda>b. Option.bind (req_field ''title'' dec_str ms)
     (\<lambda>c. Option.bind (req_field ''analysis_issue_ids'' (dec_list dec_str) ms)
     (\<lambda>d. Option.bind (req_field ''problem'' dec_str ms)
     (\<lambda>e. Option.bind (req_field ''direction'' dec_str ms)
     (\<lambda>f. Option.bind (req_field ''rationale'' dec_str ms)
     (\<lambda>g. Option.bind (req_field ''impact_scope'' dec_str ms)
     (\<lambda>h. Option.bind (req_field ''example'' dec_str ms)
     (\<lambda>i. case mk_suggestion
              \<lparr>su_suggestion_id = a, su_priority = b, su_title = c, su_analysis_issue_ids = d,
               su_problem = e, su_direction = f, su_rationale = g, su_impact_scope = h,
               su_example = i\<rparr> of Inl _ \<Rightarrow> None | Inr s \<Rightarrow> Some s))))))))))"

definition dec_suggestion_set :: "json \<Rightarrow> suggestion list option" where
  "dec_suggestion_set v =
     Option.bind (dec_members [''suggestions''] v)
     (\<lambda>ms. Option.bind (req_field ''suggestions'' (dec_list dec_suggestion) ms)
     (\<lambda>xs. case mk_suggestion_set xs of Inl _ \<Rightarrow> None | Inr ys \<Rightarrow> Some ys))"

definition enc_suggestion_set :: "suggestion list \<Rightarrow> json" where
  "enc_suggestion_set xs = JObj [(tx ''suggestions'', JArr (map enc_suggestion xs))]"

lemma dec_priority_value [simp]: "dec_priority (JStr (tx (priority_value p))) = Some p"
  by (cases p) (simp_all add: dec_priority_def)

lemma dec_enc_suggestion:
  assumes "valid_suggestion s"
  shows "dec_suggestion (enc_suggestion s) = Some s"
proof -
  have eta: "\<lparr>su_suggestion_id = su_suggestion_id s, su_priority = su_priority s,
      su_title = su_title s, su_analysis_issue_ids = su_analysis_issue_ids s,
      su_problem = su_problem s, su_direction = su_direction s, su_rationale = su_rationale s,
      su_impact_scope = su_impact_scope s, su_example = su_example s\<rparr> = s"
    by simp
  from assms show ?thesis
    by (simp add: eta dec_suggestion_def enc_suggestion_def dec_members_def req_field_def jget_def
        dec_str_def mk_suggestion_def)
qed

lemma dec_enc_suggestion_set:
  "valid_suggestion_set xs \<Longrightarrow> dec_suggestion_set (enc_suggestion_set xs) = Some xs"
  by (simp add: dec_suggestion_set_def enc_suggestion_set_def dec_members_def req_field_def jget_def
      dec_list_enc dec_enc_suggestion mk_suggestion_set_def valid_suggestion_set_def list_all_iff)

lemma dec_suggestion_set_valid: "dec_suggestion_set v = Some xs \<Longrightarrow> valid_suggestion_set xs"
  by (auto simp: dec_suggestion_set_def mk_suggestion_set_def
      split: Option.bind_splits sum.splits if_splits)

record selected_suggestion =
  ss_suggestion :: suggestion
  ss_note :: pystr

definition enc_selected :: "selected_suggestion \<Rightarrow> json" where
  "enc_selected s = JObj
     [(tx ''suggestion'', enc_suggestion (ss_suggestion s)), (tx ''note'', JStr (ss_note s))]"

section \<open>Locked fragments and selections\<close>

record ai_locked_fragment =
  lf_fragment_id :: pystr
  lf_text :: pystr

definition mk_ai_locked_fragment :: "pystr \<Rightarrow> pystr \<Rightarrow> value_error + ai_locked_fragment" where
  "mk_ai_locked_fragment i t =
     (if i \<noteq> [] \<and> t \<noteq> [] then Inr \<lparr>lf_fragment_id = i, lf_text = t\<rparr>
      else Inl (ValidationError ''LockedFragment''))"

definition enc_ai_locked_fragment :: "ai_locked_fragment \<Rightarrow> json" where
  "enc_ai_locked_fragment f =
     JObj [(tx ''fragment_id'', JStr (lf_fragment_id f)), (tx ''text'', JStr (lf_text f))]"

record selection =
  sel_start :: int
  sel_end :: int

definition mk_selection :: "int \<Rightarrow> int \<Rightarrow> value_error + selection" where
  "mk_selection s e =
     (if 0 \<le> s \<and> 0 < e then
        if e \<le> s then Inl (ValidationError ''selection end must be greater than start'')
        else Inr \<lparr>sel_start = s, sel_end = e\<rparr>
      else Inl (ValidationError ''Selection''))"

lemma mk_selection_ok:
  "mk_selection s e = Inr x \<longleftrightarrow> 0 \<le> s \<and> s < e \<and> x = \<lparr>sel_start = s, sel_end = e\<rparr>"
  by (auto simp: mk_selection_def)

section \<open>Workflow inputs\<close>

datatype target_length_mode = FIXED | FOLLOW_SOURCE

record ai_creative_settings =
  as_target_length_mode :: target_length_mode
  as_target_character_count :: int
  as_persona :: pystr
  as_audience :: pystr
  as_language_style :: pystr
  as_content_structure :: pystr
  as_output_specification :: pystr
  as_hard_constraints :: pystr

definition mk_ai_settings :: "ai_creative_settings \<Rightarrow> value_error + ai_creative_settings" where
  "mk_ai_settings s =
     (if 1 \<le> as_target_character_count s \<and> as_target_character_count s \<le> 20000 then Inr s
      else Inl (ValidationError ''CreativeSettings''))"

text \<open>\<open>source_text: str = Field(min_length=1, max_length=20_000)\<close>\<close>

definition valid_source_text :: "pystr \<Rightarrow> bool" where
  "valid_source_text s \<longleftrightarrow> s \<noteq> [] \<and> length s \<le> 20000"

record suggestions_input =
  si_source_text :: pystr
  si_settings :: ai_creative_settings
  si_analysis :: analysis_result
  si_member_context :: pystr
  si_previous_suggestions :: "suggestion list"
  si_fixed_suggestions :: "selected_suggestion list"

definition mk_suggestions_input :: "suggestions_input \<Rightarrow> value_error + suggestions_input" where
  "mk_suggestions_input d =
     (if valid_source_text (si_source_text d) then Inr d
      else Inl (ValidationError ''SuggestionsInput''))"

record first_draft_input =
  fd_source_text :: pystr
  fd_settings :: ai_creative_settings
  fd_analysis :: analysis_result
  fd_selected_suggestions :: "selected_suggestion list"
  fd_member_requirements :: pystr

definition mk_first_draft_input :: "first_draft_input \<Rightarrow> value_error + first_draft_input" where
  "mk_first_draft_input d =
     (if valid_source_text (fd_source_text d) then Inr d
      else Inl (ValidationError ''FirstDraftInput''))"

record suggestion_regeneration_input = first_draft_input +
  rg_locked_fragments :: "ai_locked_fragment list"

definition mk_suggestion_regeneration_input ::
  "suggestion_regeneration_input \<Rightarrow> value_error + suggestion_regeneration_input" where
  "mk_suggestion_regeneration_input d =
     (if valid_source_text (fd_source_text d) then Inr d
      else Inl (ValidationError ''SuggestionRegenerationInput''))"

record full_revision_input =
  fr_parent_text :: pystr
  fr_instruction :: pystr
  fr_settings :: ai_creative_settings
  fr_locked_fragments :: "ai_locked_fragment list"

definition mk_full_revision_input :: "full_revision_input \<Rightarrow> value_error + full_revision_input" where
  "mk_full_revision_input d =
     (if fr_parent_text d \<noteq> [] \<and> fr_instruction d \<noteq> [] then Inr d
      else Inl (ValidationError ''FullRevisionInput''))"

record selection_revision_input = full_revision_input +
  sr_selection :: selection

definition mk_selection_revision_input ::
  "selection_revision_input \<Rightarrow> value_error + selection_revision_input" where
  "mk_selection_revision_input d =
     (if fr_parent_text d \<noteq> [] \<and> fr_instruction d \<noteq> [] then
        if int (length (fr_parent_text d)) < sel_end (sr_selection d)
        then Inl (ValidationError ''selection is outside parent text'')
        else Inr d
      else Inl (ValidationError ''SelectionRevisionInput''))"

section \<open>Requests and results\<close>

datatype message_role = SYSTEM | USER

record message =
  ms_role :: message_role
  ms_content :: pystr

text \<open>\<open>temperature\<close> keeps its default 0.4 in every request of the workflow.\<close>

record completion_request =
  cr_model :: pystr
  cr_messages :: "message list"
  cr_response_schema :: "json option"
  cr_schema_name :: "pystr option"

definition mk_completion_request :: "completion_request \<Rightarrow> value_error + completion_request" where
  "mk_completion_request r =
     (if cr_model r \<noteq> [] \<and> cr_messages r \<noteq> [] \<and> list_all (\<lambda>m. ms_content m \<noteq> []) (cr_messages r)
      then Inr r else Inl (ValidationError ''CompletionRequest''))"

record provider_usage =
  pu_input_tokens :: "int option"
  pu_output_tokens :: "int option"

record completion_result =
  cs_text :: pystr
  cs_provider_request_id :: "pystr option"
  cs_usage :: provider_usage

datatype violation_code = MISSING_FRAGMENT | SELECTION_OUTSIDE_CHANGED

record validation_violation =
  vv_code :: violation_code
  vv_fragment_id :: "pystr option"
  vv_message :: pystr

record validation_result =
  vr_valid :: bool
  vr_violations :: "validation_violation list"

fun violation_code_value :: "violation_code \<Rightarrow> string" where
  "violation_code_value MISSING_FRAGMENT = ''missing_fragment''"
| "violation_code_value SELECTION_OUTSIDE_CHANGED = ''selection_outside_changed''"

definition enc_opt_str :: "pystr option \<Rightarrow> json" where
  "enc_opt_str x = (case x of None \<Rightarrow> JNull | Some s \<Rightarrow> JStr s)"

definition enc_violation :: "validation_violation \<Rightarrow> json" where
  "enc_violation v = JObj
     [(tx ''code'', JStr (tx (violation_code_value (vv_code v)))),
      (tx ''fragment_id'', enc_opt_str (vv_fragment_id v)), (tx ''message'', JStr (vv_message v))]"

definition enc_validation :: "validation_result \<Rightarrow> (pystr \<times> json) list" where
  "enc_validation r =
     [(tx ''valid'', JBool (vr_valid r)),
      (tx ''violations'', JArr (map enc_violation (vr_violations r)))]"

section \<open>validation.py\<close>

definition missing_fragment :: "ai_locked_fragment \<Rightarrow> validation_violation" where
  "missing_fragment f =
     \<lparr>vv_code = MISSING_FRAGMENT, vv_fragment_id = Some (lf_fragment_id f),
      vv_message = [20445, 30041, 29255, 27573, 32570, 22833, 12289, 24050, 34987, 20462, 25913, 25110,
      37325, 22797, 27425, 25968, 19981, 36275, 12290]\<rparr>"

fun locked_fragment_loop ::
  "pystr \<Rightarrow> (pystr \<rightharpoonup> nat) \<Rightarrow> ai_locked_fragment list \<Rightarrow> validation_violation list" where
  "locked_fragment_loop candidate cursors [] = []"
| "locked_fragment_loop candidate cursors (fragment # fragments) =
     (case find_from candidate (lf_text fragment) (cursor cursors (lf_text fragment)) of
        Some position \<Rightarrow>
          locked_fragment_loop candidate
            (cursors(lf_text fragment \<mapsto> position + length (lf_text fragment))) fragments
      | None \<Rightarrow> missing_fragment fragment # locked_fragment_loop candidate cursors fragments)"

definition validate_locked_fragments :: "pystr \<Rightarrow> ai_locked_fragment list \<Rightarrow> validation_result" where
  "validate_locked_fragments candidate locked_fragments =
     (let violations = locked_fragment_loop candidate Map.empty locked_fragments
      in \<lparr>vr_valid = (violations = []), vr_violations = violations\<rparr>)"

definition analysis_reference_ids :: "analysis_result \<Rightarrow> pystr list" where
  "analysis_reference_ids a =
     (case a of TextAnalysis _ \<Rightarrow> [tx ''analysis'']
      | StructuredAnalysis x \<Rightarrow> map ri_issue_id (an_problems_and_risks x))"

definition validate_suggestion_references :: "analysis_result \<Rightarrow> suggestion list \<Rightarrow> bool" where
  "validate_suggestion_references a suggestions =
     list_all (\<lambda>s. list_all (\<lambda>i. i \<in> set (analysis_reference_ids a)) (su_analysis_issue_ids s))
       suggestions"

definition outside_changed :: validation_violation where
  "outside_changed =
     \<lparr>vv_code = SELECTION_OUTSIDE_CHANGED, vv_fragment_id = None,
      vv_message = [36873, 21306, 20043, 22806, 30340, 25991, 23383, 21457, 29983, 20102, 21464, 21270,
      12290]\<rparr>"

definition validate_selection_revision ::
  "pystr \<Rightarrow> pystr \<Rightarrow> selection \<Rightarrow> ai_locked_fragment list \<Rightarrow> validation_result" where
  "validate_selection_revision parent_text candidate sel locked_fragments =
     (let pre = take (nat (sel_start sel)) parent_text;
          suf = drop (nat (sel_end sel)) parent_text;
          outside_unchanged =
            (length pre + length suf \<le> length candidate \<and> prefix pre candidate \<and>
             suffix suf candidate);
          violations = (if \<not> outside_unchanged then [outside_changed] else []);
          lock_result = validate_locked_fragments candidate locked_fragments;
          violations' = violations @ vr_violations lock_result
      in \<lparr>vr_valid = (violations' = []), vr_violations = violations'\<rparr>)"

interpretation lfs: fragment_scan locked_fragment_loop lf_text missing_fragment
  by unfold_locales simp_all

lemma validate_locked_fragments_valid_iff:
  "vr_valid (validate_locked_fragments c fs) \<longleftrightarrow>
     (\<forall>t. fits c t 0 (count_list (map lf_text fs) t))"
  by (simp add: validate_locked_fragments_def Let_def lfs.scan_start_empty_iff)

lemma prefix_suffix_middle:
  assumes "prefix p c" and "suffix s c" and "length p + length s \<le> length c"
  shows "\<exists>m. c = p @ m @ s"
proof -
  from assms(1) obtain r where r: "c = p @ r" by (auto simp: prefix_def)
  from assms(2) obtain q where q: "c = q @ s" by (auto simp: suffix_def)
  from assms(3) have "length p \<le> length q" by (simp add: q)
  with r q obtain m where "q = p @ m" by (metis append_eq_append_conv_if append_take_drop_id)
  with q show ?thesis by auto
qed

lemma outside_unchanged_iff:
  "(length p + length s \<le> length c \<and> prefix p c \<and> suffix s c) \<longleftrightarrow> (\<exists>m. c = p @ m @ s)"
  by (metis add_le_cancel_left append.assoc le_add2 length_append prefix_def prefix_suffix_middle
      suffix_def add.assoc add_le_mono1 le_add1 add.commute)

lemma validate_selection_revision_valid_iff:
  "vr_valid (validate_selection_revision parent c sel fs) \<longleftrightarrow>
     (\<exists>m. c = take (nat (sel_start sel)) parent @ m @ drop (nat (sel_end sel)) parent) \<and>
     vr_valid (validate_locked_fragments c fs)"
  unfolding validate_selection_revision_def Let_def
  using outside_unchanged_iff [of "take (nat (sel_start sel)) parent" "drop (nat (sel_end sel)) parent" c]
  by (simp add: validate_locked_fragments_def Let_def)

section \<open>parsing.py\<close>

text \<open>
  \<open>parse_structured_output(text, SuggestionSet)\<close>: the JSON reader of the validation library is the
  parameter \<open>loads\<close> (\<open>None\<close>: not JSON).
\<close>

definition parse_structured_output ::
  "(pystr \<Rightarrow> json option) \<Rightarrow> pystr \<Rightarrow> ai_error + suggestion list" where
  "parse_structured_output loads s =
     of_option (mk_ai_error INVALID_RESPONSE True []) (Option.bind (loads s) dec_suggestion_set)"

section \<open>What the validators decide\<close>

text \<open>C23: the preservation check of AI output accepts a candidate exactly when every locked text
  has, in the candidate, as many pairwise disjoint occurrences as there are fragments with that
  text.\<close>

theorem locked_fragments_accepted_iff:
  "vr_valid (validate_locked_fragments candidate fragments) \<longleftrightarrow>
     (\<forall>t. fits candidate t 0 (count_list (map lf_text fragments) t))"
  by (rule validate_locked_fragments_valid_iff)

text \<open>C24: the selection check accepts a candidate exactly when it is the parent with only the
  selected range replaced and the locked fragments are kept.\<close>

theorem selection_revision_accepted_iff:
  "vr_valid (validate_selection_revision parent candidate sel fragments) \<longleftrightarrow>
     (\<exists>replacement. candidate =
        take (nat (sel_start sel)) parent @ replacement @ drop (nat (sel_end sel)) parent) \<and>
     vr_valid (validate_locked_fragments candidate fragments)"
  by (rule validate_selection_revision_valid_iff)

text \<open>C26: whatever reader turns the model's text into JSON, a structured reply that parses is a
  set of five to eight complete suggestions with distinct identifiers, and any other reply is the
  retryable invalid-response error.\<close>

theorem parsed_suggestions_are_valid:
  "(case parse_structured_output loads reply of
      Inr xs \<Rightarrow> list_all valid_suggestion xs \<and> 5 \<le> length xs \<and> length xs \<le> 8 \<and>
        distinct (map su_suggestion_id xs)
    | Inl e \<Rightarrow> e = mk_ai_error INVALID_RESPONSE True [])"
proof (cases "Option.bind (loads reply) dec_suggestion_set")
  case None
  then show ?thesis by (simp add: parse_structured_output_def)
next
  case (Some xs)
  then have "valid_suggestion_set xs" by (auto simp: bind_eq_Some_conv dec_suggestion_set_valid)
  with Some show ?thesis by (simp add: parse_structured_output_def valid_suggestion_set_iff)
qed

end
