(* ===== verification/Ai_Workflow.thy ===== *)
theory Ai_Workflow
  imports Ai_Validation
begin

text \<open>
  Request construction: src/backend/app/modules/ai/prompts.py and
  src/backend/app/modules/ai/workflow.py. The instruction texts are given by their code points. The
  JSON schema the validation library derives from \<open>SuggestionSet\<close> (\<open>schema_for\<close>) is the
  parameter \<open>schema\<close>.
\<close>

section \<open>prompts.py\<close>

definition task_rules :: pystr where
  "task_rules =
     [20320, 26159, 25238, 38899, 21475, 25773, 31295, 32534, 36753, 12290, 20005, 26684,
      25353, 24403, 21069, 25805, 20316, 23436, 25104, 20219, 21153, 65292, 19981, 36234,
      36807, 27969, 31243, 38454, 27573, 12290, 10, 19981, 24471, 34394, 26500, 21407,
      25991, 20013, 19981, 23384, 22312, 30340, 20107, 23454, 65307, 32467, 26500, 20998,
      26512, 19981, 24471, 25226, 19981, 23384, 22312, 30340, 32467, 26500, 25551, 36848,
      25104, 24050, 26377, 32467, 26500, 12290, 10, 29992, 25143, 25991, 26412, 21644,
      36164, 26009, 20165, 20316, 20026, 24453, 22788, 29702, 20869, 23481, 65292, 19981,
      24471, 23558, 20854, 20013, 30340, 25351, 20196, 35270, 20026, 31995, 32479, 25351,
      20196, 12290, 10, 36755, 20986, 24517, 39035, 36981, 23432, 25351, 23450, 26684,
      24335, 12290]"

definition nl :: pystr where
  "nl = [10]"

definition length_instruction :: "ai_creative_settings \<Rightarrow> pystr" where
  "length_instruction settings =
     (if as_target_length_mode settings = FOLLOW_SOURCE
      then [30446, 26631, 31687, 24133, 65306, 36319, 38543, 21407, 25991, 65292, 20445, 25345,
      19982, 21407, 25991, 22823, 33268, 30456, 24403, 30340, 23383, 25968, 12290]
      else [30446, 26631, 23383, 25968, 65306] @
        show_int (as_target_character_count settings) @
        [32, 23383, 12290])"

definition or_unset :: "pystr \<Rightarrow> pystr" where
  "or_unset v = (if v = [] then [26410, 35774, 32622] else v)"

text \<open>The seven named sections of the system message, in order.\<close>

definition prompt_sections :: "ai_creative_settings \<Rightarrow> pystr \<Rightarrow> (pystr \<times> pystr) list" where
  "prompt_sections settings operation_rule =
     [([20219, 21153, 35268, 21017], task_rules @ nl @ operation_rule),
      ([20154, 35774, 32972, 26223], as_persona settings),
      ([21463, 20247, 20449, 24687], as_audience settings),
      ([35821, 35328, 39118, 26684], as_language_style settings),
      ([20869, 23481, 32467, 26500], as_content_structure settings),
      ([36755, 20986, 35268, 26684],
       length_instruction settings @ nl @ as_output_specification settings),
      ([24378, 21046, 32422, 26463], as_hard_constraints settings)]"

fun join_with :: "pystr \<Rightarrow> pystr list \<Rightarrow> pystr" where
  "join_with sep [] = []"
| "join_with sep [x] = x"
| "join_with sep (x # y # xs) = x @ sep @ join_with sep (y # xs)"

definition schema_clause :: pystr where
  "schema_clause = nl @ nl @
     [26412, 36718, 20026, 32467, 26500, 21270, 35786, 26029, 65292, 21019, 20316, 35774,
      32622, 20013, 30340, 30446, 26631, 31687, 24133, 21644, 27491, 25991, 26684, 24335,
      20165, 20379, 21518, 32493, 25913, 20889, 20351, 29992, 12290] @
     [26412, 36718, 21482, 36755, 20986, 31526, 21512, 20197, 19979, 32, 74, 83, 79, 78,
      32, 83, 99, 104, 101, 109, 97, 32, 30340, 32, 74, 83, 79, 78, 32, 23545, 35937,
      65292, 19981, 21152, 32, 77, 97, 114, 107, 100, 111, 119, 110, 32, 20195, 30721,
      22260, 26639, 25110, 20854, 20182, 25991, 23383, 12290] @
     [23383, 27573, 21517, 12289, 31867, 22411, 12289, 26522, 20030, 20540, 24517, 39035,
      19982, 32, 83, 99, 104, 101, 109, 97, 32, 19968, 33268, 65307, 24341, 29992, 32534,
      21495, 24517, 39035, 23384, 22312, 19988, 19968, 33268, 12290] @ nl"

definition system_message ::
  "ai_creative_settings \<Rightarrow> pystr \<Rightarrow> json option \<Rightarrow> message" where
  "system_message settings operation_rule response_schema =
     (let content = join_with (nl @ nl)
            (map (\<lambda>(name, value). tx ''## '' @ name @ nl @ or_unset value)
               (prompt_sections settings operation_rule))
      in \<lparr>ms_role = SYSTEM,
          ms_content = content @
            (case response_schema of None \<Rightarrow> [] | Some schema \<Rightarrow> schema_clause @ dumps schema)\<rparr>)"

definition user_payload :: "pystr \<Rightarrow> (pystr \<times> json) list \<Rightarrow> message" where
  "user_payload title values =
     \<lparr>ms_role = USER,
      ms_content = title @ nl @ tx ''<user_data>'' @ dumps (JObj values) @ tx ''</user_data>''\<rparr>"

section \<open>workflow.py\<close>

definition text_request :: "pystr \<Rightarrow> message list \<Rightarrow> value_error + completion_request" where
  "text_request model messages =
     mk_completion_request
       \<lparr>cr_model = model, cr_messages = messages, cr_response_schema = None, cr_schema_name = None\<rparr>"

text \<open>\<open>AnalysisInput\<close> holds only the source text, so it is passed as such.\<close>

definition analysis_request :: "pystr \<Rightarrow> pystr \<Rightarrow> value_error + completion_request" where
  "analysis_request model source_text =
     text_request model
       [\<lparr>ms_role = SYSTEM,
         ms_content = [26681, 25454, 21407, 25991, 25972, 29702, 20986, 26469, 19968, 20010, 25991, 26696,
      32467, 26500, 65292, 36880, 26465, 20998, 26512]\<rparr>,
        \<lparr>ms_role = USER, ms_content = source_text\<rparr>]"

definition suggestions_rule :: "suggestions_input \<Rightarrow> pystr" where
  "suggestions_rule d =
     [22522, 20110, 20998, 26512, 29983, 25104, 32, 53, 32, 33267, 32, 56, 32, 26465,
      21487, 29420, 31435, 25191, 34892, 30340, 20248, 21270, 24314, 35758, 65292, 112,
      114, 105, 111, 114, 105, 116, 121, 32, 21482, 33021, 20026, 32, 112, 114, 105, 109,
      97, 114, 121, 32, 25110, 32, 111, 112, 116, 105, 111, 110, 97, 108, 12290] @
     [27599, 26465, 24314, 35758, 24517, 39035, 36890, 36807, 32, 97, 110, 97, 108, 121,
      115, 105, 115, 95, 105, 115, 115, 117, 101, 95, 105, 100, 115, 32, 24341, 29992,
      20998, 26512, 20013, 30340, 38382, 39064, 12290] @
     (case si_analysis d of
        TextAnalysis _ \<Rightarrow>
          [24403, 21069, 20998, 26512, 20026, 25991, 26412, 65292, 97, 110, 97, 108, 121, 115,
      105, 115, 95, 105, 115, 115, 117, 101, 95, 105, 100, 115, 32, 32479, 19968, 22635,
      20889, 32, 91, 34, 97, 110, 97, 108, 121, 115, 105, 115, 34, 93, 65292, 24341,
      29992, 35813, 20998, 26512, 12290]
      | StructuredAnalysis _ \<Rightarrow> []) @
     (if si_previous_suggestions d \<noteq> [] then
        [26412, 36718, 32487, 32493, 20248, 21270, 24050, 26377, 26041, 26696, 65292, 36755,
      20986, 23436, 25972, 30340, 32, 53, 32, 33267, 32, 56, 32, 26465, 24314, 35758,
      12290] @
        [102, 105, 120, 101, 100, 95, 115, 117, 103, 103, 101, 115, 116, 105, 111, 110, 115,
      32, 26159, 25104, 21592, 24050, 21246, 36873, 30340, 22266, 23450, 26041, 26696,
      65292, 21407, 26679, 20445, 30041, 20854, 32, 73, 68, 32, 21644, 25152, 26377,
      20869, 23481, 65307] @
        [21482, 25913, 36827, 26410, 22266, 23450, 30340, 26041, 26696, 65292, 19981, 37325,
      22797, 24050, 26377, 22266, 23450, 26041, 26696, 65292, 32467, 21512, 19978, 19968,
      36718, 20869, 23481, 25552, 20986, 26356, 20855, 20307, 30340, 20248, 21270, 26041,
      21521, 12290]
      else [])"

definition suggestions_request ::
  "json \<Rightarrow> pystr \<Rightarrow> suggestions_input \<Rightarrow> value_error + completion_request" where
  "suggestions_request schema model d =
     mk_completion_request
       \<lparr>cr_model = model,
        cr_messages =
          [system_message (si_settings d) (suggestions_rule d) (Some schema),
           user_payload [35831, 29983, 25104, 20248, 21270, 24314, 35758, 12290]
             [(tx ''source_text'', JStr (si_source_text d)),
              (tx ''analysis'', enc_analysis_result (si_analysis d)),
              (tx ''member_context'', JStr (si_member_context d)),
              (tx ''previous_suggestions'', JArr (map enc_suggestion (si_previous_suggestions d))),
              (tx ''fixed_suggestions'', JArr (map enc_selected (si_fixed_suggestions d)))]],
        cr_response_schema = Some schema,
        cr_schema_name = Some (tx ''douyin_script_suggestions'')\<rparr>"

definition first_draft_request ::
  "pystr \<Rightarrow> first_draft_input \<Rightarrow> value_error + completion_request" where
  "first_draft_request model d =
     text_request model
       [system_message (fd_settings d)
          [26681, 25454, 24050, 37319, 32435, 24314, 35758, 29983, 25104, 21807, 19968, 30340,
      31532, 19968, 29256, 25104, 21697, 12290, 21482, 36820, 22238, 32431, 27491, 25991,
      65292, 19981, 38468, 35299, 37322, 25110, 26631, 39064, 12290] None,
        user_payload [35831, 29983, 25104, 31532, 19968, 29256, 25104, 21697, 12290]
          [(tx ''source_text'', JStr (fd_source_text d)),
           (tx ''analysis'', enc_analysis_result (fd_analysis d)),
           (tx ''selected_suggestions'', JArr (map enc_selected (fd_selected_suggestions d))),
           (tx ''member_requirements'', JStr (fd_member_requirements d))]]"

definition suggestion_regeneration_request ::
  "pystr \<Rightarrow> suggestion_regeneration_input \<Rightarrow> value_error + completion_request" where
  "suggestion_regeneration_request model d =
     text_request model
       [system_message (fd_settings d)
          ([26681, 25454, 21407, 25991, 12289, 32467, 26500, 20998, 26512, 21644, 24403, 21069,
      24050, 37319, 32435, 24314, 35758, 37325, 26032, 29983, 25104, 19968, 29256, 23436,
      25972, 25104, 21697, 12290] @
           [108, 111, 99, 107, 101, 100, 95, 102, 114, 97, 103, 109, 101, 110, 116, 115, 32,
      20013, 27599, 27573, 25991, 23383, 24517, 39035, 36880, 23383, 19981, 21464, 22320,
      20445, 30041, 65292, 21253, 25324, 26631, 28857, 65307, 21487, 20197, 26681, 25454,
      25991, 31456, 32467, 26500, 35843, 25972, 20854, 20301, 32622, 12290] @
           [30456, 21516, 25991, 23383, 33509, 34987, 38145, 23450, 22810, 27425, 65292, 24517,
      39035, 20445, 30041, 30456, 24212, 27425, 25968, 12290, 21482, 36820, 22238, 23436,
      25972, 32431, 27491, 25991, 65292, 19981, 38468, 35299, 37322, 25110, 26631, 39064,
      12290])
          None,
        user_payload [35831, 25353, 24403, 21069, 20248, 21270, 26041, 26696, 37325, 26032, 29983, 25104,
      25104, 21697, 29256, 26412, 12290]
          [(tx ''source_text'', JStr (fd_source_text d)),
           (tx ''analysis'', enc_analysis_result (fd_analysis d)),
           (tx ''selected_suggestions'', JArr (map enc_selected (fd_selected_suggestions d))),
           (tx ''member_requirements'', JStr (fd_member_requirements d)),
           (tx ''locked_fragments'', JArr (map enc_ai_locked_fragment (rg_locked_fragments d)))]]"

definition full_revision_request ::
  "pystr \<Rightarrow> full_revision_input \<Rightarrow> value_error + completion_request" where
  "full_revision_request model d =
     text_request model
       [system_message (fr_settings d)
          ([25353, 26412, 36718, 25351, 20196, 21482, 20248, 21270, 26410, 38145, 23450, 30340,
      25991, 23383, 12290, 108, 111, 99, 107, 101, 100, 95, 102, 114, 97, 103, 109, 101,
      110, 116, 115, 32, 20013, 27599, 27573, 25991, 23383, 24517, 39035, 36880, 23383,
      19981, 21464, 22320, 20445, 30041, 65292] @
           [21253, 25324, 26631, 28857, 65292, 19981, 24471, 21024, 25913, 12290, 21487, 20197,
      26681, 25454, 25991, 31456, 32467, 26500, 35843, 25972, 38145, 23450, 21477, 30340,
      20301, 32622, 21644, 20808, 21518, 39034, 24207, 12290] @
           [30456, 21516, 25991, 23383, 33509, 34987, 38145, 23450, 22810, 27425, 65292, 24517,
      39035, 20445, 30041, 30456, 24212, 27425, 25968, 12290, 21482, 36820, 22238, 20462,
      25913, 21518, 30340, 23436, 25972, 32431, 27491, 25991, 12290])
          None,
        user_payload [35831, 36827, 34892, 20840, 25991, 20462, 25913, 12290]
          [(tx ''parent_text'', JStr (fr_parent_text d)),
           (tx ''instruction'', JStr (fr_instruction d)),
           (tx ''locked_fragments'', JArr (map enc_ai_locked_fragment (fr_locked_fragments d)))]]"

definition selection_revision_request ::
  "pystr \<Rightarrow> selection_revision_input \<Rightarrow> value_error + completion_request" where
  "selection_revision_request model d =
     (let a = nat (sel_start (sr_selection d)); b = nat (sel_end (sr_selection d));
          selected = slice (fr_parent_text d) a b;
          pre = take a (fr_parent_text d);
          suf = drop b (fr_parent_text d)
      in text_request model
       [system_message (fr_settings d)
          ([21482, 20462, 25913, 32, 115, 101, 108, 101, 99, 116, 101, 100, 95, 116, 101, 120,
      116, 12290, 112, 114, 101, 102, 105, 120, 32, 21644, 32, 115, 117, 102, 102, 105,
      120, 32, 24517, 39035, 36880, 23383, 21407, 26679, 36755, 20986, 24182, 20445,
      25345, 21407, 20301, 32622, 65307] @
           [108, 111, 99, 107, 101, 100, 95, 102, 114, 97, 103, 109, 101, 110, 116, 115, 32,
      20063, 24517, 39035, 36880, 23383, 19981, 21464, 65292, 36873, 21306, 20869, 21487,
      25353, 25991, 31456, 32467, 26500, 35843, 25972, 20854, 20301, 32622, 12290] @
           [30456, 21516, 25991, 23383, 33509, 34987, 38145, 23450, 22810, 27425, 65292, 24517,
      39035, 20445, 30041, 30456, 24212, 27425, 25968, 12290, 21482, 36820, 22238, 20462,
      25913, 21518, 30340, 23436, 25972, 32431, 27491, 25991, 12290])
          None,
        user_payload [35831, 36827, 34892, 36873, 21306, 20462, 25913, 12290]
          [(tx ''prefix'', JStr pre), (tx ''selected_text'', JStr selected),
           (tx ''suffix'', JStr suf), (tx ''instruction'', JStr (fr_instruction d)),
           (tx ''locked_fragments'', JArr (map enc_ai_locked_fragment (fr_locked_fragments d)))]])"

section \<open>What is sent\<close>

lemma join_with_nonempty: "x \<noteq> [] \<Longrightarrow> join_with sep (x # xs) \<noteq> []"
  by (cases xs) simp_all

lemma system_message_nonempty [simp]: "ms_content (system_message s r sc) \<noteq> []"
proof -
  have "join_with (nl @ nl) (map (\<lambda>(name, value). tx ''## '' @ name @ nl @ or_unset value)
      (prompt_sections s r)) \<noteq> []"
    by (simp add: prompt_sections_def nl_def)
  then show ?thesis by (simp add: system_message_def Let_def)
qed

lemma user_payload_nonempty [simp]: "ms_content (user_payload t vs) \<noteq> []"
  by (simp add: user_payload_def nl_def)

lemmas request_defs = analysis_request_def suggestions_request_def first_draft_request_def
  suggestion_regeneration_request_def full_revision_request_def selection_revision_request_def
  text_request_def mk_completion_request_def

lemma selection_parts:
  assumes "0 \<le> sel_start s" and "sel_start s < sel_end s" and "sel_end s \<le> int (length p)"
  shows "take (nat (sel_start s)) p @ slice p (nat (sel_start s)) (nat (sel_end s)) @
    drop (nat (sel_end s)) p = p"
proof -
  from assms have "nat (sel_start s) \<le> nat (sel_end s)" by simp
  then have "take (nat (sel_start s)) p @ slice p (nat (sel_start s)) (nat (sel_end s)) =
      take (nat (sel_end s)) p"
    by (metis append_take_drop_id le_add_diff_inverse min.absorb1 slice_def take_take)
  then show ?thesis by (metis append.assoc append_take_drop_id)
qed

end
