(* ===== verification/Ai_Provider.thy ===== *)
theory Ai_Provider
  imports Ai_Workflow
begin

text \<open>
  The chat-completions adapter: src/backend/app/modules/ai/provider.py, with the deadlines of
  src/backend/app/core/ai_limits.py. The HTTP client is a parameter: what a request came back with is
  an \<open>http_outcome\<close>. \<open>hr_body\<close> is the decoded JSON body (\<open>None\<close>: \<open>response.json()\<close> raises).
\<close>

section \<open>ai_limits.py\<close>

definition DEFAULT_RESPONSE_TIMEOUT_SECONDS :: int where
  "DEFAULT_RESPONSE_TIMEOUT_SECONDS = 240"

definition MIN_RESPONSE_TIMEOUT_SECONDS :: int where
  "MIN_RESPONSE_TIMEOUT_SECONDS = 10"

definition MAX_RESPONSE_TIMEOUT_SECONDS :: int where
  "MAX_RESPONSE_TIMEOUT_SECONDS = 600"

definition AI_LOCK_LEASE_SECONDS :: int where
  "AI_LOCK_LEASE_SECONDS = MAX_RESPONSE_TIMEOUT_SECONDS + 60"

definition AI_OPERATION_STALE_SECONDS :: int where
  "AI_OPERATION_STALE_SECONDS = AI_LOCK_LEASE_SECONDS + 60"

section \<open>Configuration\<close>

record provider_config =
  pc_api_key :: pystr
  pc_base_url :: pystr
  pc_timeout_seconds :: int

text \<open>\<open>url_ok\<close> is \<open>urlparse\<close>'s verdict: scheme http or https and a network location.\<close>

definition mk_provider_config ::
  "(pystr \<Rightarrow> bool) \<Rightarrow> pystr \<Rightarrow> pystr \<Rightarrow> int \<Rightarrow> value_error + provider_config" where
  "mk_provider_config url_ok api_key base_url timeout_seconds =
     (if timeout_seconds \<le> 0 \<or> MAX_RESPONSE_TIMEOUT_SECONDS < timeout_seconds
      then Inl (ValidationError ''timeout_seconds'')
      else if \<not> url_ok base_url
      then Inl (ValidationError ''base_url must be an absolute HTTP(S) URL'')
      else Inr \<lparr>pc_api_key = api_key, pc_base_url = rstrip_char 47 base_url,
                pc_timeout_seconds = timeout_seconds\<rparr>)"

lemma mk_provider_config_timeout:
  "mk_provider_config ok k u t = Inr c \<Longrightarrow>
     0 < pc_timeout_seconds c \<and> pc_timeout_seconds c \<le> MAX_RESPONSE_TIMEOUT_SECONDS"
  by (auto simp: mk_provider_config_def split: if_splits)

section \<open>HTTP\<close>

record http_response =
  hr_status :: int
  hr_headers :: "(pystr \<times> pystr) list"     \<comment> \<open>names in lower case\<close>
  hr_body :: "json option"

datatype http_outcome =
    HttpTimeout                \<comment> \<open>\<open>httpx.TimeoutException\<close> or \<open>TimeoutError\<close>\<close>
  | HttpRequestError           \<comment> \<open>\<open>httpx.RequestError\<close>\<close>
  | HttpCancelled              \<comment> \<open>\<open>asyncio.CancelledError\<close>\<close>
  | HttpOther                  \<comment> \<open>any other exception\<close>
  | HttpResponse http_response

record http_request =
  hq_url :: pystr
  hq_headers :: "(pystr \<times> pystr) list"
  hq_json :: json

text \<open>\<open>Response.is_error\<close>: a 4xx or 5xx status.\<close>

definition is_error :: "http_response \<Rightarrow> bool" where
  "is_error r \<longleftrightarrow> 400 \<le> hr_status r \<and> hr_status r \<le> 599"

definition role_value :: "message_role \<Rightarrow> string" where
  "role_value r = (case r of SYSTEM \<Rightarrow> ''system'' | USER \<Rightarrow> ''user'')"

definition enc_message :: "message \<Rightarrow> json" where
  "enc_message m = JObj
     [(tx ''role'', JStr (tx (role_value (ms_role m)))), (tx ''content'', JStr (ms_content m))]"

definition completion_payload :: "completion_request \<Rightarrow> json" where
  "completion_payload r = JObj
     ([(tx ''model'', JStr (cr_model r)),
       (tx ''messages'', JArr (map enc_message (cr_messages r))),
       (tx ''temperature'', JDec 4 1)] @
      (case cr_response_schema r of
         None \<Rightarrow> []
       | Some schema \<Rightarrow>
           [(tx ''response_format'', JObj
              [(tx ''type'', JStr (tx ''json_schema'')),
               (tx ''json_schema'', JObj
                 [(tx ''name'', JStr (case cr_schema_name r of
                     None \<Rightarrow> tx ''structured_output''
                   | Some n \<Rightarrow> if n = [] then tx ''structured_output'' else n)),
                  (tx ''strict'', JBool True),
                  (tx ''schema'', schema)])])]))"

definition completion_http_request :: "provider_config \<Rightarrow> completion_request \<Rightarrow> http_request" where
  "completion_http_request config r =
     \<lparr>hq_url = pc_base_url config @ tx ''/chat/completions'',
      hq_headers = [(tx ''Authorization'', tx ''Bearer '' @ pc_api_key config),
                    (tx ''Content-Type'', tx ''application/json'')],
      hq_json = completion_payload r\<rparr>"

definition safe_http_error :: "http_response \<Rightarrow> ai_error" where
  "safe_http_error r =
     error_for_status (hr_status r)
       (case hr_body r of
          Some (JObj body) \<Rightarrow>
            (case jget (tx ''error'') body of
               Some (JObj err) \<Rightarrow> (case jget (tx ''code'') err of Some (JStr c) \<Rightarrow> Some c | _ \<Rightarrow> None)
             | _ \<Rightarrow> None)
        | _ \<Rightarrow> None)"

text \<open>A token count of the usage object: absent, null or a non-negative integer. \<open>int_of\<close> is the
  validation library's reading of a JSON value as an integer.\<close>

definition dec_tokens ::
  "(json \<Rightarrow> int option) \<Rightarrow> string \<Rightarrow> (pystr \<times> json) list \<Rightarrow> int option option" where
  "dec_tokens int_of k usage =
     (case jget (tx k) usage of
        None \<Rightarrow> Some None
      | Some JNull \<Rightarrow> Some None
      | Some v \<Rightarrow> (case int_of v of Some n \<Rightarrow> if 0 \<le> n then Some (Some n) else None | None \<Rightarrow> None))"

text \<open>\<open>response.headers.get("x-request-id") or body.get("id")\<close>, a string or \<open>None\<close>.\<close>

definition dec_request_id :: "http_response \<Rightarrow> (pystr \<times> json) list \<Rightarrow> pystr option option" where
  "dec_request_id r body =
     (case map_of (hr_headers r) (tx ''x-request-id'') of
        Some (c # cs) \<Rightarrow> Some (Some (c # cs))
      | _ \<Rightarrow> (case jget (tx ''id'') body of
                None \<Rightarrow> Some None | Some JNull \<Rightarrow> Some None | Some (JStr s) \<Rightarrow> Some (Some s)
              | _ \<Rightarrow> None))"

definition first_choice :: "(pystr \<times> json) list \<Rightarrow> json option" where
  "first_choice body =
     (case jget (tx ''choices'') body of Some (JArr (choice # _)) \<Rightarrow> Some choice | _ \<Rightarrow> None)"

definition choice_content :: "json \<Rightarrow> pystr option" where
  "choice_content choice =
     (case choice of
        JObj c \<Rightarrow> (case jget (tx ''message'') c of
          Some (JObj m) \<Rightarrow> (case jget (tx ''content'') m of Some (JStr s) \<Rightarrow> Some s | _ \<Rightarrow> None)
        | _ \<Rightarrow> None)
      | _ \<Rightarrow> None)"

text \<open>\<open>body.get("usage") or {}\<close>; a truthy value without \<open>get\<close> raises an error that is not
  caught here and is the \<open>None\<close> of the outer option.\<close>

definition usage_members :: "(pystr \<times> json) list \<Rightarrow> (pystr \<times> json) list option" where
  "usage_members body =
     (case jget (tx ''usage'') body of
        None \<Rightarrow> Some []
      | Some (JObj u) \<Rightarrow> Some u
      | Some v \<Rightarrow> if truthy v then None else Some [])"

datatype provider_reply =
    Reply completion_result
  | ReplyError ai_error
  | ReplyCancelled
  | ReplyCrash                 \<comment> \<open>an exception the adapter does not translate\<close>

definition invalid_response :: provider_reply where
  "invalid_response = ReplyError (mk_ai_error INVALID_RESPONSE True [])"

definition parse_response :: "(json \<Rightarrow> int option) \<Rightarrow> http_response \<Rightarrow> provider_reply" where
  "parse_response int_of r =
     (case hr_body r of
        Some (JObj body) \<Rightarrow>
          (case Option.bind (first_choice body) choice_content of
             None \<Rightarrow> invalid_response
           | Some content \<Rightarrow>
               (case usage_members body of
                  None \<Rightarrow> ReplyCrash
                | Some usage \<Rightarrow>
                    (case (dec_request_id r body, dec_tokens int_of ''prompt_tokens'' usage,
                           dec_tokens int_of ''completion_tokens'' usage) of
                       (Some rid, Some i, Some out) \<Rightarrow>
                         Reply \<lparr>cs_text = content, cs_provider_request_id = rid,
                           cs_usage = \<lparr>pu_input_tokens = i, pu_output_tokens = out\<rparr>\<rparr>
                     | _ \<Rightarrow> invalid_response)))
      | _ \<Rightarrow> invalid_response)"

definition content_type_html :: "http_response \<Rightarrow> bool" where
  "content_type_html r \<longleftrightarrow>
     contains (tx ''text/html'')
       (ascii_lower (case map_of (hr_headers r) (tx ''content-type'') of None \<Rightarrow> [] | Some v \<Rightarrow> v))"

definition complete ::
  "(json \<Rightarrow> int option) \<Rightarrow> (http_request \<Rightarrow> http_outcome) \<Rightarrow>
   provider_config \<Rightarrow> completion_request \<Rightarrow> provider_reply" where
  "complete int_of post config request =
     (case post (completion_http_request config request) of
        HttpTimeout \<Rightarrow> ReplyError (mk_ai_error TIMEOUT True [])
      | HttpRequestError \<Rightarrow> ReplyError (mk_ai_error NETWORK_ERROR True [])
      | HttpCancelled \<Rightarrow> ReplyCancelled
      | HttpOther \<Rightarrow> ReplyCrash
      | HttpResponse r \<Rightarrow>
          if is_error r then ReplyError (safe_http_error r)
          else if content_type_html r then ReplyError (mk_ai_error INVALID_ENDPOINT False [])
          else parse_response int_of r)"

end
