(* ===== verification/Task_Schemas.thy ===== *)
theory Task_Schemas
  imports Ai_Validation
begin

text \<open>
  Request bodies of the task API: src/backend/app/modules/tasks/schemas.py. Creative settings, the
  inputs of task and preset creation and update, and the four AI submissions, with their validators.
  The AI submissions are stored as JSON with the queued operation and read back when it is executed
  or retried: \<open>dump_\<close> is \<open>model_dump(mode="json")\<close> and \<open>validate_\<close> is \<open>model_validate\<close>.
\<close>

section \<open>Creative settings\<close>

record persona_settings =
  pe_account_positioning :: pystr
  pe_speaker_identity :: pystr
  pe_professional_background :: pystr
  pe_audience_relationship :: pystr
  pe_stance :: pystr
  pe_custom_instruction :: pystr

record audience_settings =
  au_target_audience :: pystr
  au_pain_points :: "pystr list"
  au_awareness_level :: pystr
  au_desired_action :: pystr
  au_custom_instruction :: pystr

record language_style_settings =
  ls_preset :: pystr
  ls_colloquial_level :: int
  ls_emotion_level :: int
  ls_rhythm :: pystr
  ls_sentence_length :: pystr
  ls_tone :: pystr
  ls_allow_internet_slang :: bool
  ls_custom_instruction :: pystr

record content_structure_settings =
  cst_opening :: pystr
  cst_narrative :: pystr
  cst_conflict_level :: int
  cst_require_example :: bool
  cst_call_to_action :: pystr
  cst_custom_instruction :: pystr

record output_specification =
  os_preserve_paragraphs :: bool
  os_preserve_pauses :: bool
  os_custom_instruction :: pystr

record hard_constraints =
  hc_required_information :: "pystr list"
  hc_forbidden_expressions :: "pystr list"
  hc_immutable_facts :: "pystr list"
  hc_platform_safety_instruction :: pystr
  hc_custom_instruction :: pystr

record creative_settings =
  ct_target_length_mode :: target_length_mode
  ct_target_characters :: int
  ct_persona :: persona_settings
  ct_audience :: audience_settings
  ct_language_style :: language_style_settings
  ct_content_structure :: content_structure_settings
  ct_output_specification :: output_specification
  ct_hard_constraints :: hard_constraints

definition level_ok :: "int \<Rightarrow> bool" where
  "level_ok n \<longleftrightarrow> 1 \<le> n \<and> n \<le> 5"

definition valid_creative_settings :: "creative_settings \<Rightarrow> bool" where
  "valid_creative_settings c \<longleftrightarrow>
     1 \<le> ct_target_characters c \<and> ct_target_characters c \<le> 20000 \<and>
     level_ok (ls_colloquial_level (ct_language_style c)) \<and>
     level_ok (ls_emotion_level (ct_language_style c)) \<and>
     level_ok (cst_conflict_level (ct_content_structure c))"

subsection \<open>model\_dump of the settings groups\<close>

definition enc_persona :: "persona_settings \<Rightarrow> json" where
  "enc_persona p = JObj
     [(tx ''account_positioning'', JStr (pe_account_positioning p)),
      (tx ''speaker_identity'', JStr (pe_speaker_identity p)),
      (tx ''professional_background'', JStr (pe_professional_background p)),
      (tx ''audience_relationship'', JStr (pe_audience_relationship p)),
      (tx ''stance'', JStr (pe_stance p)),
      (tx ''custom_instruction'', JStr (pe_custom_instruction p))]"

definition enc_audience :: "audience_settings \<Rightarrow> json" where
  "enc_audience a = JObj
     [(tx ''target_audience'', JStr (au_target_audience a)),
      (tx ''pain_points'', enc_strs (au_pain_points a)),
      (tx ''awareness_level'', JStr (au_awareness_level a)),
      (tx ''desired_action'', JStr (au_desired_action a)),
      (tx ''custom_instruction'', JStr (au_custom_instruction a))]"

definition enc_language_style :: "language_style_settings \<Rightarrow> json" where
  "enc_language_style l = JObj
     [(tx ''preset'', JStr (ls_preset l)),
      (tx ''colloquial_level'', JInt (ls_colloquial_level l)),
      (tx ''emotion_level'', JInt (ls_emotion_level l)),
      (tx ''rhythm'', JStr (ls_rhythm l)),
      (tx ''sentence_length'', JStr (ls_sentence_length l)),
      (tx ''tone'', JStr (ls_tone l)),
      (tx ''allow_internet_slang'', JBool (ls_allow_internet_slang l)),
      (tx ''custom_instruction'', JStr (ls_custom_instruction l))]"

definition enc_content_structure :: "content_structure_settings \<Rightarrow> json" where
  "enc_content_structure c = JObj
     [(tx ''opening'', JStr (cst_opening c)),
      (tx ''narrative'', JStr (cst_narrative c)),
      (tx ''conflict_level'', JInt (cst_conflict_level c)),
      (tx ''require_example'', JBool (cst_require_example c)),
      (tx ''call_to_action'', JStr (cst_call_to_action c)),
      (tx ''custom_instruction'', JStr (cst_custom_instruction c))]"

definition enc_output_specification :: "output_specification \<Rightarrow> json" where
  "enc_output_specification o' = JObj
     [(tx ''preserve_paragraphs'', JBool (os_preserve_paragraphs o')),
      (tx ''preserve_pauses'', JBool (os_preserve_pauses o')),
      (tx ''custom_instruction'', JStr (os_custom_instruction o'))]"

definition enc_hard_constraints :: "hard_constraints \<Rightarrow> json" where
  "enc_hard_constraints h = JObj
     [(tx ''required_information'', enc_strs (hc_required_information h)),
      (tx ''forbidden_expressions'', enc_strs (hc_forbidden_expressions h)),
      (tx ''immutable_facts'', enc_strs (hc_immutable_facts h)),
      (tx ''platform_safety_instruction'', JStr (hc_platform_safety_instruction h)),
      (tx ''custom_instruction'', JStr (hc_custom_instruction h))]"

definition length_mode_value :: "target_length_mode \<Rightarrow> string" where
  "length_mode_value m = (case m of FIXED \<Rightarrow> ''fixed'' | FOLLOW_SOURCE \<Rightarrow> ''follow_source'')"

definition enc_creative_settings :: "creative_settings \<Rightarrow> json" where
  "enc_creative_settings c = JObj
     [(tx ''target_length_mode'', JStr (tx (length_mode_value (ct_target_length_mode c)))),
      (tx ''target_characters'', JInt (ct_target_characters c)),
      (tx ''persona'', enc_persona (ct_persona c)),
      (tx ''audience'', enc_audience (ct_audience c)),
      (tx ''language_style'', enc_language_style (ct_language_style c)),
      (tx ''content_structure'', enc_content_structure (ct_content_structure c)),
      (tx ''output_specification'', enc_output_specification (ct_output_specification c)),
      (tx ''hard_constraints'', enc_hard_constraints (ct_hard_constraints c))]"

section \<open>Tasks and presets\<close>

text \<open>\<open>StringConstraints(strip_whitespace=True, min_length=1, max_length=n)\<close>\<close>

definition stripped_str :: "nat \<Rightarrow> pystr \<Rightarrow> value_error + pystr" where
  "stripped_str n s =
     (let t = strip s in if t \<noteq> [] \<and> length t \<le> n then Inr t else Inl (ValidationError ''str''))"

record task_create =
  tc_name :: pystr
  tc_source_text :: pystr
  tc_creative_settings :: creative_settings

definition mk_task_create :: "pystr \<Rightarrow> pystr \<Rightarrow> creative_settings \<Rightarrow> value_error + task_create" where
  "mk_task_create name source_text settings =
     bind_result (stripped_str 160 name) (\<lambda>n.
     let s = strip source_text in
     if s = [] \<or> \<not> valid_creative_settings settings then Inl (ValidationError ''TaskCreate'')
     else if 20000 < length s
     then Inl (ValidationError ''Source text cannot exceed 20,000 characters'')
     else Inr \<lparr>tc_name = n, tc_source_text = s, tc_creative_settings = settings\<rparr>)"

text \<open>
  \<open>TaskUpdate\<close>, \<open>PresetUpdate\<close>: a field is unset (\<open>None\<close>), explicitly null
  (\<open>Some None\<close>) or given (\<open>Some (Some v)\<close>); \<open>model_dump(exclude_unset=True)\<close> keeps the second.
\<close>

record task_update =
  tu_name :: "pystr option option"
  tu_source_text :: "pystr option option"
  tu_creative_settings :: "creative_settings option option"

definition mk_task_update :: "task_update \<Rightarrow> value_error + task_update" where
  "mk_task_update p =
     bind_result
       (case tu_name p of
          Some (Some n) \<Rightarrow> bind_result (stripped_str 160 n) (\<lambda>n'. Inr (Some (Some n')))
        | x \<Rightarrow> Inr x) (\<lambda>name.
     if (case tu_creative_settings p of Some (Some c) \<Rightarrow> \<not> valid_creative_settings c | _ \<Rightarrow> False)
     then Inl (ValidationError ''creative_settings'')
     else case tu_source_text p of
       Some (Some s) \<Rightarrow>
         if s \<noteq> [] \<and> length s \<le> 20000 then Inr (p\<lparr>tu_name := name\<rparr>)
         else Inl (ValidationError ''source_text'')
     | _ \<Rightarrow> Inr (p\<lparr>tu_name := name\<rparr>))"

record preset_create =
  prc_name :: pystr
  prc_settings :: creative_settings

definition mk_preset_create :: "pystr \<Rightarrow> creative_settings \<Rightarrow> value_error + preset_create" where
  "mk_preset_create name settings =
     bind_result (stripped_str 120 name) (\<lambda>n.
     if valid_creative_settings settings then Inr \<lparr>prc_name = n, prc_settings = settings\<rparr>
     else Inl (ValidationError ''settings''))"

record preset_update =
  pru_name :: "pystr option"
  pru_settings :: "creative_settings option"

definition mk_preset_update :: "preset_update \<Rightarrow> value_error + preset_update" where
  "mk_preset_update p =
     (if (case pru_settings p of Some c \<Rightarrow> \<not> valid_creative_settings c | None \<Rightarrow> False)
      then Inl (ValidationError ''settings'')
      else case pru_name p of
        None \<Rightarrow> Inr p
      | Some n \<Rightarrow> bind_result (stripped_str 120 n) (\<lambda>n'. Inr (p\<lparr>pru_name := Some n'\<rparr>)))"

record suggestion_update =
  sgu_decision :: suggestion_decision
  sgu_member_note :: "pystr option"

record analysis_correction =
  cor_analysis :: analysis_result
  cor_member_notes :: "pystr option"

record manual_edit_create =
  me_content :: pystr
  me_instruction :: "pystr option"

definition mk_manual_edit_create :: "pystr \<Rightarrow> pystr option \<Rightarrow> value_error + manual_edit_create" where
  "mk_manual_edit_create content instruction =
     (let c = strip content in
      if c = [] then Inl (ValidationError ''content'')
      else if (case instruction of None \<Rightarrow> False | Some i \<Rightarrow> 2000 < length i)
      then Inl (ValidationError ''instruction'')
      else Inr \<lparr>me_content = c, me_instruction = instruction\<rparr>)"

record locked_fragment_create =
  lk_start_offset :: int
  lk_end_offset :: int
  lk_note :: "pystr option"

definition mk_locked_fragment_create ::
  "int \<Rightarrow> int \<Rightarrow> pystr option \<Rightarrow> value_error + locked_fragment_create" where
  "mk_locked_fragment_create s e note =
     (if s < 0 \<or> e \<le> 0 \<or> (case note of None \<Rightarrow> False | Some n \<Rightarrow> 500 < length n)
      then Inl (ValidationError ''LockedFragmentCreate'')
      else if e \<le> s then Inl (ValidationError ''Selection end must be after its start'')
      else Inr \<lparr>lk_start_offset = s, lk_end_offset = e, lk_note = note\<rparr>)"

end
