(* ===== verification/Ai_Service.thy ===== *)
theory Ai_Service
  imports Ai_Provider Task_Schemas
begin

text \<open>
  The bridge between task state and the AI module: src/backend/app/modules/tasks/ai_service.py. Each
  operation builds a request, calls the provider once and turns the reply into a result that still
  has to be persisted, together with the plan of state changes. What the service calls outside the
  repository is a field of \<open>ai_env\<close>.
\<close>

record ai_env =
  env_post :: "http_request \<Rightarrow> http_outcome"      \<comment> \<open>the HTTP client\<close>
  env_int_of :: "json \<Rightarrow> int option"             \<comment> \<open>the validation library's integer reading\<close>
  env_loads :: "pystr \<Rightarrow> json option"
  env_schema :: json

definition PROMPT_TEMPLATE_VERSION :: pystr where
  "PROMPT_TEMPLATE_VERSION = tx ''ai-workflow-v5''"

section \<open>Data\<close>

record task_ai_snapshot =
  tas_id :: uuid
  tas_state :: task_state
  tas_source_text :: pystr
  tas_creative_settings :: creative_settings
  tas_has_first_draft :: bool

record version_ai_snapshot =
  vas_id :: uuid
  vas_content :: pystr

record locked_fragment_snapshot =
  lfs_id :: uuid
  lfs_text :: pystr
  lfs_order_index :: int

record state_plan =
  sp_initial :: task_state
  sp_running :: task_state
  sp_succeeded :: task_state
  sp_failed :: task_state

record provider_metadata =
  pm_model_identifier :: pystr
  pm_prompt_template_version :: pystr
  pm_provider_request_id :: "pystr option"
  pm_input_tokens :: "int option"
  pm_output_tokens :: "int option"

record analysis_service_result =
  asr_state :: state_plan
  asr_analysis :: pystr                      \<comment> \<open>\<open>TextAnalysis(content=...)\<close>\<close>
  asr_metadata :: provider_metadata

record suggestions_service_result =
  ssr_state :: state_plan
  ssr_suggestions :: "suggestion list"
  ssr_metadata :: provider_metadata

record version_service_result =
  vsr_state :: state_plan
  vsr_parent_version_id :: "uuid option"
  vsr_kind :: version_kind
  vsr_content :: pystr
  vsr_instruction :: "pystr option"
  vsr_validation_status :: validation_status
  vsr_validation :: validation_result
  vsr_provenance :: "(pystr \<times> json) list"
  vsr_metadata :: provider_metadata

datatype service_error =
    ServiceValueError value_error
  | AiOperationFailed state_plan ai_error
  | ServiceCancelled
  | ServiceCrash

section \<open>Helpers\<close>

definition mk_state_plan ::
  "task_state \<Rightarrow> task_state \<Rightarrow> task_state \<Rightarrow> service_error + state_plan" where
  "mk_state_plan initial running succeeded =
     map_error ServiceValueError
       (bind_result (assert_transition initial running) (\<lambda>_.
        bind_result (assert_transition running succeeded) (\<lambda>_.
        Inr \<lparr>sp_initial = initial, sp_running = running, sp_succeeded = succeeded,
             sp_failed = initial\<rparr>)))"

definition to_ai_settings :: "creative_settings \<Rightarrow> service_error + ai_creative_settings" where
  "to_ai_settings s =
     map_error ServiceValueError (mk_ai_settings
       \<lparr>as_target_length_mode = ct_target_length_mode s,
        as_target_character_count = ct_target_characters s,
        as_persona = dumps (enc_persona (ct_persona s)),
        as_audience = dumps (enc_audience (ct_audience s)),
        as_language_style = dumps (enc_language_style (ct_language_style s)),
        as_content_structure = dumps (enc_content_structure (ct_content_structure s)),
        as_output_specification = dumps (enc_output_specification (ct_output_specification s)),
        as_hard_constraints = dumps (enc_hard_constraints (ct_hard_constraints s))\<rparr>)"

fun map_result :: "('a \<Rightarrow> 'e + 'b) \<Rightarrow> 'a list \<Rightarrow> 'e + 'b list" where
  "map_result f [] = Inr []"
| "map_result f (x # xs) =
     bind_result (f x) (\<lambda>y. bind_result (map_result f xs) (\<lambda>ys. Inr (y # ys)))"

definition to_ai_locks ::
  "locked_fragment_snapshot list \<Rightarrow> service_error + ai_locked_fragment list" where
  "to_ai_locks locks =
     map_error ServiceValueError
       (map_result (\<lambda>item. mk_ai_locked_fragment (uuid_str (lfs_id item)) (lfs_text item))
          (sort_key lfs_order_index locks))"

definition complete_call ::
  "ai_env \<Rightarrow> provider_config \<Rightarrow> completion_request \<Rightarrow> state_plan \<Rightarrow> service_error + completion_result"
where
  "complete_call env config request plan =
     (case complete (env_int_of env) (env_post env) config request of
        Reply r \<Rightarrow> Inr r
      | ReplyError e \<Rightarrow> Inl (AiOperationFailed plan e)
      | ReplyCancelled \<Rightarrow> Inl ServiceCancelled
      | ReplyCrash \<Rightarrow> Inl ServiceCrash)"

definition parse_reply ::
  "ai_env \<Rightarrow> completion_result \<Rightarrow> state_plan \<Rightarrow> service_error + suggestion list" where
  "parse_reply env response plan =
     map_error (AiOperationFailed plan) (parse_structured_output (env_loads env) (cs_text response))"

definition mk_metadata :: "pystr \<Rightarrow> completion_result \<Rightarrow> provider_metadata" where
  "mk_metadata model_identifier response =
     \<lparr>pm_model_identifier = model_identifier,
      pm_prompt_template_version = PROMPT_TEMPLATE_VERSION,
      pm_provider_request_id = cs_provider_request_id response,
      pm_input_tokens = pu_input_tokens (cs_usage response),
      pm_output_tokens = pu_output_tokens (cs_usage response)\<rparr>"

definition require_nonempty_text :: "completion_result \<Rightarrow> state_plan \<Rightarrow> service_error + unit" where
  "require_nonempty_text response plan =
     (if blank (cs_text response)
      then Inl (AiOperationFailed plan
        (mk_ai_error INVALID_RESPONSE True [(tx ''reason'', JStr (tx ''empty_content''))]))
      else Inr ())"

definition assert_selected_reference ::
  "analysis_result \<Rightarrow> selected_suggestion list \<Rightarrow> service_error + unit" where
  "assert_selected_reference a selected =
     (let issue_ids = analysis_reference_ids a;
          suggestion_ids = map (\<lambda>s. su_suggestion_id (ss_suggestion s)) selected
      in if length suggestion_ids \<noteq> length (remdups suggestion_ids)
         then Inl (ServiceValueError
           (ValueError ''Selected suggestion identifiers must be unique''))
         else if list_ex (\<lambda>s. \<not> list_all (\<lambda>i. i \<in> set issue_ids)
                (su_analysis_issue_ids (ss_suggestion s))) selected
         then Inl (ServiceValueError
           (ValueError ''A selected suggestion references an unknown analysis issue''))
         else Inr ())"

definition revision_plan :: "task_ai_snapshot \<Rightarrow> service_error + state_plan" where
  "revision_plan task =
     (if \<not> tas_has_first_draft task
      then Inl (ServiceValueError (ValueError ''A revision requires an existing first draft''))
      else mk_state_plan (tas_state task) REVISING EDITING)"

definition revision_result ::
  "state_plan \<Rightarrow> version_ai_snapshot \<Rightarrow> pystr \<Rightarrow> completion_result \<Rightarrow> validation_result \<Rightarrow> pystr \<Rightarrow>
   pystr \<Rightarrow> uuid list \<Rightarrow> selection option \<Rightarrow> (pystr \<times> json) list \<Rightarrow>
   service_error + version_service_result" where
  "revision_result plan parent instruction response validation model_identifier scope
     locked_fragment_ids sel extra_provenance =
     (if \<not> vr_valid validation
      then Inl (AiOperationFailed plan
        (mk_ai_error PRESERVATION_FAILED True (enc_validation validation)))
      else Inr
       \<lparr>vsr_state = plan, vsr_parent_version_id = Some (vas_id parent), vsr_kind = AI_REVISION,
        vsr_content = cs_text response, vsr_instruction = Some instruction,
        vsr_validation_status = SATISFIED, vsr_validation = validation,
        vsr_provenance =
          dict_merge
            ([(tx ''scope'', JStr scope),
              (tx ''locked_fragment_ids'', enc_strs (map uuid_str locked_fragment_ids))] @
             (case sel of None \<Rightarrow> []
              | Some s \<Rightarrow> [(tx ''selection'', JObj
                  [(tx ''start'', JInt (sel_start s)), (tx ''end'', JInt (sel_end s))])]))
            extra_provenance,
        vsr_metadata = mk_metadata model_identifier response\<rparr>)"

section \<open>TaskAiService\<close>

definition svc_analyze ::
  "ai_env \<Rightarrow> task_ai_snapshot \<Rightarrow> provider_config \<Rightarrow> pystr \<Rightarrow> service_error + analysis_service_result"
where
  "svc_analyze env task config model =
     bind_result (mk_state_plan (tas_state task) ANALYZING ANALYSIS_READY) (\<lambda>plan.
     bind_result (require (valid_source_text (tas_source_text task))
       (ServiceValueError (ValidationError ''AnalysisInput''))) (\<lambda>_.
     bind_result (map_error ServiceValueError (analysis_request model (tas_source_text task))) (\<lambda>request.
     bind_result (complete_call env config request plan) (\<lambda>response.
     bind_result (require_nonempty_text response plan) (\<lambda>_.
     Inr \<lparr>asr_state = plan, asr_analysis = cs_text response,
          asr_metadata = mk_metadata model response\<rparr>)))))"

definition svc_suggest ::
  "ai_env \<Rightarrow> task_ai_snapshot \<Rightarrow> analysis_result \<Rightarrow> provider_config \<Rightarrow> pystr \<Rightarrow> pystr \<Rightarrow>
   suggestion list \<Rightarrow> selected_suggestion list \<Rightarrow> service_error + suggestions_service_result" where
  "svc_suggest env task a config model member_context previous fixed =
     bind_result (mk_state_plan (tas_state task) SUGGESTING SUGGESTIONS_READY) (\<lambda>plan.
     bind_result (to_ai_settings (tas_creative_settings task)) (\<lambda>settings.
     bind_result (map_error ServiceValueError (mk_suggestions_input
       \<lparr>si_source_text = tas_source_text task, si_settings = settings, si_analysis = a,
        si_member_context = member_context, si_previous_suggestions = previous,
        si_fixed_suggestions = fixed\<rparr>)) (\<lambda>d.
     bind_result (map_error ServiceValueError (suggestions_request (env_schema env) model d)) (\<lambda>request.
     bind_result (complete_call env config request plan) (\<lambda>response.
     bind_result (parse_reply env response plan) (\<lambda>suggestions.
     if \<not> validate_suggestion_references a suggestions
     then Inl (AiOperationFailed plan
       (mk_ai_error INVALID_RESPONSE True [(tx ''reason'', JStr (tx ''unknown_analysis_issue''))]))
     else Inr \<lparr>ssr_state = plan, ssr_suggestions = suggestions,
               ssr_metadata = mk_metadata model response\<rparr>))))))"

definition svc_create_first_draft ::
  "ai_env \<Rightarrow> task_ai_snapshot \<Rightarrow> analysis_result \<Rightarrow> selected_suggestion list \<Rightarrow> provider_config \<Rightarrow>
   pystr \<Rightarrow> pystr \<Rightarrow> service_error + version_service_result" where
  "svc_create_first_draft env task a selected config model member_requirements =
     (if tas_has_first_draft task then Inl (ServiceValueError FirstDraftAlreadyExists)
      else
     bind_result (mk_state_plan (tas_state task) GENERATING EDITING) (\<lambda>plan.
     bind_result (assert_selected_reference a selected) (\<lambda>_.
     bind_result (to_ai_settings (tas_creative_settings task)) (\<lambda>settings.
     bind_result (map_error ServiceValueError (mk_first_draft_input
       \<lparr>fd_source_text = tas_source_text task, fd_settings = settings, fd_analysis = a,
        fd_selected_suggestions = selected, fd_member_requirements = member_requirements\<rparr>)) (\<lambda>d.
     bind_result (map_error ServiceValueError (first_draft_request model d)) (\<lambda>request.
     bind_result (complete_call env config request plan) (\<lambda>response.
     bind_result (require_nonempty_text response plan) (\<lambda>_.
     Inr
      \<lparr>vsr_state = plan, vsr_parent_version_id = None, vsr_kind = FIRST_DRAFT_VERSION,
       vsr_content = cs_text response,
       vsr_instruction = (if member_requirements = [] then None else Some member_requirements),
       vsr_validation_status = NOT_CHECKED,
       vsr_validation = \<lparr>vr_valid = True, vr_violations = []\<rparr>,
       vsr_provenance =
         [(tx ''analysis_issue_ids'', enc_strs
             (case a of StructuredAnalysis x \<Rightarrow> ac_key_issue_ids (an_conclusion x)
              | TextAnalysis _ \<Rightarrow> [tx ''analysis''])),
          (tx ''selected_suggestion_ids'',
           enc_strs (map (\<lambda>s. su_suggestion_id (ss_suggestion s)) selected))],
       vsr_metadata = mk_metadata model response\<rparr>))))))))"

definition svc_revise_full ::
  "ai_env \<Rightarrow> task_ai_snapshot \<Rightarrow> version_ai_snapshot \<Rightarrow> pystr \<Rightarrow> locked_fragment_snapshot list \<Rightarrow>
   provider_config \<Rightarrow> pystr \<Rightarrow> service_error + version_service_result" where
  "svc_revise_full env task parent instruction locks config model =
     bind_result (revision_plan task) (\<lambda>plan.
     bind_result (to_ai_locks locks) (\<lambda>ordered_locks.
     bind_result (to_ai_settings (tas_creative_settings task)) (\<lambda>settings.
     bind_result (map_error ServiceValueError (mk_full_revision_input
       \<lparr>fr_parent_text = vas_content parent, fr_instruction = instruction, fr_settings = settings,
        fr_locked_fragments = ordered_locks\<rparr>)) (\<lambda>d.
     bind_result (map_error ServiceValueError (full_revision_request model d)) (\<lambda>request.
     bind_result (complete_call env config request plan) (\<lambda>response.
     bind_result (require_nonempty_text response plan) (\<lambda>_.
     revision_result plan parent instruction response
       (validate_locked_fragments (cs_text response) ordered_locks) model (tx ''full'')
       (map lfs_id locks) None [])))))))"

definition default_regeneration_note :: pystr where
  "default_regeneration_note = [25353, 24403, 21069, 20248, 21270, 26041, 26696, 37325, 26032, 29983, 25104]"

definition svc_regenerate_from_suggestions ::
  "ai_env \<Rightarrow> task_ai_snapshot \<Rightarrow> version_ai_snapshot \<Rightarrow> analysis_result \<Rightarrow> selected_suggestion list \<Rightarrow>
   pystr \<Rightarrow> locked_fragment_snapshot list \<Rightarrow> provider_config \<Rightarrow> pystr \<Rightarrow>
   service_error + version_service_result" where
  "svc_regenerate_from_suggestions env task parent a selected member_requirements locks config model =
     bind_result (revision_plan task) (\<lambda>plan.
     bind_result (assert_selected_reference a selected) (\<lambda>_.
     bind_result (to_ai_locks locks) (\<lambda>ordered_locks.
     bind_result (to_ai_settings (tas_creative_settings task)) (\<lambda>settings.
     bind_result (map_error ServiceValueError (mk_suggestion_regeneration_input
       \<lparr>fd_source_text = tas_source_text task, fd_settings = settings, fd_analysis = a,
        fd_selected_suggestions = selected, fd_member_requirements = member_requirements,
        rg_locked_fragments = ordered_locks\<rparr>)) (\<lambda>d.
     bind_result (map_error ServiceValueError (suggestion_regeneration_request model d)) (\<lambda>request.
     bind_result (complete_call env config request plan) (\<lambda>response.
     bind_result (require_nonempty_text response plan) (\<lambda>_.
     revision_result plan parent
       (if member_requirements = [] then default_regeneration_note else member_requirements) response
       (validate_locked_fragments (cs_text response) ordered_locks) model (tx ''suggestions'')
       (map lfs_id locks) None
       [(tx ''selected_suggestion_ids'',
         enc_strs (map (\<lambda>s. su_suggestion_id (ss_suggestion s)) selected))]))))))))"

definition svc_revise_selection ::
  "ai_env \<Rightarrow> task_ai_snapshot \<Rightarrow> version_ai_snapshot \<Rightarrow> selection \<Rightarrow> pystr \<Rightarrow>
   locked_fragment_snapshot list \<Rightarrow> provider_config \<Rightarrow> pystr \<Rightarrow> service_error + version_service_result"
where
  "svc_revise_selection env task parent sel instruction locks config model =
     bind_result (revision_plan task) (\<lambda>plan.
     bind_result (to_ai_locks locks) (\<lambda>ordered_locks.
     bind_result (to_ai_settings (tas_creative_settings task)) (\<lambda>settings.
     bind_result (map_error ServiceValueError (mk_selection_revision_input
       \<lparr>fr_parent_text = vas_content parent, fr_instruction = instruction, fr_settings = settings,
        fr_locked_fragments = ordered_locks, sr_selection = sel\<rparr>)) (\<lambda>d.
     bind_result (map_error ServiceValueError (selection_revision_request model d)) (\<lambda>request.
     bind_result (complete_call env config request plan) (\<lambda>response.
     bind_result (require_nonempty_text response plan) (\<lambda>_.
     revision_result plan parent instruction response
       (validate_selection_revision (vas_content parent) (cs_text response) sel ordered_locks) model
       (tx ''selection'') (map lfs_id locks) (Some sel) [])))))))"

end
