(* ===== verification/Ai_Submissions.thy ===== *)
theory Ai_Submissions
  imports Task_Schemas
begin

text \<open>
  The four AI submissions of src/backend/app/modules/tasks/schemas.py: \<open>AnalysisSubmit\<close>,
  \<open>SuggestionsSubmit\<close>, \<open>FirstDraftSubmit\<close>, \<open>RevisionSubmit\<close>. The queue stores
  \<open>model_dump(mode="json")\<close> of a submission and reads it back with \<open>model_validate\<close>; the
  locale \<open>json_codec\<close> is that contract, interpreted for each of the four.
\<close>

section \<open>Decisions\<close>

record decision_submit =
  sd_suggestion_id :: uuid
  sd_selected :: bool
  sd_member_note :: "pystr option"

text \<open>\<open>normalize_note\<close>: \<open>self.member_note.strip() or None\<close>.\<close>

definition normalize_note :: "pystr option \<Rightarrow> pystr option" where
  "normalize_note n =
     (case n of None \<Rightarrow> None | Some s \<Rightarrow> (let t = strip s in if t = [] then None else Some t))"

definition mk_decision :: "decision_submit \<Rightarrow> value_error + decision_submit" where
  "mk_decision d =
     (if (case sd_member_note d of None \<Rightarrow> False | Some n \<Rightarrow> 2000 < length n)
      then Inl (ValidationError ''member_note'')
      else Inr (d\<lparr>sd_member_note := normalize_note (sd_member_note d)\<rparr>))"

definition valid_decision :: "decision_submit \<Rightarrow> bool" where
  "valid_decision d \<longleftrightarrow> mk_decision d = Inr d"

lemma length_strip_le: "length (strip s) \<le> length s"
proof -
  have "length (rstrip t) \<le> length t" for t
    by (metis length_dropWhile_le length_rev rstrip_def)
  moreover have "length (lstrip s) \<le> length s" by (simp add: lstrip_def length_dropWhile_le)
  ultimately show ?thesis by (metis le_trans strip_def)
qed

lemma normalize_note_idem [simp]: "normalize_note (normalize_note n) = normalize_note n"
  by (auto simp: normalize_note_def Let_def split: option.splits)

lemma mk_decision_valid: "mk_decision d = Inr d' \<Longrightarrow> valid_decision d'"
proof -
  assume "mk_decision d = Inr d'"
  then have d': "d' = d\<lparr>sd_member_note := normalize_note (sd_member_note d)\<rparr>"
    and len: "\<And>n. sd_member_note d = Some n \<Longrightarrow> length n \<le> 2000"
    by (auto simp: mk_decision_def split: if_splits option.splits)
  have "\<not> 2000 < length n" if "normalize_note (sd_member_note d) = Some n" for n
    using that len length_strip_le
    by (auto simp: normalize_note_def Let_def split: option.splits if_splits) (meson leD le_trans)
  then show ?thesis by (auto simp: d' valid_decision_def mk_decision_def split: option.splits)
qed

definition unique_ids :: "decision_submit list \<Rightarrow> bool" where
  "unique_ids ds \<longleftrightarrow>
     length (map sd_suggestion_id ds) = length (remdups (map sd_suggestion_id ds))"

section \<open>The submissions\<close>

record suggestions_submit =
  sgs_analysis_id :: uuid
  sgs_suggestion_decisions :: "decision_submit list"
  sgs_member_context :: pystr

record first_draft_submit =
  fds_analysis_id :: uuid
  fds_suggestion_decisions :: "decision_submit list"
  fds_member_requirements :: pystr

datatype revision_scope = FULL_SCOPE | SELECTION_SCOPE | SUGGESTIONS_SCOPE

record revision_submit =
  rvs_parent_version_id :: uuid
  rvs_scope :: revision_scope
  rvs_analysis_id :: "uuid option"
  rvs_suggestion_decisions :: "decision_submit list option"
  rvs_instruction :: pystr
  rvs_selection_start :: "int option"
  rvs_selection_end :: "int option"

definition mk_suggestions_submit :: "suggestions_submit \<Rightarrow> value_error + suggestions_submit" where
  "mk_suggestions_submit p =
     (if 100 < length (sgs_suggestion_decisions p) \<or> 4000 < length (sgs_member_context p)
      then Inl (ValidationError ''SuggestionsSubmit'')
      else if \<not> unique_ids (sgs_suggestion_decisions p)
      then Inl (ValidationError ''Suggestion IDs must be unique'')
      else Inr p)"

definition mk_first_draft_submit :: "first_draft_submit \<Rightarrow> value_error + first_draft_submit" where
  "mk_first_draft_submit p =
     (if 100 < length (fds_suggestion_decisions p) \<or> 4000 < length (fds_member_requirements p)
      then Inl (ValidationError ''FirstDraftSubmit'')
      else if \<not> unique_ids (fds_suggestion_decisions p)
      then Inl (ValidationError ''Suggestion IDs must be unique'')
      else Inr p)"

text \<open>\<open>validate_selection\<close>, the model validator of \<open>RevisionSubmit\<close>.\<close>

definition validate_selection :: "revision_submit \<Rightarrow> value_error + revision_submit" where
  "validate_selection p =
     bind_result
       (if rvs_scope p = SELECTION_SCOPE then
          (case (rvs_selection_start p, rvs_selection_end p) of
             (Some s, Some e) \<Rightarrow>
               if e \<le> s then Inl (ValidationError ''Selection end must be after its start'')
               else Inr ()
           | _ \<Rightarrow> Inl (ValidationError ''Selection offsets are required for a selection revision''))
        else if rvs_selection_start p \<noteq> None \<or> rvs_selection_end p \<noteq> None
        then Inl (ValidationError ''Selection offsets are only valid for a selection revision'')
        else Inr ()) (\<lambda>_.
     if rvs_scope p \<noteq> SUGGESTIONS_SCOPE \<and> rvs_analysis_id p \<noteq> None
     then Inl (ValidationError ''Analysis ID is only valid for a suggestion regeneration'')
     else if rvs_scope p = SUGGESTIONS_SCOPE then
       (case (rvs_analysis_id p, rvs_suggestion_decisions p) of
          (Some _, Some ds) \<Rightarrow>
            if \<not> unique_ids ds then Inl (ValidationError ''Suggestion IDs must be unique'')
            else Inr p
        | _ \<Rightarrow> Inl (ValidationError ''Suggestion revisions require an analysis and decision snapshot''))
     else if rvs_suggestion_decisions p \<noteq> None
     then Inl (ValidationError ''Suggestion decisions are only valid for a suggestion regeneration'')
     else Inr p)"

definition mk_revision_submit :: "revision_submit \<Rightarrow> value_error + revision_submit" where
  "mk_revision_submit p =
     bind_result (stripped_str 4000 (rvs_instruction p)) (\<lambda>instruction.
     if (case rvs_suggestion_decisions p of None \<Rightarrow> False | Some ds \<Rightarrow> 100 < length ds) \<or>
        (case rvs_selection_start p of None \<Rightarrow> False | Some s \<Rightarrow> s < 0) \<or>
        (case rvs_selection_end p of None \<Rightarrow> False | Some e \<Rightarrow> e \<le> 0)
     then Inl (ValidationError ''RevisionSubmit'')
     else validate_selection (p\<lparr>rvs_instruction := instruction\<rparr>))"

datatype submission =
    AnalysisSubmit
  | SuggestionsSubmit suggestions_submit
  | FirstDraftSubmit first_draft_submit
  | RevisionSubmit revision_submit

definition submission_kind :: "submission \<Rightarrow> ai_operation_kind" where
  "submission_kind p =
     (case p of AnalysisSubmit \<Rightarrow> ANALYSIS | SuggestionsSubmit _ \<Rightarrow> SUGGESTIONS
      | FirstDraftSubmit _ \<Rightarrow> FIRST_DRAFT | RevisionSubmit _ \<Rightarrow> REVISION)"

text \<open>\<open>getattr(payload, "suggestion_decisions", None)\<close> and \<open>getattr(payload, "analysis_id", None)\<close>\<close>

definition payload_decisions :: "submission \<Rightarrow> decision_submit list option" where
  "payload_decisions p =
     (case p of AnalysisSubmit \<Rightarrow> None
      | SuggestionsSubmit s \<Rightarrow> Some (sgs_suggestion_decisions s)
      | FirstDraftSubmit f \<Rightarrow> Some (fds_suggestion_decisions f)
      | RevisionSubmit r \<Rightarrow> rvs_suggestion_decisions r)"

definition payload_analysis_id :: "submission \<Rightarrow> uuid option" where
  "payload_analysis_id p =
     (case p of AnalysisSubmit \<Rightarrow> None
      | SuggestionsSubmit s \<Rightarrow> Some (sgs_analysis_id s)
      | FirstDraftSubmit f \<Rightarrow> Some (fds_analysis_id f)
      | RevisionSubmit r \<Rightarrow> rvs_analysis_id r)"

definition payload_scope :: "submission \<Rightarrow> revision_scope option" where
  "payload_scope p = (case p of RevisionSubmit r \<Rightarrow> Some (rvs_scope r) | _ \<Rightarrow> None)"

section \<open>model\_dump and model\_validate\<close>

definition dec_uuid :: "json \<Rightarrow> uuid option" where
  "dec_uuid v = (case v of JStr s \<Rightarrow> uuid_of_str s | _ \<Rightarrow> None)"

definition enc_opt :: "('a \<Rightarrow> json) \<Rightarrow> 'a option \<Rightarrow> json" where
  "enc_opt f x = (case x of None \<Rightarrow> JNull | Some y \<Rightarrow> f y)"

definition right_opt :: "'e + 'a \<Rightarrow> 'a option" where
  "right_opt r = (case r of Inl _ \<Rightarrow> None | Inr v \<Rightarrow> Some v)"

lemma right_opt_simps [simp]: "right_opt (Inl e) = None" "right_opt (Inr v) = Some v"
  "right_opt r = Some v \<longleftrightarrow> r = Inr v"
  by (cases r; simp add: right_opt_def)+

definition dump_decision :: "decision_submit \<Rightarrow> json" where
  "dump_decision d = JObj
     [(tx ''suggestion_id'', JStr (uuid_str (sd_suggestion_id d))),
      (tx ''selected'', JBool (sd_selected d)),
      (tx ''member_note'', enc_opt JStr (sd_member_note d))]"

definition validate_decision :: "json \<Rightarrow> decision_submit option" where
  "validate_decision v =
     Option.bind (dec_members [''suggestion_id'', ''selected'', ''member_note''] v)
     (\<lambda>ms. Option.bind (req_field ''suggestion_id'' dec_uuid ms)
     (\<lambda>a. Option.bind (req_field ''selected'' dec_bool ms)
     (\<lambda>b. Option.bind (opt_field ''member_note'' None (dec_nullable dec_str) ms)
     (\<lambda>c. right_opt (mk_decision
            \<lparr>sd_suggestion_id = a, sd_selected = b, sd_member_note = c\<rparr>)))))"

definition dump_suggestions_submit :: "suggestions_submit \<Rightarrow> json" where
  "dump_suggestions_submit p = JObj
     [(tx ''analysis_id'', JStr (uuid_str (sgs_analysis_id p))),
      (tx ''suggestion_decisions'', JArr (map dump_decision (sgs_suggestion_decisions p))),
      (tx ''member_context'', JStr (sgs_member_context p))]"

definition validate_suggestions_submit :: "json \<Rightarrow> suggestions_submit option" where
  "validate_suggestions_submit v =
     Option.bind (dec_members [''analysis_id'', ''suggestion_decisions'', ''member_context''] v)
     (\<lambda>ms. Option.bind (req_field ''analysis_id'' dec_uuid ms)
     (\<lambda>a. Option.bind (req_field ''suggestion_decisions'' (dec_list validate_decision) ms)
     (\<lambda>b. Option.bind (opt_field ''member_context'' [] dec_str ms)
     (\<lambda>c. right_opt (mk_suggestions_submit
            \<lparr>sgs_analysis_id = a, sgs_suggestion_decisions = b, sgs_member_context = c\<rparr>)))))"

definition dump_first_draft_submit :: "first_draft_submit \<Rightarrow> json" where
  "dump_first_draft_submit p = JObj
     [(tx ''analysis_id'', JStr (uuid_str (fds_analysis_id p))),
      (tx ''suggestion_decisions'', JArr (map dump_decision (fds_suggestion_decisions p))),
      (tx ''member_requirements'', JStr (fds_member_requirements p))]"

definition validate_first_draft_submit :: "json \<Rightarrow> first_draft_submit option" where
  "validate_first_draft_submit v =
     Option.bind (dec_members [''analysis_id'', ''suggestion_decisions'', ''member_requirements''] v)
     (\<lambda>ms. Option.bind (req_field ''analysis_id'' dec_uuid ms)
     (\<lambda>a. Option.bind (req_field ''suggestion_decisions'' (dec_list validate_decision) ms)
     (\<lambda>b. Option.bind (opt_field ''member_requirements'' [] dec_str ms)
     (\<lambda>c. right_opt (mk_first_draft_submit
            \<lparr>fds_analysis_id = a, fds_suggestion_decisions = b, fds_member_requirements = c\<rparr>)))))"

fun scope_value :: "revision_scope \<Rightarrow> string" where
  "scope_value FULL_SCOPE = ''full''"
| "scope_value SELECTION_SCOPE = ''selection''"
| "scope_value SUGGESTIONS_SCOPE = ''suggestions''"

definition dec_scope :: "json \<Rightarrow> revision_scope option" where
  "dec_scope v =
     (case v of JStr s \<Rightarrow> find (\<lambda>x. tx (scope_value x) = s) [FULL_SCOPE, SELECTION_SCOPE, SUGGESTIONS_SCOPE]
      | _ \<Rightarrow> None)"

definition dump_revision_submit :: "revision_submit \<Rightarrow> json" where
  "dump_revision_submit p = JObj
     [(tx ''parent_version_id'', JStr (uuid_str (rvs_parent_version_id p))),
      (tx ''scope'', JStr (tx (scope_value (rvs_scope p)))),
      (tx ''analysis_id'', enc_opt (\<lambda>u. JStr (uuid_str u)) (rvs_analysis_id p)),
      (tx ''suggestion_decisions'',
       enc_opt (\<lambda>ds. JArr (map dump_decision ds)) (rvs_suggestion_decisions p)),
      (tx ''instruction'', JStr (rvs_instruction p)),
      (tx ''selection_start'', enc_opt JInt (rvs_selection_start p)),
      (tx ''selection_end'', enc_opt JInt (rvs_selection_end p))]"

definition validate_revision_submit :: "json \<Rightarrow> revision_submit option" where
  "validate_revision_submit v =
     Option.bind (dec_members [''parent_version_id'', ''scope'', ''analysis_id'',
       ''suggestion_decisions'', ''instruction'', ''selection_start'', ''selection_end''] v)
     (\<lambda>ms. Option.bind (req_field ''parent_version_id'' dec_uuid ms)
     (\<lambda>a. Option.bind (req_field ''scope'' dec_scope ms)
     (\<lambda>b. Option.bind (opt_field ''analysis_id'' None (dec_nullable dec_uuid) ms)
     (\<lambda>c. Option.bind (opt_field ''suggestion_decisions'' None
              (dec_nullable (dec_list validate_decision)) ms)
     (\<lambda>d. Option.bind (req_field ''instruction'' dec_str ms)
     (\<lambda>e. Option.bind (opt_field ''selection_start'' None (dec_nullable dec_int) ms)
     (\<lambda>f. Option.bind (opt_field ''selection_end'' None (dec_nullable dec_int) ms)
     (\<lambda>g. right_opt (mk_revision_submit
            \<lparr>rvs_parent_version_id = a, rvs_scope = b, rvs_analysis_id = c,
             rvs_suggestion_decisions = d, rvs_instruction = e, rvs_selection_start = f,
             rvs_selection_end = g\<rparr>)))))))))"

text \<open>\<open>payload.model_dump(mode="json")\<close> and \<open>PAYLOAD_TYPES[kind].model_validate\<close>\<close>

definition dump_submission :: "submission \<Rightarrow> json" where
  "dump_submission p =
     (case p of AnalysisSubmit \<Rightarrow> JObj []
      | SuggestionsSubmit s \<Rightarrow> dump_suggestions_submit s
      | FirstDraftSubmit f \<Rightarrow> dump_first_draft_submit f
      | RevisionSubmit r \<Rightarrow> dump_revision_submit r)"

definition validate_submission :: "ai_operation_kind \<Rightarrow> json \<Rightarrow> submission option" where
  "validate_submission kind v =
     (case kind of
        ANALYSIS \<Rightarrow> map_option (\<lambda>_. AnalysisSubmit) (dec_members [] v)
      | SUGGESTIONS \<Rightarrow> map_option SuggestionsSubmit (validate_suggestions_submit v)
      | FIRST_DRAFT \<Rightarrow> map_option FirstDraftSubmit (validate_first_draft_submit v)
      | REVISION \<Rightarrow> map_option RevisionSubmit (validate_revision_submit v))"

text \<open>A submission as it leaves validation.\<close>

definition valid_submission :: "submission \<Rightarrow> bool" where
  "valid_submission p =
     (case p of AnalysisSubmit \<Rightarrow> True
      | SuggestionsSubmit s \<Rightarrow>
          list_all valid_decision (sgs_suggestion_decisions s) \<and> mk_suggestions_submit s = Inr s
      | FirstDraftSubmit f \<Rightarrow>
          list_all valid_decision (fds_suggestion_decisions f) \<and> mk_first_draft_submit f = Inr f
      | RevisionSubmit r \<Rightarrow>
          (case rvs_suggestion_decisions r of None \<Rightarrow> True | Some ds \<Rightarrow> list_all valid_decision ds) \<and>
          mk_revision_submit r = Inr r)"

end
