(* ===== verification/Task_Store.thy ===== *)
theory Task_Store
  imports Ai_Service Ai_Submissions
begin

text \<open>
  The database: the tables of src/backend/app/modules/tasks/models.py and
  src/backend/app/modules/identity/models.py with the constraints they declare, and the repositories
  of src/backend/app/modules/tasks/repository.py.

  A table is the list of its rows in insertion order. A unit of work is a function from the database
  to \<open>Inl exception\<close> (the session is rolled back: the database is what it was) or
  \<open>Inr (result, database)\<close> after \<open>commit\<close>. The clock reading \<open>now\<close> and the values \<open>uuid4()\<close>
  returns are arguments. \<open>commit\<close> refuses what the declared constraints refuse: \<open>IntegrityError\<close> for
  primary keys, unique and foreign keys and checks, \<open>DataError\<close> for a value longer than its
  \<open>String(n)\<close> column.
\<close>

section \<open>Exceptions\<close>

datatype task_exc =
    TaskAiExecutionError string pystr int "(pystr \<times> json) list"
  | TaskApiError string pystr int "(pystr \<times> json) list"
  | MemberAiCallBusyError
  | AiLockUnavailableError
  | TaskNotFoundError
  | PresetNotFoundError
  | IntegrityError
  | DataError
  | PyValueError value_error
  | KeyError
  | AssertionError
  | AttributeError
  | TypeError
  | CancelledError
  | ProviderCrash                   \<comment> \<open>an exception of the provider call that is not an \<open>AiError\<close>\<close>

definition ai_exc :: "string \<Rightarrow> pystr \<Rightarrow> int \<Rightarrow> task_exc" where
  "ai_exc code message status = TaskAiExecutionError code message status []"

definition api_exc :: "string \<Rightarrow> pystr \<Rightarrow> int \<Rightarrow> task_exc" where
  "api_exc code message status = TaskApiError code message status []"

section \<open>Tables\<close>

datatype member_role = MEMBER | ADMIN

record member =
  m_id :: uuid
  m_username :: pystr
  m_display_name :: pystr
  m_password_hash :: pystr
  m_role :: member_role
  m_is_active :: bool
  m_created_at :: instant
  m_updated_at :: instant

record provider_setting =
  ps_id :: uuid
  ps_member_id :: uuid
  ps_encrypted_api_key :: "nat list"
  ps_base_url :: pystr
  ps_model_id :: pystr
  ps_timeout_seconds :: int
  ps_created_at :: instant
  ps_updated_at :: instant

text \<open>\<open>t_creative_settings = None\<close> is the JSON null that an explicit null in an update leaves.\<close>

record rewrite_task =
  t_id :: uuid
  t_owner_id :: uuid
  t_name :: pystr
  t_source_text :: pystr
  t_creative_settings :: "creative_settings option"
  t_state :: task_state
  t_archived_from_state :: "task_state option"
  t_finalized_at :: "instant option"
  t_created_at :: instant
  t_updated_at :: instant

record creative_preset =
  cp_id :: uuid
  cp_owner_id :: uuid
  cp_name :: pystr
  cp_settings :: creative_settings
  cp_created_at :: instant
  cp_updated_at :: instant

record analysis_record =
  ar_id :: uuid
  ar_task_id :: uuid
  ar_sequence :: int
  ar_payload :: json
  ar_member_notes :: "pystr option"
  ar_is_selected :: bool
  ar_prompt_template_version :: pystr
  ar_model_identifier :: pystr
  ar_created_at :: instant
  ar_updated_at :: instant

record suggestion_record =
  sr_id :: uuid
  sr_task_id :: uuid
  sr_analysis_id :: uuid
  sr_suggestion_key :: pystr
  sr_analysis_issue_ids :: "pystr list"
  sr_priority :: suggestion_priority
  sr_title :: pystr
  sr_problem :: pystr
  sr_direction :: pystr
  sr_reason :: pystr
  sr_impact_scope :: pystr
  sr_example :: "pystr option"
  sr_decision :: suggestion_decision
  sr_member_note :: "pystr option"
  sr_created_at :: instant
  sr_updated_at :: instant

record script_version =
  v_id :: uuid
  v_task_id :: uuid
  v_parent_id :: "uuid option"
  v_kind :: version_kind
  v_content :: pystr
  v_instruction :: "pystr option"
  v_provenance :: "(pystr \<times> json) list"
  v_validation_status :: validation_status
  v_validation_details :: "(pystr \<times> json) list"
  v_is_current_final :: bool
  v_created_at :: instant
  v_updated_at :: instant

record locked_fragment =
  l_id :: uuid
  l_task_id :: uuid
  l_source_version_id :: uuid
  l_text :: pystr
  l_start_offset :: int
  l_end_offset :: int
  l_order_index :: int
  l_note :: "pystr option"
  l_created_at :: instant
  l_updated_at :: instant

record ai_operation =
  o_id :: uuid
  o_owner_id :: uuid
  o_task_id :: uuid
  o_kind :: ai_operation_kind
  o_status :: ai_operation_status
  o_idempotency_key :: "pystr option"
  o_request_hash :: pystr
  o_request_payload :: json
  o_request_id :: "pystr option"
  o_task_name :: pystr
  o_initial_task_state :: task_state
  o_running_task_state :: task_state
  o_completed_task_state :: "task_state option"
  o_resource_type :: "pystr option"
  o_resource_id :: "uuid option"
  o_error_code :: "pystr option"
  o_error_message :: "pystr option"
  o_error_details :: "(pystr \<times> json) list"
  o_provider_request_id :: "pystr option"
  o_started_at :: "instant option"
  o_completed_at :: "instant option"
  o_created_at :: instant
  o_updated_at :: instant

record db =
  members :: "member list"
  provider_settings :: "provider_setting list"
  tasks :: "rewrite_task list"
  presets :: "creative_preset list"
  analyses :: "analysis_record list"
  suggestions :: "suggestion_record list"
  versions :: "script_version list"
  locks :: "locked_fragment list"
  operations :: "ai_operation list"

definition ACTIVE_STATUSES :: "ai_operation_status list" where
  "ACTIVE_STATUSES = [QUEUED, RUNNING]"

definition active :: "ai_operation \<Rightarrow> bool" where
  "active op \<longleftrightarrow> o_status op \<in> set ACTIVE_STATUSES"

section \<open>Declared constraints\<close>

text \<open>The unique constraint on the idempotency key leaves out rows whose key is null.\<close>

definition op_scope :: "ai_operation \<Rightarrow> uuid \<times> uuid \<times> ai_operation_kind \<times> pystr option" where
  "op_scope op = (o_owner_id op, o_task_id op, o_kind op, o_idempotency_key op)"

definition unique_keys :: "db \<Rightarrow> bool" where
  "unique_keys d \<longleftrightarrow>
     distinct (map m_id (members d)) \<and> distinct (map m_username (members d)) \<and>
     distinct (map ps_id (provider_settings d)) \<and> distinct (map ps_member_id (provider_settings d)) \<and>
     distinct (map t_id (tasks d)) \<and>
     distinct (map cp_id (presets d)) \<and> distinct (map (\<lambda>p. (cp_owner_id p, cp_name p)) (presets d)) \<and>
     distinct (map ar_id (analyses d)) \<and> distinct (map (\<lambda>a. (ar_task_id a, ar_sequence a)) (analyses d)) \<and>
     distinct (map sr_id (suggestions d)) \<and> distinct (map v_id (versions d)) \<and>
     distinct (map l_id (locks d)) \<and> distinct (map (\<lambda>l. (l_task_id l, l_order_index l)) (locks d)) \<and>
     distinct (map o_id (operations d)) \<and>
     distinct (map op_scope (filter (\<lambda>op. o_idempotency_key op \<noteq> None) (operations d))) \<and>
     distinct (map o_task_id (filter active (operations d)))"

definition checks_hold :: "db \<Rightarrow> bool" where
  "checks_hold d \<longleftrightarrow>
     list_all (\<lambda>t. length (t_source_text t) \<le> 20000) (tasks d) \<and>
     list_all (\<lambda>l. 0 \<le> l_start_offset l \<and> l_start_offset l < l_end_offset l) (locks d)"

definition references_hold :: "db \<Rightarrow> bool" where
  "references_hold d \<longleftrightarrow>
     list_all (\<lambda>p. ps_member_id p \<in> m_id ` set (members d)) (provider_settings d) \<and>
     list_all (\<lambda>t. t_owner_id t \<in> m_id ` set (members d)) (tasks d) \<and>
     list_all (\<lambda>p. cp_owner_id p \<in> m_id ` set (members d)) (presets d) \<and>
     list_all (\<lambda>a. ar_task_id a \<in> t_id ` set (tasks d)) (analyses d) \<and>
     list_all (\<lambda>s. sr_task_id s \<in> t_id ` set (tasks d) \<and> sr_analysis_id s \<in> ar_id ` set (analyses d))
       (suggestions d) \<and>
     list_all (\<lambda>v. v_task_id v \<in> t_id ` set (tasks d) \<and>
                   (case v_parent_id v of None \<Rightarrow> True | Some p \<Rightarrow> p \<in> v_id ` set (versions d)))
       (versions d) \<and>
     list_all (\<lambda>l. l_task_id l \<in> t_id ` set (tasks d) \<and> l_source_version_id l \<in> v_id ` set (versions d))
       (locks d) \<and>
     list_all (\<lambda>op. o_owner_id op \<in> m_id ` set (members d) \<and> o_task_id op \<in> t_id ` set (tasks d))
       (operations d)"

definition integrity_ok :: "db \<Rightarrow> bool" where
  "integrity_ok d \<longleftrightarrow> unique_keys d \<and> checks_hold d \<and> references_hold d"

definition fits_column :: "nat \<Rightarrow> pystr option \<Rightarrow> bool" where
  "fits_column n s \<longleftrightarrow> (case s of None \<Rightarrow> True | Some x \<Rightarrow> length x \<le> n)"

definition op_columns_ok :: "ai_operation \<Rightarrow> bool" where
  "op_columns_ok op \<longleftrightarrow>
     fits_column 200 (o_idempotency_key op) \<and> length (o_request_hash op) \<le> 64 \<and>
     fits_column 80 (o_request_id op) \<and> length (o_task_name op) \<le> 200 \<and>
     fits_column 32 (o_resource_type op) \<and> fits_column 80 (o_error_code op) \<and>
     fits_column 500 (o_error_message op) \<and> fits_column 200 (o_provider_request_id op)"

definition columns_ok :: "db \<Rightarrow> bool" where
  "columns_ok d \<longleftrightarrow>
     list_all (\<lambda>m. length (m_username m) \<le> 64 \<and> length (m_display_name m) \<le> 100 \<and>
                   length (m_password_hash m) \<le> 255) (members d) \<and>
     list_all (\<lambda>p. length (ps_base_url p) \<le> 500 \<and> length (ps_model_id p) \<le> 150) (provider_settings d) \<and>
     list_all (\<lambda>t. length (t_name t) \<le> 160) (tasks d) \<and>
     list_all (\<lambda>p. length (cp_name p) \<le> 120) (presets d) \<and>
     list_all (\<lambda>a. length (ar_prompt_template_version a) \<le> 32 \<and> length (ar_model_identifier a) \<le> 160)
       (analyses d) \<and>
     list_all (\<lambda>s. length (sr_suggestion_key s) \<le> 80 \<and> length (sr_title s) \<le> 160) (suggestions d) \<and>
     list_all op_columns_ok (operations d)"

definition flush :: "db \<Rightarrow> task_exc + db" where
  "flush d = (if \<not> columns_ok d then Inl DataError
              else if \<not> integrity_ok d then Inl IntegrityError else Inr d)"

definition commit :: "'r \<Rightarrow> db \<Rightarrow> task_exc + 'r \<times> db" where
  "commit r d = bind_result (flush d) (\<lambda>d'. Inr (r, d'))"

definition db_ok :: "db \<Rightarrow> bool" where
  "db_ok d \<longleftrightarrow> columns_ok d \<and> integrity_ok d"

lemma flush_Inr_iff [simp]: "flush d = Inr d' \<longleftrightarrow> d' = d \<and> db_ok d"
  by (auto simp: flush_def db_ok_def)

lemma commit_Inr_iff [simp]: "commit r d = Inr (r', d') \<longleftrightarrow> r' = r \<and> d' = d \<and> db_ok d"
  by (auto simp: commit_def bind_result_eq_Inr_iff)

text \<open>
  Saving a changed object: the mapper writes a row only when an attribute differs from the loaded
  value, and \<open>onupdate\<close> then stamps it; a bulk UPDATE stamps every row it matches.
\<close>

definition orm_save :: "('r \<Rightarrow> 'r) \<Rightarrow> ('r \<Rightarrow> 'r) \<Rightarrow> 'r \<Rightarrow> 'r" where
  "orm_save touch f r = (if f r = r then r else touch (f r))"

definition save_task :: "instant \<Rightarrow> uuid \<Rightarrow> (rewrite_task \<Rightarrow> rewrite_task) \<Rightarrow> db \<Rightarrow> db" where
  "save_task now i f d =
     d\<lparr>tasks := update_where (\<lambda>t. t_id t = i) (orm_save (\<lambda>t. t\<lparr>t_updated_at := now\<rparr>) f) (tasks d)\<rparr>"

definition save_operation :: "instant \<Rightarrow> uuid \<Rightarrow> (ai_operation \<Rightarrow> ai_operation) \<Rightarrow> db \<Rightarrow> db" where
  "save_operation now i f d =
     d\<lparr>operations :=
         update_where (\<lambda>op. o_id op = i) (orm_save (\<lambda>op. op\<lparr>o_updated_at := now\<rparr>) f) (operations d)\<rparr>"

definition find_task :: "db \<Rightarrow> uuid \<Rightarrow> rewrite_task option" where
  "find_task d i = find (\<lambda>t. t_id t = i) (tasks d)"

definition find_operation :: "db \<Rightarrow> uuid \<Rightarrow> ai_operation option" where
  "find_operation d i = find (\<lambda>op. o_id op = i) (operations d)"

text \<open>\<open>ORDER BY created_at, id\<close> and the like: a stable sort by the last key first.\<close>

definition order_by2 :: "('r \<Rightarrow> 'a :: linorder) \<Rightarrow> ('r \<Rightarrow> 'b :: linorder) \<Rightarrow> 'r list \<Rightarrow> 'r list" where
  "order_by2 k1 k2 rows = sort_key k1 (sort_key k2 rows)"

lemma set_order_by2 [simp]: "set (order_by2 k1 k2 xs) = set xs"
  by (simp add: order_by2_def)

section \<open>repository.py\<close>

definition new_task :: "uuid \<Rightarrow> instant \<Rightarrow> uuid \<Rightarrow> pystr \<Rightarrow> pystr \<Rightarrow> creative_settings \<Rightarrow> rewrite_task" where
  "new_task i now owner_id name source_text settings =
     \<lparr>t_id = i, t_owner_id = owner_id, t_name = name, t_source_text = source_text,
      t_creative_settings = Some settings, t_state = DRAFT, t_archived_from_state = None,
      t_finalized_at = None, t_created_at = now, t_updated_at = now\<rparr>"

definition add_task :: "rewrite_task \<Rightarrow> db \<Rightarrow> db" where
  "add_task t d = d\<lparr>tasks := tasks d @ [t]\<rparr>"

definition repo_create :: "uuid \<Rightarrow> instant \<Rightarrow> uuid \<Rightarrow> task_create \<Rightarrow> db \<Rightarrow> task_exc + rewrite_task \<times> db" where
  "repo_create i now owner_id payload d =
     (let t = new_task i now owner_id (tc_name payload) (tc_source_text payload)
                (tc_creative_settings payload)
      in bind_result (flush (add_task t d)) (\<lambda>d'. Inr (t, d')))"

definition repo_get_owned :: "uuid \<Rightarrow> uuid \<Rightarrow> db \<Rightarrow> task_exc + rewrite_task" where
  "repo_get_owned task_id owner_id d =
     of_option TaskNotFoundError (find (\<lambda>t. t_id t = task_id \<and> t_owner_id t = owner_id) (tasks d))"

text \<open>
  \<open>ilike\<close> is the database's case-insensitive pattern match: the parameter \<open>ilike name pattern\<close>. An
  empty search string is no search. \<open>max_int\<close> is the greatest integer the database driver binds, \<open>2 ^ 31 - 1\<close>
  for PostgreSQL's and \<open>2 ^ 63 - 1\<close> for SQLite's; the offset is any natural number.
\<close>

definition repo_list_owned ::
  "(pystr \<Rightarrow> pystr \<Rightarrow> bool) \<Rightarrow> nat \<Rightarrow> uuid \<Rightarrow> pystr option \<Rightarrow> task_state option \<Rightarrow> bool \<Rightarrow> nat \<Rightarrow> nat \<Rightarrow>
   db \<Rightarrow> task_exc + rewrite_task list" where
  "repo_list_owned ilike max_int owner_id search state archived offset limit d =
     (let rows = filter (\<lambda>t. t_owner_id t = owner_id) (tasks d);
          rows = (case search of None \<Rightarrow> rows
                  | Some s \<Rightarrow> if s = [] then rows
                      else filter (\<lambda>t. ilike (t_name t) (tx ''%'' @ strip s @ tx ''%'')) rows);
          rows = (case state of
                    Some s \<Rightarrow> filter (\<lambda>t. t_state t = s) rows
                  | None \<Rightarrow> if archived then filter (\<lambda>t. t_state t = ARCHIVED) rows
                            else filter (\<lambda>t. t_state t \<noteq> ARCHIVED) rows)
      in if max_int < offset then Inl DataError
         else Inr (take limit (drop offset (sort_key (\<lambda>t. - t_updated_at t) rows))))"

text \<open>\<open>setattr\<close> for the members of \<open>model_dump(exclude_unset=True)\<close>: a null name or source text
  reaches a NOT NULL column.\<close>

definition apply_task_update :: "task_update \<Rightarrow> rewrite_task \<Rightarrow> task_exc + rewrite_task" where
  "apply_task_update p t =
     bind_result (case tu_name p of None \<Rightarrow> Inr t | Some None \<Rightarrow> Inl IntegrityError
                  | Some (Some n) \<Rightarrow> Inr (t\<lparr>t_name := n\<rparr>)) (\<lambda>t.
     bind_result (case tu_source_text p of None \<Rightarrow> Inr t | Some None \<Rightarrow> Inl IntegrityError
                  | Some (Some s) \<Rightarrow> Inr (t\<lparr>t_source_text := s\<rparr>)) (\<lambda>t.
     Inr (case tu_creative_settings p of None \<Rightarrow> t | Some c \<Rightarrow> t\<lparr>t_creative_settings := c\<rparr>)))"

definition repo_update_draft ::
  "instant \<Rightarrow> rewrite_task \<Rightarrow> task_update \<Rightarrow> db \<Rightarrow> task_exc + rewrite_task \<times> db" where
  "repo_update_draft now t payload d =
     (if t_state t \<noteq> DRAFT
      then Inl (PyValueError
        (ValueError ''Only draft tasks can change source text or creative settings''))
      else
        bind_result (apply_task_update payload t) (\<lambda>t'.
        let saved = orm_save (\<lambda>t. t\<lparr>t_updated_at := now\<rparr>) (\<lambda>_. t') t in
        bind_result (flush (d\<lparr>tasks := update_where (\<lambda>r. t_id r = t_id t) (\<lambda>_. saved) (tasks d)\<rparr>)) (\<lambda>d'.
        Inr (saved, d'))))"

definition repo_copy :: "uuid \<Rightarrow> instant \<Rightarrow> rewrite_task \<Rightarrow> uuid \<Rightarrow> db \<Rightarrow> task_exc + rewrite_task \<times> db" where
  "repo_copy i now source owner_id d =
     (case t_creative_settings source of
        None \<Rightarrow> Inl TypeError
      | Some settings \<Rightarrow>
          (let t = new_task i now owner_id (t_name source @ tx '' copy'') (t_source_text source) settings
           in bind_result (flush (add_task t d)) (\<lambda>d'. Inr (t, d'))))"

definition has_first_draft :: "uuid \<Rightarrow> db \<Rightarrow> bool" where
  "has_first_draft task_id d \<longleftrightarrow>
     length (filter (\<lambda>v. v_task_id v = task_id \<and> v_kind v = FIRST_DRAFT_VERSION) (versions d)) \<noteq> 0"

definition preset_list_owned :: "uuid \<Rightarrow> db \<Rightarrow> creative_preset list" where
  "preset_list_owned owner_id d =
     sort_key (\<lambda>p. - cp_updated_at p) (filter (\<lambda>p. cp_owner_id p = owner_id) (presets d))"

definition preset_get_owned :: "uuid \<Rightarrow> uuid \<Rightarrow> db \<Rightarrow> task_exc + creative_preset" where
  "preset_get_owned preset_id owner_id d =
     of_option PresetNotFoundError
       (find (\<lambda>p. cp_id p = preset_id \<and> cp_owner_id p = owner_id) (presets d))"

definition preset_create_row ::
  "uuid \<Rightarrow> instant \<Rightarrow> uuid \<Rightarrow> preset_create \<Rightarrow> db \<Rightarrow> task_exc + creative_preset \<times> db" where
  "preset_create_row i now owner_id payload d =
     (let p = \<lparr>cp_id = i, cp_owner_id = owner_id, cp_name = prc_name payload,
               cp_settings = prc_settings payload, cp_created_at = now, cp_updated_at = now\<rparr>
      in bind_result (flush (d\<lparr>presets := presets d @ [p]\<rparr>)) (\<lambda>d'. Inr (p, d')))"

definition replace_settings ::
  "instant \<Rightarrow> creative_preset \<Rightarrow> pystr option \<Rightarrow> creative_settings option \<Rightarrow> db \<Rightarrow>
   task_exc + creative_preset \<times> db" where
  "replace_settings now preset name settings d =
     (let p = (case name of None \<Rightarrow> preset | Some n \<Rightarrow> preset\<lparr>cp_name := n\<rparr>);
          p = (case settings of None \<Rightarrow> p | Some s \<Rightarrow> p\<lparr>cp_settings := s\<rparr>);
          saved = orm_save (\<lambda>r. r\<lparr>cp_updated_at := now\<rparr>) (\<lambda>_. p) preset
      in bind_result (flush (d\<lparr>presets :=
             update_where (\<lambda>r. cp_id r = cp_id preset) (\<lambda>_. saved) (presets d)\<rparr>)) (\<lambda>d'.
         Inr (saved, d')))"

definition preset_delete :: "creative_preset \<Rightarrow> db \<Rightarrow> task_exc + db" where
  "preset_delete preset d =
     flush (d\<lparr>presets := filter (\<lambda>r. cp_id r \<noteq> cp_id preset) (presets d)\<rparr>)"

end
