(* ===== verification/Store_Facts.thy ===== *)
theory Store_Facts
  imports Task_Store
begin

text \<open>
  Facts about the tables of Task\_Store that the components share: what a saved row keeps, which
  changes leave the declared constraints true, and lookups by primary key.
\<close>

section \<open>Saved rows\<close>

lemma orm_save_field:
  assumes "\<And>r. P (touch r) = P r"
  shows "P (orm_save touch f r) = P (f r)"
  using assms by (simp add: orm_save_def)

abbreviation touch_task :: "instant \<Rightarrow> rewrite_task \<Rightarrow> rewrite_task" where
  "touch_task now \<equiv> (\<lambda>t. t\<lparr>t_updated_at := now\<rparr>)"

abbreviation touch_operation :: "instant \<Rightarrow> ai_operation \<Rightarrow> ai_operation" where
  "touch_operation now \<equiv> (\<lambda>op. op\<lparr>o_updated_at := now\<rparr>)"

lemma orm_save_task [simp]:
  "t_id (orm_save (touch_task now) f t) = t_id (f t)"
  "t_owner_id (orm_save (touch_task now) f t) = t_owner_id (f t)"
  "t_name (orm_save (touch_task now) f t) = t_name (f t)"
  "t_source_text (orm_save (touch_task now) f t) = t_source_text (f t)"
  "t_creative_settings (orm_save (touch_task now) f t) = t_creative_settings (f t)"
  "t_state (orm_save (touch_task now) f t) = t_state (f t)"
  "t_archived_from_state (orm_save (touch_task now) f t) = t_archived_from_state (f t)"
  by (rule orm_save_field; simp)+

lemma orm_save_operation [simp]:
  "o_id (orm_save (touch_operation now) f op) = o_id (f op)"
  "o_owner_id (orm_save (touch_operation now) f op) = o_owner_id (f op)"
  "o_task_id (orm_save (touch_operation now) f op) = o_task_id (f op)"
  "o_kind (orm_save (touch_operation now) f op) = o_kind (f op)"
  "o_status (orm_save (touch_operation now) f op) = o_status (f op)"
  "o_initial_task_state (orm_save (touch_operation now) f op) = o_initial_task_state (f op)"
  "o_running_task_state (orm_save (touch_operation now) f op) = o_running_task_state (f op)"
  "o_request_payload (orm_save (touch_operation now) f op) = o_request_payload (f op)"
  "o_idempotency_key (orm_save (touch_operation now) f op) = o_idempotency_key (f op)"
  "op_columns_ok (orm_save (touch_operation now) f op) = op_columns_ok (f op)"
  by (rule orm_save_field; simp add: op_columns_ok_def)+

lemma save_task_other [simp]:
  "operations (save_task now i f d) = operations d" "members (save_task now i f d) = members d"
  "versions (save_task now i f d) = versions d" "locks (save_task now i f d) = locks d"
  "analyses (save_task now i f d) = analyses d" "suggestions (save_task now i f d) = suggestions d"
  "provider_settings (save_task now i f d) = provider_settings d" "presets (save_task now i f d) = presets d"
  by (simp_all add: save_task_def)

lemma save_operation_other [simp]:
  "tasks (save_operation now i f d) = tasks d" "members (save_operation now i f d) = members d"
  "versions (save_operation now i f d) = versions d" "locks (save_operation now i f d) = locks d"
  "analyses (save_operation now i f d) = analyses d" "suggestions (save_operation now i f d) = suggestions d"
  "provider_settings (save_operation now i f d) = provider_settings d"
  "presets (save_operation now i f d) = presets d"
  by (simp_all add: save_operation_def)

lemma tasks_save_task:
  "tasks (save_task now i f d) =
     map (\<lambda>t. if t_id t = i then orm_save (touch_task now) f t else t) (tasks d)"
  by (simp add: save_task_def update_where_def)

lemma operations_save_operation:
  "operations (save_operation now i f d) =
     map (\<lambda>op. if o_id op = i then orm_save (touch_operation now) f op else op) (operations d)"
  by (simp add: save_operation_def update_where_def)

section \<open>Primary keys\<close>

lemma db_ok_keys:
  assumes "db_ok d"
  shows "distinct (map t_id (tasks d))" and "distinct (map o_id (operations d))"
    and "distinct (map v_id (versions d))" and "distinct (map ar_id (analyses d))"
    and "distinct (map sr_id (suggestions d))" and "distinct (map l_id (locks d))"
    and "distinct (map o_task_id (filter active (operations d)))"
    and "distinct (map m_id (members d))"
    and "distinct (map op_scope (filter (\<lambda>op. o_idempotency_key op \<noteq> None) (operations d)))"
  using assms by (simp_all add: db_ok_def integrity_ok_def unique_keys_def)

lemma find_task_Some: "find_task d i = Some t \<Longrightarrow> t \<in> set (tasks d) \<and> t_id t = i"
  by (auto simp: find_task_def dest: find_Some_mem)

lemma find_operation_Some: "find_operation d i = Some op \<Longrightarrow> op \<in> set (operations d) \<and> o_id op = i"
  by (auto simp: find_operation_def dest: find_Some_mem)

lemma find_task_mem: "db_ok d \<Longrightarrow> t \<in> set (tasks d) \<Longrightarrow> find_task d (t_id t) = Some t"
  unfolding find_task_def by (rule find_distinct_key [OF db_ok_keys(1)])

lemma find_operation_mem:
  "db_ok d \<Longrightarrow> op \<in> set (operations d) \<Longrightarrow> find_operation d (o_id op) = Some op"
  unfolding find_operation_def by (rule find_distinct_key [OF db_ok_keys(2)])

lemma task_eq: "db_ok d \<Longrightarrow> t \<in> set (tasks d) \<Longrightarrow> t' \<in> set (tasks d) \<Longrightarrow> t_id t = t_id t' \<Longrightarrow> t = t'"
  using distinct_key_eq [OF db_ok_keys(1)] by blast

lemma operation_eq:
  "db_ok d \<Longrightarrow> op \<in> set (operations d) \<Longrightarrow> op' \<in> set (operations d) \<Longrightarrow> o_id op = o_id op' \<Longrightarrow> op = op'"
  using distinct_key_eq [OF db_ok_keys(2)] by blast

text \<open>The partial unique index: two active operations of one task are the same row.\<close>

lemma active_eq:
  assumes "db_ok d" and "op \<in> set (operations d)" and "op' \<in> set (operations d)"
    and "active op" and "active op'" and "o_task_id op = o_task_id op'"
  shows "op = op'"
  using distinct_key_eq [OF db_ok_keys(7) [OF assms(1)], of op op'] assms by simp

lemma operation_task_exists:
  assumes "db_ok d" and "op \<in> set (operations d)"
  shows "\<exists>t \<in> set (tasks d). t_id t = o_task_id op"
proof -
  from assms have "o_task_id op \<in> t_id ` set (tasks d)"
    by (simp add: db_ok_def integrity_ok_def references_hold_def list_all_iff)
  then show ?thesis by (metis imageE)
qed

lemma active_simps [simp]:
  "active op \<longleftrightarrow> o_status op = QUEUED \<or> o_status op = RUNNING"
  by (simp add: active_def ACTIVE_STATUSES_def)

section \<open>Changes that keep the constraints\<close>

lemma distinct_map_filter_map:
  assumes "distinct (map k (filter P xs))"
    and "\<And>x. x \<in> set xs \<Longrightarrow> k (g x) = k x" and "\<And>x. x \<in> set xs \<Longrightarrow> P (g x) \<Longrightarrow> P x"
  shows "distinct (map k (filter P (map g xs)))"
  using assms by (induction xs) (auto split: if_splits)

definition same_keys :: "ai_operation \<Rightarrow> ai_operation \<Rightarrow> bool" where
  "same_keys op op' \<longleftrightarrow>
     o_id op' = o_id op \<and> o_owner_id op' = o_owner_id op \<and> o_task_id op' = o_task_id op \<and>
     o_kind op' = o_kind op \<and> o_idempotency_key op' = o_idempotency_key op"

lemma db_ok_update_operations:
  assumes "db_ok d"
    and g: "\<And>op. op \<in> set (operations d) \<Longrightarrow>
      same_keys op (g op) \<and> (active (g op) \<longrightarrow> active op) \<and> (op_columns_ok op \<longrightarrow> op_columns_ok (g op))"
  shows "db_ok (d\<lparr>operations := map g (operations d)\<rparr>)"
proof -
  have id: "map o_id (map g (operations d)) = map o_id (operations d)"
    using g by (simp add: same_keys_def)
  have "distinct (map op_scope (filter (\<lambda>op. o_idempotency_key op \<noteq> None) (map g (operations d))))"
    by (rule distinct_map_filter_map [OF db_ok_keys(9) [OF assms(1)]])
      (use g in \<open>auto simp: same_keys_def op_scope_def\<close>)
  moreover have "distinct (map o_task_id (filter active (map g (operations d))))"
    by (rule distinct_map_filter_map [OF db_ok_keys(7) [OF assms(1)]])
      (use g in \<open>auto simp: same_keys_def\<close>)
  ultimately show ?thesis
    using assms(1) g id
    unfolding db_ok_def integrity_ok_def unique_keys_def checks_hold_def references_hold_def columns_ok_def
    by (simp add: list_all_iff same_keys_def cong: option.case_cong del: active_simps map_map)
qed

lemma db_ok_update_tasks:
  assumes "db_ok d"
    and g: "\<And>t. t \<in> set (tasks d) \<Longrightarrow>
      t_id (g t) = t_id t \<and> t_owner_id (g t) = t_owner_id t \<and> t_name (g t) = t_name t \<and>
      t_source_text (g t) = t_source_text t"
  shows "db_ok (d\<lparr>tasks := map g (tasks d)\<rparr>)"
proof -
  have "map t_id (map g (tasks d)) = map t_id (tasks d)" using g by simp
  moreover have "t_id ` set (map g (tasks d)) = t_id ` set (tasks d)" using g by (force simp: image_iff)
  ultimately show ?thesis
    using assms unfolding db_ok_def integrity_ok_def unique_keys_def checks_hold_def references_hold_def
      columns_ok_def
    by (simp add: list_all_iff cong: option.case_cong del: map_map set_map) (simp add: list_all_iff)
qed

lemma db_ok_save_task:
  assumes "db_ok d"
    and "\<And>t. t_id (f t) = t_id t \<and> t_owner_id (f t) = t_owner_id t \<and> t_name (f t) = t_name t \<and>
      t_source_text (f t) = t_source_text t"
  shows "db_ok (save_task now i f d)"
  unfolding save_task_def update_where_def by (rule db_ok_update_tasks) (use assms in auto)

lemma db_ok_save_operation:
  assumes "db_ok d"
    and "\<And>op. same_keys op (f op) \<and> \<not> active (f op) \<and> (op_columns_ok op \<longrightarrow> op_columns_ok (f op))"
  shows "db_ok (save_operation now i f d)"
  unfolding save_operation_def update_where_def
  by (rule db_ok_update_operations) (use assms in \<open>auto simp: same_keys_def\<close>)

end
