(* ===== verification/Sha256.thy ===== *)
theory Sha256
  imports Py_Json
begin

unbundle bit_operations_syntax

text \<open>
  SHA-256 (\<open>hashlib.sha256(...).hexdigest()\<close>), used by \<open>_request_hash\<close> of
  src/backend/app/modules/tasks/ai_operations.py and by \<open>_digest\<close> of
  src/backend/app/modules/identity/rate_limit.py. Words are \<open>32 word\<close>; a message is its list of
  bytes.
\<close>

type_synonym w32 = "32 word"

definition sha_k :: "w32 list" where
  "sha_k = [
    1116352408, 1899447441, 3049323471, 3921009573, 961987163, 1508970993,
    2453635748, 2870763221, 3624381080, 310598401, 607225278, 1426881987,
    1925078388, 2162078206, 2614888103, 3248222580, 3835390401, 4022224774,
    264347078, 604807628, 770255983, 1249150122, 1555081692, 1996064986,
    2554220882, 2821834349, 2952996808, 3210313671, 3336571891, 3584528711,
    113926993, 338241895, 666307205, 773529912, 1294757372, 1396182291,
    1695183700, 1986661051, 2177026350, 2456956037, 2730485921, 2820302411,
    3259730800, 3345764771, 3516065817, 3600352804, 4094571909, 275423344,
    430227734, 506948616, 659060556, 883997877, 958139571, 1322822218,
    1537002063, 1747873779, 1955562222, 2024104815, 2227730452, 2361852424,
    2428436474, 2756734187, 3204031479, 3329325298]"

definition sha_init :: "w32 list" where
  "sha_init = [
    1779033703, 3144134277, 1013904242, 2773480762, 1359893119, 2600822924,
    528734635, 1541459225]"

definition rotr :: "nat \<Rightarrow> w32 \<Rightarrow> w32" where
  "rotr n x = word_rotr n x"

definition sha_ch :: "w32 \<Rightarrow> w32 \<Rightarrow> w32 \<Rightarrow> w32" where
  "sha_ch x y z = (x AND y) XOR ((NOT x) AND z)"

definition sha_maj :: "w32 \<Rightarrow> w32 \<Rightarrow> w32 \<Rightarrow> w32" where
  "sha_maj x y z = (x AND y) XOR (x AND z) XOR (y AND z)"

definition big_sigma0 :: "w32 \<Rightarrow> w32" where
  "big_sigma0 x = rotr 2 x XOR rotr 13 x XOR rotr 22 x"

definition big_sigma1 :: "w32 \<Rightarrow> w32" where
  "big_sigma1 x = rotr 6 x XOR rotr 11 x XOR rotr 25 x"

definition small_sigma0 :: "w32 \<Rightarrow> w32" where
  "small_sigma0 x = rotr 7 x XOR rotr 18 x XOR drop_bit 3 x"

definition small_sigma1 :: "w32 \<Rightarrow> w32" where
  "small_sigma1 x = rotr 17 x XOR rotr 19 x XOR drop_bit 10 x"

section \<open>Padding and blocks\<close>

definition sha_pad :: "nat list \<Rightarrow> nat list" where
  "sha_pad bytes =
     (let n = length bytes; z = (119 - n mod 64) mod 64
      in bytes @ [128] @ replicate z 0 @
         map (\<lambda>i. (n * 8) div 256 ^ (7 - i) mod 256) [0..<8])"

fun words_of_bytes :: "nat list \<Rightarrow> w32 list" where
  "words_of_bytes (a # b # c # d # rest) =
     of_nat (((a * 256 + b) * 256 + c) * 256 + d) # words_of_bytes rest"
| "words_of_bytes rest = []"

text \<open>The message schedule, newest word first: 48 further words after the 16 of the block.\<close>

fun schedule :: "nat \<Rightarrow> w32 list \<Rightarrow> w32 list" where
  "schedule 0 ws = ws"
| "schedule (Suc n) ws =
     schedule n ((small_sigma1 (ws ! 1) + ws ! 6 + small_sigma0 (ws ! 14) + ws ! 15) # ws)"

fun sha_round :: "w32 list \<Rightarrow> w32 \<times> w32 \<Rightarrow> w32 list" where
  "sha_round [a, b, c, d, e, f, g, h] (k, w) =
     (let t1 = h + big_sigma1 e + sha_ch e f g + k + w;
          t2 = big_sigma0 a + sha_maj a b c
      in [t1 + t2, a, b, c, d + t1, e, f, g])"
| "sha_round st kw = st"

definition compress :: "w32 list \<Rightarrow> w32 list \<Rightarrow> w32 list" where
  "compress st block =
     map2 (+) st (foldl sha_round st (zip sha_k (rev (schedule 48 (rev block)))))"

function sha_blocks :: "w32 list \<Rightarrow> w32 list \<Rightarrow> w32 list" where
  "sha_blocks st ws = (if ws = [] then st else sha_blocks (compress st (take 16 ws)) (drop 16 ws))"
  by pat_completeness auto
termination
  by (relation "measure (length \<circ> snd)") auto

declare sha_blocks.simps [simp del]

definition sha256_hex :: "nat list \<Rightarrow> pystr" where
  "sha256_hex bytes =
     concat (map (\<lambda>w. hex_fixed 8 (unat w)) (sha_blocks sha_init (words_of_bytes (sha_pad bytes))))"

section \<open>Shape of the digest\<close>

lemma length_sha_round: "length st = 8 \<Longrightarrow> length (sha_round st kw) = 8"
  by (induction st kw rule: sha_round.induct) (auto simp: Let_def)

lemma length_rounds: "length st = 8 \<Longrightarrow> length (foldl sha_round st kws) = 8"
  by (induction kws arbitrary: st) (auto simp: length_sha_round)

lemma length_compress: "length st = 8 \<Longrightarrow> length (compress st b) = 8"
  by (simp add: compress_def length_rounds)

lemma length_sha_blocks: "length st = 8 \<Longrightarrow> length (sha_blocks st ws) = 8"
proof (induction st ws rule: sha_blocks.induct)
  case (1 st ws)
  then show ?case
    by (cases "ws = []") (auto simp: sha_blocks.simps [of st ws] sha_blocks.simps [of st "[]"]
        length_compress)
qed

lemma length_concat_const: "(\<And>x. length (f x) = n) \<Longrightarrow> length (concat (map f xs)) = length xs * n"
  by (induction xs) auto

lemma length_sha256_hex: "length (sha256_hex bytes) = 64"
  by (simp add: sha256_hex_def length_concat_const [where n = 8] length_sha_blocks sha_init_def)

lemma pad_arith: "64 dvd (119 - n mod 64) mod 64 + (n + 9 :: nat)"
proof -
  define r q where "r = n mod 64" and "q = n div 64"
  have n: "n = 64 * q + r" and r: "r < 64" by (simp_all add: r_def q_def)
  show ?thesis
  proof (cases "r \<le> 55")
    case True
    then have "(119 - r) mod 64 = 55 - r" by (simp add: mod_if)
    with True n have "(119 - n mod 64) mod 64 + (n + 9) = 64 * (q + 1)" by (simp add: r_def [symmetric])
    then show ?thesis by (metis dvd_triv_left)
  next
    case False
    with r have "(119 - r) mod 64 = 119 - r" by simp
    with False r n have "(119 - n mod 64) mod 64 + (n + 9) = 64 * (q + 2)" by (simp add: r_def [symmetric])
    then show ?thesis by (metis dvd_triv_left)
  qed
qed

lemma sha_pad_blocks: "64 dvd length (sha_pad bytes)"
  using pad_arith [of "length bytes"] by (simp add: sha_pad_def Let_def algebra_simps)

end
