(* ===== verification/Ai_Operations.thy ===== *)
theory Ai_Operations
  imports Task_Store Sha256
begin

text \<open>
  The execution of AI operations against the database:
  src/backend/app/modules/tasks/ai_operations.py. One call of \<open>analyze\<close>, \<open>suggest\<close>,
  \<open>create_first_draft\<close> or \<open>revise\<close> is two units of work with the provider call between them:
  \<open>prepare\<close> and \<open>execute_claim\<close> up to the commit that marks the operation running, and
  \<open>execute_finish\<close> from the call to the commit of its outcome. The closures \<open>invoke\<close> and
  \<open>persist\<close> become functions of the data they capture, the datatype \<open>prepared\<close>.
\<close>

record op_env =
  oe_ai :: ai_env
  oe_decrypt :: "nat list \<Rightarrow> pystr option"       \<comment> \<open>\<open>ApiKeyCipher.decrypt\<close>\<close>
  oe_url_policy :: "pystr \<Rightarrow> pystr option"       \<comment> \<open>\<open>ProviderUrlPolicy.validate\<close>\<close>
  oe_url_ok :: "pystr \<Rightarrow> bool"                  \<comment> \<open>\<open>urlparse\<close>: absolute HTTP(S) URL\<close>

definition STALE_OPERATION_AFTER :: instant where
  "STALE_OPERATION_AFTER = seconds AI_OPERATION_STALE_SECONDS"

section \<open>Module functions\<close>

fun running_state :: "ai_operation_kind \<Rightarrow> task_state" where
  "running_state ANALYSIS = ANALYZING"
| "running_state SUGGESTIONS = SUGGESTING"
| "running_state FIRST_DRAFT = GENERATING"
| "running_state REVISION = REVISING"

fun kind_value :: "ai_operation_kind \<Rightarrow> string" where
  "kind_value ANALYSIS = ''analysis''"
| "kind_value SUGGESTIONS = ''suggestions''"
| "kind_value FIRST_DRAFT = ''first_draft''"
| "kind_value REVISION = ''revision''"

fun decision_value :: "suggestion_decision \<Rightarrow> string" where
  "decision_value PENDING = ''pending''"
| "decision_value ACCEPTED = ''accepted''"
| "decision_value REJECTED = ''rejected''"

definition provider_error_status :: "ai_error_code \<Rightarrow> int" where
  "provider_error_status code =
     (if code = AUTHENTICATION_FAILED then 401
      else if code \<in> {INVALID_REQUEST, MODEL_UNAVAILABLE, INVALID_ENDPOINT} then 400
      else if code = RATE_LIMITED then 429
      else 502)"

definition request_hash :: "ai_operation_kind \<Rightarrow> uuid \<Rightarrow> json \<Rightarrow> pystr" where
  "request_hash kind task_id payload =
     sha256_hex (utf8 (dumps_sorted (JObj
       [(tx ''kind'', JStr (tx (kind_value kind))),
        (tx ''task_id'', JStr (uuid_str task_id)),
        (tx ''payload'', payload)])))"

definition task_snapshot_of :: "rewrite_task \<Rightarrow> bool \<Rightarrow> task_state \<Rightarrow> service_error + task_ai_snapshot" where
  "task_snapshot_of task has_draft state =
     (case t_creative_settings task of
        None \<Rightarrow> Inl (ServiceValueError (ValidationError ''CreativeSettings''))
      | Some settings \<Rightarrow>
          if \<not> valid_creative_settings settings
          then Inl (ServiceValueError (ValidationError ''CreativeSettings''))
          else Inr \<lparr>tas_id = t_id task, tas_state = state, tas_source_text = t_source_text task,
                    tas_creative_settings = settings, tas_has_first_draft = has_draft\<rparr>)"

definition stored_analysis :: "analysis_record \<Rightarrow> task_exc + analysis_result" where
  "stored_analysis record =
     of_option (ai_exc ''analysis_invalid''
       (tx ''The saved analysis is invalid and must be regenerated'') 409)
       (dec_analysis_result (ar_payload record))"

definition no_example :: pystr where
  "no_example = [26080]"

definition stored_suggestion :: "suggestion_record \<Rightarrow> value_error + suggestion" where
  "stored_suggestion record = mk_suggestion
     \<lparr>su_suggestion_id = sr_suggestion_key record, su_priority = sr_priority record,
      su_title = sr_title record, su_analysis_issue_ids = sr_analysis_issue_ids record,
      su_problem = sr_problem record, su_direction = sr_direction record,
      su_rationale = sr_reason record, su_impact_scope = sr_impact_scope record,
      su_example = (case sr_example record of
                      Some e \<Rightarrow> if e = [] then no_example else e | None \<Rightarrow> no_example)\<rparr>"

definition note_or_empty :: "pystr option \<Rightarrow> pystr" where
  "note_or_empty n = (case n of None \<Rightarrow> [] | Some s \<Rightarrow> s)"

text \<open>\<open>{item.suggestion_id: item for item in decisions}[i]\<close>: the last decision with that key.\<close>

definition decision_at :: "decision_submit list \<Rightarrow> uuid \<Rightarrow> decision_submit option" where
  "decision_at decisions i = find (\<lambda>x. sd_suggestion_id x = i) (rev decisions)"

fun selected_suggestions ::
  "decision_submit list \<Rightarrow> suggestion_record list \<Rightarrow> task_exc + selected_suggestion list" where
  "selected_suggestions decisions [] = Inr []"
| "selected_suggestions decisions (record # records) =
     (case decision_at decisions (sr_id record) of
        None \<Rightarrow> Inl KeyError
      | Some x \<Rightarrow>
          if sd_selected x then
            bind_result (map_error PyValueError (stored_suggestion record)) (\<lambda>s.
            bind_result (selected_suggestions decisions records) (\<lambda>rest.
            Inr (\<lparr>ss_suggestion = s, ss_note = note_or_empty (sd_member_note x)\<rparr> # rest)))
          else selected_suggestions decisions records)"

definition version_record ::
  "uuid \<Rightarrow> instant \<Rightarrow> uuid \<Rightarrow> version_service_result \<Rightarrow> script_version" where
  "version_record i now task_id result =
     \<lparr>v_id = i, v_task_id = task_id, v_parent_id = vsr_parent_version_id result,
      v_kind = vsr_kind result, v_content = vsr_content result,
      v_instruction = vsr_instruction result,
      v_provenance = dict_merge (vsr_provenance result)
        [(tx ''model_identifier'', JStr (pm_model_identifier (vsr_metadata result))),
         (tx ''prompt_template_version'', JStr (pm_prompt_template_version (vsr_metadata result)))],
      v_validation_status = vsr_validation_status result,
      v_validation_details = enc_validation (vsr_validation result),
      v_is_current_final = False, v_created_at = now, v_updated_at = now\<rparr>"

section \<open>Lookups\<close>

definition get_owned_operation :: "uuid \<Rightarrow> uuid \<Rightarrow> db \<Rightarrow> task_exc + ai_operation" where
  "get_owned_operation operation_id owner_id d =
     of_option (ai_exc ''operation_not_found'' (tx ''AI operation was not found'') 404)
       (find (\<lambda>op. o_id op = operation_id \<and> o_owner_id op = owner_id) (operations d))"

definition find_analysis :: "uuid \<Rightarrow> uuid option \<Rightarrow> db \<Rightarrow> task_exc + analysis_record" where
  "find_analysis task_id analysis_id d =
     of_option (ai_exc ''analysis_not_found'' (tx ''Analysis was not found'') 404)
       (find (\<lambda>a. ar_task_id a = task_id \<and>
                  (case analysis_id of None \<Rightarrow> ar_is_selected a | Some i \<Rightarrow> ar_id a = i)) (analyses d))"

definition suggestions_of :: "uuid \<Rightarrow> uuid \<Rightarrow> db \<Rightarrow> suggestion_record list" where
  "suggestions_of task_id analysis_id d =
     filter (\<lambda>s. sr_task_id s = task_id \<and> sr_analysis_id s = analysis_id) (suggestions d)"

definition idempotent_operation ::
  "uuid \<Rightarrow> uuid \<Rightarrow> ai_operation_kind \<Rightarrow> pystr option \<Rightarrow> pystr \<Rightarrow> db \<Rightarrow> task_exc + ai_operation option" where
  "idempotent_operation owner_id task_id kind idempotency_key hash d =
     (if idempotency_key = None then Inr None
      else case find (\<lambda>op. op_scope op = (owner_id, task_id, kind, idempotency_key)) (operations d) of
        None \<Rightarrow> Inr None
      | Some op \<Rightarrow>
          if o_request_hash op \<noteq> hash
          then Inl (ai_exc ''idempotency_key_reused''
            (tx ''The idempotency key was already used with different inputs'') 409)
          else Inr (Some op))"

definition provider_context :: "op_env \<Rightarrow> uuid \<Rightarrow> db \<Rightarrow> task_exc + provider_config \<times> pystr" where
  "provider_context env owner_id d =
     bind_result (of_option (ai_exc ''provider_not_configured''
         (tx ''Configure an API key, request URL and model before starting an AI operation'') 409)
       (find (\<lambda>s. ps_member_id s = owner_id) (provider_settings d))) (\<lambda>setting.
     bind_result (of_option (ai_exc ''provider_configuration_invalid''
         (tx ''The saved provider configuration must be replaced'') 409)
       (oe_decrypt env (ps_encrypted_api_key setting))) (\<lambda>api_key.
     bind_result (of_option (ai_exc ''provider_configuration_invalid''
         (tx ''The saved provider request URL is not allowed'') 409)
       (oe_url_policy env (ps_base_url setting))) (\<lambda>base_url.
     bind_result (map_error PyValueError
       (mk_provider_config (oe_url_ok env) api_key base_url (ps_timeout_seconds setting))) (\<lambda>config.
     Inr (config, ps_model_id setting)))))"

section \<open>Recovery of stale operations\<close>

definition is_stale :: "instant \<Rightarrow> ai_operation \<Rightarrow> bool" where
  "is_stale now op \<longleftrightarrow>
     o_status op = RUNNING \<and>
     (case o_started_at op of None \<Rightarrow> False | Some s \<Rightarrow> s < now - STALE_OPERATION_AFTER)"

definition mark_stale :: "instant \<Rightarrow> ai_operation \<Rightarrow> ai_operation" where
  "mark_stale now op =
     op\<lparr>o_status := FAILED, o_completed_task_state := Some (o_initial_task_state op),
        o_error_code := Some (tx ''ai_operation_stale''),
        o_error_message := Some (tx ''The AI operation did not finish and was recovered''),
        o_error_details := [(tx ''retryable'', JBool True)], o_completed_at := Some now\<rparr>"

definition recover_one :: "instant \<Rightarrow> ai_operation \<Rightarrow> db \<Rightarrow> db" where
  "recover_one now op d =
     save_operation now (o_id op) (mark_stale now)
       (case find_task d (o_task_id op) of
          None \<Rightarrow> d
        | Some t \<Rightarrow>
            if t_state t = o_running_task_state op
            then save_task now (t_id t) (\<lambda>t. t\<lparr>t_state := o_initial_task_state op\<rparr>) d
            else d)"

definition recover_stale_operations :: "uuid \<Rightarrow> instant \<Rightarrow> db \<Rightarrow> task_exc + nat \<times> db" where
  "recover_stale_operations owner_id now d =
     (let stale = filter (\<lambda>op. o_owner_id op = owner_id \<and> is_stale now op) (operations d)
      in if stale = [] then Inr (0, d)
         else commit (length stale) (fold (recover_one now) stale d))"

section \<open>Preparation: analyze, suggest, create\_first\_draft, revise\<close>

datatype prepared =
    PreparedAnalysis bool
  | PreparedSuggestions bool analysis_record analysis_result suggestions_submit
      "suggestion_record list" "suggestion_record list"
  | PreparedFirstDraft bool analysis_result "selected_suggestion list" first_draft_submit
  | PreparedRevision bool version_ai_snapshot "locked_fragment_snapshot list"
      "analysis_result option" "selected_suggestion list" revision_submit

definition prepare_analyze :: "rewrite_task \<Rightarrow> db \<Rightarrow> task_exc + prepared \<times> pystr" where
  "prepare_analyze task d =
     Inr (PreparedAnalysis (has_first_draft (t_id task) d),
          request_hash ANALYSIS (t_id task) (JObj
            [(tx ''source_text'', JStr (t_source_text task)),
             (tx ''creative_settings'', enc_opt enc_creative_settings (t_creative_settings task)),
             (tx ''payload'', dump_submission AnalysisSubmit)]))"

fun fixed_suggestions ::
  "decision_submit list \<Rightarrow> suggestion_record list \<Rightarrow> task_exc + suggestion_record list" where
  "fixed_suggestions decisions [] = Inr []"
| "fixed_suggestions decisions (item # items) =
     (case decision_at decisions (sr_id item) of
        None \<Rightarrow> Inl KeyError
      | Some x \<Rightarrow> bind_result (fixed_suggestions decisions items) (\<lambda>rest.
          Inr (if sd_selected x then item # rest else rest)))"

definition prepare_suggest :: "rewrite_task \<Rightarrow> suggestions_submit \<Rightarrow> db \<Rightarrow> task_exc + prepared \<times> pystr" where
  "prepare_suggest task payload d =
     bind_result (find_analysis (t_id task) (Some (sgs_analysis_id payload)) d) (\<lambda>record.
     bind_result (stored_analysis record) (\<lambda>analysis.
     let previous = order_by2 sr_created_at sr_id (suggestions_of (t_id task) (ar_id record) d) in
     bind_result (fixed_suggestions (sgs_suggestion_decisions payload) previous) (\<lambda>fixed.
     if previous \<noteq> [] \<and> length fixed = length previous
     then Inl (ai_exc ''all_suggestions_fixed''
       [25152, 26377, 26041, 26696, 22343, 24050, 22266, 23450, 65292, 35831, 20808, 21462,
      28040, 21246, 36873, 38656, 35201, 20248, 21270, 30340, 26041, 26696] 409)
     else Inr
       (PreparedSuggestions (has_first_draft (t_id task) d) record analysis payload previous fixed,
        request_hash SUGGESTIONS (t_id task) (JObj
          [(tx ''analysis'', ar_payload record),
           (tx ''payload'', dump_submission (SuggestionsSubmit payload))])))))"

definition stored_suggestion_set :: "suggestion_record list \<Rightarrow> task_exc + suggestion list" where
  "stored_suggestion_set records =
     map_error PyValueError (bind_result (map_result stored_suggestion records) mk_suggestion_set)"

definition prepare_first_draft ::
  "rewrite_task \<Rightarrow> first_draft_submit \<Rightarrow> db \<Rightarrow> task_exc + prepared \<times> pystr" where
  "prepare_first_draft task payload d =
     bind_result (find_analysis (t_id task) (Some (fds_analysis_id payload)) d) (\<lambda>record.
     bind_result (stored_analysis record) (\<lambda>analysis.
     let records = suggestions_of (t_id task) (ar_id record) d in
     bind_result (stored_suggestion_set records) (\<lambda>_.
     bind_result (selected_suggestions (fds_suggestion_decisions payload) records) (\<lambda>selected.
     Inr
       (PreparedFirstDraft (has_first_draft (t_id task) d) analysis selected payload,
        request_hash FIRST_DRAFT (t_id task) (JObj
          [(tx ''analysis'', ar_payload record),
           (tx ''suggestions'', JArr (map (\<lambda>item. JObj
              [(tx ''id'', JStr (uuid_str (sr_id item))),
               (tx ''decision'', JStr (tx (decision_value (sr_decision item)))),
               (tx ''note'', enc_opt JStr (sr_member_note item))]) records)),
           (tx ''payload'', dump_submission (FirstDraftSubmit payload))]))))))"

definition revision_material ::
  "rewrite_task \<Rightarrow> revision_submit \<Rightarrow> db \<Rightarrow>
   task_exc + (json \<times> analysis_result option) \<times> selected_suggestion list" where
  "revision_material task payload d =
     (if rvs_scope payload \<noteq> SUGGESTIONS_SCOPE then Inr ((JNull, None), [])
      else
        bind_result (find_analysis (t_id task) (rvs_analysis_id payload) d) (\<lambda>record.
        bind_result (stored_analysis record) (\<lambda>analysis.
        let records = suggestions_of (t_id task) (ar_id record) d in
        bind_result (stored_suggestion_set records) (\<lambda>_.
        bind_result (of_option AssertionError (rvs_suggestion_decisions payload)) (\<lambda>decisions.
        bind_result (selected_suggestions decisions records) (\<lambda>selected.
        Inr ((ar_payload record, Some analysis), selected)))))))"

definition prepare_revise :: "rewrite_task \<Rightarrow> revision_submit \<Rightarrow> db \<Rightarrow> task_exc + prepared \<times> pystr" where
  "prepare_revise task payload d =
     bind_result (of_option (ai_exc ''version_not_found'' (tx ''Version was not found'') 404)
       (find (\<lambda>v. v_id v = rvs_parent_version_id payload \<and> v_task_id v = t_id task) (versions d))) (\<lambda>parent.
     let locked = sort_key l_order_index (filter (\<lambda>l. l_task_id l = t_id task) (locks d));
         lock_snapshots = map (\<lambda>item. \<lparr>lfs_id = l_id item, lfs_text = l_text item,
                                       lfs_order_index = l_order_index item\<rparr>) locked
     in
     bind_result (revision_material task payload d) (\<lambda>((analysis_payload, analysis), selected).
     Inr
       (PreparedRevision (has_first_draft (t_id task) d)
          \<lparr>vas_id = v_id parent, vas_content = v_content parent\<rparr> lock_snapshots analysis selected payload,
        request_hash REVISION (t_id task) (JObj
          [(tx ''parent_id'', JStr (uuid_str (v_id parent))),
           (tx ''parent_content'', JStr (v_content parent)),
           (tx ''locks'', JArr (map (\<lambda>item. JObj
              [(tx ''id'', JStr (uuid_str (l_id item))), (tx ''text'', JStr (l_text item)),
               (tx ''order'', JInt (l_order_index item))]) locked)),
           (tx ''payload'', dump_submission (RevisionSubmit payload)),
           (tx ''analysis'', analysis_payload),
           (tx ''suggestions'', JArr (map enc_selected selected))]))))"

definition prepare :: "rewrite_task \<Rightarrow> submission \<Rightarrow> db \<Rightarrow> task_exc + prepared \<times> pystr" where
  "prepare task payload d =
     (case payload of
        AnalysisSubmit \<Rightarrow> prepare_analyze task d
      | SuggestionsSubmit p \<Rightarrow> prepare_suggest task p d
      | FirstDraftSubmit p \<Rightarrow> prepare_first_draft task p d
      | RevisionSubmit p \<Rightarrow> prepare_revise task p d)"

end
