(* ===== verification/Ai_Execution.thy ===== *)
theory Ai_Execution
  imports Ai_Operations
begin

text \<open>
  \<open>TaskAiOperationService._execute\<close> of src/backend/app/modules/tasks/ai_operations.py in its two units
  of work, with the \<open>invoke\<close> and \<open>persist\<close> closures of the four operations and the recording of
  failures and cancellations.
\<close>

section \<open>invoke\<close>

datatype service_result =
    AnalysisResultOf analysis_service_result
  | SuggestionsResultOf suggestions_service_result
  | VersionResultOf version_service_result

definition result_state :: "service_result \<Rightarrow> state_plan" where
  "result_state r =
     (case r of AnalysisResultOf a \<Rightarrow> asr_state a | SuggestionsResultOf s \<Rightarrow> ssr_state s
      | VersionResultOf v \<Rightarrow> vsr_state v)"

definition result_metadata :: "service_result \<Rightarrow> provider_metadata" where
  "result_metadata r =
     (case r of AnalysisResultOf a \<Rightarrow> asr_metadata a | SuggestionsResultOf s \<Rightarrow> ssr_metadata s
      | VersionResultOf v \<Rightarrow> vsr_metadata v)"

text \<open>What \<open>_execute\<close> holds once the operation is claimed.\<close>

record run =
  run_operation_id :: uuid
  run_owner_id :: uuid
  run_task :: rewrite_task
  run_config :: provider_config
  run_model :: pystr
  run_initial_state :: task_state
  run_prepared :: prepared

definition map_ok :: "('a \<Rightarrow> 'b) \<Rightarrow> 'e + 'a \<Rightarrow> 'e + 'b" where
  "map_ok f r = bind_result r (\<lambda>x. Inr (f x))"

definition invoke_analyze :: "op_env \<Rightarrow> run \<Rightarrow> bool \<Rightarrow> service_error + service_result" where
  "invoke_analyze env r has_draft =
     bind_result (task_snapshot_of (run_task r) has_draft (run_initial_state r)) (\<lambda>snapshot.
     map_ok AnalysisResultOf (svc_analyze (oe_ai env) snapshot (run_config r) (run_model r)))"

definition fixed_selected :: "suggestion_record \<Rightarrow> value_error + selected_suggestion" where
  "fixed_selected item =
     bind_result (stored_suggestion item) (\<lambda>s.
       Inr \<lparr>ss_suggestion = s, ss_note = note_or_empty (sr_member_note item)\<rparr>)"

definition invoke_suggest ::
  "op_env \<Rightarrow> run \<Rightarrow> bool \<Rightarrow> analysis_result \<Rightarrow> suggestions_submit \<Rightarrow> suggestion_record list \<Rightarrow>
   suggestion_record list \<Rightarrow> service_error + service_result" where
  "invoke_suggest env r has_draft analysis payload previous fixed =
     bind_result (task_snapshot_of (run_task r) has_draft (run_initial_state r)) (\<lambda>snapshot.
     bind_result (map_error ServiceValueError (map_result stored_suggestion previous)) (\<lambda>previous'.
     bind_result (map_error ServiceValueError (map_result fixed_selected fixed)) (\<lambda>fixed'.
     map_ok SuggestionsResultOf
       (svc_suggest (oe_ai env) snapshot analysis (run_config r) (run_model r)
          (sgs_member_context payload) previous' fixed'))))"

definition invoke_first_draft ::
  "op_env \<Rightarrow> run \<Rightarrow> bool \<Rightarrow> analysis_result \<Rightarrow> selected_suggestion list \<Rightarrow> first_draft_submit \<Rightarrow>
   service_error + service_result" where
  "invoke_first_draft env r has_draft analysis selected payload =
     bind_result (task_snapshot_of (run_task r) has_draft (run_initial_state r)) (\<lambda>snapshot.
     map_ok VersionResultOf
       (svc_create_first_draft (oe_ai env) snapshot analysis selected (run_config r) (run_model r)
          (fds_member_requirements payload)))"

definition invoke_revise ::
  "op_env \<Rightarrow> run \<Rightarrow> bool \<Rightarrow> version_ai_snapshot \<Rightarrow> locked_fragment_snapshot list \<Rightarrow>
   analysis_result option \<Rightarrow> selected_suggestion list \<Rightarrow> revision_submit \<Rightarrow>
   service_error + service_result" where
  "invoke_revise env r has_draft parent lock_snapshots analysis selected payload =
     (case rvs_scope payload of
        SUGGESTIONS_SCOPE \<Rightarrow>
          (case analysis of
             None \<Rightarrow> Inl ServiceCrash
           | Some a \<Rightarrow>
               bind_result (task_snapshot_of (run_task r) has_draft (run_initial_state r)) (\<lambda>snapshot.
               map_ok VersionResultOf
                 (svc_regenerate_from_suggestions (oe_ai env) snapshot parent a selected
                    (rvs_instruction payload) lock_snapshots (run_config r) (run_model r))))
      | FULL_SCOPE \<Rightarrow>
          bind_result (task_snapshot_of (run_task r) has_draft (run_initial_state r)) (\<lambda>snapshot.
          map_ok VersionResultOf
            (svc_revise_full (oe_ai env) snapshot parent (rvs_instruction payload) lock_snapshots
               (run_config r) (run_model r)))
      | SELECTION_SCOPE \<Rightarrow>
          bind_result (task_snapshot_of (run_task r) has_draft (run_initial_state r)) (\<lambda>snapshot.
          bind_result (map_error ServiceValueError
            (case (rvs_selection_start payload, rvs_selection_end payload) of
               (Some s, Some e) \<Rightarrow> mk_selection s e
             | _ \<Rightarrow> Inl (ValidationError ''Selection''))) (\<lambda>sel.
          map_ok VersionResultOf
            (svc_revise_selection (oe_ai env) snapshot parent sel (rvs_instruction payload)
               lock_snapshots (run_config r) (run_model r)))))"

definition invoke :: "op_env \<Rightarrow> run \<Rightarrow> service_error + service_result" where
  "invoke env r =
     (case run_prepared r of
        PreparedAnalysis drafted \<Rightarrow> invoke_analyze env r drafted
      | PreparedSuggestions drafted record analysis payload previous fixed \<Rightarrow>
          invoke_suggest env r drafted analysis payload previous fixed
      | PreparedFirstDraft drafted analysis selected payload \<Rightarrow>
          invoke_first_draft env r drafted analysis selected payload
      | PreparedRevision drafted parent lock_snapshots analysis selected payload \<Rightarrow>
          invoke_revise env r drafted parent lock_snapshots analysis selected payload)"

section \<open>persist\<close>

definition persist_analysis ::
  "uuid \<Rightarrow> instant \<Rightarrow> uuid \<Rightarrow> analysis_service_result \<Rightarrow> db \<Rightarrow> task_exc + (string \<times> uuid) \<times> db" where
  "persist_analysis i now task_id result d =
     (let unselected = update_where (\<lambda>a. ar_task_id a = task_id)
            (\<lambda>a. a\<lparr>ar_is_selected := False, ar_updated_at := now\<rparr>) (analyses d);
          sequence =
            max_or 0 (map ar_sequence (filter (\<lambda>a. ar_task_id a = task_id) unselected)) + 1;
          record = \<lparr>ar_id = i, ar_task_id = task_id, ar_sequence = sequence,
            ar_payload = enc_analysis_result (TextAnalysis (asr_analysis result)),
            ar_member_notes = None, ar_is_selected = True,
            ar_prompt_template_version = pm_prompt_template_version (asr_metadata result),
            ar_model_identifier = pm_model_identifier (asr_metadata result),
            ar_created_at = now, ar_updated_at = now\<rparr>
      in map_ok (Pair (''analysis'', i)) (flush (d\<lparr>analyses := unselected @ [record]\<rparr>)))"

definition suggestion_row ::
  "uuid \<Rightarrow> instant \<Rightarrow> uuid \<Rightarrow> uuid \<Rightarrow> suggestion \<Rightarrow> suggestion_record" where
  "suggestion_row i now task_id analysis_id item =
     \<lparr>sr_id = i, sr_task_id = task_id, sr_analysis_id = analysis_id,
      sr_suggestion_key = su_suggestion_id item, sr_analysis_issue_ids = su_analysis_issue_ids item,
      sr_priority = su_priority item, sr_title = su_title item, sr_problem = su_problem item,
      sr_direction = su_direction item, sr_reason = su_rationale item,
      sr_impact_scope = su_impact_scope item, sr_example = Some (su_example item),
      sr_decision = PENDING, sr_member_note = None, sr_created_at = now, sr_updated_at = now\<rparr>"

definition suggestion_replacements ::
  "suggestion_record list \<Rightarrow> suggestion_record list \<Rightarrow> suggestion list \<Rightarrow> suggestion list" where
  "suggestion_replacements previous fixed items =
     (let fixed_keys = map sr_suggestion_key fixed;
          fixed_titles = map (\<lambda>item. strip (sr_title item)) fixed;
          replacements = filter (\<lambda>item. su_suggestion_id item \<notin> set fixed_keys \<and>
                                        strip (su_title item) \<notin> set fixed_titles) items;
          capacity = (if previous \<noteq> [] then max 5 (min 8 (int (length previous))) else 8)
                     - int (length fixed)
      in take_int capacity replacements)"

definition persist_suggestions ::
  "(nat \<Rightarrow> uuid) \<Rightarrow> instant \<Rightarrow> uuid \<Rightarrow> analysis_record \<Rightarrow> suggestion_record list \<Rightarrow>
   suggestion_record list \<Rightarrow> suggestions_service_result \<Rightarrow> db \<Rightarrow> task_exc + (string \<times> uuid) \<times> db" where
  "persist_suggestions fresh now task_id record previous fixed result d =
     (let replacements = suggestion_replacements previous fixed (ssr_suggestions result) in
      bind_result (map_error PyValueError (map_result stored_suggestion fixed)) (\<lambda>kept.
      bind_result (map_error PyValueError (mk_suggestion_set (kept @ replacements))) (\<lambda>_.
      let remaining = filter (\<lambda>s. \<not> (sr_task_id s = task_id \<and> sr_analysis_id s = ar_id record \<and>
                                      sr_id s \<notin> sr_id ` set fixed)) (suggestions d);
          rows = map (\<lambda>(n, item). suggestion_row (fresh n) now task_id (ar_id record) item)
                   (enumerate 0 replacements)
      in map_ok (Pair (''suggestions'', ar_id record))
           (flush (d\<lparr>suggestions := remaining @ rows\<rparr>)))))"

definition persist_version ::
  "uuid \<Rightarrow> instant \<Rightarrow> uuid \<Rightarrow> version_service_result \<Rightarrow> db \<Rightarrow> task_exc + (string \<times> uuid) \<times> db" where
  "persist_version i now task_id result d =
     map_ok (Pair (''version'', i))
       (flush (d\<lparr>versions := versions d @ [version_record i now task_id result]\<rparr>))"

definition persist ::
  "(nat \<Rightarrow> uuid) \<Rightarrow> instant \<Rightarrow> run \<Rightarrow> service_result \<Rightarrow> db \<Rightarrow> task_exc + (string \<times> uuid) \<times> db" where
  "persist fresh now r result d =
     (case (result, run_prepared r) of
        (AnalysisResultOf a, _) \<Rightarrow> persist_analysis (fresh 0) now (t_id (run_task r)) a d
      | (SuggestionsResultOf s, PreparedSuggestions _ record _ _ previous fixed) \<Rightarrow>
          persist_suggestions fresh now (t_id (run_task r)) record previous fixed s d
      | (SuggestionsResultOf s, _) \<Rightarrow> Inl TypeError
      | (VersionResultOf v, _) \<Rightarrow> persist_version (fresh 0) now (t_id (run_task r)) v d)"

section \<open>Failure and cancellation\<close>

text \<open>An error dictionary is the triple (code, message, details).\<close>

type_synonym error_dict = "string \<times> pystr \<times> (pystr \<times> json) list"

definition fail_operation ::
  "instant \<Rightarrow> error_dict \<Rightarrow> ai_operation_status \<Rightarrow> ai_operation \<Rightarrow> ai_operation" where
  "fail_operation now error status op =
     (case error of (code, message, details) \<Rightarrow>
       op\<lparr>o_status := status, o_completed_task_state := Some (o_initial_task_state op),
          o_error_code := Some (tx code), o_error_message := Some message,
          o_error_details := details, o_completed_at := Some now\<rparr>)"

definition record_failure ::
  "instant \<Rightarrow> uuid \<Rightarrow> ai_operation \<Rightarrow> error_dict \<Rightarrow> ai_operation_status \<Rightarrow> db \<Rightarrow> task_exc + unit \<times> db" where
  "record_failure now task_id op error status d =
     commit ()
       (save_operation now (o_id op) (fail_operation now error status)
         (save_task now task_id (\<lambda>t. t\<lparr>t_state := o_initial_task_state op\<rparr>) d))"

definition cancelled_error :: error_dict where
  "cancelled_error = (''ai_operation_cancelled'', tx ''The AI operation was cancelled'', [])"

definition invalid_error :: error_dict where
  "invalid_error = (''invalid_ai_operation'',
     tx ''AI operation inputs do not match the task state or constraints'', [])"

definition internal_error :: error_dict where
  "internal_error = (''ai_operation_internal_error'', tx ''The AI operation could not be completed'', [])"

definition record_cancellation :: "instant \<Rightarrow> uuid \<Rightarrow> uuid \<Rightarrow> db \<Rightarrow> task_exc + unit \<times> db" where
  "record_cancellation now task_id operation_id d =
     (case (find_operation d operation_id, find_task d task_id) of
        (Some op, Some t) \<Rightarrow> record_failure now (t_id t) op cancelled_error CANCELLED d
      | _ \<Rightarrow> Inr ((), d))"

section \<open>The first unit of work of \_execute\<close>

datatype lock_outcome = LockGranted | LockBusy | LockUnavailable

datatype claim = ClaimReturned ai_operation | ClaimRaised task_exc | Claimed run

definition new_running_operation ::
  "uuid \<Rightarrow> instant \<Rightarrow> uuid \<Rightarrow> rewrite_task \<Rightarrow> ai_operation_kind \<Rightarrow> pystr option \<Rightarrow> pystr \<Rightarrow> ai_operation" where
  "new_running_operation i now owner_id task kind idempotency_key hash =
     \<lparr>o_id = i, o_owner_id = owner_id, o_task_id = t_id task, o_kind = kind, o_status = RUNNING,
      o_idempotency_key = idempotency_key, o_request_hash = hash, o_request_payload = JObj [],
      o_request_id = None, o_task_name = t_name task, o_initial_task_state = t_state task,
      o_running_task_state = running_state kind, o_completed_task_state = None,
      o_resource_type = None, o_resource_id = None, o_error_code = None, o_error_message = None,
      o_error_details = [], o_provider_request_id = None, o_started_at = Some now,
      o_completed_at = None, o_created_at = now, o_updated_at = now\<rparr>"

text \<open>The claim of a queued operation: the UPDATE matches while the row is still queued.\<close>

definition claim_row :: "instant \<Rightarrow> ai_operation \<Rightarrow> ai_operation" where
  "claim_row now op = op\<lparr>o_status := RUNNING, o_started_at := Some now, o_updated_at := now\<rparr>"

definition claim_update :: "instant \<Rightarrow> uuid \<Rightarrow> db \<Rightarrow> db" where
  "claim_update now i d =
     d\<lparr>operations :=
         update_where (\<lambda>op. o_id op = i \<and> o_status op = QUEUED) (claim_row now) (operations d)\<rparr>"

text \<open>The task moves to the running state and the unit of work commits; a constraint that fails there
  is resolved through the idempotency key.\<close>

definition claim_commit ::
  "instant \<Rightarrow> uuid \<Rightarrow> uuid \<Rightarrow> ai_operation_kind \<Rightarrow> pystr option \<Rightarrow> pystr \<Rightarrow> run \<Rightarrow> db \<Rightarrow> db \<Rightarrow> claim \<times> db" where
  "claim_commit now owner_id task_id kind idempotency_key hash r changed d =
     (case flush (save_task now task_id (\<lambda>t. t\<lparr>t_state := running_state kind\<rparr>) changed) of
        Inr d' \<Rightarrow> (Claimed r, d')
      | Inl IntegrityError \<Rightarrow>
          (case idempotent_operation owner_id task_id kind idempotency_key hash d of
             Inl e \<Rightarrow> (ClaimRaised e, d)
           | Inr (Some existing) \<Rightarrow> (ClaimReturned existing, d)
           | Inr None \<Rightarrow> (ClaimRaised IntegrityError, d))
      | Inl e \<Rightarrow> (ClaimRaised e, d))"

definition claim_queued ::
  "op_env \<Rightarrow> instant \<Rightarrow> uuid \<Rightarrow> uuid \<Rightarrow> uuid \<Rightarrow> ai_operation_kind \<Rightarrow> pystr option \<Rightarrow> pystr \<Rightarrow> prepared \<Rightarrow>
   db \<Rightarrow> claim \<times> db" where
  "claim_queued env now queued_id owner_id task_id kind idempotency_key hash prep d =
     (case get_owned_operation queued_id owner_id d of
        Inl e \<Rightarrow> (ClaimRaised e, d)
      | Inr op \<Rightarrow>
          if o_status op \<noteq> QUEUED then (ClaimReturned op, d)
          else case find_task d task_id of
            None \<Rightarrow> (ClaimRaised AttributeError, d)
          | Some task \<Rightarrow>
              (case provider_context env owner_id d of
                 Inl e \<Rightarrow> (ClaimRaised e, d)
               | Inr (config, model) \<Rightarrow>
                   if t_state task \<noteq> o_running_task_state op
                   then (ClaimRaised (ai_exc ''invalid_task_state''
                     (tx ''The queued task state no longer matches this operation'') 409), d)
                   else
                     claim_commit now owner_id task_id kind idempotency_key hash
                       \<lparr>run_operation_id = o_id op, run_owner_id = owner_id, run_task = task,
                        run_config = config, run_model = model,
                        run_initial_state = o_initial_task_state op, run_prepared = prep\<rparr>
                       (claim_update now (o_id op) d) d))"

definition claim_new ::
  "op_env \<Rightarrow> instant \<Rightarrow> uuid \<Rightarrow> uuid \<Rightarrow> uuid \<Rightarrow> ai_operation_kind \<Rightarrow> pystr option \<Rightarrow> pystr \<Rightarrow> prepared \<Rightarrow>
   db \<Rightarrow> claim \<times> db" where
  "claim_new env now new_id owner_id task_id kind idempotency_key hash prep d =
     (case find_task d task_id of
        None \<Rightarrow> (ClaimRaised AttributeError, d)
      | Some task \<Rightarrow>
          (case provider_context env owner_id d of
             Inl e \<Rightarrow> (ClaimRaised e, d)
           | Inr (config, model) \<Rightarrow>
               (case assert_transition (t_state task) (running_state kind) of
                  Inl _ \<Rightarrow> (ClaimRaised (ai_exc ''invalid_task_state''
                    (tx ''The task is not ready for this AI operation'') 409), d)
                | Inr _ \<Rightarrow>
                    claim_commit now owner_id task_id kind idempotency_key hash
                      \<lparr>run_operation_id = new_id, run_owner_id = owner_id, run_task = task,
                       run_config = config, run_model = model,
                       run_initial_state = t_state task, run_prepared = prep\<rparr>
                      (d\<lparr>operations := operations d @
                          [new_running_operation new_id now owner_id task kind idempotency_key hash]\<rparr>)
                      d)))"

text \<open>The lookup by idempotency key that the code repeats once the lease is held reads the same
  database in this unit of work, so it is written once.\<close>

definition execute_claim ::
  "op_env \<Rightarrow> lock_outcome \<Rightarrow> uuid option \<Rightarrow> instant \<Rightarrow> uuid \<Rightarrow> uuid \<Rightarrow> uuid \<Rightarrow> ai_operation_kind \<Rightarrow>
   pystr option \<Rightarrow> pystr \<Rightarrow> prepared \<Rightarrow> db \<Rightarrow> claim \<times> db" where
  "execute_claim env lock queued_operation_id now new_id owner_id task_id kind idempotency_key hash prep d =
     (case idempotent_operation owner_id task_id kind idempotency_key hash d of
        Inl e \<Rightarrow> (ClaimRaised e, d)
      | Inr (Some existing) \<Rightarrow> (ClaimReturned existing, d)
      | Inr None \<Rightarrow>
          (case lock of
             LockBusy \<Rightarrow> (ClaimRaised MemberAiCallBusyError, d)
           | LockUnavailable \<Rightarrow> (ClaimRaised AiLockUnavailableError, d)
           | LockGranted \<Rightarrow>
               (case queued_operation_id of
                  Some q \<Rightarrow> claim_queued env now q owner_id task_id kind idempotency_key hash prep d
                | None \<Rightarrow> claim_new env now new_id owner_id task_id kind idempotency_key hash prep d)))"

section \<open>The second unit of work of \_execute\<close>

datatype finish = FinishReturned ai_operation | FinishRaised task_exc

definition complete_operation ::
  "instant \<Rightarrow> service_result \<Rightarrow> string \<Rightarrow> uuid \<Rightarrow> ai_operation \<Rightarrow> ai_operation" where
  "complete_operation now result resource_type resource_id op =
     op\<lparr>o_status := SUCCEEDED, o_completed_task_state := Some (sp_succeeded (result_state result)),
        o_resource_type := Some (tx resource_type), o_resource_id := Some resource_id,
        o_provider_request_id := pm_provider_request_id (result_metadata result),
        o_completed_at := Some now\<rparr>"

text \<open>\<open>_record_failure\<close> followed by the raise of the handler.\<close>

definition fail_and_raise ::
  "instant \<Rightarrow> run \<Rightarrow> error_dict \<Rightarrow> task_exc \<Rightarrow> db \<Rightarrow> finish \<times> db" where
  "fail_and_raise now r error e d =
     (case find_operation d (run_operation_id r) of
        None \<Rightarrow> (FinishRaised AttributeError, d)
      | Some op \<Rightarrow>
          (case record_failure now (t_id (run_task r)) op error FAILED d of
             Inl e' \<Rightarrow> (FinishRaised e', d)
           | Inr (_, d') \<Rightarrow> (FinishRaised e, d')))"

definition finish_crash :: "instant \<Rightarrow> run \<Rightarrow> db \<Rightarrow> finish \<times> db" where
  "finish_crash now r d =
     (let raised = FinishRaised (TaskAiExecutionError ''ai_operation_internal_error''
            (tx ''The AI operation could not be completed'') 500
            [(tx ''operation_id'', JStr (uuid_str (run_operation_id r)))])
      in case (find_operation d (run_operation_id r), find_task d (t_id (run_task r))) of
           (Some op, task) \<Rightarrow>
             if o_status op = SUCCEEDED then (FinishReturned op, d)
             else (case task of
               None \<Rightarrow> (raised, d)
             | Some t \<Rightarrow>
                 (case record_failure now (t_id t) op internal_error FAILED d of
                    Inl e \<Rightarrow> (FinishRaised e, d)
                  | Inr (_, d') \<Rightarrow> (raised, d')))
         | (None, _) \<Rightarrow> (raised, d))"

definition finish_success ::
  "instant \<Rightarrow> run \<Rightarrow> service_result \<Rightarrow> string \<Rightarrow> uuid \<Rightarrow> db \<Rightarrow> task_exc + ai_operation \<times> db" where
  "finish_success now r result resource_type resource_id d =
     bind_result (flush
       (save_operation now (run_operation_id r) (complete_operation now result resource_type resource_id)
         (save_task now (t_id (run_task r)) (\<lambda>t. t\<lparr>t_state := sp_succeeded (result_state result)\<rparr>) d))) (\<lambda>d'.
     bind_result (of_option AttributeError (find_operation d' (run_operation_id r))) (\<lambda>op. Inr (op, d')))"

definition finish_invalid :: "instant \<Rightarrow> run \<Rightarrow> db \<Rightarrow> finish \<times> db" where
  "finish_invalid now r d =
     fail_and_raise now r invalid_error
       (TaskAiExecutionError ''invalid_ai_operation''
          (tx ''AI operation inputs do not match the task state or constraints'') 409
          [(tx ''operation_id'', JStr (uuid_str (run_operation_id r)))]) d"

definition finish_provider_error :: "instant \<Rightarrow> run \<Rightarrow> ai_error \<Rightarrow> db \<Rightarrow> finish \<times> db" where
  "finish_provider_error now r e d =
     fail_and_raise now r (as_dict e)
       (TaskAiExecutionError (ai_error_code_value (ae_code e)) (ae_message e)
          (provider_error_status (ae_code e))
          (dict_merge (ae_details e)
             [(tx ''retryable'', JBool (ae_retryable e)),
              (tx ''operation_id'', JStr (uuid_str (run_operation_id r)))])) d"

definition finish_cancelled :: "instant \<Rightarrow> run \<Rightarrow> db \<Rightarrow> finish \<times> db" where
  "finish_cancelled now r d =
     (case record_cancellation now (t_id (run_task r)) (run_operation_id r) d of
        Inl e \<Rightarrow> (FinishRaised e, d)
      | Inr (_, d') \<Rightarrow> (FinishRaised CancelledError, d'))"

definition execute_finish :: "op_env \<Rightarrow> (nat \<Rightarrow> uuid) \<Rightarrow> instant \<Rightarrow> run \<Rightarrow> db \<Rightarrow> finish \<times> db" where
  "execute_finish env fresh now r d =
     (case invoke env r of
        Inl (AiOperationFailed _ e) \<Rightarrow> finish_provider_error now r e d
      | Inl (ServiceValueError _) \<Rightarrow> finish_invalid now r d
      | Inl ServiceCancelled \<Rightarrow> finish_cancelled now r d
      | Inl ServiceCrash \<Rightarrow> finish_crash now r d
      | Inr result \<Rightarrow>
          (case persist fresh now r result d of
             Inl (PyValueError _) \<Rightarrow> finish_invalid now r d
           | Inl _ \<Rightarrow> finish_crash now r d
           | Inr ((resource_type, resource_id), d') \<Rightarrow>
               (case finish_success now r result resource_type resource_id d' of
                  Inl _ \<Rightarrow> finish_crash now r d
                | Inr (op, d'') \<Rightarrow> (FinishReturned op, d''))))"

end
