(* ===== verification/Ai_Queue.thy ===== *)
theory Ai_Queue
  imports Ai_Execution
begin

text \<open>
  The durable queue: src/backend/app/modules/tasks/ai_queue.py. Every operation of \<open>AiQueueService\<close> is
  one unit of work.
\<close>

section \<open>Errors\<close>

definition snapshot_stale :: task_exc where
  "snapshot_stale = ai_exc ''suggestion_snapshot_stale'' [26041, 26696, 24050, 26356, 26032, 65292, 35831, 30830, 35748, 24403, 21069, 36873,
      25321] 409"

definition operation_in_progress :: task_exc where
  "operation_in_progress = ai_exc ''ai_operation_in_progress'' [35813, 25991, 26696, 24050, 26377, 25490, 38431, 25110, 25191, 34892, 20013, 30340,
      20219, 21153] 409"

definition key_reused :: task_exc where
  "key_reused = ai_exc ''idempotency_key_reused'' [37325, 22797, 35831, 27714, 30340, 21442, 25968, 19981, 19968, 33268] 409"

section \<open>submit\<close>

definition existing_operation ::
  "uuid \<Rightarrow> uuid \<Rightarrow> ai_operation_kind \<Rightarrow> pystr option \<Rightarrow> pystr \<Rightarrow> db \<Rightarrow> task_exc + ai_operation option" where
  "existing_operation task_id owner_id kind key hash d =
     (if key = None then Inr None
      else case find (\<lambda>op. op_scope op = (owner_id, task_id, kind, key)) (operations d) of
        None \<Rightarrow> Inr None
      | Some op \<Rightarrow> if o_request_hash op \<noteq> hash then Inl key_reused else Inr (Some op))"

definition decide_row :: "instant \<Rightarrow> decision_submit list \<Rightarrow> suggestion_record \<Rightarrow> suggestion_record" where
  "decide_row now decisions s =
     (case decision_at decisions (sr_id s) of
        None \<Rightarrow> s
      | Some x \<Rightarrow> orm_save (\<lambda>s. s\<lparr>sr_updated_at := now\<rparr>)
          (\<lambda>s. s\<lparr>sr_decision := (if sd_selected x then ACCEPTED else REJECTED),
                  sr_member_note := sd_member_note x\<rparr>) s)"

definition apply_suggestion_snapshot :: "instant \<Rightarrow> uuid \<Rightarrow> submission \<Rightarrow> db \<Rightarrow> task_exc + db" where
  "apply_suggestion_snapshot now task_id payload d =
     (if submission_kind payload = REVISION \<and> payload_scope payload \<noteq> Some SUGGESTIONS_SCOPE then Inr d
      else if submission_kind payload \<notin> {SUGGESTIONS, FIRST_DRAFT, REVISION} then Inr d
      else case (payload_decisions payload, payload_analysis_id payload) of
        (Some decisions, Some analysis_id) \<Rightarrow>
          (case find (\<lambda>a. ar_id a = analysis_id \<and> ar_task_id a = task_id \<and> ar_is_selected a) (analyses d) of
             None \<Rightarrow> Inl snapshot_stale
           | Some _ \<Rightarrow>
               if sd_suggestion_id ` set decisions \<noteq> sr_id ` set (suggestions_of task_id analysis_id d)
               then Inl snapshot_stale
               else Inr (d\<lparr>suggestions :=
                 update_where (\<lambda>s. sr_task_id s = task_id \<and> sr_analysis_id s = analysis_id)
                   (decide_row now decisions) (suggestions d)\<rparr>))
      | _ \<Rightarrow> Inl snapshot_stale)"

definition queued_operation ::
  "uuid \<Rightarrow> instant \<Rightarrow> uuid \<Rightarrow> rewrite_task \<Rightarrow> submission \<Rightarrow> pystr option \<Rightarrow> pystr \<Rightarrow> pystr option \<Rightarrow>
   ai_operation" where
  "queued_operation i now owner_id task payload idempotency_key hash request_id =
     \<lparr>o_id = i, o_owner_id = owner_id, o_task_id = t_id task, o_kind = submission_kind payload,
      o_status = QUEUED, o_idempotency_key = idempotency_key, o_request_hash = hash,
      o_request_payload = dump_submission payload, o_request_id = request_id,
      o_task_name = t_name task, o_initial_task_state = t_state task,
      o_running_task_state = running_state (submission_kind payload),
      o_completed_task_state = None, o_resource_type = None, o_resource_id = None,
      o_error_code = None, o_error_message = None, o_error_details = [],
      o_provider_request_id = None, o_started_at = None, o_completed_at = None,
      o_created_at = now, o_updated_at = now\<rparr>"

definition enqueue :: "instant \<Rightarrow> rewrite_task \<Rightarrow> ai_operation \<Rightarrow> db \<Rightarrow> db" where
  "enqueue now task op d =
     save_task now (t_id task) (\<lambda>t. t\<lparr>t_state := o_running_task_state op\<rparr>)
       (d\<lparr>operations := operations d @ [op]\<rparr>)"

definition submit ::
  "uuid \<Rightarrow> instant \<Rightarrow> rewrite_task \<Rightarrow> uuid \<Rightarrow> submission \<Rightarrow> pystr option \<Rightarrow> pystr option \<Rightarrow> db \<Rightarrow>
   task_exc + ai_operation \<times> db" where
  "submit i now task owner_id payload idempotency_key request_id d =
     (let kind = submission_kind payload;
          hash = request_hash kind (t_id task) (dump_submission payload)
      in
      if t_owner_id task \<noteq> owner_id
      then Inl (ai_exc ''task_not_found'' [25991, 26696, 19981, 23384, 22312] 404)
      else
        bind_result (existing_operation (t_id task) owner_id kind idempotency_key hash d) (\<lambda>existing.
        case existing of
          Some op \<Rightarrow> Inr (op, d)
        | None \<Rightarrow>
            bind_result (of_option AttributeError (find_task d (t_id task))) (\<lambda>task.
            bind_result (require (\<not> list_ex (\<lambda>op. o_task_id op = t_id task \<and> active op) (operations d))
              operation_in_progress) (\<lambda>_.
            bind_result (map_error
              (\<lambda>_. ai_exc ''invalid_task_state'' [24403, 21069, 25991, 26696, 23578, 19981, 33021, 25191, 34892, 27492, 25805, 20316] 409)
              (assert_transition (t_state task) (running_state kind))) (\<lambda>_.
            bind_result (require (list_ex (\<lambda>s. ps_member_id s = owner_id) (provider_settings d))
              (ai_exc ''provider_setting_not_found'' [35831, 20808, 37197, 32622, 27169, 22411, 36830, 25509] 409)) (\<lambda>_.
            bind_result (apply_suggestion_snapshot now (t_id task) payload d) (\<lambda>d1.
            let op = queued_operation i now owner_id task payload idempotency_key hash request_id in
            (case flush (enqueue now task op d1) of
               Inr d' \<Rightarrow> Inr (op, d')
             | Inl IntegrityError \<Rightarrow>
                 bind_result (existing_operation (t_id task) owner_id kind idempotency_key hash d)
                   (\<lambda>existing. case existing of
                      Some op \<Rightarrow> Inr (op, d)
                    | None \<Rightarrow> Inl operation_in_progress)
             | Inl e \<Rightarrow> Inl e))))))))"

section \<open>Reading, clearing, cancelling, retrying\<close>

definition owned :: "uuid \<Rightarrow> uuid \<Rightarrow> db \<Rightarrow> task_exc + ai_operation" where
  "owned owner_id operation_id d =
     of_option (ai_exc ''operation_not_found'' [20219, 21153, 19981, 23384, 22312] 404)
       (find (\<lambda>op. o_id op = operation_id \<and> o_owner_id op = owner_id) (operations d))"

text \<open>\<open>ORDER BY completed_at DESC, id\<close>: rows without a completion time come first.\<close>

definition list_owned :: "uuid \<Rightarrow> db \<Rightarrow> ai_operation list" where
  "list_owned owner_id d =
     (let mine = filter (\<lambda>op. o_owner_id op = owner_id) (operations d);
          current = order_by2 o_created_at o_id (filter active mine);
          ended = filter (\<lambda>op. \<not> active op) mine;
          recent = sort_key o_id (filter (\<lambda>op. o_completed_at op = None) ended) @
                   order_by2 (\<lambda>op. case o_completed_at op of None \<Rightarrow> 0 | Some t \<Rightarrow> - t) o_id
                     (filter (\<lambda>op. o_completed_at op \<noteq> None) ended)
      in current @ take 30 recent)"

definition clear_completed :: "uuid \<Rightarrow> db \<Rightarrow> task_exc + unit \<times> db" where
  "clear_completed owner_id d =
     commit () (d\<lparr>operations :=
       filter (\<lambda>op. \<not> (o_owner_id op = owner_id \<and> \<not> active op)) (operations d)\<rparr>)"

definition cancel_row :: "instant \<Rightarrow> ai_operation \<Rightarrow> ai_operation" where
  "cancel_row now op = op\<lparr>o_status := CANCELLED, o_completed_at := Some now, o_updated_at := now\<rparr>"

definition release_task :: "instant \<Rightarrow> ai_operation \<Rightarrow> db \<Rightarrow> db" where
  "release_task now op d =
     (case find_task d (o_task_id op) of
        None \<Rightarrow> d
      | Some t \<Rightarrow>
          if t_state t = o_running_task_state op
          then save_task now (t_id t) (\<lambda>t. t\<lparr>t_state := o_initial_task_state op\<rparr>) d
          else d)"

definition cancel :: "instant \<Rightarrow> uuid \<Rightarrow> uuid \<Rightarrow> db \<Rightarrow> task_exc + ai_operation \<times> db" where
  "cancel now owner_id operation_id d =
     bind_result (owned owner_id operation_id d) (\<lambda>op.
     if \<not> list_ex (\<lambda>r. o_id r = o_id op \<and> o_status r = QUEUED) (operations d)
     then Inl (ai_exc ''operation_not_queued'' [20219, 21153, 24050, 24320, 22987, 25110, 32467, 26463, 65292, 26080, 27861, 21462,
      28040, 25490, 38431] 409)
     else
       let d1 = d\<lparr>operations :=
             update_where (\<lambda>r. o_id r = o_id op \<and> o_status r = QUEUED) (cancel_row now) (operations d)\<rparr>
       in commit (cancel_row now op) (release_task now op d1))"

definition retry ::
  "uuid \<Rightarrow> instant \<Rightarrow> uuid \<Rightarrow> uuid \<Rightarrow> pystr option \<Rightarrow> db \<Rightarrow> task_exc + ai_operation \<times> db" where
  "retry i now owner_id operation_id key d =
     bind_result (owned owner_id operation_id d) (\<lambda>op.
     if o_status op \<notin> {FAILED, CANCELLED}
     then Inl (ai_exc ''operation_not_retryable'' [21482, 33021, 37325, 35797, 22833, 36133, 25110, 24050, 21462, 28040, 30340, 20219,
      21153] 409)
     else if \<not> truthy (o_request_payload op) \<and> o_kind op \<noteq> ANALYSIS
     then Inl (ai_exc ''operation_inputs_missing'' [35831, 22238, 21040, 25991, 26696, 39029, 38754, 37325, 26032, 25552, 20132] 409)
     else
       bind_result (of_option (PyValueError (ValidationError ''request_payload''))
         (validate_submission (o_kind op) (o_request_payload op))) (\<lambda>payload.
       bind_result (of_option AttributeError (find_task d (o_task_id op))) (\<lambda>task.
       submit i now task owner_id payload key (o_request_id op) d)))"

end
