(* ===== verification/Ai_Worker.thy ===== *)
theory Ai_Worker
  imports Ai_Queue
begin

text \<open>
  The queue worker: src/backend/app/modules/tasks/ai_worker.py. \<open>tick\<close> starts at most one job per
  owner; a job goes through the phases of \<open>AiQueueWorker.execute\<close>: created, claimed and waiting for
  the provider, failed with the clean-up of the exception handler still to do, done. Other units of
  work may run between two phases.
\<close>

datatype job =
    JobNew uuid
  | JobRunning run
  | JobFailed uuid task_exc
  | JobDone

type_synonym jobs = "uuid \<rightharpoonup> job"

section \<open>tick\<close>

definition drop_done :: "jobs \<Rightarrow> jobs" where
  "drop_done jobs = (\<lambda>owner. if jobs owner = Some JobDone then None else jobs owner)"

text \<open>The loop over the owners of running operations; an exception ends the tick.\<close>

fun recover_owners :: "instant \<Rightarrow> jobs \<Rightarrow> uuid list \<Rightarrow> db \<Rightarrow> task_exc option \<times> db" where
  "recover_owners now jobs [] d = (None, d)"
| "recover_owners now jobs (owner # owners) d =
     (if jobs owner \<noteq> None then recover_owners now jobs owners d
      else case recover_stale_operations owner now d of
        Inl e \<Rightarrow> (Some e, d)
      | Inr (_, d') \<Rightarrow> recover_owners now jobs owners d')"

text \<open>\<open>seen\<close> is the owners with a job or a running operation; a started owner gets a job.\<close>

fun start_jobs :: "uuid list \<Rightarrow> ai_operation list \<Rightarrow> jobs \<Rightarrow> jobs" where
  "start_jobs running_owners [] jobs = jobs"
| "start_jobs running_owners (row # rows) jobs =
     (if jobs (o_owner_id row) \<noteq> None \<or> o_owner_id row \<in> set running_owners
      then start_jobs running_owners rows jobs
      else start_jobs running_owners rows (jobs(o_owner_id row \<mapsto> JobNew (o_id row))))"

definition tick :: "instant \<Rightarrow> db \<times> jobs \<Rightarrow> db \<times> jobs" where
  "tick now st =
     (case st of (d, jobs) \<Rightarrow>
       let jobs1 = drop_done jobs;
           owners = remdups (map o_owner_id (filter (\<lambda>op. o_status op = RUNNING) (operations d)))
       in case recover_owners now jobs1 owners d of
            (Some e, d') \<Rightarrow> (d', jobs1)
          | (None, d') \<Rightarrow>
              let rows = order_by2 o_created_at o_id (filter active (operations d'));
                  running_owners = map o_owner_id (filter (\<lambda>row. o_status row = RUNNING) rows)
              in (d', start_jobs running_owners rows jobs1))"

section \<open>execute\<close>

definition member_disabled :: task_exc where
  "member_disabled = ai_exc ''member_disabled'' [36134, 25143, 24050, 20572, 29992, 65292, 20219, 21153, 26410, 25191, 34892] 403"

definition job_after_claim :: "uuid \<Rightarrow> claim \<Rightarrow> job" where
  "job_after_claim operation_id c =
     (case c of
        ClaimReturned _ \<Rightarrow> JobDone
      | Claimed r \<Rightarrow> JobRunning r
      | ClaimRaised e \<Rightarrow>
          if e \<in> {MemberAiCallBusyError, AiLockUnavailableError} then JobDone
          else JobFailed operation_id e)"

definition run_method ::
  "op_env \<Rightarrow> lock_outcome \<Rightarrow> instant \<Rightarrow> ai_operation \<Rightarrow> submission \<Rightarrow> db \<Rightarrow> job \<times> db" where
  "run_method env lock now op payload d =
     (case recover_stale_operations (o_owner_id op) now d of
        Inl e \<Rightarrow> (JobFailed (o_id op) e, d)
      | Inr (_, d1) \<Rightarrow>
          (case find_task d1 (o_task_id op) of
             None \<Rightarrow> (JobFailed (o_id op) AttributeError, d1)
           | Some task \<Rightarrow>
               (case prepare task payload d1 of
                  Inl e \<Rightarrow> (JobFailed (o_id op) e, d1)
                | Inr (prep, hash) \<Rightarrow>
                    (case execute_claim env lock (Some (o_id op)) now 0 (o_owner_id op) (t_id task)
                            (o_kind op) None hash prep d1 of
                       (c, d2) \<Rightarrow> (job_after_claim (o_id op) c, d2)))))"

definition execute_begin :: "op_env \<Rightarrow> lock_outcome \<Rightarrow> instant \<Rightarrow> uuid \<Rightarrow> db \<Rightarrow> job \<times> db" where
  "execute_begin env lock now operation_id d =
     (case find_operation d operation_id of
        None \<Rightarrow> (JobDone, d)
      | Some op \<Rightarrow>
          if o_status op \<noteq> QUEUED then (JobDone, d)
          else if \<not> list_ex (\<lambda>m. m_id m = o_owner_id op \<and> m_is_active m) (members d)
          then (JobFailed operation_id member_disabled, d)
          else case validate_submission (o_kind op) (o_request_payload op) of
            None \<Rightarrow> (JobFailed operation_id (PyValueError (ValidationError ''request_payload'')), d)
          | Some payload \<Rightarrow> run_method env lock now op payload d)"

definition execute_end :: "op_env \<Rightarrow> (nat \<Rightarrow> uuid) \<Rightarrow> instant \<Rightarrow> run \<Rightarrow> db \<Rightarrow> job \<times> db" where
  "execute_end env fresh now r d =
     (case execute_finish env fresh now r d of
        (FinishReturned _, d') \<Rightarrow> (JobDone, d')
      | (FinishRaised e, d') \<Rightarrow>
          (if e = CancelledError then JobDone else JobFailed (run_operation_id r) e, d'))"

definition failure_code :: "task_exc \<Rightarrow> string \<times> pystr" where
  "failure_code e =
     (case e of TaskAiExecutionError code message _ _ \<Rightarrow> (code, message)
      | _ \<Rightarrow> (''ai_operation_internal_error'', [20219, 21153, 25191, 34892, 22833, 36133, 65292, 35831, 37325, 35797]))"

definition fail_queued :: "instant \<Rightarrow> task_exc \<Rightarrow> ai_operation \<Rightarrow> ai_operation" where
  "fail_queued now e op =
     op\<lparr>o_status := FAILED, o_error_code := Some (tx (fst (failure_code e))),
        o_error_message := Some (snd (failure_code e)),
        o_error_details := [(tx ''retryable'', JBool True)], o_completed_at := Some now,
        o_updated_at := now\<rparr>"

definition reset_task :: "instant \<Rightarrow> ai_operation \<Rightarrow> db \<Rightarrow> db" where
  "reset_task now op d =
     d\<lparr>tasks := update_where (\<lambda>t. t_id t = o_task_id op \<and> t_state t = o_running_task_state op)
         (\<lambda>t. t\<lparr>t_state := o_initial_task_state op, t_updated_at := now\<rparr>) (tasks d)\<rparr>"

text \<open>The handler of \<open>except Exception\<close>, after its rollback.\<close>

definition cleanup_changes :: "instant \<Rightarrow> uuid \<Rightarrow> task_exc \<Rightarrow> db \<Rightarrow> db" where
  "cleanup_changes now operation_id e d =
     (let d1 = (case find_operation d operation_id of None \<Rightarrow> d | Some op \<Rightarrow> reset_task now op d)
      in d1\<lparr>operations := update_where (\<lambda>op. o_id op = operation_id \<and> o_status op = QUEUED)
               (fail_queued now e) (operations d1)\<rparr>)"

definition execute_cleanup :: "instant \<Rightarrow> uuid \<Rightarrow> task_exc \<Rightarrow> db \<Rightarrow> db" where
  "execute_cleanup now operation_id e d =
     (case flush (cleanup_changes now operation_id e d) of Inl _ \<Rightarrow> d | Inr d' \<Rightarrow> d')"

text \<open>\<open>run\<close> cancels every job when the application stops. A job that waits for the provider, or in another
  await of the try block of \<open>_execute\<close>, records the cancellation; at any other await before a commit its
  transaction is rolled back.\<close>

definition cancel_waiting :: "instant \<Rightarrow> job \<Rightarrow> db \<Rightarrow> job \<times> db" where
  "cancel_waiting now j d =
     (case j of
        JobRunning r \<Rightarrow> (JobDone, snd (finish_cancelled now r d))
      | _ \<Rightarrow> (JobDone, d))"

text \<open>No handler catches a cancellation that arrives in a commit outside that try block: the claim, the
  recording of a failure or the clean-up. The job is lost; \<open>AtCommit\<close> says whether the database had
  carried the commit out. The commit of a success is inside the try block; here it has not been carried
  out when it is cancelled.\<close>

datatype cancel_point = AtWait | AtCommit bool

definition cancel_job ::
  "op_env \<Rightarrow> (nat \<Rightarrow> uuid) \<Rightarrow> lock_outcome \<Rightarrow> cancel_point \<Rightarrow> instant \<Rightarrow> job \<Rightarrow> db \<Rightarrow> db" where
  "cancel_job env fresh lock p now j d =
     (case p of
        AtWait \<Rightarrow> snd (cancel_waiting now j d)
      | AtCommit carried_out \<Rightarrow>
          (case j of
             JobNew i \<Rightarrow> if carried_out then snd (execute_begin env lock now i d) else d
           | JobRunning r \<Rightarrow>
               (case execute_finish env fresh now r d of
                  (FinishReturned _, _) \<Rightarrow> snd (cancel_waiting now j d)
                | (FinishRaised _, d') \<Rightarrow> if carried_out then d' else d)
           | JobFailed i e \<Rightarrow> if carried_out then execute_cleanup now i e d else d
           | JobDone \<Rightarrow> d))"

end
