(* ===== verification/Task_Router.thy ===== *)
theory Task_Router
  imports Ai_Queue
begin

text \<open>
  The task endpoints: src/backend/app/modules/tasks/router.py. Each handler is one unit of work for
  the authenticated member \<open>member_id\<close>; request bodies arrive validated by the models of
  Task\_Schemas and Ai\_Submissions.
\<close>

section \<open>Errors and shared lookups\<close>

definition task_not_found :: task_exc where
  "task_not_found = api_exc ''task_not_found'' (tx ''Task was not found'') 404"

definition preset_not_found :: task_exc where
  "preset_not_found = api_exc ''preset_not_found'' (tx ''Preset was not found'') 404"

definition version_not_found :: task_exc where
  "version_not_found = api_exc ''version_not_found'' (tx ''Version was not found'') 404"

definition analysis_not_found :: task_exc where
  "analysis_not_found = api_exc ''analysis_not_found'' (tx ''Analysis was not found'') 404"

definition owned_task :: "uuid \<Rightarrow> uuid \<Rightarrow> db \<Rightarrow> task_exc + rewrite_task" where
  "owned_task task_id owner_id d = map_error (\<lambda>_. task_not_found) (repo_get_owned task_id owner_id d)"

definition owned_version :: "uuid \<Rightarrow> uuid \<Rightarrow> uuid \<Rightarrow> db \<Rightarrow> task_exc + script_version" where
  "owned_version task_id version_id owner_id d =
     of_option version_not_found
       (find (\<lambda>v. v_id v = version_id \<and> v_task_id v = task_id \<and>
          list_ex (\<lambda>t. t_id t = v_task_id v \<and> t_owner_id t = owner_id) (tasks d)) (versions d))"

definition ai_in_progress :: task_exc where
  "ai_in_progress = api_exc ''ai_operation_in_progress''
     [35813, 25991, 26696, 26377, 25490, 38431, 25110, 25191, 34892, 20013, 30340, 20219,
      21153, 65292, 26242, 26102, 26080, 27861, 20462, 25913] 409"

definition assert_no_active_ai :: "uuid \<Rightarrow> db \<Rightarrow> task_exc + unit" where
  "assert_no_active_ai task_id d =
     require (filter (\<lambda>op. o_task_id op = task_id \<and> active op) (operations d) = []) ai_in_progress"

definition execute_ai :: "task_exc + 'r \<Rightarrow> task_exc + 'r" where
  "execute_ai operation =
     map_error (\<lambda>e. case e of
        MemberAiCallBusyError \<Rightarrow> api_exc ''ai_call_in_progress''
          (tx ''This member already has an AI call in progress'') 409
      | AiLockUnavailableError \<Rightarrow> api_exc ''ai_lock_unavailable''
          (tx ''AI calls are temporarily unavailable because concurrency control cannot be verified'') 503
      | TaskAiExecutionError code message status details \<Rightarrow> TaskApiError code message status details
      | _ \<Rightarrow> e) operation"

definition str_of_value_error :: "task_exc \<Rightarrow> pystr" where
  "str_of_value_error e = (case e of PyValueError (ValueError s) \<Rightarrow> tx s | _ \<Rightarrow> [])"

section \<open>Presets\<close>

definition preset_name_exists :: task_exc where
  "preset_name_exists = api_exc ''preset_name_exists'' [24050, 26377, 21516, 21517, 39044, 35774] 409"

definition on_integrity_error :: "task_exc \<Rightarrow> task_exc + 'r \<Rightarrow> task_exc + 'r" where
  "on_integrity_error e' r = map_error (\<lambda>e. if e = IntegrityError then e' else e) r"

definition list_presets :: "uuid \<Rightarrow> db \<Rightarrow> creative_preset list" where
  "list_presets member_id d = preset_list_owned member_id d"

definition create_preset ::
  "uuid \<Rightarrow> instant \<Rightarrow> uuid \<Rightarrow> preset_create \<Rightarrow> db \<Rightarrow> task_exc + creative_preset \<times> db" where
  "create_preset i now member_id payload d =
     on_integrity_error preset_name_exists
       (bind_result (preset_create_row i now member_id payload d) (\<lambda>(preset, d'). commit preset d'))"

definition update_preset ::
  "instant \<Rightarrow> uuid \<Rightarrow> uuid \<Rightarrow> preset_update \<Rightarrow> db \<Rightarrow> task_exc + creative_preset \<times> db" where
  "update_preset now member_id preset_id payload d =
     bind_result (map_error (\<lambda>_. preset_not_found) (preset_get_owned preset_id member_id d)) (\<lambda>preset.
     on_integrity_error preset_name_exists
       (bind_result (replace_settings now preset (pru_name payload) (pru_settings payload) d)
          (\<lambda>(preset', d'). commit preset' d')))"

definition delete_preset :: "uuid \<Rightarrow> uuid \<Rightarrow> db \<Rightarrow> task_exc + unit \<times> db" where
  "delete_preset member_id preset_id d =
     bind_result (map_error (\<lambda>_. preset_not_found) (preset_get_owned preset_id member_id d)) (\<lambda>preset.
     bind_result (preset_delete preset d) (\<lambda>d'. commit () d'))"

section \<open>Tasks\<close>

definition list_tasks ::
  "(pystr \<Rightarrow> pystr \<Rightarrow> bool) \<Rightarrow> nat \<Rightarrow> uuid \<Rightarrow> pystr option \<Rightarrow> task_state option \<Rightarrow> bool \<Rightarrow> nat \<Rightarrow> nat \<Rightarrow>
   db \<Rightarrow> task_exc + rewrite_task list" where
  "list_tasks ilike max_int member_id search state archived offset limit d =
     repo_list_owned ilike max_int member_id search state archived offset limit d"

definition create_task :: "uuid \<Rightarrow> instant \<Rightarrow> uuid \<Rightarrow> task_create \<Rightarrow> db \<Rightarrow> task_exc + rewrite_task \<times> db" where
  "create_task i now member_id payload d =
     bind_result (repo_create i now member_id payload d) (\<lambda>(task, d'). commit task d')"

definition get_task :: "uuid \<Rightarrow> uuid \<Rightarrow> db \<Rightarrow> task_exc + rewrite_task" where
  "get_task member_id task_id d = owned_task task_id member_id d"

definition update_task :: "instant \<Rightarrow> uuid \<Rightarrow> uuid \<Rightarrow> task_update \<Rightarrow> db \<Rightarrow> task_exc + rewrite_task \<times> db" where
  "update_task now member_id task_id payload d =
     bind_result (owned_task task_id member_id d) (\<lambda>task.
     bind_result (assert_no_active_ai task_id d) (\<lambda>_.
     bind_result (map_error (\<lambda>e. case e of
          PyValueError _ \<Rightarrow> api_exc ''task_not_editable'' (str_of_value_error e) 409 | _ \<Rightarrow> e)
        (repo_update_draft now task payload d)) (\<lambda>(task', d'). commit task' d')))"

definition copy_task :: "uuid \<Rightarrow> instant \<Rightarrow> uuid \<Rightarrow> uuid \<Rightarrow> db \<Rightarrow> task_exc + rewrite_task \<times> db" where
  "copy_task i now member_id task_id d =
     bind_result (owned_task task_id member_id d) (\<lambda>source.
     bind_result (repo_copy i now source member_id d) (\<lambda>(copied, d'). commit copied d'))"

definition snapshot_of :: "rewrite_task \<Rightarrow> task_snapshot" where
  "snapshot_of task =
     \<lparr>sn_id = t_id task, sn_owner_id = t_owner_id task, sn_state = t_state task,
      sn_archived_from_state = t_archived_from_state task, sn_version_kinds = []\<rparr>"

definition store_snapshot :: "instant \<Rightarrow> rewrite_task \<Rightarrow> task_snapshot \<Rightarrow> db \<Rightarrow> task_exc + rewrite_task \<times> db" where
  "store_snapshot now task s d =
     (let f = (\<lambda>t. t\<lparr>t_state := sn_state s, t_archived_from_state := sn_archived_from_state s\<rparr>)
      in commit (orm_save (\<lambda>t. t\<lparr>t_updated_at := now\<rparr>) f task) (save_task now (t_id task) f d))"

definition archive_task :: "instant \<Rightarrow> uuid \<Rightarrow> uuid \<Rightarrow> db \<Rightarrow> task_exc + rewrite_task \<times> db" where
  "archive_task now member_id task_id d =
     bind_result (owned_task task_id member_id d) (\<lambda>task.
     bind_result (assert_no_active_ai task_id d) (\<lambda>_.
     store_snapshot now task (archive (snapshot_of task)) d))"

definition restore_task :: "instant \<Rightarrow> uuid \<Rightarrow> uuid \<Rightarrow> db \<Rightarrow> task_exc + rewrite_task \<times> db" where
  "restore_task now member_id task_id d =
     bind_result (owned_task task_id member_id d) (\<lambda>task.
     bind_result (assert_no_active_ai task_id d) (\<lambda>_.
     bind_result (map_error (\<lambda>e. api_exc ''task_not_restorable'' (str_of_value_error (PyValueError e)) 409)
       (restore (snapshot_of task))) (\<lambda>s.
     store_snapshot now task s d)))"

section \<open>AI workflow\<close>

definition submit_analysis ::
  "uuid \<Rightarrow> instant \<Rightarrow> uuid \<Rightarrow> uuid \<Rightarrow> pystr option \<Rightarrow> db \<Rightarrow> task_exc + ai_operation \<times> db" where
  "submit_analysis i now member_id task_id idempotency_key d =
     bind_result (owned_task task_id member_id d) (\<lambda>task.
     execute_ai (submit i now task member_id AnalysisSubmit idempotency_key None d))"

definition submit_suggestions ::
  "uuid \<Rightarrow> instant \<Rightarrow> uuid \<Rightarrow> uuid \<Rightarrow> suggestions_submit \<Rightarrow> pystr option \<Rightarrow> pystr option \<Rightarrow> db \<Rightarrow>
   task_exc + ai_operation \<times> db" where
  "submit_suggestions i now member_id task_id payload idempotency_key request_id d =
     bind_result (owned_task task_id member_id d) (\<lambda>task.
     execute_ai (submit i now task member_id (SuggestionsSubmit payload) idempotency_key request_id d))"

definition submit_first_draft ::
  "uuid \<Rightarrow> instant \<Rightarrow> uuid \<Rightarrow> uuid \<Rightarrow> first_draft_submit \<Rightarrow> pystr option \<Rightarrow> pystr option \<Rightarrow> db \<Rightarrow>
   task_exc + ai_operation \<times> db" where
  "submit_first_draft i now member_id task_id payload idempotency_key request_id d =
     bind_result (owned_task task_id member_id d) (\<lambda>task.
     execute_ai (submit i now task member_id (FirstDraftSubmit payload) idempotency_key request_id d))"

definition submit_revision ::
  "uuid \<Rightarrow> instant \<Rightarrow> uuid \<Rightarrow> uuid \<Rightarrow> revision_submit \<Rightarrow> pystr option \<Rightarrow> pystr option \<Rightarrow> db \<Rightarrow>
   task_exc + ai_operation \<times> db" where
  "submit_revision i now member_id task_id payload idempotency_key request_id d =
     bind_result (owned_task task_id member_id d) (\<lambda>task.
     execute_ai (submit i now task member_id (RevisionSubmit payload) idempotency_key request_id d))"

text \<open>The endpoint of a submission; \<open>submit_analysis\<close> passes no request identifier.\<close>

definition submit_operation ::
  "uuid \<Rightarrow> instant \<Rightarrow> uuid \<Rightarrow> uuid \<Rightarrow> submission \<Rightarrow> pystr option \<Rightarrow> pystr option \<Rightarrow> db \<Rightarrow>
   task_exc + ai_operation \<times> db" where
  "submit_operation i now member_id task_id payload idempotency_key request_id d =
     (case payload of
        AnalysisSubmit \<Rightarrow> submit_analysis i now member_id task_id idempotency_key d
      | SuggestionsSubmit p \<Rightarrow> submit_suggestions i now member_id task_id p idempotency_key request_id d
      | FirstDraftSubmit p \<Rightarrow> submit_first_draft i now member_id task_id p idempotency_key request_id d
      | RevisionSubmit p \<Rightarrow> submit_revision i now member_id task_id p idempotency_key request_id d)"

lemma submit_operation_eq:
  "submit_operation i now member_id task_id payload key request_id d =
     bind_result (owned_task task_id member_id d) (\<lambda>task.
     execute_ai (submit i now task member_id payload key
       (if payload = AnalysisSubmit then None else request_id) d))"
  by (cases payload) (simp_all add: submit_operation_def submit_analysis_def submit_suggestions_def
      submit_first_draft_def submit_revision_def)

definition update_analysis ::
  "instant \<Rightarrow> uuid \<Rightarrow> uuid \<Rightarrow> uuid \<Rightarrow> analysis_correction \<Rightarrow> db \<Rightarrow> task_exc + analysis_record \<times> db" where
  "update_analysis now member_id task_id analysis_id payload d =
     bind_result (owned_task task_id member_id d) (\<lambda>_.
     bind_result (assert_no_active_ai task_id d) (\<lambda>_.
     bind_result (of_option analysis_not_found
       (find (\<lambda>a. ar_id a = analysis_id \<and> ar_task_id a = task_id) (analyses d))) (\<lambda>record.
     let saved = orm_save (\<lambda>a. a\<lparr>ar_updated_at := now\<rparr>)
           (\<lambda>a. a\<lparr>ar_payload := enc_analysis_result (cor_analysis payload),
                   ar_member_notes := cor_member_notes payload\<rparr>) record
     in commit saved (d\<lparr>analyses :=
          update_where (\<lambda>a. ar_id a = ar_id record) (\<lambda>_. saved) (analyses d)\<rparr>))))"

definition get_analysis :: "uuid \<Rightarrow> uuid \<Rightarrow> uuid \<Rightarrow> db \<Rightarrow> task_exc + analysis_record" where
  "get_analysis member_id task_id analysis_id d =
     bind_result (owned_task task_id member_id d) (\<lambda>_.
     of_option analysis_not_found
       (find (\<lambda>a. ar_id a = analysis_id \<and> ar_task_id a = task_id) (analyses d)))"

definition get_analyses :: "uuid \<Rightarrow> uuid \<Rightarrow> db \<Rightarrow> task_exc + analysis_record list" where
  "get_analyses member_id task_id d =
     bind_result (owned_task task_id member_id d) (\<lambda>_.
     Inr (sort_key ar_sequence (filter (\<lambda>a. ar_task_id a = task_id) (analyses d))))"

definition update_suggestion ::
  "instant \<Rightarrow> uuid \<Rightarrow> uuid \<Rightarrow> uuid \<Rightarrow> suggestion_update \<Rightarrow> db \<Rightarrow> task_exc + suggestion_record \<times> db" where
  "update_suggestion now member_id task_id suggestion_id payload d =
     bind_result (owned_task task_id member_id d) (\<lambda>_.
     bind_result (assert_no_active_ai task_id d) (\<lambda>_.
     bind_result (of_option (api_exc ''suggestion_not_found'' (tx ''Suggestion was not found'') 404)
       (find (\<lambda>s. sr_id s = suggestion_id \<and> sr_task_id s = task_id) (suggestions d))) (\<lambda>record.
     let saved = orm_save (\<lambda>s. s\<lparr>sr_updated_at := now\<rparr>)
           (\<lambda>s. s\<lparr>sr_decision := sgu_decision payload, sr_member_note := sgu_member_note payload\<rparr>) record
     in commit saved (d\<lparr>suggestions :=
          update_where (\<lambda>s. sr_id s = sr_id record) (\<lambda>_. saved) (suggestions d)\<rparr>))))"

definition get_suggestions ::
  "uuid \<Rightarrow> uuid \<Rightarrow> uuid option \<Rightarrow> db \<Rightarrow> task_exc + suggestion_record list" where
  "get_suggestions member_id task_id analysis_id d =
     bind_result (owned_task task_id member_id d) (\<lambda>_.
     let selected = (case analysis_id of
           Some i \<Rightarrow> Some i
         | None \<Rightarrow> map_option ar_id
             (find (\<lambda>a. ar_task_id a = task_id \<and> ar_is_selected a) (analyses d)))
     in case selected of
          None \<Rightarrow> Inr []
        | Some i \<Rightarrow> Inr (sort_key sr_created_at (suggestions_of task_id i d)))"

definition list_ai_operations :: "uuid \<Rightarrow> db \<Rightarrow> ai_operation list" where
  "list_ai_operations member_id d = list_owned member_id d"

definition clear_ai_operation_history :: "uuid \<Rightarrow> db \<Rightarrow> task_exc + unit \<times> db" where
  "clear_ai_operation_history member_id d = clear_completed member_id d"

definition cancel_ai_operation :: "instant \<Rightarrow> uuid \<Rightarrow> uuid \<Rightarrow> db \<Rightarrow> task_exc + ai_operation \<times> db" where
  "cancel_ai_operation now member_id operation_id d = execute_ai (cancel now member_id operation_id d)"

definition retry_ai_operation ::
  "uuid \<Rightarrow> instant \<Rightarrow> uuid \<Rightarrow> uuid \<Rightarrow> pystr option \<Rightarrow> db \<Rightarrow> task_exc + ai_operation \<times> db" where
  "retry_ai_operation i now member_id operation_id idempotency_key d =
     execute_ai (retry i now member_id operation_id idempotency_key d)"

definition get_ai_operation :: "uuid \<Rightarrow> uuid \<Rightarrow> db \<Rightarrow> task_exc + ai_operation" where
  "get_ai_operation member_id operation_id d = execute_ai (get_owned_operation operation_id member_id d)"

section \<open>Versions\<close>

definition list_versions :: "uuid \<Rightarrow> uuid \<Rightarrow> db \<Rightarrow> task_exc + script_version list" where
  "list_versions member_id task_id d =
     bind_result (owned_task task_id member_id d) (\<lambda>_.
     Inr (sort_key v_created_at (filter (\<lambda>v. v_task_id v = task_id) (versions d))))"

definition get_version :: "uuid \<Rightarrow> uuid \<Rightarrow> uuid \<Rightarrow> db \<Rightarrow> task_exc + script_version" where
  "get_version member_id task_id version_id d = owned_version task_id version_id member_id d"

definition locks_of :: "uuid \<Rightarrow> db \<Rightarrow> locked_fragment list" where
  "locks_of task_id d = filter (\<lambda>l. l_task_id l = task_id) (locks d)"

definition manual_version ::
  "uuid \<Rightarrow> instant \<Rightarrow> uuid \<Rightarrow> script_version \<Rightarrow> manual_edit_create \<Rightarrow> script_version" where
  "manual_version i now task_id parent payload =
     \<lparr>v_id = i, v_task_id = task_id, v_parent_id = Some (v_id parent), v_kind = MANUAL_EDIT,
      v_content = me_content payload, v_instruction = me_instruction payload,
      v_provenance = [(tx ''source'', JStr (tx ''member_manual_edit''))],
      v_validation_status = NOT_CHECKED, v_validation_details = [], v_is_current_final = False,
      v_created_at = now, v_updated_at = now\<rparr>"

definition create_manual_edit ::
  "uuid \<Rightarrow> instant \<Rightarrow> uuid \<Rightarrow> uuid \<Rightarrow> uuid \<Rightarrow> manual_edit_create \<Rightarrow> db \<Rightarrow> task_exc + script_version \<times> db" where
  "create_manual_edit i now member_id task_id version_id payload d =
     bind_result (owned_version task_id version_id member_id d) (\<lambda>parent.
     bind_result (owned_task task_id member_id d) (\<lambda>task.
     bind_result (assert_no_active_ai task_id d) (\<lambda>_.
     bind_result (require (t_state task \<noteq> ARCHIVED)
       (api_exc ''task_archived'' (tx ''An archived task cannot be edited'') 409)) (\<lambda>_.
     bind_result (require (has_first_draft task_id d)
       (api_exc ''first_draft_required'' (tx ''A manual edit requires a first draft'') 409)) (\<lambda>_.
     bind_result (require
       (validate_lock_constraints (me_content payload)
          (map (\<lambda>item. \<lparr>lc_text = l_text item, lc_order_index = l_order_index item\<rparr>)
             (locks_of task_id d)) = [])
       (api_exc ''locked_text_changed'' [32534, 36753, 20869, 23481, 25913, 21160, 20102, 20445, 30041, 21477, 65292, 35831,
      20808, 21462, 28040, 23545, 24212, 38145, 23450, 12290] 409)) (\<lambda>_.
     let version = manual_version i now task_id parent payload in
     commit version
       (save_task now (t_id task) (\<lambda>t. t\<lparr>t_state := EDITING\<rparr>)
         (d\<lparr>versions := versions d @ [version]\<rparr>))))))))"

text \<open>\<open>difflib.unified_diff\<close> over the lines of both contents is the parameter \<open>unified_diff\<close>.\<close>

definition compare_versions ::
  "(pystr \<Rightarrow> pystr \<Rightarrow> pystr \<Rightarrow> pystr \<Rightarrow> pystr) \<Rightarrow> uuid \<Rightarrow> uuid \<Rightarrow> uuid \<Rightarrow> uuid \<Rightarrow> db \<Rightarrow>
   task_exc + uuid \<times> uuid \<times> pystr" where
  "compare_versions unified_diff member_id task_id left_version_id right_version_id d =
     bind_result (owned_version task_id left_version_id member_id d) (\<lambda>left.
     bind_result (owned_version task_id right_version_id member_id d) (\<lambda>right.
     Inr (v_id left, v_id right,
          unified_diff (v_content left) (v_content right) (uuid_str (v_id left)) (uuid_str (v_id right)))))"

definition create_lock ::
  "uuid \<Rightarrow> instant \<Rightarrow> uuid \<Rightarrow> uuid \<Rightarrow> uuid \<Rightarrow> locked_fragment_create \<Rightarrow> db \<Rightarrow>
   task_exc + locked_fragment \<times> db" where
  "create_lock i now member_id task_id version_id payload d =
     bind_result (owned_version task_id version_id member_id d) (\<lambda>version.
     bind_result (owned_task task_id member_id d) (\<lambda>task.
     bind_result (assert_no_active_ai task_id d) (\<lambda>_.
     bind_result (require (t_state task \<noteq> ARCHIVED)
       (api_exc ''task_archived'' (tx ''An archived task cannot be changed'') 409)) (\<lambda>_.
     bind_result (map_error (\<lambda>e. api_exc ''invalid_selection'' (str_of_value_error (PyValueError e)) 400)
       (selected_text (v_content version) (lk_start_offset payload) (lk_end_offset payload))) (\<lambda>selected.
     let ranges = map (\<lambda>l. (l_start_offset l, l_end_offset l))
           (filter (\<lambda>l. l_task_id l = task_id \<and> l_source_version_id l = version_id) (locks d)) in
     bind_result (map_error (\<lambda>e. api_exc ''lock_overlap'' (str_of_value_error (PyValueError e)) 409)
       (assert_no_overlapping_range (lk_start_offset payload) (lk_end_offset payload) ranges)) (\<lambda>_.
     let next_order = max_or (-1) (map l_order_index (locks_of task_id d)) + 1;
         lock = \<lparr>l_id = i, l_task_id = task_id, l_source_version_id = version_id, l_text = selected,
                 l_start_offset = lk_start_offset payload, l_end_offset = lk_end_offset payload,
                 l_order_index = next_order, l_note = lk_note payload,
                 l_created_at = now, l_updated_at = now\<rparr>
     in commit lock (d\<lparr>locks := locks d @ [lock]\<rparr>)))))))"

definition delete_lock :: "uuid \<Rightarrow> uuid \<Rightarrow> uuid \<Rightarrow> db \<Rightarrow> task_exc + unit \<times> db" where
  "delete_lock member_id task_id lock_id d =
     bind_result (owned_task task_id member_id d) (\<lambda>_.
     bind_result (assert_no_active_ai task_id d) (\<lambda>_.
     if \<not> list_ex (\<lambda>l. l_id l = lock_id \<and> l_task_id l = task_id) (locks d)
     then Inl (api_exc ''lock_not_found'' (tx ''Locked fragment was not found'') 404)
     else commit () (d\<lparr>locks :=
       filter (\<lambda>l. \<not> (l_id l = lock_id \<and> l_task_id l = task_id)) (locks d)\<rparr>)))"

definition get_locks :: "uuid \<Rightarrow> uuid \<Rightarrow> db \<Rightarrow> task_exc + locked_fragment list" where
  "get_locks member_id task_id d =
     bind_result (owned_task task_id member_id d) (\<lambda>_.
     Inr (sort_key l_order_index (locks_of task_id d)))"

definition set_final :: "instant \<Rightarrow> uuid \<Rightarrow> uuid \<Rightarrow> script_version list \<Rightarrow> script_version list" where
  "set_final now task_id version_id rows =
     update_where (\<lambda>v. v_id v = version_id) (\<lambda>v. v\<lparr>v_is_current_final := True, v_updated_at := now\<rparr>)
       (update_where (\<lambda>v. v_task_id v = task_id)
          (\<lambda>v. v\<lparr>v_is_current_final := False, v_updated_at := now\<rparr>) rows)"

text \<open>\<open>aware\<close>: the database driver takes a time with a zone for \<open>finalized_at\<close>, a column the mapped
  class declares without one. SQLite's driver does, PostgreSQL's refuses it.\<close>

definition finalize_version ::
  "bool \<Rightarrow> instant \<Rightarrow> uuid \<Rightarrow> uuid \<Rightarrow> uuid \<Rightarrow> db \<Rightarrow> task_exc + script_version \<times> db" where
  "finalize_version aware now member_id task_id version_id d =
     bind_result (owned_version task_id version_id member_id d) (\<lambda>version.
     bind_result (owned_task task_id member_id d) (\<lambda>task.
     bind_result (assert_no_active_ai task_id d) (\<lambda>_.
     bind_result (require (t_state task \<noteq> ARCHIVED)
       (api_exc ''task_archived'' (tx ''An archived task cannot be finalized'') 409)) (\<lambda>_.
     bind_result (require aware DataError) (\<lambda>_.
     commit (version\<lparr>v_is_current_final := True, v_updated_at := now\<rparr>)
       (save_task now (t_id task) (\<lambda>t. t\<lparr>t_state := FINALIZED, t_finalized_at := Some now\<rparr>)
         (d\<lparr>versions := set_final now task_id (v_id version) (versions d)\<rparr>)))))))"

datatype export_format = TXT | MD

definition export_final_version ::
  "uuid \<Rightarrow> uuid \<Rightarrow> export_format \<Rightarrow> db \<Rightarrow> task_exc + pystr \<times> string \<times> pystr" where
  "export_final_version member_id task_id format d =
     bind_result (owned_task task_id member_id d) (\<lambda>_.
     bind_result (of_option
         (api_exc ''final_version_not_found'' (tx ''Task has no current final version'') 404)
       (find (\<lambda>v. v_task_id v = task_id \<and> v_is_current_final v) (versions d))) (\<lambda>version.
     Inr (v_content version,
          (if format = TXT then ''text/plain; charset=utf-8'' else ''text/markdown; charset=utf-8''),
          tx ''attachment; filename='' @ [34] @ uuid_str task_id @
            (if format = TXT then tx ''.txt'' else tx ''.md'') @ [34])))"

end
