(* ===== verification/Workflow_Invariant.thy ===== *)
theory Workflow_Invariant
  imports Store_Facts Ai_Worker Task_Router
begin

text \<open>
  The workflow invariant of the database and what each unit of work of the router, the queue, the
  execution service and the worker does to it. \<open>db_inv\<close> says: the declared constraints hold; every
  operation carries the AI state of its kind, a resting state to go back to and its task's owner; a
  task in an AI state has an active operation of that state; a running operation's task is in the
  operation's AI state; no owner has two running operations.
\<close>

section \<open>The invariant\<close>

definition resting :: "task_state \<Rightarrow> bool" where
  "resting s \<longleftrightarrow> s \<notin> set running_states"

definition op_wf :: "ai_operation \<Rightarrow> bool" where
  "op_wf op \<longleftrightarrow>
     o_running_task_state op = running_state (o_kind op) \<and>
     assert_transition (o_initial_task_state op) (o_running_task_state op) = Inr ()"

definition running_ops :: "db \<Rightarrow> ai_operation list" where
  "running_ops d = filter (\<lambda>op. o_status op = RUNNING) (operations d)"

definition not_stuck :: "db \<Rightarrow> bool" where
  "not_stuck d \<longleftrightarrow>
     (\<forall>t \<in> set (tasks d). resting (t_state t) \<or>
        (\<exists>op \<in> set (operations d). o_task_id op = t_id t \<and> active op \<and>
           o_running_task_state op = t_state t))"

definition archived_wf :: "db \<Rightarrow> bool" where
  "archived_wf d \<longleftrightarrow>
     (\<forall>t \<in> set (tasks d). \<forall>s. t_archived_from_state t = Some s \<longrightarrow> resting s)"

definition owners_wf :: "db \<Rightarrow> bool" where
  "owners_wf d \<longleftrightarrow>
     (\<forall>op \<in> set (operations d). \<forall>t \<in> set (tasks d). t_id t = o_task_id op \<longrightarrow> t_owner_id t = o_owner_id op)"

definition running_wf :: "db \<Rightarrow> bool" where
  "running_wf d \<longleftrightarrow>
     (\<forall>op \<in> set (running_ops d). \<forall>t \<in> set (tasks d). t_id t = o_task_id op \<longrightarrow>
        t_state t = o_running_task_state op)"

definition single_running :: "db \<Rightarrow> bool" where
  "single_running d \<longleftrightarrow> distinct (map o_owner_id (running_ops d))"

definition db_inv :: "db \<Rightarrow> bool" where
  "db_inv d \<longleftrightarrow> db_ok d \<and> list_all op_wf (operations d) \<and> not_stuck d \<and> archived_wf d \<and>
     owners_wf d \<and> running_wf d \<and> single_running d"

lemma running_state_running [simp]: "running_state k \<in> set running_states"
  by (cases k) (simp_all add: running_states_def)

lemma running_state_not_resting [simp]: "\<not> resting (running_state k)"
  by (simp add: resting_def)

lemma resting_simps [simp]:
  "resting DRAFT" "resting ANALYSIS_READY" "resting SUGGESTIONS_READY" "resting EDITING"
  "resting FINALIZED" "resting ARCHIVED"
  by (simp_all add: resting_def running_states_def)

lemma op_wf_initial: "op_wf op \<Longrightarrow> resting (o_initial_task_state op) \<and> o_initial_task_state op \<noteq> ARCHIVED"
  unfolding op_wf_def resting_def
  by (metis running_state_running transition_into_running)

lemma db_invD:
  assumes "db_inv d"
  shows "db_ok d" and "op \<in> set (operations d) \<Longrightarrow> op_wf op" and "not_stuck d" and "archived_wf d"
    and "owners_wf d" and "running_wf d" and "single_running d"
  using assms by (auto simp: db_inv_def list_all_iff)

lemma in_running_ops: "op \<in> set (running_ops d) \<longleftrightarrow> op \<in> set (operations d) \<and> o_status op = RUNNING"
  by (auto simp: running_ops_def)

lemma no_active_resting:
  assumes "db_inv d" and "t \<in> set (tasks d)"
    and "\<And>op. op \<in> set (operations d) \<Longrightarrow> o_task_id op = t_id t \<Longrightarrow> \<not> active op"
  shows "resting (t_state t)"
  using assms db_invD(3) [OF assms(1)] unfolding not_stuck_def by blast

section \<open>Changes of one kind\<close>

text \<open>Nothing of the workflow changes.\<close>

lemma db_inv_frame:
  assumes "db_inv d" and "db_ok d'" and "tasks d' = tasks d" and "operations d' = operations d"
  shows "db_inv d'"
  using assms unfolding db_inv_def not_stuck_def archived_wf_def owners_wf_def running_wf_def
    single_running_def running_ops_def by simp

text \<open>A new task in a resting state.\<close>

lemma db_inv_new_task:
  assumes inv: "db_inv d" and ok: "db_ok d'" and tasks: "tasks d' = tasks d @ [t]"
    and ops: "operations d' = operations d" and t: "resting (t_state t)" "t_archived_from_state t = None"
  shows "db_inv d'"
proof -
  have new: "o_task_id op \<noteq> t_id t" if op: "op \<in> set (operations d)" for op
  proof
    assume eq: "o_task_id op = t_id t"
    obtain t' where "t' \<in> set (tasks d)" "t_id t' = o_task_id op"
      using operation_task_exists [OF db_invD(1) [OF inv] op] by blast
    with eq db_ok_keys(1) [OF ok] show False by (auto simp: tasks rev_image_eqI)
  qed
  have run: "running_ops d' = running_ops d" by (simp add: running_ops_def ops)
  have "not_stuck d'" using db_invD(3) [OF inv] t unfolding not_stuck_def by (simp add: tasks ops)
  moreover have "archived_wf d'" using db_invD(4) [OF inv] t unfolding archived_wf_def by (simp add: tasks)
  moreover have "owners_wf d'"
    using db_invD(5) [OF inv] new unfolding owners_wf_def by (simp add: tasks ops) metis
  moreover have "running_wf d'"
    using db_invD(6) [OF inv] new unfolding running_wf_def
    by (simp add: tasks run) (metis in_running_ops)
  moreover have "single_running d'" using db_invD(7) [OF inv] by (simp add: single_running_def run)
  ultimately show ?thesis using inv ok by (simp add: db_inv_def ops)
qed

text \<open>A task without active operation changes to a resting state.\<close>

lemma db_inv_idle_task:
  assumes inv: "db_inv d" and ok: "db_ok d'"
    and tasks: "tasks d' = map (\<lambda>t. if t_id t = i then g t else t) (tasks d)"
    and ops: "operations d' = operations d"
    and idle: "\<And>op. op \<in> set (operations d) \<Longrightarrow> o_task_id op = i \<Longrightarrow> \<not> active op"
    and g: "\<And>t. t \<in> set (tasks d) \<Longrightarrow> t_id t = i \<Longrightarrow>
      t_id (g t) = i \<and> t_owner_id (g t) = t_owner_id t \<and> resting (t_state (g t)) \<and>
      (\<forall>s. t_archived_from_state (g t) = Some s \<longrightarrow> resting s)"
  shows "db_inv d'"
proof -
  have run: "running_ops d' = running_ops d" by (simp add: running_ops_def ops)
  have "not_stuck d'" using db_invD(3) [OF inv] g unfolding not_stuck_def by (auto simp: tasks ops)
  moreover have "archived_wf d'"
    using db_invD(4) [OF inv] g unfolding archived_wf_def by (auto simp: tasks)
  moreover have "owners_wf d'"
    using db_invD(5) [OF inv] g unfolding owners_wf_def by (auto simp: tasks ops)
  moreover have "running_wf d'"
    using db_invD(6) [OF inv] g idle unfolding running_wf_def by (auto simp: tasks run in_running_ops)
  moreover have "single_running d'" using db_invD(7) [OF inv] by (simp add: single_running_def run)
  ultimately show ?thesis using inv ok by (simp add: db_inv_def ops)
qed

definition same_job :: "ai_operation \<Rightarrow> ai_operation \<Rightarrow> bool" where
  "same_job op op' \<longleftrightarrow>
     o_id op' = o_id op \<and> o_owner_id op' = o_owner_id op \<and> o_task_id op' = o_task_id op \<and>
     o_kind op' = o_kind op \<and> o_initial_task_state op' = o_initial_task_state op \<and>
     o_running_task_state op' = o_running_task_state op"

lemma same_job_refl [simp]: "same_job op op"
  by (simp add: same_job_def)

lemma op_wf_same_job: "same_job op op' \<Longrightarrow> op_wf op' \<longleftrightarrow> op_wf op"
  by (simp add: same_job_def op_wf_def)

text \<open>
  Operations change their status and tasks their state. A task that is not resting afterwards keeps
  its state and its active operations; an operation that is running afterwards either was and its
  task keeps its state, or its task is put into the operation's AI state.
\<close>

lemma db_inv_update:
  assumes inv: "db_inv d" and ok: "db_ok d'"
    and tasks: "tasks d' = map g (tasks d)" and ops: "operations d' = map h (operations d)"
    and g: "\<And>t. t \<in> set (tasks d) \<Longrightarrow> t_id (g t) = t_id t \<and> t_owner_id (g t) = t_owner_id t \<and>
      t_archived_from_state (g t) = t_archived_from_state t"
    and h: "\<And>op. op \<in> set (operations d) \<Longrightarrow> same_job op (h op)"
    and N: "\<And>t. t \<in> set (tasks d) \<Longrightarrow> resting (t_state (g t)) \<or> t_state (g t) = t_state t \<and>
      (\<forall>op \<in> set (operations d). o_task_id op = t_id t \<and> active op \<longrightarrow> active (h op))"
    and R: "\<And>op t. op \<in> set (operations d) \<Longrightarrow> t \<in> set (tasks d) \<Longrightarrow> o_status (h op) = RUNNING \<Longrightarrow>
      t_id t = o_task_id op \<Longrightarrow>
      o_status op = RUNNING \<and> t_state (g t) = t_state t \<or> t_state (g t) = o_running_task_state op"
    and S: "single_running d'"
  shows "db_inv d'"
proof -
  have "list_all op_wf (operations d')"
    using db_invD(2) [OF inv] h by (auto simp: ops list_all_iff op_wf_same_job [OF h])
  moreover have "not_stuck d'" unfolding not_stuck_def
  proof
    fix t' assume "t' \<in> set (tasks d')"
    then obtain t where t: "t \<in> set (tasks d)" "t' = g t" by (auto simp: tasks)
    show "resting (t_state t') \<or> (\<exists>op\<in>set (operations d'). o_task_id op = t_id t' \<and> active op \<and>
        o_running_task_state op = t_state t')"
    proof (cases "resting (t_state t')")
      case False
      with N [OF t(1)] t(2) have same: "t_state (g t) = t_state t"
        and act: "\<forall>op \<in> set (operations d). o_task_id op = t_id t \<and> active op \<longrightarrow> active (h op)" by auto
      with False t db_invD(3) [OF inv] obtain op where
        "op \<in> set (operations d)" "o_task_id op = t_id t" "active op" "o_running_task_state op = t_state t"
        unfolding not_stuck_def by metis
      with act same h g t show ?thesis by (auto simp: ops same_job_def simp del: active_simps)
    qed simp
  qed
  moreover have "archived_wf d'"
    using db_invD(4) [OF inv] g unfolding archived_wf_def by (auto simp: tasks)
  moreover have "owners_wf d'"
    using db_invD(5) [OF inv] g h unfolding owners_wf_def by (auto simp: tasks ops same_job_def)
  moreover have "running_wf d'" unfolding running_wf_def
  proof (intro ballI impI)
    fix op' t' assume "op' \<in> set (running_ops d')" "t' \<in> set (tasks d')" "t_id t' = o_task_id op'"
    then obtain op t where *: "op \<in> set (operations d)" "op' = h op" "o_status (h op) = RUNNING"
      "t \<in> set (tasks d)" "t' = g t" "t_id t = o_task_id op"
      using g h by (auto simp: in_running_ops tasks ops same_job_def)
    with R [OF *(1,4,3,6)] db_invD(6) [OF inv] h [OF *(1)] show "t_state t' = o_running_task_state op'"
      unfolding running_wf_def by (auto simp: in_running_ops same_job_def)
  qed
  ultimately show ?thesis using ok S by (simp add: db_inv_def)
qed

lemma single_running_shrink:
  assumes "db_inv d" and "operations d' = map h (operations d)"
    and "\<And>op. op \<in> set (operations d) \<Longrightarrow>
      o_owner_id (h op) = o_owner_id op \<and> (o_status (h op) = RUNNING \<longrightarrow> o_status op = RUNNING)"
  shows "single_running d'"
  using distinct_map_filter_map [of o_owner_id "\<lambda>op. o_status op = RUNNING" "operations d" h] assms
    db_invD(7) [OF assms(1)]
  by (simp add: single_running_def running_ops_def)


section \<open>The router\<close>

lemma owned_task_Inr:
  "owned_task i m d = Inr t \<Longrightarrow> t \<in> set (tasks d) \<and> t_id t = i \<and> t_owner_id t = m"
  by (auto simp: owned_task_def repo_get_owned_def map_error_def of_option_def
      split: option.splits sum.splits dest: find_Some_mem)

lemma owned_version_Inr:
  "owned_version i v m d = Inr x \<Longrightarrow> x \<in> set (versions d) \<and> v_id x = v \<and> v_task_id x = i \<and>
     (\<exists>t \<in> set (tasks d). t_id t = i \<and> t_owner_id t = m)"
  by (auto simp: owned_version_def of_option_def list_ex_iff split: option.splits dest!: find_Some_mem)

lemma assert_no_active_ai_Inr:
  "assert_no_active_ai i d = Inr u \<longleftrightarrow>
     (\<forall>op \<in> set (operations d). o_task_id op = i \<longrightarrow> \<not> active op)"
  by (auto simp: assert_no_active_ai_def require_def filter_empty_conv)

lemma repo_update_draft_Inr:
  "repo_update_draft now t p d = Inr (t', d') \<Longrightarrow>
     t_state t = DRAFT \<and> db_ok d' \<and> operations d' = operations d \<and>
     d' = d\<lparr>tasks := update_where (\<lambda>r. t_id r = t_id t) (\<lambda>_. t') (tasks d)\<rparr> \<and>
     t_id t' = t_id t \<and> t_owner_id t' = t_owner_id t \<and> t_state t' = DRAFT \<and>
     t_archived_from_state t' = t_archived_from_state t"
  by (auto simp: repo_update_draft_def apply_task_update_def Let_def bind_result_eq_Inr_iff
      split: if_splits option.splits)

lemmas router_defs = create_preset_def update_preset_def delete_preset_def create_task_def update_task_def
  copy_task_def archive_task_def restore_task_def store_snapshot_def update_analysis_def
  update_suggestion_def create_manual_edit_def create_lock_def delete_lock_def finalize_version_def


lemma on_integrity_error_Inr [simp]: "on_integrity_error e r = Inr x \<longleftrightarrow> r = Inr x"
  by (cases r) (simp_all add: on_integrity_error_def)

lemma execute_ai_Inr [simp]: "execute_ai r = Inr x \<longleftrightarrow> r = Inr x"
  by (cases r) (simp_all add: execute_ai_def)

lemma create_preset_inv: "create_preset i now m p d = Inr (r, d') \<Longrightarrow> db_inv d \<Longrightarrow>
    db_inv d' \<and> tasks d' = tasks d \<and> operations d' = operations d"
  using db_inv_frame [of d d']
  by (auto simp: create_preset_def preset_create_row_def Let_def bind_result_eq_Inr_iff)

lemma update_preset_inv: "update_preset now m i p d = Inr (r, d') \<Longrightarrow> db_inv d \<Longrightarrow>
    db_inv d' \<and> tasks d' = tasks d \<and> operations d' = operations d"
  using db_inv_frame [of d d']
  by (auto simp: update_preset_def replace_settings_def Let_def bind_result_eq_Inr_iff)

lemma delete_preset_inv: "delete_preset m i d = Inr (r, d') \<Longrightarrow> db_inv d \<Longrightarrow>
    db_inv d' \<and> tasks d' = tasks d \<and> operations d' = operations d"
  using db_inv_frame [of d d']
  by (auto simp: delete_preset_def preset_delete_def bind_result_eq_Inr_iff)

lemma update_analysis_inv: "update_analysis now m t i p d = Inr (r, d') \<Longrightarrow> db_inv d \<Longrightarrow>
    db_inv d' \<and> tasks d' = tasks d \<and> operations d' = operations d"
  using db_inv_frame [of d d']
  by (auto simp: update_analysis_def Let_def bind_result_eq_Inr_iff)

lemma update_suggestion_inv: "update_suggestion now m t i p d = Inr (r, d') \<Longrightarrow> db_inv d \<Longrightarrow>
    db_inv d' \<and> tasks d' = tasks d \<and> operations d' = operations d"
  using db_inv_frame [of d d']
  by (auto simp: update_suggestion_def Let_def bind_result_eq_Inr_iff)

lemma create_lock_inv: "create_lock i now m t v p d = Inr (r, d') \<Longrightarrow> db_inv d \<Longrightarrow>
    db_inv d' \<and> tasks d' = tasks d \<and> operations d' = operations d"
  using db_inv_frame [of d d']
  by (auto simp: create_lock_def Let_def bind_result_eq_Inr_iff)

lemma delete_lock_inv: "delete_lock m t i d = Inr (r, d') \<Longrightarrow> db_inv d \<Longrightarrow>
    db_inv d' \<and> tasks d' = tasks d \<and> operations d' = operations d"
  using db_inv_frame [of d d']
  by (auto simp: delete_lock_def bind_result_eq_Inr_iff split: if_splits)

lemma create_task_inv: "create_task i now m p d = Inr (r, d') \<Longrightarrow> db_inv d \<Longrightarrow>
    db_inv d' \<and> operations d' = operations d"
  using db_inv_new_task [of d d' r]
  by (auto simp: create_task_def repo_create_def Let_def add_task_def new_task_def bind_result_eq_Inr_iff)

lemma copy_task_inv: "copy_task i now m s d = Inr (r, d') \<Longrightarrow> db_inv d \<Longrightarrow>
    db_inv d' \<and> operations d' = operations d"
  using db_inv_new_task [of d d' r]
  by (auto simp: copy_task_def repo_copy_def Let_def add_task_def new_task_def bind_result_eq_Inr_iff
      split: option.splits)

lemma archived_wfD: "db_inv d \<Longrightarrow> t \<in> set (tasks d) \<Longrightarrow> t_archived_from_state t = Some s \<Longrightarrow> resting s"
  using db_invD(4) unfolding archived_wf_def by blast

lemma update_task_inv:
  assumes u: "update_task now m i p d = Inr (r, d')" and inv: "db_inv d"
  shows "db_inv d' \<and> operations d' = operations d"
proof -
  from u obtain t where t: "t \<in> set (tasks d)" "t_id t = i"
    and idle: "\<And>op. op \<in> set (operations d) \<Longrightarrow> o_task_id op = i \<Longrightarrow> \<not> active op"
    and up: "repo_update_draft now t p d = Inr (r, d')"
    by (auto simp: update_task_def bind_result_eq_Inr_iff assert_no_active_ai_Inr dest!: owned_task_Inr)
  note r = repo_update_draft_Inr [OF up]
  have "db_inv d'"
    by (rule db_inv_idle_task [OF inv, where i = i and g = "\<lambda>_. r"])
      (use r t idle task_eq [OF db_invD(1) [OF inv]] archived_wfD [OF inv] in
        \<open>auto simp: update_where_def\<close>)
  with r show ?thesis by simp
qed

lemma save_idle_task:
  assumes inv: "db_inv d" and ok: "db_ok d'" and ops: "operations d' = operations d"
    and tasks: "tasks d' = tasks (save_task now i f d)"
    and idle: "\<And>op. op \<in> set (operations d) \<Longrightarrow> o_task_id op = i \<Longrightarrow> \<not> active op"
    and f: "\<And>t. t \<in> set (tasks d) \<Longrightarrow> t_id t = i \<Longrightarrow> t_id (f t) = i \<and> t_owner_id (f t) = t_owner_id t \<and>
      resting (t_state (f t)) \<and> (\<forall>s. t_archived_from_state (f t) = Some s \<longrightarrow> resting s)"
  shows "db_inv d'"
  by (rule db_inv_idle_task [OF inv ok _ ops idle, where g = "orm_save (touch_task now) f"])
    (use f in \<open>auto simp: tasks tasks_save_task\<close>)

lemma archive_task_inv:
  assumes u: "archive_task now m i d = Inr (r, d')" and inv: "db_inv d"
  shows "db_inv d' \<and> operations d' = operations d"
proof -
  from u obtain t where t: "t \<in> set (tasks d)" "t_id t = i"
    and idle: "\<And>op. op \<in> set (operations d) \<Longrightarrow> o_task_id op = i \<Longrightarrow> \<not> active op"
    and d': "db_ok d'" "d' = save_task now i (\<lambda>t'. t'\<lparr>t_state := sn_state (archive (snapshot_of t)),
        t_archived_from_state := sn_archived_from_state (archive (snapshot_of t))\<rparr>) d"
    by (auto simp: archive_task_def store_snapshot_def Let_def bind_result_eq_Inr_iff
        assert_no_active_ai_Inr dest!: owned_task_Inr)
  have "resting (t_state t)" using no_active_resting [OF inv t(1)] idle t(2) by blast
  then have "db_inv d'"
    by (intro save_idle_task [OF inv d'(1) _ arg_cong [OF d'(2)] idle])
      (use t archived_wfD [OF inv t(1)] in \<open>auto simp: d'(2) archive_def snapshot_of_def\<close>)
  then show ?thesis by (simp add: d'(2))
qed

lemma restore_task_inv:
  assumes u: "restore_task now m i d = Inr (r, d')" and inv: "db_inv d"
  shows "db_inv d' \<and> operations d' = operations d"
proof -
  from u obtain t s where t: "t \<in> set (tasks d)" "t_id t = i" and s: "restore (snapshot_of t) = Inr s"
    and idle: "\<And>op. op \<in> set (operations d) \<Longrightarrow> o_task_id op = i \<Longrightarrow> \<not> active op"
    and d': "db_ok d'" "d' = save_task now i (\<lambda>t'. t'\<lparr>t_state := sn_state s,
        t_archived_from_state := sn_archived_from_state s\<rparr>) d"
    by (auto simp: restore_task_def store_snapshot_def Let_def bind_result_eq_Inr_iff
        assert_no_active_ai_Inr dest!: owned_task_Inr)
  have "resting (sn_state s)" "sn_archived_from_state s = None"
    using s archived_wfD [OF inv t(1)]
    by (auto simp: restore_def snapshot_of_def split: option.splits bool.splits)
  then have "db_inv d'"
    by (intro save_idle_task [OF inv d'(1) _ arg_cong [OF d'(2)] idle]) (auto simp: d'(2))
  then show ?thesis by (simp add: d'(2))
qed

lemma create_manual_edit_inv:
  assumes u: "create_manual_edit i now m t v p d = Inr (r, d')" and inv: "db_inv d"
  shows "db_inv d' \<and> operations d' = operations d"
proof -
  from u have idle: "\<And>op. op \<in> set (operations d) \<Longrightarrow> o_task_id op = t \<Longrightarrow> \<not> active op"
    and d': "db_ok d'" "d' = save_task now t (\<lambda>t. t\<lparr>t_state := EDITING\<rparr>) (d\<lparr>versions := versions d @ [r]\<rparr>)"
    by (auto simp: create_manual_edit_def Let_def bind_result_eq_Inr_iff assert_no_active_ai_Inr
        dest!: owned_task_Inr)
  have "db_inv d'"
    by (rule save_idle_task [OF inv d'(1) _ _ idle, where now = now and f = "\<lambda>t. t\<lparr>t_state := EDITING\<rparr>"])
      (use archived_wfD [OF inv] in \<open>auto simp: d'(2) tasks_save_task\<close>)
  then show ?thesis by (simp add: d'(2))
qed

lemma finalize_version_inv:
  assumes u: "finalize_version aware now m t v d = Inr (r, d')" and inv: "db_inv d"
  shows "db_inv d' \<and> operations d' = operations d"
proof -
  let ?f = "\<lambda>t. t\<lparr>t_state := FINALIZED, t_finalized_at := Some now\<rparr>"
  from u have idle: "\<And>op. op \<in> set (operations d) \<Longrightarrow> o_task_id op = t \<Longrightarrow> \<not> active op"
    and d': "db_ok d'" "d' = save_task now t ?f (d\<lparr>versions := set_final now t v (versions d)\<rparr>)"
    by (auto simp: finalize_version_def bind_result_eq_Inr_iff assert_no_active_ai_Inr
        dest!: owned_task_Inr owned_version_Inr)
  have "db_inv d'"
    by (rule save_idle_task [OF inv d'(1) _ _ idle, where now = now and f = ?f])
      (use archived_wfD [OF inv] in \<open>auto simp: d'(2) tasks_save_task\<close>)
  then show ?thesis by (simp add: d'(2))
qed

end
