(* ===== verification/Queue_Invariant.thy ===== *)
theory Queue_Invariant
  imports Workflow_Invariant
begin

text \<open>
  The queue operations and the workflow invariant: what \<open>submit\<close>, \<open>cancel\<close>, \<open>clear_completed\<close>
  and \<open>retry\<close> do on every branch that returns, and that none of them touches a running operation.
\<close>

lemma filter_map_same:
  assumes "\<And>x. x \<in> set xs \<Longrightarrow> (P (h x) \<longleftrightarrow> P x) \<and> (P x \<longrightarrow> h x = x)"
  shows "filter P (map h xs) = filter P xs"
  using assms by (induction xs) auto

lemma filter_map_end:
  assumes "\<And>x. x \<in> set xs \<Longrightarrow> (if Q x then h x = x else \<not> P (h x))"
  shows "filter P (map h xs) = filter Q (filter P xs)"
  using assms by (induction xs) (auto split: if_splits)

section \<open>submit\<close>

lemma existing_operation_Some:
  assumes "existing_operation t m k key hash d = Inr (Some op)"
  shows "op \<in> set (operations d) \<and> op_scope op = (m, t, k, key) \<and> key \<noteq> None \<and> o_request_hash op = hash"
  using assms by (auto simp: existing_operation_def split: if_splits option.splits dest!: find_Some_mem)

lemma apply_suggestion_snapshot_Inr:
  assumes "apply_suggestion_snapshot now t p d = Inr d1"
  shows "\<exists>ss. d1 = d\<lparr>suggestions := ss\<rparr>"
proof (cases "d1 = d")
  case True
  then have "d1 = d\<lparr>suggestions := suggestions d\<rparr>" by simp
  then show ?thesis by blast
next
  case False
  with assms show ?thesis
    by (auto simp: apply_suggestion_snapshot_def split: if_splits option.splits)
qed

definition queued_in :: "instant \<Rightarrow> submission \<Rightarrow> rewrite_task \<Rightarrow> ai_operation \<Rightarrow> db \<Rightarrow> db \<Rightarrow> bool" where
  "queued_in now p t op d d' \<longleftrightarrow>
     find_task d (t_id t) = Some t \<and> t_owner_id t = o_owner_id op \<and> o_task_id op = t_id t \<and>
     \<not> list_ex (\<lambda>r. o_task_id r = t_id t \<and> active r) (operations d) \<and>
     assert_transition (t_state t) (running_state (submission_kind p)) = Inr () \<and>
     o_status op = QUEUED \<and> o_kind op = submission_kind p \<and>
     o_running_task_state op = running_state (submission_kind p) \<and> o_initial_task_state op = t_state t \<and>
     o_request_payload op = dump_submission p \<and>
     (\<exists>ss. apply_suggestion_snapshot now (t_id t) p d = Inr (d\<lparr>suggestions := ss\<rparr>) \<and>
        d' = enqueue now t op (d\<lparr>suggestions := ss\<rparr>)) \<and> db_ok d'"

lemma submit_new:
  assumes "submit i now task m p key rid d = Inr (op, d')"
    and "existing_operation (t_id task) m (submission_kind p) key
      (request_hash (submission_kind p) (t_id task) (dump_submission p)) d = Inr None"
    and "db_ok d" and "task \<in> set (tasks d)"
  shows "queued_in now p task op d d' \<and> op = queued_operation i now m task p key
    (request_hash (submission_kind p) (t_id task) (dump_submission p)) rid"
proof -
  have f: "find_task d (t_id task) = Some task" using assms(3,4) by (rule find_task_mem)
  from assms(1,2) f obtain d1 where
    own: "t_owner_id task = m"
    and guard: "\<not> list_ex (\<lambda>r. o_task_id r = t_id task \<and> active r) (operations d)"
    and tr: "assert_transition (t_state task) (running_state (submission_kind p)) = Inr ()"
    and d1: "apply_suggestion_snapshot now (t_id task) p d = Inr d1"
    and op: "op = queued_operation i now m task p key
      (request_hash (submission_kind p) (t_id task) (dump_submission p)) rid"
    and d': "flush (enqueue now task op d1) = Inr d'"
    by (auto simp: submit_def Let_def bind_result_eq_Inr_iff flush_def simp del: flush_Inr_iff active_simps
        split: if_splits)
  obtain ss where "d1 = d\<lparr>suggestions := ss\<rparr>" using apply_suggestion_snapshot_Inr [OF d1] by blast
  with f own guard tr op d1 d' show ?thesis
    unfolding queued_in_def by (auto simp: queued_operation_def)
qed

lemma submit_Inr:
  assumes "submit i now task m p key rid d = Inr (op, d')" and "db_ok d" and "task \<in> set (tasks d)"
  shows "d' = d \<and> op \<in> set (operations d) \<and> op_scope op = (m, t_id task, submission_kind p, key) \<or>
    queued_in now p task op d d' \<and> o_id op = i"
proof (cases "existing_operation (t_id task) m (submission_kind p) key
      (request_hash (submission_kind p) (t_id task) (dump_submission p)) d")
  case (Inl e)
  with assms(1) show ?thesis by (simp add: submit_def Let_def split: if_splits)
next
  case (Inr existing)
  show ?thesis
  proof (cases existing)
    case None
    with Inr submit_new [OF assms(1) _ assms(2,3)] show ?thesis by (auto simp: queued_operation_def)
  next
    case (Some op0)
    with Inr assms(1) have "op0 = op \<and> d' = d" by (simp add: submit_def Let_def split: if_splits)
    with Some Inr show ?thesis by (auto dest: existing_operation_Some)
  qed
qed

lemma queued_in_tasks:
  "queued_in now p t op d d' \<Longrightarrow> operations d' = operations d @ [op] \<and>
     tasks d' = map (\<lambda>r. if t_id r = t_id t then orm_save (touch_task now)
       (\<lambda>r. r\<lparr>t_state := o_running_task_state op\<rparr>) r else r) (tasks d)"
  by (auto simp: queued_in_def enqueue_def tasks_save_task)

lemma queued_in_inv:
  assumes q: "queued_in now p t op d d'" and inv: "db_inv d"
  shows "db_inv d' \<and> running_ops d' = running_ops d"
proof -
  note ops = queued_in_tasks [OF q, THEN conjunct1] and ts = queued_in_tasks [OF q, THEN conjunct2]
  have t: "t \<in> set (tasks d)" using q find_task_Some by (auto simp: queued_in_def)
  have run: "running_ops d' = running_ops d" using q by (simp add: running_ops_def ops queued_in_def)
  have idle: "\<not> active r" if "r \<in> set (operations d)" "o_task_id r = t_id t" for r
    using q that by (auto simp: queued_in_def list_ex_iff simp del: active_simps)
  have "list_all op_wf (operations d')"
    using db_invD(2) [OF inv] q unfolding list_all_iff ops
    by (simp add: op_wf_def [of op] queued_in_def)
  moreover have "not_stuck d'"
    using db_invD(3) [OF inv] q unfolding not_stuck_def by (auto simp: ops ts queued_in_def)
  moreover have "archived_wf d'"
    using db_invD(4) [OF inv] unfolding archived_wf_def by (auto simp: ts)
  moreover have "owners_wf d'"
  proof -
    have "t_owner_id x = o_owner_id op" if "x \<in> set (tasks d)" "t_id x = t_id t" for x
      using task_eq [OF db_invD(1) [OF inv] that(1) t that(2)] q by (simp add: queued_in_def)
    then show ?thesis
      using db_invD(5) [OF inv] q unfolding owners_wf_def by (auto simp: ops ts queued_in_def)
  qed
  moreover have "running_wf d'"
    using db_invD(6) [OF inv] idle unfolding running_wf_def by (auto simp: run ts in_running_ops)
  moreover have "single_running d'" using db_invD(7) [OF inv] by (simp add: single_running_def run)
  ultimately show ?thesis using q run by (simp add: db_inv_def queued_in_def)
qed

text \<open>Where the operations of a database come from.\<close>

definition ops_from :: "db \<Rightarrow> (uuid \<Rightarrow> bool) \<Rightarrow> db \<Rightarrow> bool" where
  "ops_from d fresh d' \<longleftrightarrow>
     (\<forall>op \<in> set (operations d'). fresh (o_id op) \<or>
        (\<exists>op0 \<in> set (operations d). o_id op0 = o_id op \<and> o_owner_id op0 = o_owner_id op))"

lemma ops_from_subset: "set (operations d') \<subseteq> set (operations d) \<Longrightarrow> ops_from d fresh d'"
  by (auto simp: ops_from_def)

lemma ops_from_map:
  assumes "operations d' = map h (operations d)"
    and "\<And>op. op \<in> set (operations d) \<Longrightarrow> o_id (h op) = o_id op \<and> o_owner_id (h op) = o_owner_id op"
  shows "ops_from d fresh d'"
  using assms by (auto simp: ops_from_def)

lemma ops_from_trans: "ops_from d fresh d1 \<Longrightarrow> ops_from d1 (\<lambda>_. False) d' \<Longrightarrow> ops_from d fresh d'"
  unfolding ops_from_def by metis

lemma submit_inv:
  assumes "submit i now task m p key rid d = Inr (op, d')" and "db_inv d" and "task \<in> set (tasks d)"
  shows "db_inv d' \<and> running_ops d' = running_ops d \<and> ops_from d (\<lambda>x. x = i) d'"
  using submit_Inr [OF assms(1) db_invD(1) [OF assms(2)] assms(3)]
proof (elim disjE conjE)
  assume "queued_in now p task op d d'" "o_id op = i"
  then show ?thesis
    using queued_in_inv [OF _ assms(2)] queued_in_tasks by (fastforce simp: ops_from_def)
qed (use assms(2) in \<open>auto intro: ops_from_subset\<close>)

lemma retry_inv:
  assumes "retry i now m o' key d = Inr (op, d')" and "db_inv d"
  shows "db_inv d' \<and> running_ops d' = running_ops d \<and> ops_from d (\<lambda>x. x = i) d'"
proof -
  from assms(1) obtain p t rid where "submit i now t m p key rid d = Inr (op, d')" "t \<in> set (tasks d)"
    by (auto simp: retry_def bind_result_eq_Inr_iff split: if_splits dest!: find_task_Some)
  with submit_inv assms(2) show ?thesis by blast
qed

lemma submit_operation_inv:
  assumes "submit_operation i now m t p key rid d = Inr (op, d')" and "db_inv d"
  shows "db_inv d' \<and> running_ops d' = running_ops d \<and> ops_from d (\<lambda>x. x = i) d'"
proof -
  from assms(1) obtain task rid' where "submit i now task m p key rid' d = Inr (op, d')" "task \<in> set (tasks d)"
    by (auto simp: submit_operation_eq bind_result_eq_Inr_iff dest!: owned_task_Inr)
  with submit_inv assms(2) show ?thesis by blast
qed

section \<open>cancel and clear\<close>

text \<open>\<open>release_task\<close> puts the task of an operation back when it is in the operation's AI state.\<close>

definition put_back :: "ai_operation \<Rightarrow> rewrite_task \<Rightarrow> task_state" where
  "put_back op t = (if t_id t = o_task_id op \<and> t_state t = o_running_task_state op
                    then o_initial_task_state op else t_state t)"

lemma tasks_release_task:
  assumes "db_ok d"
  shows "\<exists>g. tasks (release_task now op d) = map g (tasks d) \<and>
    (\<forall>t \<in> set (tasks d). t_id (g t) = t_id t \<and> t_owner_id (g t) = t_owner_id t \<and> t_name (g t) = t_name t \<and>
       t_source_text (g t) = t_source_text t \<and>
       t_archived_from_state (g t) = t_archived_from_state t \<and> t_state (g t) = put_back op t)"
proof (cases "find_task d (o_task_id op)")
  case None
  then have "\<forall>t \<in> set (tasks d). t_id t \<noteq> o_task_id op"
    by (auto simp: find_task_def dest: find_None_notin)
  with None show ?thesis
    by (intro exI [of _ id]) (auto simp: release_task_def put_back_def)
next
  case (Some t)
  note t = find_task_Some [OF Some]
  show ?thesis
  proof (cases "t_state t = o_running_task_state op")
    case True
    let ?g = "\<lambda>r. if t_id r = o_task_id op
      then orm_save (touch_task now) (\<lambda>r. r\<lparr>t_state := o_initial_task_state op\<rparr>) r else r"
    have "tasks (release_task now op d) = map ?g (tasks d)"
      using True Some t by (simp add: release_task_def tasks_save_task)
    moreover have "r = t" if "r \<in> set (tasks d)" "t_id r = o_task_id op" for r
      using task_eq [OF assms that(1), of t] t that by simp
    ultimately show ?thesis using True by (intro exI [of _ ?g]) (auto simp: put_back_def)
  next
    case False
    have "r = t" if "r \<in> set (tasks d)" "t_id r = o_task_id op" for r
      using task_eq [OF assms that(1), of t] t that by simp
    with False Some show ?thesis
      by (intro exI [of _ id]) (auto simp: release_task_def put_back_def)
  qed
qed

lemma release_task_other [simp]:
  "operations (release_task now op d) = operations d" "versions (release_task now op d) = versions d"
  "locks (release_task now op d) = locks d" "analyses (release_task now op d) = analyses d"
  "suggestions (release_task now op d) = suggestions d" "members (release_task now op d) = members d"
  by (auto simp: release_task_def split: option.splits)

text \<open>The invariant when one active operation ends and its task comes to rest.\<close>

lemma end_operation_inv:
  assumes inv: "db_inv d" and ok: "db_ok d'" and op: "op \<in> set (operations d)" "active op"
    and ops: "operations d' = map h (operations d)"
    and h: "\<And>r. r \<in> set (operations d) \<Longrightarrow> same_job r (h r) \<and> (o_id r \<noteq> o_id op \<longrightarrow> h r = r) \<and>
      (o_id r = o_id op \<longrightarrow> \<not> active (h r))"
    and tasks: "tasks d' = map g (tasks d)"
    and g: "\<And>t. t \<in> set (tasks d) \<Longrightarrow> t_id (g t) = t_id t \<and> t_owner_id (g t) = t_owner_id t \<and>
      t_archived_from_state (g t) = t_archived_from_state t \<and>
      (if t_id t = o_task_id op then resting (t_state (g t)) else t_state (g t) = t_state t)"
  shows "db_inv d' \<and> running_ops d' = filter (\<lambda>r. o_id r \<noteq> o_id op) (running_ops d)"
proof
  show "db_inv d'"
  proof (rule db_inv_update [OF inv ok tasks ops])
    fix t assume t: "t \<in> set (tasks d)"
    show "resting (t_state (g t)) \<or> t_state (g t) = t_state t \<and>
        (\<forall>r \<in> set (operations d). o_task_id r = t_id t \<and> active r \<longrightarrow> active (h r))"
    proof (cases "t_id t = o_task_id op")
      case False
      have "active (h r)" if "r \<in> set (operations d)" "o_task_id r = t_id t" "active r" for r
      proof -
        have "o_id r \<noteq> o_id op" using operation_eq [OF db_invD(1) [OF inv] that(1) op(1)] that False by metis
        with h [OF that(1)] that show ?thesis by simp
      qed
      with g [OF t] False show ?thesis by auto
    qed (use g [OF t] in simp)
  next
    fix r t assume r: "r \<in> set (operations d)" "t \<in> set (tasks d)" "o_status (h r) = RUNNING"
      "t_id t = o_task_id r"
    then have "h r = r" using h [OF r(1)] by auto
    with r have run: "o_status r = RUNNING" and "o_id r \<noteq> o_id op" using h [OF r(1)] by auto
    then have "o_task_id r \<noteq> o_task_id op"
      using active_eq [OF db_invD(1) [OF inv] r(1) op(1)] op(2) by auto
    with run r g [OF r(2)]
    show "o_status r = RUNNING \<and> t_state (g t) = t_state t \<or> t_state (g t) = o_running_task_state r"
      by simp
  next
    show "single_running d'"
    proof (rule single_running_shrink [OF inv ops])
      fix r assume r: "r \<in> set (operations d)"
      show "o_owner_id (h r) = o_owner_id r \<and> (o_status (h r) = RUNNING \<longrightarrow> o_status r = RUNNING)"
        using h [OF r] by (cases "o_id r = o_id op") (auto simp: same_job_def)
    qed
  qed (use g h in auto)
  have "filter (\<lambda>op. o_status op = RUNNING) (map h (operations d)) =
      filter (\<lambda>r. o_id r \<noteq> o_id op) (filter (\<lambda>op. o_status op = RUNNING) (operations d))"
    using h by (intro filter_map_end) auto
  then show "running_ops d' = filter (\<lambda>r. o_id r \<noteq> o_id op) (running_ops d)"
    by (simp add: running_ops_def ops)
qed

lemma put_back_resting:
  assumes inv: "db_inv d" and op: "op \<in> set (operations d)" "active op"
    and t: "t \<in> set (tasks d)" "t_id t = o_task_id op"
  shows "resting (put_back op t)"
proof (cases "t_state t = o_running_task_state op")
  case True
  then show ?thesis using t op_wf_initial [OF db_invD(2) [OF inv op(1)]] by (simp add: put_back_def)
next
  case False
  have "r = op" if "r \<in> set (operations d)" "active r" "o_task_id r = o_task_id op" for r
    using active_eq [OF db_invD(1) [OF inv] that(1) op(1) that(2) op(2) that(3)] .
  with False t db_invD(3) [OF inv] have "resting (t_state t)" unfolding not_stuck_def by metis
  with False show ?thesis by (simp add: put_back_def)
qed

lemma cancel_Inr:
  assumes "cancel now m i d = Inr (op', d')" and "db_ok d"
  shows "\<exists>op \<in> set (operations d). o_id op = i \<and> o_owner_id op = m \<and> o_status op = QUEUED \<and>
    op' = cancel_row now op \<and> db_ok d' \<and>
    d' = release_task now op (d\<lparr>operations :=
      map (\<lambda>r. if o_id r = i \<and> o_status r = QUEUED then cancel_row now r else r) (operations d)\<rparr>)"
proof -
  from assms(1) obtain op r where op: "op \<in> set (operations d)" "o_id op = i" "o_owner_id op = m"
    and r: "r \<in> set (operations d)" "o_id r = o_id op" "o_status r = QUEUED"
    and d': "op' = cancel_row now op" "db_ok d'"
    "d' = release_task now op (d\<lparr>operations :=
      update_where (\<lambda>r. o_id r = o_id op \<and> o_status r = QUEUED) (cancel_row now) (operations d)\<rparr>)"
    by (auto simp: cancel_def owned_def Let_def bind_result_eq_Inr_iff list_ex_iff
        split: if_splits dest!: find_Some_mem)
  have "r = op" using operation_eq [OF assms(2) r(1) op(1) r(2)] .
  with op r d' show ?thesis by (auto simp: update_where_def)
qed

lemma cancel_inv:
  assumes c: "cancel now m i d = Inr (op', d')" and inv: "db_inv d"
  shows "db_inv d' \<and> running_ops d' = running_ops d \<and> ops_from d fresh d'"
proof -
  let ?h = "\<lambda>r. if o_id r = i \<and> o_status r = QUEUED then cancel_row now r else r"
  obtain op where op: "op \<in> set (operations d)" "o_id op = i" "o_status op = QUEUED"
    and ok: "db_ok d'" and d': "d' = release_task now op (d\<lparr>operations := map ?h (operations d)\<rparr>)"
    using cancel_Inr [OF c db_invD(1) [OF inv]] by blast
  have ok1: "db_ok (d\<lparr>operations := map ?h (operations d)\<rparr>)"
    by (rule db_ok_update_operations [OF db_invD(1) [OF inv]])
      (auto simp: same_keys_def cancel_row_def op_columns_ok_def)
  obtain g where tasks: "tasks d' = map g (tasks d)"
    and g: "\<forall>t \<in> set (tasks d). t_id (g t) = t_id t \<and> t_owner_id (g t) = t_owner_id t \<and> t_name (g t) = t_name t \<and>
       t_source_text (g t) = t_source_text t \<and>
       t_archived_from_state (g t) = t_archived_from_state t \<and> t_state (g t) = put_back op t"
    using tasks_release_task [OF ok1, of now op] unfolding d' by auto
  have "db_inv d' \<and> running_ops d' = filter (\<lambda>r. o_id r \<noteq> o_id op) (running_ops d)"
  proof (rule end_operation_inv [OF inv ok op(1) _ _ _ tasks])
    show "active op" by (simp add: op)
    show "operations d' = map ?h (operations d)" by (simp add: d')
    fix r assume r: "r \<in> set (operations d)"
    have "o_id r = i \<Longrightarrow> r = op" using operation_eq [OF db_invD(1) [OF inv] r op(1)] op(2) by simp
    then show "same_job r (?h r) \<and> (o_id r \<noteq> o_id op \<longrightarrow> ?h r = r) \<and> (o_id r = o_id op \<longrightarrow> \<not> active (?h r))"
      using op by (auto simp: same_job_def cancel_row_def)
  next
    fix t assume t: "t \<in> set (tasks d)"
    show "t_id (g t) = t_id t \<and> t_owner_id (g t) = t_owner_id t \<and>
        t_archived_from_state (g t) = t_archived_from_state t \<and>
        (if t_id t = o_task_id op then resting (t_state (g t)) else t_state (g t) = t_state t)"
      using g t put_back_resting [OF inv op(1) _ t] op by (auto simp: put_back_def)
  qed
  moreover have "filter (\<lambda>r. o_id r \<noteq> o_id op) (running_ops d) = running_ops d"
    using operation_eq [OF db_invD(1) [OF inv] _ op(1)] op
    by (intro filter_True) (force simp: in_running_ops)
  moreover have "ops_from d fresh d'"
    by (rule ops_from_map [where h = ?h]) (auto simp: d' cancel_row_def)
  ultimately show ?thesis by simp
qed

lemma clear_completed_inv:
  assumes "clear_completed m d = Inr (u, d')" and "db_inv d"
  shows "db_inv d' \<and> running_ops d' = running_ops d \<and> ops_from d fresh d'"
proof -
  let ?P = "\<lambda>op. \<not> (o_owner_id op = m \<and> \<not> active op)"
  from assms(1) have ok: "db_ok d'" and d': "d' = d\<lparr>operations := filter ?P (operations d)\<rparr>"
    by (auto simp: clear_completed_def simp del: active_simps)
  have run: "running_ops d' = running_ops d"
    unfolding running_ops_def d' by (simp add: conj_commute) (rule filter_cong; auto)
  have "not_stuck d'" using db_invD(3) [OF assms(2)] unfolding not_stuck_def d' by fastforce
  moreover have "running_wf d'" using db_invD(6) [OF assms(2)] unfolding running_wf_def run by (simp add: d')
  moreover have "single_running d'" using db_invD(7) [OF assms(2)] by (simp add: single_running_def run)
  moreover have "ops_from d fresh d'" by (rule ops_from_subset) (auto simp: d')
  ultimately show ?thesis using assms(2) ok run unfolding db_inv_def archived_wf_def owners_wf_def
    by (auto simp: d' list_all_iff)
qed

end
