(* ===== verification/Execution_Facts.thy ===== *)
theory Execution_Facts
  imports Store_Facts Ai_Execution
begin

text \<open>
  What the service operations and the closures of src/backend/app/modules/tasks/ai_operations.py
  guarantee about their results: the state plan, the errors they can end in, the content of new
  versions, and which tables \<open>persist\<close> writes.
\<close>

section \<open>Errors\<close>

text \<open>Every \<open>AiError\<close> comes from its constructor, so its message is one of the fixed ones.\<close>

definition is_ai_error :: "ai_error \<Rightarrow> bool" where
  "is_ai_error e \<longleftrightarrow> ae_message e = ai_error_messages (ae_code e)"

lemma is_ai_error_mk [simp]: "is_ai_error (mk_ai_error c b ds)"
  by (simp add: is_ai_error_def mk_ai_error_def)

lemma is_ai_error_status [simp]: "is_ai_error (error_for_status s c)"
  by (simp add: error_for_status_def Let_def)

lemma complete_errors: "complete int_of post config q = ReplyError e \<Longrightarrow> is_ai_error e"
  by (auto simp: complete_def parse_response_def invalid_response_def safe_http_error_def Let_def
      split: http_outcome.splits if_splits option.splits json.splits)

definition fails_well :: "service_error + 'a \<Rightarrow> bool" where
  "fails_well r \<longleftrightarrow> (\<forall>p e. r = Inl (AiOperationFailed p e) \<longrightarrow> is_ai_error e)"

lemma fails_well_simps [simp]:
  "fails_well (Inr x)" "fails_well (Inl (ServiceValueError v))" "fails_well (Inl ServiceCrash)"
  "fails_well (map_error ServiceValueError r)"
  "fails_well (Inl (AiOperationFailed p e)) \<longleftrightarrow> is_ai_error e"
  by (cases r; simp add: fails_well_def)+

lemma fails_well_bind [intro]:
  "fails_well r \<Longrightarrow> (\<And>x. r = Inr x \<Longrightarrow> fails_well (k x)) \<Longrightarrow> fails_well (bind_result r k)"
  by (cases r) (auto simp: fails_well_def)

lemma fails_well_require [simp]: "fails_well (require b (ServiceValueError v))"
  by (cases b) simp_all

lemma fails_well_map_ok [simp]: "fails_well (map_ok f r) \<longleftrightarrow> fails_well r"
  by (cases r) (simp_all add: fails_well_def map_ok_def)

lemma fails_well_complete [simp]: "fails_well (complete_call env config q plan)"
  using complete_errors by (auto simp: fails_well_def complete_call_def split: provider_reply.splits)

lemma fails_well_parts [simp]:
  "fails_well (mk_state_plan si sr sc)" "fails_well (to_ai_settings cs)" "fails_well (to_ai_locks ls)"
  "fails_well (revision_plan ts)" "fails_well (assert_selected_reference a sel)"
  "fails_well (require_nonempty_text resp plan)" "fails_well (task_snapshot_of rt b s)"
  "fails_well (revision_result plan parent ins resp val model scope ids sel' extra)"
  by (auto simp: mk_state_plan_def to_ai_settings_def to_ai_locks_def revision_plan_def Let_def
      assert_selected_reference_def require_nonempty_text_def task_snapshot_of_def revision_result_def
      split: option.splits)

lemma fails_well_parse [simp]: "fails_well (parse_reply env resp plan)"
  by (auto simp: parse_reply_def parse_structured_output_def fails_well_def of_option_def
      map_error_def split: option.splits)

lemma fails_well_services [simp]:
  "fails_well (svc_analyze env t c m)" "fails_well (svc_suggest env t a c m ctx pr fx)"
  "fails_well (svc_create_first_draft env t a sel c m req)"
  "fails_well (svc_revise_full env t p ins ls c m)"
  "fails_well (svc_regenerate_from_suggestions env t p a sel req ls c m)"
  "fails_well (svc_revise_selection env t p s ins ls c m)"
  unfolding svc_analyze_def svc_suggest_def svc_create_first_draft_def svc_revise_full_def
    svc_regenerate_from_suggestions_def svc_revise_selection_def
  by (auto intro!: fails_well_bind)

lemma fails_well_invoke: "fails_well (invoke env r)"
  unfolding invoke_def invoke_analyze_def invoke_suggest_def invoke_first_draft_def invoke_revise_def
  by (auto intro!: fails_well_bind split: prepared.splits revision_scope.splits option.splits)

lemma ai_error_message_length: "is_ai_error e \<Longrightarrow> length (ae_message e) \<le> 500"
  unfolding is_ai_error_def by (cases "ae_code e") (simp_all add: ai_error_messages.simps)

lemma ai_error_code_length: "length (ai_error_code_value c) \<le> 80"
  by (cases c) simp_all

section \<open>State plans\<close>

fun completed_state :: "ai_operation_kind \<Rightarrow> task_state" where
  "completed_state ANALYSIS = ANALYSIS_READY"
| "completed_state SUGGESTIONS = SUGGESTIONS_READY"
| "completed_state FIRST_DRAFT = EDITING"
| "completed_state REVISION = EDITING"

definition prepared_kind :: "prepared \<Rightarrow> ai_operation_kind" where
  "prepared_kind p =
     (case p of PreparedAnalysis _ \<Rightarrow> ANALYSIS | PreparedSuggestions _ _ _ _ _ _ \<Rightarrow> SUGGESTIONS
      | PreparedFirstDraft _ _ _ _ \<Rightarrow> FIRST_DRAFT | PreparedRevision _ _ _ _ _ _ \<Rightarrow> REVISION)"

lemma mk_state_plan_Inr:
  "mk_state_plan a b c = Inr p \<longleftrightarrow> assert_transition a b = Inr () \<and> assert_transition b c = Inr () \<and>
     p = \<lparr>sp_initial = a, sp_running = b, sp_succeeded = c, sp_failed = a\<rparr>"
  by (auto simp: mk_state_plan_def bind_result_eq_Inr_iff)

lemmas svc_Inr = bind_result_eq_Inr_iff mk_state_plan_Inr revision_plan_def

lemma revision_result_Inr:
  "revision_result plan parent ins resp val model scope ids sel extra = Inr v \<Longrightarrow>
     vr_valid val \<and> vsr_state v = plan \<and> vsr_content v = cs_text resp \<and> vsr_kind v = AI_REVISION \<and>
     vsr_parent_version_id v = Some (vas_id parent) \<and> vsr_validation_status v = SATISFIED"
  by (auto simp: revision_result_def split: if_splits)

lemma svc_analyze_Inr:
  "svc_analyze env t c m = Inr a \<Longrightarrow> sp_succeeded (asr_state a) = ANALYSIS_READY \<and> \<not> blank (asr_analysis a)"
  by (auto simp: svc_analyze_def svc_Inr require_nonempty_text_def split: if_splits)

lemma svc_suggest_Inr:
  "svc_suggest env t a c m ctx pr fx = Inr s \<Longrightarrow>
     sp_succeeded (ssr_state s) = SUGGESTIONS_READY \<and> valid_suggestion_set (ssr_suggestions s) \<and>
     validate_suggestion_references a (ssr_suggestions s)"
  by (auto simp: svc_suggest_def svc_Inr parse_reply_def parse_structured_output_def bind_eq_Some_conv
      split: if_splits dest: dec_suggestion_set_valid)

lemma svc_first_draft_Inr:
  "svc_create_first_draft env t a sel c m req = Inr v \<Longrightarrow>
     sp_succeeded (vsr_state v) = EDITING \<and> vsr_kind v = FIRST_DRAFT_VERSION \<and>
     \<not> tas_has_first_draft t \<and> vsr_parent_version_id v = None \<and> \<not> blank (vsr_content v)"
  by (auto simp: svc_create_first_draft_def svc_Inr require_nonempty_text_def split: if_splits)

definition revised_well :: "version_ai_snapshot \<Rightarrow> locked_fragment_snapshot list \<Rightarrow> version_service_result \<Rightarrow> bool"
where
  "revised_well parent ls v \<longleftrightarrow>
     sp_succeeded (vsr_state v) = EDITING \<and> vsr_kind v = AI_REVISION \<and>
     vsr_parent_version_id v = Some (vas_id parent) \<and> vsr_validation_status v = SATISFIED \<and>
     \<not> blank (vsr_content v) \<and> (\<forall>t. fits (vsr_content v) t 0 (count_list (map lfs_text ls) t))"

lemma to_ai_locks_texts:
  assumes "to_ai_locks ls = Inr fs"
  shows "map lf_text fs = map lfs_text (sort_key lfs_order_index ls)"
proof -
  have "map_result (\<lambda>item. mk_ai_locked_fragment (uuid_str (lfs_id item)) (lfs_text item)) xs = Inr ys \<Longrightarrow>
      map lf_text ys = map lfs_text xs" for xs ys
    by (induction xs arbitrary: ys)
      (auto simp: bind_result_eq_Inr_iff mk_ai_locked_fragment_def split: if_splits)
  with assms show ?thesis by (simp add: to_ai_locks_def)
qed

lemma locks_kept:
  assumes "to_ai_locks ls = Inr fs" and "vr_valid (validate_locked_fragments c fs)"
  shows "fits c t 0 (count_list (map lfs_text ls) t)"
  using assms validate_locked_fragments_valid_iff to_ai_locks_texts [OF assms(1)]
  by (metis count_list_map_sort_key)

lemma svc_revise_full_Inr:
  "svc_revise_full env t p ins ls c m = Inr v \<Longrightarrow> revised_well p ls v"
  by (auto simp: svc_revise_full_def svc_Inr require_nonempty_text_def revised_well_def
      split: if_splits dest!: revision_result_Inr dest: locks_kept)

lemma svc_regenerate_Inr:
  "svc_regenerate_from_suggestions env t p a sel req ls c m = Inr v \<Longrightarrow> revised_well p ls v"
  by (auto simp: svc_regenerate_from_suggestions_def svc_Inr require_nonempty_text_def revised_well_def
      split: if_splits dest!: revision_result_Inr dest: locks_kept)

lemma svc_revise_selection_Inr:
  "svc_revise_selection env t p s ins ls c m = Inr v \<Longrightarrow> revised_well p ls v \<and>
     (\<exists>x. vsr_content v = take (nat (sel_start s)) (vas_content p) @ x @ drop (nat (sel_end s)) (vas_content p))"
  by (auto simp: svc_revise_selection_def svc_Inr require_nonempty_text_def revised_well_def
      validate_selection_revision_valid_iff split: if_splits dest!: revision_result_Inr dest: locks_kept)

definition result_well :: "prepared \<Rightarrow> service_result \<Rightarrow> bool" where
  "result_well prep res \<longleftrightarrow>
     sp_succeeded (result_state res) = completed_state (prepared_kind prep) \<and>
     (case (prep, res) of
        (PreparedAnalysis _, AnalysisResultOf a) \<Rightarrow> \<not> blank (asr_analysis a)
      | (PreparedSuggestions _ _ an _ _ _, SuggestionsResultOf s) \<Rightarrow>
          valid_suggestion_set (ssr_suggestions s) \<and> validate_suggestion_references an (ssr_suggestions s)
      | (PreparedFirstDraft drafted _ _ _, VersionResultOf v) \<Rightarrow>
          \<not> drafted \<and> vsr_kind v = FIRST_DRAFT_VERSION \<and> vsr_parent_version_id v = None \<and>
          \<not> blank (vsr_content v)
      | (PreparedRevision _ parent ls _ _ _, VersionResultOf v) \<Rightarrow> revised_well parent ls v
      | _ \<Rightarrow> False)"

lemma task_snapshot_of_Inr: "task_snapshot_of t b s = Inr x \<Longrightarrow> tas_has_first_draft x = b \<and> tas_state x = s"
  by (auto simp: task_snapshot_of_def split: option.splits if_splits)

lemma map_ok_Inr: "map_ok f r = Inr y \<longleftrightarrow> (\<exists>x. r = Inr x \<and> y = f x)"
  by (auto simp: map_ok_def bind_result_eq_Inr_iff)

lemma invoke_Inr:
  assumes "invoke env r = Inr res"
  shows "result_well (run_prepared r) res"
proof (cases "run_prepared r")
  case (PreparedAnalysis b)
  with assms show ?thesis
    by (auto simp: invoke_def invoke_analyze_def bind_result_eq_Inr_iff map_ok_Inr result_well_def
        prepared_kind_def result_state_def dest!: svc_analyze_Inr)
next
  case (PreparedSuggestions b rc an pl pr fx)
  with assms show ?thesis
    by (auto simp: invoke_def invoke_suggest_def bind_result_eq_Inr_iff map_ok_Inr result_well_def
        prepared_kind_def result_state_def dest!: svc_suggest_Inr)
next
  case (PreparedFirstDraft b an sel pl)
  with assms show ?thesis
    by (auto simp: invoke_def invoke_first_draft_def bind_result_eq_Inr_iff map_ok_Inr result_well_def
        prepared_kind_def result_state_def dest!: svc_first_draft_Inr task_snapshot_of_Inr)
next
  case (PreparedRevision b par ls an sel pl)
  with assms show ?thesis
    by (auto simp: invoke_def invoke_revise_def bind_result_eq_Inr_iff map_ok_Inr result_well_def
        prepared_kind_def result_state_def revised_well_def split: revision_scope.splits option.splits
        dest!: svc_revise_full_Inr svc_regenerate_Inr svc_revise_selection_Inr)
qed

section \<open>What persist writes\<close>

lemma persist_frame:
  assumes "persist fresh now r res d = Inr (x, d')"
  shows "tasks d' = tasks d \<and> operations d' = operations d \<and> locks d' = locks d \<and> db_ok d'"
  using assms
  by (auto simp: persist_def persist_analysis_def persist_suggestions_def persist_version_def Let_def
      bind_result_eq_Inr_iff map_ok_Inr split: service_result.splits prepared.splits)

end
