(* ===== verification/Worker_Invariant.thy ===== *)
theory Worker_Invariant
  imports Queue_Invariant Execution_Facts
begin

text \<open>
  The execution service and the worker against the workflow invariant: recovery of stale operations,
  the claim, the four ways an execution ends, and the clean-up of a failed job. Each lemma also says
  which running operations are left.
\<close>

section \<open>Recovery\<close>

lemma recover_one_release: "recover_one now op d = save_operation now (o_id op) (mark_stale now) (release_task now op d)"
  by (simp add: recover_one_def release_task_def)

lemma db_ok_release_task: "db_ok d \<Longrightarrow> db_ok (release_task now op d)"
  by (auto simp: release_task_def split: option.splits intro!: db_ok_save_task)

lemma mark_stale_ok:
  "same_keys op (mark_stale now op) \<and> \<not> active (mark_stale now op) \<and>
     (op_columns_ok op \<longrightarrow> op_columns_ok (mark_stale now op))"
  by (auto simp: mark_stale_def same_keys_def op_columns_ok_def fits_column_def)

lemma recover_one_inv:
  assumes inv: "db_inv d" and op: "op \<in> set (operations d)" "active op"
  shows "db_inv (recover_one now op d) \<and>
    running_ops (recover_one now op d) = filter (\<lambda>r. o_id r \<noteq> o_id op) (running_ops d)"
proof -
  let ?d = "recover_one now op d" and ?m = "orm_save (touch_operation now) (mark_stale now)"
  obtain g where tasks: "tasks ?d = map g (tasks d)"
    and g: "\<forall>t \<in> set (tasks d). t_id (g t) = t_id t \<and> t_owner_id (g t) = t_owner_id t \<and> t_name (g t) = t_name t \<and>
       t_source_text (g t) = t_source_text t \<and>
       t_archived_from_state (g t) = t_archived_from_state t \<and> t_state (g t) = put_back op t"
    using tasks_release_task [OF db_invD(1) [OF inv], of now op] by (auto simp: recover_one_release)
  show ?thesis
  proof (rule end_operation_inv [OF inv _ op _ _ tasks])
    show "db_ok ?d" unfolding recover_one_release
      by (rule db_ok_save_operation [OF db_ok_release_task [OF db_invD(1) [OF inv]] mark_stale_ok])
    show "operations ?d = map (\<lambda>r. if o_id r = o_id op then ?m r else r) (operations d)"
      by (simp add: recover_one_release operations_save_operation)
    show "same_job r (if o_id r = o_id op then ?m r else r) \<and>
        (o_id r \<noteq> o_id op \<longrightarrow> (if o_id r = o_id op then ?m r else r) = r) \<and>
        (o_id r = o_id op \<longrightarrow> \<not> active (if o_id r = o_id op then ?m r else r))" for r
      by (simp add: same_job_def mark_stale_def)
    fix t assume t: "t \<in> set (tasks d)"
    show "t_id (g t) = t_id t \<and> t_owner_id (g t) = t_owner_id t \<and>
        t_archived_from_state (g t) = t_archived_from_state t \<and>
        (if t_id t = o_task_id op then resting (t_state (g t)) else t_state (g t) = t_state t)"
      using g t put_back_resting [OF inv op t] by (auto simp: put_back_def)
  qed
qed

lemma operations_recover_one:
  "r \<in> set (operations d) \<Longrightarrow> o_id r \<noteq> o_id op \<Longrightarrow> r \<in> set (operations (recover_one now op d))"
  by (force simp: recover_one_release operations_save_operation)

lemma recover_fold_inv:
  assumes "db_inv d" and "distinct (map o_id ops)" and "\<And>op. op \<in> set ops \<Longrightarrow> op \<in> set (operations d) \<and> active op"
  shows "db_inv (fold (recover_one now) ops d) \<and> running_ops (fold (recover_one now) ops d) =
    filter (\<lambda>r. o_id r \<notin> o_id ` set ops) (running_ops d)"
  using assms
proof (induction ops arbitrary: d)
  case (Cons op ops)
  have one: "db_inv (recover_one now op d)"
    "running_ops (recover_one now op d) = filter (\<lambda>r. o_id r \<noteq> o_id op) (running_ops d)"
    using recover_one_inv [of d op now] Cons.prems by simp_all
  have "r \<in> set (operations (recover_one now op d)) \<and> active r" if "r \<in> set ops" for r
  proof -
    have "o_id r \<noteq> o_id op" using Cons.prems(2) that by (auto simp: rev_image_eqI)
    with Cons.prems(3) that show ?thesis by (simp add: operations_recover_one)
  qed
  with Cons.IH [OF one(1)] Cons.prems(2) one(2) show ?case by (simp add: conj_commute)
qed simp

lemma recover_stale_inv:
  assumes inv: "db_inv d"
  shows "\<exists>n d'. recover_stale_operations m now d = Inr (n, d') \<and> db_inv d' \<and>
    running_ops d' = filter (\<lambda>r. \<not> (o_owner_id r = m \<and> is_stale now r)) (running_ops d)"
proof -
  let ?stale = "filter (\<lambda>op. o_owner_id op = m \<and> is_stale now op) (operations d)"
  have dist: "distinct (map o_id ?stale)"
    using db_ok_keys(2) [OF db_invD(1) [OF inv]] by (rule distinct_map_filter)
  have act: "\<And>op. op \<in> set ?stale \<Longrightarrow> op \<in> set (operations d) \<and> active op" by (simp add: is_stale_def)
  note fold = recover_fold_inv [OF inv dist act, of now, THEN conjunct1]
    recover_fold_inv [OF inv dist act, of now, THEN conjunct2]
  have "o_id r \<in> o_id ` set ?stale \<longleftrightarrow> o_owner_id r = m \<and> is_stale now r" if "r \<in> set (running_ops d)" for r
  proof -
    have r: "r \<in> set (operations d)" using that by (simp add: in_running_ops)
    have "s = r" if "s \<in> set ?stale" "o_id r = o_id s" for s
      by (rule operation_eq [OF db_invD(1) [OF inv] _ r]) (use that in auto)
    with r show ?thesis by auto
  qed
  then have eq: "filter (\<lambda>r. o_id r \<notin> o_id ` set ?stale) (running_ops d) =
      filter (\<lambda>r. \<not> (o_owner_id r = m \<and> is_stale now r)) (running_ops d)"
    by (intro filter_cong) auto
  show ?thesis
  proof (cases "?stale = []")
    case True
    then have "filter (\<lambda>r. \<not> (o_owner_id r = m \<and> is_stale now r)) (running_ops d) = running_ops d"
      by (auto simp: filter_empty_conv filter_id_conv in_running_ops)
    with True inv show ?thesis by (simp add: recover_stale_operations_def)
  next
    case False
    with fold(1) have "recover_stale_operations m now d = Inr (length ?stale, fold (recover_one now) ?stale d)"
      by (simp add: recover_stale_operations_def Let_def db_invD(1))
    with fold(1) fold(2) [unfolded eq] show ?thesis by blast
  qed
qed


section \<open>The claim\<close>

lemma prepare_kind: "prepare task p d = Inr (prep, hash) \<Longrightarrow> prepared_kind prep = submission_kind p"
  by (cases p) (auto simp: prepare_def prepare_analyze_def prepare_suggest_def prepare_first_draft_def
      prepare_revise_def prepared_kind_def submission_kind_def Let_def bind_result_eq_Inr_iff
      split: if_splits)

lemma validate_submission_kind: "validate_submission k v = Some p \<Longrightarrow> submission_kind p = k"
  by (cases k) (auto simp: validate_submission_def submission_kind_def)

lemma find_owned_operation:
  "get_owned_operation i m d = Inr op \<Longrightarrow> op \<in> set (operations d) \<and> o_id op = i \<and> o_owner_id op = m"
  by (auto simp: get_owned_operation_def dest!: find_Some_mem)

definition claimed_from :: "instant \<Rightarrow> uuid \<Rightarrow> uuid \<Rightarrow> uuid \<Rightarrow> ai_operation_kind \<Rightarrow> run \<Rightarrow> db \<Rightarrow> db \<Rightarrow> bool" where
  "claimed_from now q m task_id kind r d d' \<longleftrightarrow>
     (\<exists>op t. op \<in> set (operations d) \<and> o_id op = q \<and> o_owner_id op = m \<and> o_status op = QUEUED \<and>
        t \<in> set (tasks d) \<and> t_id t = task_id \<and> t_state t = o_running_task_state op \<and>
        run_operation_id r = q \<and> run_owner_id r = m \<and> run_task r = t \<and>
        run_initial_state r = o_initial_task_state op \<and> db_ok d' \<and>
        d' = save_task now task_id (\<lambda>t. t\<lparr>t_state := running_state kind\<rparr>) (claim_update now q d))"

lemma execute_claim_queued:
  assumes "execute_claim env lock (Some q) now i m task_id kind None hash prep d = (c, d')"
  shows "(\<exists>r. c = Claimed r \<and> run_prepared r = prep \<and> claimed_from now q m task_id kind r d d') \<or>
    (\<forall>r. c \<noteq> Claimed r) \<and> d' = d"
proof (cases "c")
  case (Claimed r)
  with assms obtain op t config model where
    "get_owned_operation q m d = Inr op" "o_status op = QUEUED" "find_task d task_id = Some t"
    "t_state t = o_running_task_state op"
    and r: "r = \<lparr>run_operation_id = o_id op, run_owner_id = m, run_task = t, run_config = config,
      run_model = model, run_initial_state = o_initial_task_state op, run_prepared = prep\<rparr>"
    and "flush (save_task now task_id (\<lambda>t. t\<lparr>t_state := running_state kind\<rparr>)
      (claim_update now (o_id op) d)) = Inr d'"
    by (auto simp: execute_claim_def idempotent_operation_def claim_queued_def claim_commit_def flush_def
        simp del: flush_Inr_iff
        split: lock_outcome.splits sum.splits option.splits if_splits prod.splits)
  then have "claimed_from now q m task_id kind r d d'"
    unfolding claimed_from_def using find_owned_operation find_task_Some by fastforce
  with Claimed r show ?thesis by simp
next
  case (ClaimReturned op)
  with assms show ?thesis
    by (auto simp: execute_claim_def idempotent_operation_def claim_queued_def claim_commit_def flush_def
        split: lock_outcome.splits sum.splits option.splits if_splits prod.splits)
next
  case (ClaimRaised e)
  with assms show ?thesis
    by (auto simp: execute_claim_def idempotent_operation_def claim_queued_def claim_commit_def flush_def
        split: lock_outcome.splits sum.splits option.splits if_splits prod.splits)
qed


lemma distinct_filter_map_add:
  assumes "distinct (map k xs)" and "distinct (map f (filter P xs))"
    and "\<And>x. x \<in> set xs \<Longrightarrow> k x \<noteq> q \<Longrightarrow> h x = x" and "\<And>x. x \<in> set xs \<Longrightarrow> k x = q \<Longrightarrow> f (h x) = m"
    and "m \<notin> f ` set (filter P xs)"
  shows "distinct (map f (filter P (map h xs)))"
  using assms
proof (induction xs)
  case (Cons x xs)
  have IH: "distinct (map f (filter P (map h xs)))"
    by (rule Cons.IH) (use Cons.prems in \<open>auto split: if_splits\<close>)
  show ?case
  proof (cases "k x = q")
    case True
    have "\<And>y. y \<in> set xs \<Longrightarrow> h y = y" using Cons.prems(1,3) True by (metis distinct.simps(2) image_eqI
        list.set_intros(2) list.set_map list.simps(9))
    then have "filter P (map h xs) = filter P xs" by (intro filter_map_same) simp
    with Cons.prems True show ?thesis by (auto split: if_splits)
  next
    case False
    have "f x \<notin> f ` set (filter P (map h xs))" if "P x"
    proof
      assume "f x \<in> f ` set (filter P (map h xs))"
      then obtain y where y: "y \<in> set xs" "P (h y)" "f x = f (h y)" by auto
      show False
      proof (cases "k y = q")
        case True
        with y Cons.prems(4,5) that show False by auto
      next
        case False
        with y Cons.prems(2,3) that show False by auto
      qed
    qed
    with IH Cons.prems(3) False show ?thesis by auto
  qed
qed simp

lemma claim_inv:
  assumes inv: "db_inv d" and c: "claimed_from now q m task_id kind r d d'"
    and op: "op \<in> set (operations d)" "o_id op = q" "o_kind op = kind" "o_task_id op = task_id"
    and free: "\<And>x. x \<in> set (running_ops d) \<Longrightarrow> o_owner_id x \<noteq> m"
  shows "db_inv d' \<and> set (running_ops d') = insert (claim_row now op) (set (running_ops d)) \<and>
    o_owner_id op = m \<and> run_operation_id r = q \<and> t_id (run_task r) = task_id \<and> run_owner_id r = m"
proof -
  let ?h = "\<lambda>x. if o_id x = q \<and> o_status x = QUEUED then claim_row now x else x"
  let ?g = "\<lambda>t. if t_id t = task_id then orm_save (touch_task now) (\<lambda>t. t\<lparr>t_state := running_state kind\<rparr>) t else t"
  from c obtain op' t where op': "op' \<in> set (operations d)" "o_id op' = q" "o_owner_id op' = m" "o_status op' = QUEUED"
    and t: "t \<in> set (tasks d)" "t_id t = task_id" "t_state t = o_running_task_state op'"
    and r: "run_operation_id r = q" "run_owner_id r = m" "run_task r = t" and ok: "db_ok d'"
    and d': "d' = save_task now task_id (\<lambda>t. t\<lparr>t_state := running_state kind\<rparr>) (claim_update now q d)"
    unfolding claimed_from_def by blast
  have eq: "x = op" if "x \<in> set (operations d)" "o_id x = q" for x
    using operation_eq [OF db_invD(1) [OF inv] that(1) op(1)] that(2) op(2) by simp
  with op' have opm: "op' = op" by simp
  have teq: "x = t" if "x \<in> set (tasks d)" "t_id x = task_id" for x
    using task_eq [OF db_invD(1) [OF inv] that(1) t(1)] that(2) t(2) by simp
  have rs: "running_state kind = o_running_task_state op"
    using db_invD(2) [OF inv op(1)] op(3) by (simp add: op_wf_def)
  have ops: "operations d' = map ?h (operations d)" by (simp add: d' claim_update_def update_where_def)
  have tasks: "tasks d' = map ?g (tasks d)" by (simp add: d' claim_update_def tasks_save_task)
  have "db_inv d'"
  proof (rule db_inv_update [OF inv ok tasks ops])
    fix x assume x: "x \<in> set (tasks d)"
    have "t_state (?g x) = t_state x" using teq [OF x] t(3) rs by (auto simp: opm)
    then show "resting (t_state (?g x)) \<or> t_state (?g x) = t_state x \<and>
        (\<forall>op\<in>set (operations d). o_task_id op = t_id x \<and> active op \<longrightarrow> active (?h op))"
      by (simp add: claim_row_def)
  next
    fix y x assume y: "y \<in> set (operations d)" and x: "x \<in> set (tasks d)" "o_status (?h y) = RUNNING" "t_id x = o_task_id y"
    show "o_status y = RUNNING \<and> t_state (?g x) = t_state x \<or> t_state (?g x) = o_running_task_state y"
    proof (cases "o_id y = q")
      case True
      with eq [OF y] x op rs show ?thesis by simp
    next
      case False
      with x have run: "o_status y = RUNNING" by simp
      have "t_id x \<noteq> task_id"
        using active_eq [OF db_invD(1) [OF inv] y op(1)] run op x(3) op'(4) opm False by auto
      with run show ?thesis by simp
    qed
  next
    have "distinct (map o_owner_id (filter (\<lambda>op. o_status op = RUNNING) (map ?h (operations d))))"
      by (rule distinct_filter_map_add [OF db_ok_keys(2) [OF db_invD(1) [OF inv]], where q = q and m = m])
        (use db_invD(7) [OF inv] free eq op' opm in
          \<open>force simp: single_running_def running_ops_def claim_row_def\<close>)+
    then show "single_running d'" by (simp add: single_running_def running_ops_def ops)
  qed (auto simp: same_job_def claim_row_def)
  moreover have "set (running_ops d') = insert (claim_row now op) (set (running_ops d))"
  proof -
    have h: "?h y = (if y = op then claim_row now op else y)" if "y \<in> set (operations d)" for y
    proof (cases "y = op")
      case True
      with op(2) op'(4) show ?thesis by (simp add: opm)
    next
      case False
      with eq [OF that] have "o_id y \<noteq> q" by blast
      with False show ?thesis by simp
    qed
    have "x \<in> set (running_ops d') \<longleftrightarrow> x = claim_row now op \<or> x \<in> set (running_ops d)" for x
    proof
      assume "x \<in> set (running_ops d')"
      then obtain y where y: "y \<in> set (operations d)" "x = ?h y" "o_status x = RUNNING"
        by (auto simp: in_running_ops ops)
      with h [OF y(1)] show "x = claim_row now op \<or> x \<in> set (running_ops d)"
        by (cases "y = op") (auto simp: in_running_ops)
    next
      have "o_status (claim_row now op) = RUNNING" by (simp add: claim_row_def)
      moreover have "claim_row now op \<in> set (operations d')" 
        using imageI [OF op(1), of ?h] h [OF op(1)] by (simp add: ops)
      moreover assume "x = claim_row now op \<or> x \<in> set (running_ops d)"
      moreover have "x \<in> set (operations d')" if "x \<in> set (running_ops d)"
        using that imageI [of x "set (operations d)" ?h] by (auto simp: in_running_ops ops)
      ultimately show "x \<in> set (running_ops d')" by (auto simp: in_running_ops)
    qed
    then show ?thesis by blast
  qed
  ultimately show ?thesis using r t(2) op' opm by simp
qed

section \<open>The end of an execution\<close>

definition run_ok :: "db \<Rightarrow> uuid \<Rightarrow> run \<Rightarrow> bool" where
  "run_ok d m r \<longleftrightarrow>
     (\<exists>op \<in> set (running_ops d). o_id op = run_operation_id r \<and> o_owner_id op = m \<and>
        o_task_id op = t_id (run_task r) \<and> o_initial_task_state op = run_initial_state r \<and>
        o_kind op = prepared_kind (run_prepared r))"

definition ended :: "run \<Rightarrow> db \<Rightarrow> db \<Rightarrow> bool" where
  "ended r d d' \<longleftrightarrow> db_inv d' \<and>
     running_ops d' = filter (\<lambda>op. o_id op \<noteq> run_operation_id r) (running_ops d)"

definition error_fits :: "error_dict \<Rightarrow> bool" where
  "error_fits e \<longleftrightarrow> (case e of (code, message, details) \<Rightarrow> length code \<le> 80 \<and> length message \<le> 500)"

lemma end_run:
  assumes inv: "db_inv d" and op: "op \<in> set (running_ops d)" and s: "resting s"
    and h: "\<And>r. same_keys r (h r) \<and> same_job r (h r) \<and> \<not> active (h r)"
    and ok: "db_ok (save_operation now (o_id op) h (save_task now (o_task_id op) (\<lambda>t. t\<lparr>t_state := s\<rparr>) d))"
  shows "db_inv (save_operation now (o_id op) h (save_task now (o_task_id op) (\<lambda>t. t\<lparr>t_state := s\<rparr>) d)) \<and>
    running_ops (save_operation now (o_id op) h (save_task now (o_task_id op) (\<lambda>t. t\<lparr>t_state := s\<rparr>) d)) =
      filter (\<lambda>r. o_id r \<noteq> o_id op) (running_ops d)"
  using op
  by (intro end_operation_inv [OF inv ok, where
        h = "\<lambda>r. if o_id r = o_id op then orm_save (touch_operation now) h r else r" and
        g = "\<lambda>t. if t_id t = o_task_id op then orm_save (touch_task now) (\<lambda>t. t\<lparr>t_state := s\<rparr>) t else t"])
    (use s h in \<open>auto simp: in_running_ops operations_save_operation tasks_save_task same_job_def\<close>)

text \<open>The database after a failure or cancellation of operation \<open>op\<close> is recorded.\<close>

definition failed_db :: "instant \<Rightarrow> ai_operation \<Rightarrow> error_dict \<Rightarrow> ai_operation_status \<Rightarrow> db \<Rightarrow> db" where
  "failed_db now op e st d =
     save_operation now (o_id op) (fail_operation now e st)
       (save_task now (o_task_id op) (\<lambda>t. t\<lparr>t_state := o_initial_task_state op\<rparr>) d)"

lemma fail_operation_keys:
  "st \<in> {FAILED, CANCELLED} \<Longrightarrow> same_keys r (fail_operation now e st r) \<and>
     same_job r (fail_operation now e st r) \<and> \<not> active (fail_operation now e st r)"
  by (cases e) (auto simp: fail_operation_def same_keys_def same_job_def)

lemma failed_db_inv:
  assumes inv: "db_inv d" and op: "op \<in> set (running_ops d)" and e: "error_fits e" and st: "st \<in> {FAILED, CANCELLED}"
  shows "db_inv (failed_db now op e st d) \<and>
    running_ops (failed_db now op e st d) = filter (\<lambda>r. o_id r \<noteq> o_id op) (running_ops d)"
proof -
  have "db_ok (failed_db now op e st d)" unfolding failed_db_def
    by (intro db_ok_save_operation db_ok_save_task db_invD(1) [OF inv])
      (use fail_operation_keys [OF st] e in
        \<open>auto simp: fail_operation_def error_fits_def op_columns_ok_def fits_column_def split: prod.splits\<close>)
  moreover have "resting (o_initial_task_state op)"
    using op op_wf_initial db_invD(2) [OF inv] by (simp add: in_running_ops)
  ultimately show ?thesis
    using end_run [OF inv op _ fail_operation_keys [OF st]] by (simp add: failed_db_def)
qed

lemma record_failure_Inr:
  assumes "db_inv d" and "op \<in> set (running_ops d)" and "error_fits e" and "st \<in> {FAILED, CANCELLED}"
  shows "record_failure now (o_task_id op) op e st d = Inr ((), failed_db now op e st d)"
  using failed_db_inv [OF assms, of now] by (simp add: record_failure_def failed_db_def db_inv_def)

lemma error_fits_simps [simp]:
  "error_fits cancelled_error" "error_fits invalid_error" "error_fits internal_error"
  by (simp_all add: error_fits_def cancelled_error_def invalid_error_def internal_error_def)

lemma error_fits_as_dict: "is_ai_error e \<Longrightarrow> error_fits (as_dict e)"
  by (simp add: error_fits_def as_dict_def ai_error_message_length ai_error_code_length)

lemma run_ok_op:
  assumes "db_inv d" and "run_ok d m r"
  obtains op t where "op \<in> set (running_ops d)" and "find_operation d (run_operation_id r) = Some op"
    and "o_id op = run_operation_id r" and "o_task_id op = t_id (run_task r)" and "o_owner_id op = m"
    and "find_task d (t_id (run_task r)) = Some t" and "o_kind op = prepared_kind (run_prepared r)"
proof -
  from assms(2) obtain op where op: "op \<in> set (running_ops d)" "o_id op = run_operation_id r"
    "o_owner_id op = m" "o_task_id op = t_id (run_task r)" "o_kind op = prepared_kind (run_prepared r)"
    unfolding run_ok_def by blast
  have "find_operation d (run_operation_id r) = Some op"
    using find_operation_mem [OF db_invD(1) [OF assms(1)], of op] op by (simp add: in_running_ops)
  moreover obtain t where "t \<in> set (tasks d)" "t_id t = t_id (run_task r)"
    using operation_task_exists [OF db_invD(1) [OF assms(1)], of op] op by (auto simp: in_running_ops)
  ultimately show ?thesis
    using that op find_task_mem [OF db_invD(1) [OF assms(1)], of t] by simp
qed

definition finish_fails :: "instant \<Rightarrow> ai_operation \<Rightarrow> db \<Rightarrow> finish \<times> db \<Rightarrow> bool" where
  "finish_fails now op d x \<longleftrightarrow>
     (\<exists>ex e st. error_fits e \<and> st \<in> {FAILED, CANCELLED} \<and> x = (FinishRaised ex, failed_db now op e st d))"

lemma finish_failsI [simp]:
  "error_fits e \<Longrightarrow> finish_fails now op d (FinishRaised ex, failed_db now op e FAILED d)"
  "error_fits e \<Longrightarrow> finish_fails now op d (FinishRaised ex, failed_db now op e CANCELLED d)"
  unfolding finish_fails_def by blast+

lemma finish_failures:
  assumes inv: "db_inv d" and op: "op \<in> set (running_ops d)" "find_operation d (run_operation_id r) = Some op"
    "o_id op = run_operation_id r" "o_task_id op = t_id (run_task r)" and t: "find_task d (t_id (run_task r)) = Some t"
  shows "error_fits e \<Longrightarrow> finish_fails now op d (fail_and_raise now r e ex d)"
    and "finish_fails now op d (finish_invalid now r d)"
    and "is_ai_error err \<Longrightarrow> finish_fails now op d (finish_provider_error now r err d)"
    and "finish_fails now op d (finish_cancelled now r d)"
    and "finish_fails now op d (finish_crash now r d)"
proof -
  show 1: "finish_fails now op d (fail_and_raise now r e ex d)" if "error_fits e" for e ex
    using that record_failure_Inr [OF inv op(1) that, of FAILED now] op
    by (simp add: fail_and_raise_def)
  show "finish_fails now op d (finish_invalid now r d)" by (simp add: finish_invalid_def 1)
  show "is_ai_error err \<Longrightarrow> finish_fails now op d (finish_provider_error now r err d)"
    by (simp add: finish_provider_error_def 1 error_fits_as_dict)
  have tid: "t_id t = o_task_id op" using t op find_task_Some by auto
  have "error_fits cancelled_error" by simp
  with op t record_failure_Inr [OF inv op(1), of cancelled_error CANCELLED now]
  show "finish_fails now op d (finish_cancelled now r d)"
    by (simp add: finish_cancelled_def record_cancellation_def tid)
  have "error_fits internal_error" "o_status op \<noteq> SUCCEEDED" using op(1) by (simp_all add: in_running_ops)
  with op t record_failure_Inr [OF inv op(1), of internal_error FAILED now]
  show "finish_fails now op d (finish_crash now r d)"
    by (simp add: finish_crash_def tid)
qed

text \<open>The database after operation \<open>op\<close> succeeded with result \<open>res\<close>.\<close>

definition succeeded_db ::
  "instant \<Rightarrow> ai_operation \<Rightarrow> service_result \<Rightarrow> string \<Rightarrow> uuid \<Rightarrow> db \<Rightarrow> db" where
  "succeeded_db now op res rt rid d =
     save_operation now (o_id op) (complete_operation now res rt rid)
       (save_task now (o_task_id op) (\<lambda>t. t\<lparr>t_state := sp_succeeded (result_state res)\<rparr>) d)"

lemma execute_finish_cases:
  assumes inv: "db_inv d" and op: "op \<in> set (running_ops d)" "o_id op = run_operation_id r"
    "o_task_id op = t_id (run_task r)"
  shows "(\<exists>op' res rt rid d1. invoke env r = Inr res \<and> persist fresh now r res d = Inr ((rt, rid), d1) \<and>
      execute_finish env fresh now r d = (FinishReturned op', succeeded_db now op res rt rid d1) \<and>
      op' \<in> set (operations (succeeded_db now op res rt rid d1)) \<and> o_id op' = o_id op \<and>
      db_ok (succeeded_db now op res rt rid d1)) \<or>
    finish_fails now op d (execute_finish env fresh now r d)"
proof -
  have fo: "find_operation d (run_operation_id r) = Some op"
    using find_operation_mem [OF db_invD(1) [OF inv], of op] op by (simp add: in_running_ops)
  obtain t where t: "find_task d (t_id (run_task r)) = Some t"
    using operation_task_exists [OF db_invD(1) [OF inv], of op] op find_task_mem [OF db_invD(1) [OF inv]]
    by (force simp: in_running_ops)
  note F = finish_failures [OF inv op(1) fo op(2,3) t]
  show ?thesis
  proof (cases "invoke env r")
    case (Inl e)
    then have "\<And>p err. e = AiOperationFailed p err \<Longrightarrow> is_ai_error err"
      using fails_well_invoke [of env r] by (simp add: fails_well_def)
    with Inl F show ?thesis by (cases e) (auto simp: execute_finish_def)
  next
    case (Inr res)
    show ?thesis
    proof (cases "persist fresh now r res d")
      case (Inl e)
      with Inr F show ?thesis by (cases e) (auto simp: execute_finish_def)
    next
      case (Inr p)
      obtain rt rid d1 where p: "p = ((rt, rid), d1)" by (metis prod.exhaust)
      show ?thesis
      proof (cases "finish_success now r res rt rid d1")
        case (Inl e)
        with \<open>invoke env r = Inr res\<close> Inr p F show ?thesis by (auto simp: execute_finish_def)
      next
        case (Inr x)
        then obtain op' where x: "x = (op', succeeded_db now op res rt rid d1)"
          and "db_ok (succeeded_db now op res rt rid d1)"
          and "find_operation (succeeded_db now op res rt rid d1) (o_id op) = Some op'"
          by (cases x) (auto simp: finish_success_def bind_result_eq_Inr_iff succeeded_db_def op)
        with \<open>invoke env r = Inr res\<close> \<open>persist fresh now r res d = Inr p\<close> p Inr show ?thesis
          by (auto simp: execute_finish_def dest!: find_operation_Some)
      qed
    qed
  qed
qed


lemma completed_state_resting [simp]: "resting (completed_state k)"
  by (cases k) simp_all

lemma succeeded_db_inv:
  assumes inv: "db_inv d" and op: "op \<in> set (running_ops d)" and res: "result_well prep res"
    and d1: "persist fresh now r res d = Inr (x, d1)" and ok: "db_ok (succeeded_db now op res rt rid d1)"
  shows "db_inv (succeeded_db now op res rt rid d1) \<and>
    running_ops (succeeded_db now op res rt rid d1) = filter (\<lambda>r. o_id r \<noteq> o_id op) (running_ops d)"
proof -
  note fr = persist_frame [OF d1]
  have inv1: "db_inv d1" by (rule db_inv_frame [OF inv]) (use fr in simp_all)
  have run: "running_ops d1 = running_ops d" using fr by (simp add: running_ops_def)
  have "same_keys y (complete_operation now res rt rid y) \<and> same_job y (complete_operation now res rt rid y) \<and>
      \<not> active (complete_operation now res rt rid y)" for y
    by (simp add: complete_operation_def same_keys_def same_job_def)
  with end_run [OF inv1, of op] op run res ok show ?thesis
    by (simp add: succeeded_db_def result_well_def)
qed

lemma execute_finish_ended:
  assumes inv: "db_inv d" and ok: "run_ok d m r"
  shows "ended r d (snd (execute_finish env fresh now r d))"
proof -
  obtain op where op: "op \<in> set (running_ops d)" "o_id op = run_operation_id r" "o_task_id op = t_id (run_task r)"
    using run_ok_op [OF inv ok] by metis
  from execute_finish_cases [OF inv op, of env fresh now] show ?thesis
  proof (elim disjE exE conjE)
    fix op' res rt rid d1
    assume i: "invoke env r = Inr res" and "persist fresh now r res d = Inr ((rt, rid), d1)"
      and "execute_finish env fresh now r d = (FinishReturned op', succeeded_db now op res rt rid d1)"
      and "db_ok (succeeded_db now op res rt rid d1)"
    with succeeded_db_inv [OF inv op(1) invoke_Inr [OF i]] op(2) show ?thesis by (auto simp: ended_def)
  next
    assume "finish_fails now op d (execute_finish env fresh now r d)"
    then obtain e st where "error_fits e" "st \<in> {FAILED, CANCELLED}"
      "snd (execute_finish env fresh now r d) = failed_db now op e st d"
      unfolding finish_fails_def by (metis snd_conv)
    with failed_db_inv [OF inv op(1)] op(2) show ?thesis by (simp add: ended_def)
  qed
qed

lemma finish_cancelled_ended:
  assumes inv: "db_inv d" and ok: "run_ok d m r"
  shows "ended r d (snd (finish_cancelled now r d))"
proof -
  obtain op t where op: "op \<in> set (running_ops d)" "find_operation d (run_operation_id r) = Some op"
    "o_id op = run_operation_id r" "o_task_id op = t_id (run_task r)" "find_task d (t_id (run_task r)) = Some t"
    using run_ok_op [OF inv ok] by metis
  from finish_failures(4) [OF inv op] obtain e st where "error_fits e" "st \<in> {FAILED, CANCELLED}"
    "snd (finish_cancelled now r d) = failed_db now op e st d"
    unfolding finish_fails_def by (metis snd_conv)
  with failed_db_inv [OF inv op(1)] op(3) show ?thesis by (simp add: ended_def)
qed

section \<open>The clean-up of a failed job\<close>

lemma tasks_reset_task:
  "tasks (reset_task now op d) = map (\<lambda>t. if t_id t = o_task_id op \<and> t_state t = o_running_task_state op
     then t\<lparr>t_state := o_initial_task_state op, t_updated_at := now\<rparr> else t) (tasks d)"
  by (simp add: reset_task_def update_where_def)

lemma cleanup_inv:
  assumes inv: "db_inv d"
    and own: "\<And>op. op \<in> set (operations d) \<Longrightarrow> o_id op = i \<Longrightarrow> o_owner_id op = m"
    and free: "\<And>x. x \<in> set (running_ops d) \<Longrightarrow> o_owner_id x \<noteq> m"
  shows "db_inv (execute_cleanup now i e d) \<and> running_ops (execute_cleanup now i e d) = running_ops d"
proof (cases "flush (cleanup_changes now i e d)")
  case (Inl ex)
  with inv show ?thesis by (simp add: execute_cleanup_def)
next
  case (Inr d')
  then have d': "d' = cleanup_changes now i e d" and ok: "db_ok d'" by simp_all
  let ?h = "\<lambda>op. if o_id op = i \<and> o_status op = QUEUED then fail_queued now e op else op"
  have ops: "operations d' = map ?h (operations d)"
    by (auto simp: d' cleanup_changes_def reset_task_def Let_def update_where_def split: option.splits)
  have run: "running_ops d' = running_ops d"
    unfolding running_ops_def ops by (rule filter_map_same) (auto simp: fail_queued_def)
  have "db_inv d'"
  proof (cases "find_operation d i")
    case None
    then have "\<forall>op \<in> set (operations d). o_id op \<noteq> i"
      by (auto simp: find_operation_def dest: find_None_notin)
    then have "operations d' = operations d" unfolding ops by (intro map_idI) auto
    moreover have "tasks d' = tasks d" using None by (simp add: d' cleanup_changes_def)
    ultimately show ?thesis using db_inv_frame [OF inv ok] by simp
  next
    case (Some op)
    note op = find_operation_Some [OF Some]
    let ?g = "\<lambda>t. if t_id t = o_task_id op \<and> t_state t = o_running_task_state op
      then t\<lparr>t_state := o_initial_task_state op, t_updated_at := now\<rparr> else t"
    have tasks: "tasks d' = map ?g (tasks d)" using Some by (simp add: d' cleanup_changes_def Let_def tasks_reset_task)
    have st: "t_state (?g t) = put_back op t" for t by (simp add: put_back_def)
    have eq: "x = op" if "x \<in> set (operations d)" "o_id x = i" for x
      using operation_eq [OF db_invD(1) [OF inv] that(1)] op that(2) by metis
    have init: "resting (o_initial_task_state op)" using op_wf_initial db_invD(2) [OF inv] op by blast
    show ?thesis
    proof (rule db_inv_update [OF inv ok tasks ops])
      fix t assume t: "t \<in> set (tasks d)"
      show "resting (t_state (?g t)) \<or> t_state (?g t) = t_state t \<and>
          (\<forall>x\<in>set (operations d). o_task_id x = t_id t \<and> active x \<longrightarrow> active (?h x))"
      proof (cases "o_status op = QUEUED \<and> t_id t = o_task_id op")
        case True
        then have "resting (t_state (?g t))"
          unfolding st using put_back_resting [OF inv _ _ t] op by simp
        then show ?thesis ..
      next
        case False
        have "?h x = x" if "x \<in> set (operations d)" "o_task_id x = t_id t" for x
          using eq [OF that(1)] that(2) False by auto
        with init show ?thesis by auto
      qed
    next
      fix y t assume y: "y \<in> set (operations d)" "t \<in> set (tasks d)" "o_status (?h y) = RUNNING" "t_id t = o_task_id y"
      then have run: "o_status y = RUNNING" by (auto simp: fail_queued_def split: if_splits)
      have "t_id t \<noteq> o_task_id op"
      proof
        assume "t_id t = o_task_id op"
        with db_invD(5) [OF inv] y op have "o_owner_id y = o_owner_id op" unfolding owners_wf_def by metis
        with free [of y] own [of op] y run op show False by (simp add: in_running_ops)
      qed
      with run show "o_status y = RUNNING \<and> t_state (?g t) = t_state t \<or> t_state (?g t) = o_running_task_state y"
        by simp
    next
      show "single_running d'" using db_invD(7) [OF inv] by (simp add: single_running_def run)
    qed (auto simp: same_job_def fail_queued_def)
  qed
  moreover have "execute_cleanup now i e d = d'" by (simp add: execute_cleanup_def Inr)
  ultimately show ?thesis using run by simp
qed

end
