(* ===== verification/Ai_System.thy ===== *)
theory Ai_System
  imports Worker_Invariant
begin

text \<open>
  The backend as a state machine: HTTP handlers, the queue worker with its jobs, shutdown, process
  crash and the passage of time interleave; every step is one unit of work. The identity module may
  change members and provider settings at any time. Reachable states satisfy the workflow invariant.
\<close>

section \<open>Invariants of a transition system\<close>

locale transition_system =
  fixes init :: "'s \<Rightarrow> bool" and step :: "'s \<Rightarrow> 's \<Rightarrow> bool" and inv :: "'s \<Rightarrow> bool"
  assumes init_inv: "init s \<Longrightarrow> inv s" and step_inv: "step s s' \<Longrightarrow> inv s \<Longrightarrow> inv s'"
begin

lemma rtranclp_inv: "step\<^sup>*\<^sup>* s s' \<Longrightarrow> inv s \<Longrightarrow> inv s'"
  by (induction rule: rtranclp_induct) (auto intro: step_inv)

lemma reachable_inv: "init s \<Longrightarrow> step\<^sup>*\<^sup>* s s' \<Longrightarrow> inv s'"
  using rtranclp_inv init_inv by blast

end

section \<open>Steps\<close>

record system =
  sys_db :: db
  sys_jobs :: jobs
  sys_clock :: instant

text \<open>One rule per handler that changes the database. The premises on the requests are what their models
  have validated.\<close>

inductive http :: "instant \<Rightarrow> (uuid \<Rightarrow> bool) \<Rightarrow> db \<Rightarrow> db \<Rightarrow> bool" for now fresh where
  http_create_preset: "create_preset i now m p d = Inr (r, d') \<Longrightarrow> valid_creative_settings (prc_settings p) \<Longrightarrow>
    http now fresh d d'"
| http_update_preset: "update_preset now m i u d = Inr (r, d') \<Longrightarrow>
    (\<forall>c. pru_settings u = Some c \<longrightarrow> valid_creative_settings c) \<Longrightarrow> http now fresh d d'"
| http_delete_preset: "delete_preset m i d = Inr (u', d') \<Longrightarrow> http now fresh d d'"
| http_create_task: "create_task i now m c d = Inr (t, d') \<Longrightarrow> valid_creative_settings (tc_creative_settings c) \<Longrightarrow>
    http now fresh d d'"
| http_update_task: "update_task now m i tu d = Inr (t, d') \<Longrightarrow>
    (\<forall>c. tu_creative_settings tu = Some (Some c) \<longrightarrow> valid_creative_settings c) \<Longrightarrow> http now fresh d d'"
| http_copy_task: "copy_task i now m s d = Inr (t, d') \<Longrightarrow> http now fresh d d'"
| http_archive_task: "archive_task now m i d = Inr (t, d') \<Longrightarrow> http now fresh d d'"
| http_restore_task: "restore_task now m i d = Inr (t, d') \<Longrightarrow> http now fresh d d'"
| http_submit: "submit_operation i now m tid sub key rid d = Inr (op, d') \<Longrightarrow> valid_submission sub \<Longrightarrow>
    fresh i \<Longrightarrow> http now fresh d d'"
| http_update_analysis: "update_analysis now m tid i cor d = Inr (a, d') \<Longrightarrow>
    valid_analysis_result (cor_analysis cor) \<Longrightarrow> http now fresh d d'"
| http_update_suggestion: "update_suggestion now m tid i su d = Inr (s', d') \<Longrightarrow> http now fresh d d'"
| http_clear: "clear_ai_operation_history m d = Inr (u', d') \<Longrightarrow> http now fresh d d'"
| http_cancel: "cancel_ai_operation now m i d = Inr (op, d') \<Longrightarrow> http now fresh d d'"
| http_retry: "retry_ai_operation i now m o' key d = Inr (op, d') \<Longrightarrow> fresh i \<Longrightarrow> http now fresh d d'"
| http_manual_edit: "create_manual_edit i now m tid vid me d = Inr (v, d') \<Longrightarrow> http now fresh d d'"
| http_create_lock: "create_lock i now m tid vid lc d = Inr (l, d') \<Longrightarrow> http now fresh d d'"
| http_delete_lock: "delete_lock m tid i d = Inr (u', d') \<Longrightarrow> http now fresh d d'"
| http_finalize: "finalize_version aware now m tid vid d = Inr (v, d') \<Longrightarrow> http now fresh d d'"

definition job_operation :: "job \<Rightarrow> uuid option" where
  "job_operation j =
     (case j of JobNew i \<Rightarrow> Some i | JobRunning r \<Rightarrow> Some (run_operation_id r)
      | JobFailed i _ \<Rightarrow> Some i | JobDone \<Rightarrow> None)"

text \<open>A job is lost when its cancellation arrives outside the try block of \<open>_execute\<close>; with the step for
  the unit of work whose commit was carried out this gives \<open>cancel_job\<close>.

  \<open>uuid4()\<close> does not return the identifier of an operation some job still works on.\<close>

definition unused :: "jobs \<Rightarrow> uuid \<Rightarrow> bool" where
  "unused jobs i \<longleftrightarrow> (\<forall>m j. jobs m = Some j \<longrightarrow> job_operation j \<noteq> Some i)"

inductive step :: "op_env \<Rightarrow> system \<Rightarrow> system \<Rightarrow> bool" for env where
  step_http: "http now (unused jobs) d d' \<Longrightarrow> clock \<le> now \<Longrightarrow>
    step env \<lparr>sys_db = d, sys_jobs = jobs, sys_clock = clock\<rparr>
             \<lparr>sys_db = d', sys_jobs = jobs, sys_clock = now\<rparr>"
| step_identity: "db_ok (d\<lparr>members := ms, provider_settings := ps\<rparr>) \<Longrightarrow>
    step env \<lparr>sys_db = d, sys_jobs = jobs, sys_clock = clock\<rparr>
             \<lparr>sys_db = d\<lparr>members := ms, provider_settings := ps\<rparr>, sys_jobs = jobs, sys_clock = clock\<rparr>"
| step_tick: "tick now (d, jobs) = (d', jobs') \<Longrightarrow> clock \<le> now \<Longrightarrow>
    step env \<lparr>sys_db = d, sys_jobs = jobs, sys_clock = clock\<rparr>
             \<lparr>sys_db = d', sys_jobs = jobs', sys_clock = now\<rparr>"
| step_begin: "jobs m = Some (JobNew i) \<Longrightarrow> execute_begin env lock now i d = (j, d') \<Longrightarrow> clock \<le> now \<Longrightarrow>
    step env \<lparr>sys_db = d, sys_jobs = jobs, sys_clock = clock\<rparr>
             \<lparr>sys_db = d', sys_jobs = jobs(m \<mapsto> j), sys_clock = now\<rparr>"
| step_end: "jobs m = Some (JobRunning r) \<Longrightarrow> execute_end env fresh now r d = (j, d') \<Longrightarrow> clock \<le> now \<Longrightarrow>
    step env \<lparr>sys_db = d, sys_jobs = jobs, sys_clock = clock\<rparr>
             \<lparr>sys_db = d', sys_jobs = jobs(m \<mapsto> j), sys_clock = now\<rparr>"
| step_cleanup: "jobs m = Some (JobFailed i e) \<Longrightarrow> execute_cleanup now i e d = d' \<Longrightarrow> clock \<le> now \<Longrightarrow>
    step env \<lparr>sys_db = d, sys_jobs = jobs, sys_clock = clock\<rparr>
             \<lparr>sys_db = d', sys_jobs = jobs(m \<mapsto> JobDone), sys_clock = now\<rparr>"
| step_cancel_job: "jobs m = Some j \<Longrightarrow> cancel_waiting now j d = (j', d') \<Longrightarrow> clock \<le> now \<Longrightarrow>
    step env \<lparr>sys_db = d, sys_jobs = jobs, sys_clock = clock\<rparr>
             \<lparr>sys_db = d', sys_jobs = jobs(m \<mapsto> j'), sys_clock = now\<rparr>"
| step_lose_job: "jobs m = Some j \<Longrightarrow> clock \<le> now \<Longrightarrow>
    step env \<lparr>sys_db = d, sys_jobs = jobs, sys_clock = clock\<rparr>
             \<lparr>sys_db = d, sys_jobs = jobs(m := None), sys_clock = now\<rparr>"
| step_crash: "step env \<lparr>sys_db = d, sys_jobs = jobs, sys_clock = clock\<rparr>
                        \<lparr>sys_db = d, sys_jobs = Map.empty, sys_clock = clock\<rparr>"

definition init :: "system \<Rightarrow> bool" where
  "init s \<longleftrightarrow> sys_jobs s = Map.empty \<and> db_ok (sys_db s) \<and> tasks (sys_db s) = [] \<and> operations (sys_db s) = []"

section \<open>The invariant of the whole system\<close>

text \<open>
  \<open>jobs_wf\<close>: the job of an owner is about an operation of that owner, a job past its claim has its
  operation running, and an owner with a running operation has no other job than the one running it.
\<close>

definition jobs_wf :: "db \<Rightarrow> jobs \<Rightarrow> bool" where
  "jobs_wf d jobs \<longleftrightarrow>
     (\<forall>m j i. jobs m = Some j \<longrightarrow> job_operation j = Some i \<longrightarrow>
        (\<forall>op \<in> set (operations d). o_id op = i \<longrightarrow> o_owner_id op = m)) \<and>
     (\<forall>m r. jobs m = Some (JobRunning r) \<longrightarrow> run_ok d m r) \<and>
     (\<forall>op \<in> set (running_ops d). \<forall>j. jobs (o_owner_id op) = Some j \<longrightarrow>
        (\<exists>r. j = JobRunning r \<and> run_operation_id r = o_id op))"

definition sys_inv :: "system \<Rightarrow> bool" where
  "sys_inv s \<longleftrightarrow> db_inv (sys_db s) \<and> jobs_wf (sys_db s) (sys_jobs s)"

lemma jobs_wfD:
  assumes "jobs_wf d jobs"
  shows "jobs m = Some j \<Longrightarrow> job_operation j = Some i \<Longrightarrow> op \<in> set (operations d) \<Longrightarrow> o_id op = i \<Longrightarrow> o_owner_id op = m"
    and "jobs m = Some (JobRunning r) \<Longrightarrow> run_ok d m r"
    and "op \<in> set (running_ops d) \<Longrightarrow> jobs (o_owner_id op) = Some j \<Longrightarrow> \<exists>r. j = JobRunning r \<and> run_operation_id r = o_id op"
  using assms unfolding jobs_wf_def by blast+

lemma jobs_wf_drop: "jobs_wf d jobs \<Longrightarrow> jobs_wf d (jobs(m := None))"
  by (auto simp: jobs_wf_def)

lemma job_operation_simps [simp]:
  "job_operation (JobNew i) = Some i" "job_operation (JobRunning r) = Some (run_operation_id r)"
  "job_operation (JobFailed i e) = Some i" "job_operation JobDone = None"
  by (simp_all add: job_operation_def)

text \<open>An owner whose job is not past the claim has no running operation.\<close>

lemma no_running:
  assumes "jobs_wf d jobs" and "jobs m = Some j" and "\<And>r. j \<noteq> JobRunning r" and "x \<in> set (running_ops d)"
  shows "o_owner_id x \<noteq> m"
  using jobs_wfD(3) [OF assms(1,4)] assms(2,3) by blast

lemma run_ok_cong: "running_ops d' = running_ops d \<Longrightarrow> run_ok d' m r \<longleftrightarrow> run_ok d m r"
  by (simp add: run_ok_def)

lemma jobs_wf_frame:
  assumes "jobs_wf d jobs" and "running_ops d' = running_ops d" and "ops_from d (unused jobs) d'"
  shows "jobs_wf d' jobs"
proof -
  have "o_owner_id op = m" if j: "jobs m = Some j" "job_operation j = Some (o_id op)" "op \<in> set (operations d')" for m j op
  proof -
    have "\<not> unused jobs (o_id op)" using j unfolding unused_def by blast
    then obtain op0 where "op0 \<in> set (operations d)" "o_id op0 = o_id op" "o_owner_id op0 = o_owner_id op"
      using assms(3) j(3) unfolding ops_from_def by blast
    with jobs_wfD(1) [OF assms(1) j(1,2)] show ?thesis by metis
  qed
  then show ?thesis using assms(1,2) unfolding jobs_wf_def run_ok_def by auto
qed

lemma ops_from_mono: "ops_from d P d' \<Longrightarrow> (\<And>i. P i \<Longrightarrow> Q i) \<Longrightarrow> ops_from d Q d'"
  unfolding ops_from_def by blast

lemma same_ops: "operations d' = operations d \<Longrightarrow> running_ops d' = running_ops d \<and> ops_from d fresh d'"
  by (simp add: running_ops_def ops_from_subset)

lemma http_inv:
  assumes "http now fresh d d'" and inv: "db_inv d"
  shows "db_inv d' \<and> running_ops d' = running_ops d \<and> ops_from d fresh d'"
  using assms(1)
proof cases
  case (http_create_preset i m p r)
  with create_preset_inv inv same_ops show ?thesis by metis
next
  case (http_update_preset m i u r)
  with update_preset_inv inv same_ops show ?thesis by metis
next
  case (http_delete_preset m i u')
  with delete_preset_inv inv same_ops show ?thesis by metis
next
  case (http_create_task i m c t)
  with create_task_inv inv same_ops show ?thesis by metis
next
  case (http_update_task m i tu t)
  with update_task_inv inv same_ops show ?thesis by metis
next
  case (http_copy_task i m s t)
  with copy_task_inv inv same_ops show ?thesis by metis
next
  case (http_archive_task m i t)
  with archive_task_inv inv same_ops show ?thesis by metis
next
  case (http_restore_task m i t)
  with restore_task_inv inv same_ops show ?thesis by metis
next
  case (http_submit i m tid sub key rid op)
  then show ?thesis
    using submit_operation_inv [OF http_submit(1) inv] ops_from_mono [of d "\<lambda>x. x = i" d' fresh] by blast
next
  case (http_update_analysis m tid i cor a)
  with update_analysis_inv inv same_ops show ?thesis by metis
next
  case (http_update_suggestion m tid i su s')
  with update_suggestion_inv inv same_ops show ?thesis by metis
next
  case (http_clear m u')
  with clear_completed_inv [OF _ inv] show ?thesis by (simp add: clear_ai_operation_history_def)
next
  case (http_cancel m i op)
  with cancel_inv [OF _ inv] show ?thesis by (simp add: cancel_ai_operation_def)
next
  case (http_retry i m o' key op)
  then have "retry i now m o' key d = Inr (op, d')" by (simp add: retry_ai_operation_def)
  with http_retry show ?thesis
    using retry_inv [OF _ inv] ops_from_mono [of d "\<lambda>x. x = i" d' fresh] by blast
next
  case (http_manual_edit i m tid vid me v)
  with create_manual_edit_inv inv same_ops show ?thesis by metis
next
  case (http_create_lock i m tid vid lc l)
  with create_lock_inv inv same_ops show ?thesis by metis
next
  case (http_delete_lock m tid i u')
  with delete_lock_inv inv same_ops show ?thesis by metis
next
  case (http_finalize aware m tid vid v)
  with finalize_version_inv inv same_ops show ?thesis by metis
qed


section \<open>Worker steps\<close>

lemma ops_from_save_operation:
  assumes "operations d1 = operations d" and "\<And>op. o_id (f op) = o_id op \<and> o_owner_id (f op) = o_owner_id op"
  shows "ops_from d fresh (save_operation now i f d1)"
  by (rule ops_from_map [where h = "\<lambda>op. if o_id op = i then orm_save (touch_operation now) f op else op"])
    (use assms in \<open>auto simp: operations_save_operation\<close>)

lemma ops_from_failed_db: "ops_from d fresh (failed_db now op e st d)"
  unfolding failed_db_def
  by (rule ops_from_save_operation) (auto simp: fail_operation_def split: prod.splits)

lemma ops_from_recover:
  assumes "recover_stale_operations m now d = Inr (n, d')"
  shows "ops_from d fresh d'"
proof -
  have one: "ops_from d (\<lambda>_. False) (recover_one now op d)" for op d
    unfolding recover_one_release by (rule ops_from_save_operation) (auto simp: mark_stale_def)
  have "ops_from d (\<lambda>_. False) (fold (recover_one now) ops d)" for ops d
  proof (induction ops arbitrary: d)
    case (Cons op ops)
    show ?case using ops_from_trans [OF one Cons.IH] by simp
  qed (simp add: ops_from_subset)
  then show ?thesis
    using assms ops_from_mono [of d "\<lambda>_. False" d' fresh]
    by (auto simp: recover_stale_operations_def Let_def ops_from_subset split: if_splits)
qed

lemma recover_nothing:
  assumes "\<And>x. x \<in> set (running_ops d) \<Longrightarrow> o_owner_id x \<noteq> m"
  shows "recover_stale_operations m now d = Inr (0, d)"
proof -
  have "filter (\<lambda>op. o_owner_id op = m \<and> is_stale now op) (operations d) = []"
    using assms by (auto simp: filter_empty_conv is_stale_def in_running_ops)
  then show ?thesis by (simp add: recover_stale_operations_def)
qed

text \<open>A job leaves the claimed phase: what remains running belongs to other owners.\<close>

lemma jobs_wf_end:
  assumes wf: "jobs_wf d jobs" and inv: "db_inv d" and m: "jobs m = Some (JobRunning r)"
    and run: "running_ops d' = filter (\<lambda>op. o_id op \<noteq> run_operation_id r) (running_ops d)"
    and from_d: "ops_from d (\<lambda>_. False) d'"
    and j: "\<And>r. j \<noteq> JobRunning r" "\<And>i. job_operation j = Some i \<Longrightarrow> i = run_operation_id r"
  shows "jobs_wf d' (jobs(m \<mapsto> j))"
  unfolding jobs_wf_def
proof (intro conjI allI impI ballI)
  fix m' j' i op
  assume a: "(jobs(m \<mapsto> j)) m' = Some j'" "job_operation j' = Some i" "op \<in> set (operations d')" "o_id op = i"
  from from_d a(3) obtain op0 where op0: "op0 \<in> set (operations d)" "o_id op0 = o_id op" "o_owner_id op0 = o_owner_id op"
    unfolding ops_from_def by blast
  have "\<exists>j0. jobs m' = Some j0 \<and> job_operation j0 = Some i"
    using a m j by (cases "m' = m") auto
  with jobs_wfD(1) [OF wf] op0 a(4) show "o_owner_id op = m'" by metis
next
  fix m' r' assume a: "(jobs(m \<mapsto> j)) m' = Some (JobRunning r')"
  with j(1) have m': "m' \<noteq> m" "jobs m' = Some (JobRunning r')" by (auto split: if_splits)
  from jobs_wfD(2) [OF wf m'(2)] obtain op where op: "op \<in> set (running_ops d)" "o_id op = run_operation_id r'"
    "o_owner_id op = m'" "o_task_id op = t_id (run_task r')" "o_initial_task_state op = run_initial_state r'"
    "o_kind op = prepared_kind (run_prepared r')" unfolding run_ok_def by blast
  have "o_id op \<noteq> run_operation_id r"
    using jobs_wfD(1) [OF wf m, of "run_operation_id r" op] op m'(1) by (auto simp: in_running_ops)
  with op show "run_ok d' m' r'" unfolding run_ok_def run by auto
next
  fix op j' assume a: "op \<in> set (running_ops d')" "(jobs(m \<mapsto> j)) (o_owner_id op) = Some j'"
  from a(1) have op: "op \<in> set (running_ops d)" "o_id op \<noteq> run_operation_id r" by (simp_all add: run)
  have "o_owner_id op \<noteq> m" using jobs_wfD(3) [OF wf op(1)] m op(2) by fastforce
  with a(2) jobs_wfD(3) [OF wf op(1)] show "\<exists>r. j' = JobRunning r \<and> run_operation_id r = o_id op" by simp
qed

lemma jobs_wf_same:
  assumes wf: "jobs_wf d jobs" and m: "jobs m = Some j0" "\<And>r. j0 \<noteq> JobRunning r"
    and run: "running_ops d' = running_ops d" and from_d: "ops_from d (\<lambda>_. False) d'"
    and j: "\<And>r. j \<noteq> JobRunning r" "\<And>i. job_operation j = Some i \<Longrightarrow> job_operation j0 = Some i"
  shows "jobs_wf d' (jobs(m \<mapsto> j))"
proof -
  have "jobs_wf d' jobs" by (rule jobs_wf_frame [OF wf run ops_from_mono [OF from_d]]) simp
  moreover have "o_owner_id op \<noteq> m" if "op \<in> set (running_ops d')" for op
    using no_running [OF wf m(1) m(2)] that run by simp
  ultimately show ?thesis using m j unfolding jobs_wf_def by (auto split: if_splits)
qed

lemma ops_from_finish:
  assumes inv: "db_inv d" and ok: "run_ok d m r"
  shows "ops_from d (\<lambda>_. False) (snd (execute_finish env fresh now r d))"
proof -
  obtain op where op: "op \<in> set (running_ops d)" "o_id op = run_operation_id r" "o_task_id op = t_id (run_task r)"
    using run_ok_op [OF inv ok] by metis
  have "ops_from d (\<lambda>_. False) (succeeded_db now op res rt rid d1)"
    if "persist fresh now r res d = Inr ((rt, rid), d1)" for res rt rid d1
    unfolding succeeded_db_def
    by (rule ops_from_save_operation) (use persist_frame [OF that] in \<open>auto simp: complete_operation_def\<close>)
  with ops_from_failed_db execute_finish_cases [OF inv op, of env fresh now] show ?thesis
    unfolding finish_fails_def by fastforce
qed

lemma execute_end_inv:
  assumes inv: "db_inv d" and wf: "jobs_wf d jobs" and m: "jobs m = Some (JobRunning r)"
    and e: "execute_end env fresh now r d = (j, d')"
  shows "db_inv d' \<and> jobs_wf d' (jobs(m \<mapsto> j))"
proof -
  note ok = jobs_wfD(2) [OF wf m]
  have d': "d' = snd (execute_finish env fresh now r d)"
    and j: "j = JobDone \<or> (\<exists>ex. j = JobFailed (run_operation_id r) ex)"
    using e by (auto simp: execute_end_def split: prod.splits finish.splits if_splits)
  have en: "ended r d d'" using execute_finish_ended [OF inv ok] d' by simp
  have "jobs_wf d' (jobs(m \<mapsto> j))"
    by (rule jobs_wf_end [OF wf inv m])
      (use en ops_from_finish [OF inv ok, of env fresh now] d' j in \<open>auto simp: ended_def\<close>)
  with en show ?thesis by (simp add: ended_def)
qed

lemma execute_cleanup_inv:
  assumes inv: "db_inv d" and wf: "jobs_wf d jobs" and m: "jobs m = Some (JobFailed i e)"
  shows "db_inv (execute_cleanup now i e d) \<and> jobs_wf (execute_cleanup now i e d) (jobs(m \<mapsto> JobDone))"
proof -
  have "op \<in> set (operations d) \<Longrightarrow> o_id op = i \<Longrightarrow> o_owner_id op = m" for op
    using jobs_wfD(1) [OF wf m] by simp
  moreover have "x \<in> set (running_ops d) \<Longrightarrow> o_owner_id x \<noteq> m" for x using no_running [OF wf m] by simp
  ultimately have c: "db_inv (execute_cleanup now i e d)" "running_ops (execute_cleanup now i e d) = running_ops d"
    using cleanup_inv [OF inv, of i m now e] by blast+
  have "ops_from d (\<lambda>_. False) (cleanup_changes now i e d)"
    by (rule ops_from_map [where h = "\<lambda>op. if o_id op = i \<and> o_status op = QUEUED then fail_queued now e op else op"])
      (auto simp: cleanup_changes_def reset_task_def Let_def update_where_def fail_queued_def split: option.splits)
  then have "ops_from d (\<lambda>_. False) (execute_cleanup now i e d)"
    by (cases "flush (cleanup_changes now i e d)") (auto simp: execute_cleanup_def ops_from_subset flush_def split: if_splits)
  with c show ?thesis using jobs_wf_same [OF wf m, of _ JobDone] by simp
qed

lemma cancel_waiting_inv:
  assumes inv: "db_inv d" and wf: "jobs_wf d jobs" and m: "jobs m = Some j" and c: "cancel_waiting now j d = (j', d')"
  shows "db_inv d' \<and> jobs_wf d' (jobs(m \<mapsto> j'))"
proof (cases "\<exists>r. j = JobRunning r")
  case True
  then obtain r where r: "j = JobRunning r" by blast
  note ok = jobs_wfD(2) [OF wf m [unfolded r]]
  have d': "d' = snd (finish_cancelled now r d)" "j' = JobDone" using c r by (simp_all add: cancel_waiting_def)
  have en: "ended r d d'" using finish_cancelled_ended [OF inv ok] d' by simp
  obtain op t where op: "op \<in> set (running_ops d)" "find_operation d (run_operation_id r) = Some op"
    "o_id op = run_operation_id r" "o_task_id op = t_id (run_task r)" "find_task d (t_id (run_task r)) = Some t"
    using run_ok_op [OF inv ok] by metis
  from finish_failures(4) [OF inv op] obtain e st where "d' = failed_db now op e st d"
    unfolding finish_fails_def d' by (metis snd_conv)
  then have "ops_from d (\<lambda>_. False) d'" by (simp add: ops_from_failed_db)
  with en d' show ?thesis using jobs_wf_end [OF wf inv m [unfolded r], of d' JobDone] by (simp add: ended_def)
next
  case False
  with c have "d' = d" "j' = JobDone" by (auto simp: cancel_waiting_def split: job.splits)
  with False inv m show ?thesis using jobs_wf_same [OF wf m, of d JobDone] by (auto simp: ops_from_subset)
qed


lemma run_method_cases:
  assumes "run_method env lock now op payload d = (j, d')"
    and "\<And>x. x \<in> set (running_ops d) \<Longrightarrow> o_owner_id x \<noteq> o_owner_id op"
    and "submission_kind payload = o_kind op"
  shows "(\<exists>r. j = JobRunning r \<and> prepared_kind (run_prepared r) = o_kind op \<and>
      claimed_from now (o_id op) (o_owner_id op) (o_task_id op) (o_kind op) r d d') \<or>
    d' = d \<and> (j = JobDone \<or> (\<exists>e. j = JobFailed (o_id op) e))"
proof (cases "find_task d (o_task_id op)")
  case None
  with assms(1) have "j = JobFailed (o_id op) AttributeError \<and> d' = d"
    by (simp add: run_method_def recover_nothing [OF assms(2)])
  then show ?thesis by blast
next
  case (Some task)
  note t = find_task_Some [OF Some]
  show ?thesis
  proof (cases "prepare task payload d")
    case (Inl e)
    with assms(1) Some have "j = JobFailed (o_id op) e \<and> d' = d"
      by (simp add: run_method_def recover_nothing [OF assms(2)])
    then show ?thesis by blast
  next
    case (Inr p)
    obtain prep hash where p: "p = (prep, hash)" by (cases p)
    obtain c d2 where c: "execute_claim env lock (Some (o_id op)) now 0 (o_owner_id op) (t_id task)
        (o_kind op) None hash prep d = (c, d2)" by (metis prod.exhaust)
    with assms(1) Some Inr p have j: "j = job_after_claim (o_id op) c" "d' = d2"
      by (simp_all add: run_method_def recover_nothing [OF assms(2)])
    from execute_claim_queued [OF c] j t prepare_kind [OF Inr [unfolded p]] assms(3) show ?thesis
      by (auto simp: job_after_claim_def split: claim.splits)
  qed
qed

lemma claimed_jobs_wf:
  assumes wf: "jobs_wf d jobs" and m: "jobs m = Some (JobNew i)"
    and op: "op \<in> set (operations d)" "o_id op = i" "o_owner_id op = m" "o_task_id op = t_id (run_task r)"
      "o_initial_task_state op = run_initial_state r" "o_kind op = prepared_kind (run_prepared r)"
    and r: "run_operation_id r = i"
    and run: "set (running_ops d') = insert (claim_row now op) (set (running_ops d))"
    and from_d: "ops_from d (\<lambda>_. False) d'"
  shows "jobs_wf d' (jobs(m \<mapsto> JobRunning r))"
  unfolding jobs_wf_def
proof (intro conjI allI impI ballI)
  fix m' j' k x
  assume a: "(jobs(m \<mapsto> JobRunning r)) m' = Some j'" "job_operation j' = Some k" "x \<in> set (operations d')" "o_id x = k"
  from from_d a(3) obtain op0 where op0: "op0 \<in> set (operations d)" "o_id op0 = o_id x" "o_owner_id op0 = o_owner_id x"
    unfolding ops_from_def by blast
  have "\<exists>j0. jobs m' = Some j0 \<and> job_operation j0 = Some k" using a m r by (cases "m' = m") auto
  with jobs_wfD(1) [OF wf] op0 a(4) show "o_owner_id x = m'" by metis
next
  fix m' r' assume a: "(jobs(m \<mapsto> JobRunning r)) m' = Some (JobRunning r')"
  show "run_ok d' m' r'"
  proof (cases "m' = m")
    case True
    with a op r run show ?thesis unfolding run_ok_def by (auto simp: claim_row_def)
  next
    case False
    with a jobs_wfD(2) [OF wf] have "run_ok d m' r'" by simp
    then show ?thesis unfolding run_ok_def run by auto
  qed
next
  fix x j' assume a: "x \<in> set (running_ops d')" "(jobs(m \<mapsto> JobRunning r)) (o_owner_id x) = Some j'"
  show "\<exists>r. j' = JobRunning r \<and> run_operation_id r = o_id x"
  proof (cases "x = claim_row now op")
    case True
    with a(2) op r show ?thesis by (auto simp: claim_row_def)
  next
    case False
    with a(1) have x: "x \<in> set (running_ops d)" by (simp add: run)
    with no_running [OF wf m] have "o_owner_id x \<noteq> m" by simp
    with a(2) jobs_wfD(3) [OF wf x] show ?thesis by simp
  qed
qed

lemma execute_begin_inv:
  assumes inv: "db_inv d" and wf: "jobs_wf d jobs" and m: "jobs m = Some (JobNew i)"
    and b: "execute_begin env lock now i d = (j, d')"
  shows "db_inv d' \<and> jobs_wf d' (jobs(m \<mapsto> j))"
proof -
  have free: "\<And>x. x \<in> set (running_ops d) \<Longrightarrow> o_owner_id x \<noteq> m" using no_running [OF wf m] by simp
  have same: "db_inv d \<and> jobs_wf d (jobs(m \<mapsto> j))" if "j = JobDone \<or> (\<exists>e. j = JobFailed i e)"
    using that inv jobs_wf_same [OF wf m, of d j] by (auto simp: ops_from_subset)
  show ?thesis
  proof (cases "\<exists>r. j = JobRunning r")
    case False
    have "d' = d \<and> (j = JobDone \<or> (\<exists>e. j = JobFailed i e))"
    proof (cases "find_operation d i")
      case None
      with b show ?thesis by (simp add: execute_begin_def)
    next
      case (Some op)
      note op = find_operation_Some [OF Some]
      have own: "o_owner_id op = m" using jobs_wfD(1) [OF wf m] op by simp
      have "run_method env lock now op p d = (j, d') \<Longrightarrow> submission_kind p = o_kind op \<Longrightarrow> ?thesis" for p
        using run_method_cases [of env lock now op p d j d'] free own op False by auto
      with b Some show ?thesis
        by (auto simp: execute_begin_def split: if_splits option.splits dest: validate_submission_kind)
    qed
    with same show ?thesis by blast
  next
    case True
    then obtain r where r: "j = JobRunning r" by blast
    with b obtain op p where op: "find_operation d i = Some op" and rm: "run_method env lock now op p d = (j, d')"
        and k: "submission_kind p = o_kind op"
      by (auto simp: execute_begin_def split: option.splits if_splits dest: validate_submission_kind)
    note op' = find_operation_Some [OF op]
    have own: "o_owner_id op = m" using jobs_wfD(1) [OF wf m] op' by simp
    have cl: "claimed_from now i m (o_task_id op) (o_kind op) r d d'" "prepared_kind (run_prepared r) = o_kind op"
      using run_method_cases [OF rm _ k] free own op' r by auto
    have d': "db_inv d'" "set (running_ops d') = insert (claim_row now op) (set (running_ops d))"
      "run_operation_id r = i" "t_id (run_task r) = o_task_id op"
      using claim_inv [OF inv cl(1), of op] op' free by auto
    have init: "o_initial_task_state op = run_initial_state r"
    proof -
      obtain x where "x \<in> set (operations d)" "o_id x = i" "run_initial_state r = o_initial_task_state x"
        using cl(1) unfolding claimed_from_def by blast
      with operation_eq [OF db_invD(1) [OF inv], of x op] op' show ?thesis by simp
    qed
    have "ops_from d (\<lambda>_. False) d'"
      using cl(1) unfolding claimed_from_def
      by (auto intro!: ops_from_map [where h = "\<lambda>x. if o_id x = i \<and> o_status x = QUEUED then claim_row now x else x"]
          simp: claim_update_def update_where_def claim_row_def)
    with claimed_jobs_wf [OF wf m _ _ own _ init] op' d' r cl(2) show ?thesis by simp
  qed
qed

section \<open>tick\<close>

lemma recover_owners_inv:
  assumes "db_inv d" and "jobs_wf d jobs"
  shows "db_inv (snd (recover_owners now jobs owners d)) \<and> jobs_wf (snd (recover_owners now jobs owners d)) jobs"
  using assms
proof (induction now jobs owners d rule: recover_owners.induct)
  case (2 now jobs owner owners d)
  show ?case
  proof (cases "jobs owner")
    case None
    obtain n d' where d': "recover_stale_operations owner now d = Inr (n, d')" "db_inv d'"
      "running_ops d' = filter (\<lambda>r. \<not> (o_owner_id r = owner \<and> is_stale now r)) (running_ops d)"
      using recover_stale_inv [OF 2(3), of owner now] by blast
    have "jobs_wf d' jobs"
      unfolding jobs_wf_def
    proof (intro conjI allI impI ballI)
      fix m j i op assume a: "jobs m = Some j" "job_operation j = Some i" "op \<in> set (operations d')" "o_id op = i"
      from ops_from_recover [OF d'(1), of "\<lambda>_. False"] a(3) obtain op0 where
        "op0 \<in> set (operations d)" "o_id op0 = o_id op" "o_owner_id op0 = o_owner_id op"
        unfolding ops_from_def by blast
      with jobs_wfD(1) [OF 2(4) a(1,2)] a(4) show "o_owner_id op = m" by metis
    next
      fix m r assume a: "jobs m = Some (JobRunning r)"
      with None have "m \<noteq> owner" by auto
      with jobs_wfD(2) [OF 2(4) a] show "run_ok d' m r" unfolding run_ok_def d'(3) by auto
    next
      fix op j assume "op \<in> set (running_ops d')" "jobs (o_owner_id op) = Some j"
      then show "\<exists>r. j = JobRunning r \<and> run_operation_id r = o_id op"
        using jobs_wfD(3) [OF 2(4)] by (auto simp: d'(3))
    qed
    with 2(2) None d' show ?thesis by simp
  qed (use 2 in simp)
qed simp

lemma start_jobs_cases:
  "start_jobs running rows jobs m = jobs m \<or>
     jobs m = None \<and> m \<notin> set running \<and>
     (\<exists>row \<in> set rows. o_owner_id row = m \<and> start_jobs running rows jobs m = Some (JobNew (o_id row)))"
proof (induction running rows jobs rule: start_jobs.induct)
  case (2 running row rows jobs)
  show ?case
  proof (cases "jobs (o_owner_id row) \<noteq> None \<or> o_owner_id row \<in> set running")
    case False
    let ?j = "jobs(o_owner_id row \<mapsto> JobNew (o_id row))"
    have s: "start_jobs running (row # rows) jobs = start_jobs running rows ?j" using False by simp
    show ?thesis
    proof (cases "m = o_owner_id row")
      case True
      then have "?j m = Some (JobNew (o_id row))" by simp
      with 2(2) [OF False] True False show ?thesis unfolding s by (auto simp del: fun_upd_apply)
    next
      case other: False
      have "?j m = jobs m" using other by simp
      with 2(2) [OF False] show ?thesis unfolding s by (auto simp del: fun_upd_apply)
    qed
  qed (use 2(1) in auto)
qed simp

lemma tick_inv:
  assumes inv: "db_inv d" and wf: "jobs_wf d jobs" and t: "tick now (d, jobs) = (d', jobs')"
  shows "db_inv d' \<and> jobs_wf d' jobs'"
proof -
  let ?owners = "remdups (map o_owner_id (filter (\<lambda>op. o_status op = RUNNING) (operations d)))"
  have "jobs_wf d (drop_done jobs)" using wf unfolding jobs_wf_def drop_done_def by simp
  note R = recover_owners_inv [OF inv this, of now ?owners]
  obtain e d1 where r: "recover_owners now (drop_done jobs) ?owners d = (e, d1)" by (metis prod.exhaust)
  with R have inv1: "db_inv d1" and wf1: "jobs_wf d1 (drop_done jobs)" by simp_all
  show ?thesis
  proof (cases e)
    case (Some ex)
    with t r inv1 wf1 show ?thesis by (simp add: tick_def)
  next
    case None
    let ?rows = "order_by2 o_created_at o_id (filter active (operations d1))"
    let ?running = "map o_owner_id (filter (\<lambda>row. o_status row = RUNNING) ?rows)"
    from t r None have d': "d' = d1" and jobs': "jobs' = start_jobs ?running ?rows (drop_done jobs)"
      by (auto simp: tick_def Let_def)
    note new = start_jobs_cases [of ?running ?rows "drop_done jobs", folded jobs']
    have "jobs_wf d1 jobs'"
      unfolding jobs_wf_def
    proof (intro conjI allI impI ballI)
      fix m j i op assume a: "jobs' m = Some j" "job_operation j = Some i" "op \<in> set (operations d1)" "o_id op = i"
      show "o_owner_id op = m"
        using new [of m]
      proof (elim disjE conjE bexE)
        assume "jobs' m = drop_done jobs m"
        with jobs_wfD(1) [OF wf1] a show ?thesis by simp
      next
        fix row assume "row \<in> set ?rows" "o_owner_id row = m" "jobs' m = Some (JobNew (o_id row))"
        then have "o_id op = o_id row" "row \<in> set (operations d1)" "o_owner_id row = m" using a by auto
        with operation_eq [OF db_invD(1) [OF inv1] a(3)] show ?thesis by metis
      qed
    next
      fix m r assume "jobs' m = Some (JobRunning r)"
      with new [of m] have "drop_done jobs m = Some (JobRunning r)" by auto
      with jobs_wfD(2) [OF wf1] show "run_ok d1 m r" .
    next
      fix op j assume a: "op \<in> set (running_ops d1)" "jobs' (o_owner_id op) = Some j"
      then have "o_owner_id op \<in> set ?running" by (auto simp: in_running_ops)
      with new [of "o_owner_id op"] a(2) have "drop_done jobs (o_owner_id op) = Some j" by auto
      with jobs_wfD(3) [OF wf1 a(1)] show "\<exists>r. j = JobRunning r \<and> run_operation_id r = o_id op" .
    qed
    with inv1 d' show ?thesis by simp
  qed
qed

section \<open>Every reachable state\<close>

lemma sys_inv_init: "init s \<Longrightarrow> sys_inv s"
  by (simp add: init_def sys_inv_def db_inv_def jobs_wf_def not_stuck_def archived_wf_def owners_wf_def
      running_wf_def single_running_def running_ops_def)

lemma sys_inv_step:
  assumes "step env s s'" and "sys_inv s"
  shows "sys_inv s'"
  using assms(1)
proof cases
  case (step_http now jobs d d' clock)
  with assms(2) http_inv [OF step_http(3)] jobs_wf_frame [of d jobs d'] show ?thesis by (simp add: sys_inv_def)
next
  case (step_identity ps ms d jobs clock)
  with assms(2) db_inv_frame [of d] same_ops [of "d\<lparr>members := ms, provider_settings := ps\<rparr>" d]
    jobs_wf_frame [of d jobs] show ?thesis by (simp add: sys_inv_def)
next
  case (step_tick now d jobs d' jobs' clock)
  with assms(2) tick_inv [OF _ _ step_tick(3)] show ?thesis by (simp add: sys_inv_def)
next
  case (step_begin jobs m i lock now d j d' clock)
  with assms(2) execute_begin_inv [of d jobs m i env lock now j d'] show ?thesis by (simp add: sys_inv_def)
next
  case (step_end jobs m r fresh now d j d' clock)
  with assms(2) execute_end_inv [of d jobs m r env fresh now j d'] show ?thesis by (simp add: sys_inv_def)
next
  case (step_cleanup jobs m i e now d d' clock)
  with assms(2) execute_cleanup_inv [of d jobs m i e now] show ?thesis
    by (simp add: sys_inv_def)
next
  case (step_cancel_job jobs m j now d j' d' clock)
  with assms(2) cancel_waiting_inv [of d jobs m j now j' d'] show ?thesis by (simp add: sys_inv_def)
next
  case (step_lose_job jobs m j clock now d)
  with assms(2) jobs_wf_drop [of d jobs m] show ?thesis by (simp add: sys_inv_def)
next
  case (step_crash d jobs clock)
  with assms(2) show ?thesis by (simp add: sys_inv_def jobs_wf_def)
qed

interpretation backend: transition_system init "step env" sys_inv for env
  by unfold_locales (auto intro: sys_inv_init sys_inv_step)


section \<open>What a tick leaves behind\<close>

lemma recover_owners_clears:
  assumes "db_inv d"
  shows "fst (recover_owners now jobs owners d) = None \<and>
    (\<forall>op \<in> set (running_ops (snd (recover_owners now jobs owners d))). op \<in> set (running_ops d) \<and>
       (o_owner_id op \<in> set owners \<and> jobs (o_owner_id op) = None \<longrightarrow> \<not> is_stale now op))"
  using assms
proof (induction now jobs owners d rule: recover_owners.induct)
  case (2 now jobs owner owners d)
  show ?case
  proof (cases "jobs owner")
    case None
    obtain n d' where d': "recover_stale_operations owner now d = Inr (n, d')" "db_inv d'"
      "running_ops d' = filter (\<lambda>r. \<not> (o_owner_id r = owner \<and> is_stale now r)) (running_ops d)"
      using recover_stale_inv [OF 2(3), of owner now] by blast
    with 2(2) None show ?thesis by fastforce
  qed (use 2(1,3) in auto)
qed simp

lemma start_jobs_first:
  assumes "jobs m = None" and "m \<notin> set running"
  shows "start_jobs running rows jobs m =
    map_option (\<lambda>row. JobNew (o_id row)) (find (\<lambda>row. o_owner_id row = m) rows)"
  using assms
proof (induction running rows jobs rule: start_jobs.induct)
  case (2 running row rows jobs)
  show ?case
  proof (cases "o_owner_id row = m")
    case True
    let ?j = "jobs(m \<mapsto> JobNew (o_id row))"
    have "start_jobs running rows ?j m = ?j m" using start_jobs_cases [of running rows ?j m] by auto
    with True 2(3,4) show ?thesis by simp
  next
    case False
    then have "(jobs(o_owner_id row \<mapsto> JobNew (o_id row))) m = None" using 2(3) by simp
    with 2 False show ?thesis by (simp del: fun_upd_apply)
  qed
qed simp

lemma find_sorted_least:
  assumes "sorted (map k xs)" and "find P xs = Some x" and "y \<in> set xs" and "P y"
  shows "k x \<le> k y"
  using assms by (induction xs) (auto split: if_splits)

lemma tick_db:
  assumes inv: "db_inv d" and t: "tick now (d, jobs) = (d', jobs')"
  shows "d' = snd (recover_owners now (drop_done jobs)
      (remdups (map o_owner_id (filter (\<lambda>op. o_status op = RUNNING) (operations d)))) d) \<and>
    jobs' = start_jobs (map o_owner_id (filter (\<lambda>row. o_status row = RUNNING)
        (order_by2 o_created_at o_id (filter active (operations d')))))
      (order_by2 o_created_at o_id (filter active (operations d'))) (drop_done jobs)"
  using t recover_owners_clears [OF inv, of now "drop_done jobs"
    "remdups (map o_owner_id (filter (\<lambda>op. o_status op = RUNNING) (operations d)))"]
  by (auto simp: tick_def Let_def split: prod.splits option.splits)

end
