(* ===== verification/Demo_System.thy ===== *)
theory Demo_System
  imports Ai_System
begin

text \<open>
  A small concrete run used by the witnesses: one member with a provider setting, a task, its analysis
  submitted, the operation claimed by the worker. The request hash stays symbolic; only its length
  matters.
\<close>

definition demo_member :: member where
  "demo_member = \<lparr>m_id = 1, m_username = tx ''ada'', m_display_name = tx ''Ada'', m_password_hash = tx ''x'',
     m_role = MEMBER, m_is_active = True, m_created_at = 0, m_updated_at = 0\<rparr>"

definition demo_setting :: provider_setting where
  "demo_setting = \<lparr>ps_id = 2, ps_member_id = 1, ps_encrypted_api_key = [1], ps_base_url = tx ''https://ai.test'',
     ps_model_id = tx ''model'', ps_timeout_seconds = 240, ps_created_at = 0, ps_updated_at = 0\<rparr>"

definition demo_settings :: creative_settings where
  "demo_settings = \<lparr>ct_target_length_mode = FOLLOW_SOURCE, ct_target_characters = 600,
     ct_persona = \<lparr>pe_account_positioning = [], pe_speaker_identity = [], pe_professional_background = [],
       pe_audience_relationship = [], pe_stance = [], pe_custom_instruction = []\<rparr>,
     ct_audience = \<lparr>au_target_audience = [], au_pain_points = [], au_awareness_level = [],
       au_desired_action = [], au_custom_instruction = []\<rparr>,
     ct_language_style = \<lparr>ls_preset = [], ls_colloquial_level = 3, ls_emotion_level = 3, ls_rhythm = [],
       ls_sentence_length = [], ls_tone = [], ls_allow_internet_slang = False, ls_custom_instruction = []\<rparr>,
     ct_content_structure = \<lparr>cst_opening = [], cst_narrative = [], cst_conflict_level = 3,
       cst_require_example = False, cst_call_to_action = [], cst_custom_instruction = []\<rparr>,
     ct_output_specification = \<lparr>os_preserve_paragraphs = True, os_preserve_pauses = True, os_custom_instruction = []\<rparr>,
     ct_hard_constraints = \<lparr>hc_required_information = [], hc_forbidden_expressions = [], hc_immutable_facts = [],
       hc_platform_safety_instruction = [], hc_custom_instruction = []\<rparr>\<rparr>"

definition demo_empty :: db where
  "demo_empty = \<lparr>members = [demo_member], provider_settings = [demo_setting], tasks = [], presets = [],
     analyses = [], suggestions = [], versions = [], locks = [], operations = []\<rparr>"

definition demo_task :: rewrite_task where
  "demo_task = new_task 10 5 1 (tx ''clip'') (tx ''hello'') demo_settings"

definition demo_created :: db where
  "demo_created = demo_empty\<lparr>tasks := [demo_task]\<rparr>"

definition demo_operation :: ai_operation where
  "demo_operation = queued_operation 20 6 1 demo_task AnalysisSubmit None
     (request_hash ANALYSIS 10 (JObj [])) None"

definition demo_queued :: db where
  "demo_queued = demo_created\<lparr>tasks := [demo_task\<lparr>t_state := ANALYZING, t_updated_at := 6\<rparr>],
     operations := [demo_operation]\<rparr>"

definition demo_running :: db where
  "demo_running = demo_queued\<lparr>operations := [claim_row 8 demo_operation]\<rparr>"

definition demo_env :: op_env where
  "demo_env = \<lparr>oe_ai = \<lparr>env_post = (\<lambda>_. HttpTimeout), env_int_of = (\<lambda>_. None), env_loads = (\<lambda>_. None),
     env_schema = JNull\<rparr>, oe_decrypt = (\<lambda>_. Some (tx ''key'')), oe_url_policy = Some, oe_url_ok = (\<lambda>_. True)\<rparr>"

definition demo_run :: run where
  "demo_run = \<lparr>run_operation_id = 20, run_owner_id = 1,
     run_task = demo_task\<lparr>t_state := ANALYZING, t_updated_at := 6\<rparr>,
     run_config = \<lparr>pc_api_key = tx ''key'', pc_base_url = tx ''https://ai.test'', pc_timeout_seconds = 240\<rparr>,
     run_model = tx ''model'', run_initial_state = DRAFT, run_prepared = PreparedAnalysis False\<rparr>"

lemmas demo_defs = demo_member_def demo_setting_def demo_empty_def demo_task_def demo_created_def
  demo_operation_def demo_queued_def demo_running_def new_task_def queued_operation_def submission_kind_def
  dump_submission_def

lemmas constraint_defs = db_ok_def columns_ok_def integrity_ok_def unique_keys_def checks_hold_def
  references_hold_def op_columns_ok_def fits_column_def

lemma length_request_hash [simp]: "length (request_hash k t p) = 64"
  by (simp add: request_hash_def length_sha256_hex)

lemma demo_empty_ok: "db_ok demo_empty"
  by (simp add: demo_defs constraint_defs)

lemma demo_created_ok: "db_ok demo_created"
  by (simp add: demo_defs constraint_defs)

lemma demo_queued_ok: "db_ok demo_queued"
  by (simp add: demo_defs constraint_defs)

lemma demo_running_ok: "db_ok demo_running"
  by (simp add: demo_defs constraint_defs claim_row_def)

lemma demo_create:
  "create_task 10 5 1 \<lparr>tc_name = tx ''clip'', tc_source_text = tx ''hello'', tc_creative_settings = demo_settings\<rparr>
     demo_empty = Inr (demo_task, demo_created)"
  using demo_created_ok
  by (simp add: create_task_def repo_create_def add_task_def bind_result_eq_Inr_iff demo_task_def [symmetric])
    (simp add: demo_created_def demo_empty_def)

definition demo_keyed :: "pystr option \<Rightarrow> pystr option \<Rightarrow> ai_operation" where
  "demo_keyed key rid = queued_operation 20 6 1 demo_task AnalysisSubmit key (request_hash ANALYSIS 10 (JObj [])) rid"

lemma demo_submit:
  "submit 20 6 demo_task 1 AnalysisSubmit key rid demo_created =
     Inr (demo_keyed key rid, demo_queued\<lparr>operations := [demo_keyed key rid]\<rparr>)"
  if "fits_column 200 key" "fits_column 80 rid"
proof -
  let ?op = "demo_keyed key rid"
  have "enqueue 6 demo_task ?op demo_created = demo_queued\<lparr>operations := [?op]\<rparr>"
    by (simp add: demo_keyed_def enqueue_def save_task_def orm_save_def demo_defs)
  moreover have "db_ok (demo_queued\<lparr>operations := [?op]\<rparr>)"
    using that by (simp add: demo_keyed_def demo_defs constraint_defs)
  ultimately have "flush (enqueue 6 demo_task ?op demo_created) = Inr (demo_queued\<lparr>operations := [?op]\<rparr>)" by simp
  moreover have "find_task demo_created 10 = Some demo_task" "t_owner_id demo_task = 1" "t_id demo_task = 10"
    "t_state demo_task = DRAFT" "operations demo_created = []" "provider_settings demo_created = [demo_setting]"
    "ps_member_id demo_setting = 1"
    by (simp_all add: demo_defs find_task_def)
  ultimately show ?thesis
    by (simp add: submit_def existing_operation_def apply_suggestion_snapshot_def submission_kind_def
        dump_submission_def assert_transition_def payload_scope_def Let_def demo_keyed_def del: flush_Inr_iff)
qed

lemma demo_tick: "tick 7 (demo_queued, Map.empty) = (demo_queued, [1 \<mapsto> JobNew 20])"
  by (simp add: tick_def drop_done_def order_by2_def Let_def demo_defs)

lemma demo_context:
  "provider_context demo_env 1 demo_queued =
     Inr (\<lparr>pc_api_key = tx ''key'', pc_base_url = tx ''https://ai.test'', pc_timeout_seconds = 240\<rparr>, tx ''model'')"
  by (simp add: provider_context_def demo_env_def demo_defs mk_provider_config_def
      MAX_RESPONSE_TIMEOUT_SECONDS_def rstrip_char_def tx_def)

lemma demo_claim:
  "claim_queued demo_env 8 20 1 10 ANALYSIS None hash (PreparedAnalysis False) demo_queued =
     (Claimed demo_run, demo_running)"
proof -
  let ?t = "demo_task\<lparr>t_state := ANALYZING, t_updated_at := 6\<rparr>"
  have "get_owned_operation 20 1 demo_queued = Inr demo_operation" "o_status demo_operation = QUEUED"
    "o_id demo_operation = 20" "find_task demo_queued 10 = Some ?t"
    "o_running_task_state demo_operation = ANALYZING" "o_initial_task_state demo_operation = DRAFT"
    by (simp_all add: get_owned_operation_def find_task_def demo_defs)
  moreover have "save_task 8 10 (\<lambda>t. t\<lparr>t_state := ANALYZING\<rparr>) (claim_update 8 20 demo_queued) = demo_running"
    by (simp add: save_task_def claim_update_def orm_save_def demo_defs)
  moreover have "flush demo_running = Inr demo_running" using demo_running_ok by simp
  ultimately show ?thesis
    by (simp add: claim_queued_def claim_commit_def demo_context demo_run_def del: flush_Inr_iff)
qed

lemma demo_begin: "execute_begin demo_env LockGranted 8 20 demo_queued = (JobRunning demo_run, demo_running)"
proof -
  let ?t = "demo_task\<lparr>t_state := ANALYZING, t_updated_at := 6\<rparr>"
  have "find_operation demo_queued 20 = Some demo_operation" "members demo_queued = [demo_member]"
    "o_status demo_operation = QUEUED" "o_owner_id demo_operation = 1" "o_task_id demo_operation = 10"
    "o_id demo_operation = 20" "o_kind demo_operation = ANALYSIS" "o_request_payload demo_operation = JObj []"
    "find_task demo_queued 10 = Some ?t" "t_id demo_task = 10" "running_ops demo_queued = []"
    "m_id demo_member = 1" "m_is_active demo_member" "has_first_draft 10 demo_queued = False"
    by (simp_all add: find_operation_def find_task_def running_ops_def has_first_draft_def demo_defs)
  moreover have "validate_submission ANALYSIS (JObj []) = Some AnalysisSubmit"
    by (simp add: validate_submission_def dec_members_def)
  moreover have "recover_stale_operations 1 8 demo_queued = Inr (0, demo_queued)"
    by (rule recover_nothing) (simp add: calculation)
  ultimately show ?thesis
    by (simp add: execute_begin_def run_method_def prepare_def prepare_analyze_def execute_claim_def
        idempotent_operation_def demo_claim job_after_claim_def)
qed

definition demo_init :: system where
  "demo_init = \<lparr>sys_db = demo_empty, sys_jobs = Map.empty, sys_clock = 0\<rparr>"

definition demo_sys :: system where
  "demo_sys = \<lparr>sys_db = demo_running, sys_jobs = [1 \<mapsto> JobRunning demo_run], sys_clock = 8\<rparr>"

lemma demo_init_ok: "init demo_init"
  using demo_empty_ok by (simp add: init_def demo_init_def demo_empty_def)

lemma demo_http_create: "http 5 (unused Map.empty) demo_empty demo_created"
  by (rule http_create_task [OF demo_create]) (simp add: demo_settings_def valid_creative_settings_def level_ok_def)

lemma demo_http_submit: "http 6 (unused Map.empty) demo_created demo_queued"
proof (rule http_submit)
  have "owned_task 10 1 demo_created = Inr demo_task"
    by (simp add: owned_task_def repo_get_owned_def demo_defs)
  then show "submit_operation 20 6 1 10 AnalysisSubmit None None demo_created = Inr (demo_operation, demo_queued)"
    using demo_submit [of None None]
    by (simp add: submit_operation_eq fits_column_def) (simp add: demo_queued_def demo_operation_def demo_keyed_def)
qed (simp_all add: valid_submission_def unused_def)

definition demo_waiting :: system where
  "demo_waiting = \<lparr>sys_db = demo_queued, sys_jobs = Map.empty, sys_clock = 6\<rparr>"

lemma demo_reachable_waiting: "(step demo_env)\<^sup>*\<^sup>* demo_init demo_waiting"
proof -
  let ?s1 = "\<lparr>sys_db = demo_created, sys_jobs = Map.empty, sys_clock = 5\<rparr>"
  have "step demo_env demo_init ?s1" unfolding demo_init_def by (rule step_http [OF demo_http_create]) simp
  moreover have "step demo_env ?s1 demo_waiting"
    unfolding demo_waiting_def by (rule step_http [OF demo_http_submit]) simp
  ultimately show ?thesis by (meson converse_rtranclp_into_rtranclp rtranclp.rtrancl_refl)
qed

lemma demo_reachable: "(step demo_env)\<^sup>*\<^sup>* demo_init demo_sys"
proof -
  let ?s3 = "\<lparr>sys_db = demo_queued, sys_jobs = [1 \<mapsto> JobNew 20], sys_clock = 7\<rparr>"
  have "step demo_env demo_waiting ?s3" unfolding demo_waiting_def by (rule step_tick [OF demo_tick]) simp
  moreover have "step demo_env ?s3 demo_sys"
    using step_begin [of "[1 \<mapsto> JobNew 20]" 1 20 demo_env LockGranted 8 demo_queued "JobRunning demo_run"
        demo_running 7] demo_begin by (simp add: demo_sys_def)
  ultimately show ?thesis using demo_reachable_waiting by (meson rtranclp.rtrancl_into_rtrancl)
qed

end
