(* ===== verification/Ai_Codec.thy ===== *)
theory Ai_Codec
  imports Ai_Submissions
begin

text \<open>
  The storage contract of AI submissions. A queued operation keeps \<open>model_dump(mode="json")\<close> of the
  submitted body (src/backend/app/modules/tasks/ai_queue.py, \<open>submit\<close>), and the worker and the
  retry endpoint rebuild the body with \<open>model_validate\<close>. The locale states that contract; the
  interpretations discharge it for the four bodies.
\<close>

locale json_codec =
  fixes dump :: "'a \<Rightarrow> json"
    and validate :: "json \<Rightarrow> 'a option"
    and valid :: "'a \<Rightarrow> bool"
  assumes roundtrip: "valid p \<Longrightarrow> validate (dump p) = Some p"
begin

lemma dump_inj: "valid p \<Longrightarrow> valid q \<Longrightarrow> dump p = dump q \<Longrightarrow> p = q"
  by (metis option.inject roundtrip)

lemma validate_list: "list_all valid ps \<Longrightarrow> dec_list validate (JArr (map dump ps)) = Some ps"
  by (intro dec_list_enc) (simp add: list_all_iff roundtrip)

lemma validate_nullable_list:
  "(case x of None \<Rightarrow> True | Some ps \<Rightarrow> list_all valid ps) \<Longrightarrow>
   dec_nullable (dec_list validate) (enc_opt (\<lambda>ps. JArr (map dump ps)) x) = Some x"
  using validate_list by (auto simp: dec_nullable_def enc_opt_def split: option.splits)

end

lemma dec_uuid_str [simp]: "dec_uuid (JStr (uuid_str u)) = Some u"
  by (simp add: dec_uuid_def)

lemma dec_nullable_uuid [simp]:
  "dec_nullable dec_uuid (enc_opt (\<lambda>u. JStr (uuid_str u)) x) = Some x"
  by (cases x) (simp_all add: dec_nullable_def enc_opt_def)

lemma dec_nullable_str [simp]: "dec_nullable dec_str (enc_opt JStr x) = Some x"
  by (cases x) (simp_all add: dec_nullable_def enc_opt_def dec_str_def)

lemma dec_nullable_int [simp]: "dec_nullable dec_int (enc_opt JInt x) = Some x"
  by (cases x) (simp_all add: dec_nullable_def enc_opt_def dec_int_def)

lemma dec_scope_value [simp]: "dec_scope (JStr (tx (scope_value x))) = Some x"
  by (cases x) (simp_all add: dec_scope_def)

lemmas member_defs = dec_members_def req_field_def opt_field_def jget_def

interpretation decision_codec: json_codec dump_decision validate_decision valid_decision
proof unfold_locales
  fix d :: decision_submit
  have eta: "\<lparr>sd_suggestion_id = sd_suggestion_id d, sd_selected = sd_selected d,
      sd_member_note = sd_member_note d\<rparr> = d" by simp
  assume "valid_decision d"
  then show "validate_decision (dump_decision d) = Some d"
    by (simp add: eta validate_decision_def dump_decision_def member_defs dec_bool_def
        valid_decision_def)
qed

lemma validate_dump_suggestions_submit:
  assumes "list_all valid_decision (sgs_suggestion_decisions s)" and "mk_suggestions_submit s = Inr s"
  shows "validate_suggestions_submit (dump_suggestions_submit s) = Some s"
proof -
  have eta: "\<lparr>sgs_analysis_id = sgs_analysis_id s,
      sgs_suggestion_decisions = sgs_suggestion_decisions s,
      sgs_member_context = sgs_member_context s\<rparr> = s" by simp
  from assms show ?thesis
    by (simp add: eta validate_suggestions_submit_def dump_suggestions_submit_def member_defs
        dec_str_def decision_codec.validate_list)
qed

lemma validate_dump_first_draft_submit:
  assumes "list_all valid_decision (fds_suggestion_decisions f)" and "mk_first_draft_submit f = Inr f"
  shows "validate_first_draft_submit (dump_first_draft_submit f) = Some f"
proof -
  have eta: "\<lparr>fds_analysis_id = fds_analysis_id f,
      fds_suggestion_decisions = fds_suggestion_decisions f,
      fds_member_requirements = fds_member_requirements f\<rparr> = f" by simp
  from assms show ?thesis
    by (simp add: eta validate_first_draft_submit_def dump_first_draft_submit_def member_defs
        dec_str_def decision_codec.validate_list)
qed

lemma validate_dump_revision_submit:
  assumes "case rvs_suggestion_decisions r of None \<Rightarrow> True | Some ds \<Rightarrow> list_all valid_decision ds"
    and "mk_revision_submit r = Inr r"
  shows "validate_revision_submit (dump_revision_submit r) = Some r"
proof -
  have eta: "\<lparr>rvs_parent_version_id = rvs_parent_version_id r, rvs_scope = rvs_scope r,
      rvs_analysis_id = rvs_analysis_id r,
      rvs_suggestion_decisions = rvs_suggestion_decisions r,
      rvs_instruction = rvs_instruction r, rvs_selection_start = rvs_selection_start r,
      rvs_selection_end = rvs_selection_end r\<rparr> = r" by simp
  note ds = decision_codec.validate_nullable_list [OF assms(1)]
  from assms(2) show ?thesis
    by (simp add: eta ds validate_revision_submit_def dump_revision_submit_def member_defs
        dec_str_def)
qed

interpretation submission_codec: json_codec dump_submission
  "validate_submission (submission_kind p)" "\<lambda>q. valid_submission q \<and> submission_kind q = submission_kind p"
  for p
proof unfold_locales
  fix q
  assume "valid_submission q \<and> submission_kind q = submission_kind p"
  then show "validate_submission (submission_kind p) (dump_submission q) = Some q"
    by (cases q) (auto simp: validate_submission_def dump_submission_def submission_kind_def
        valid_submission_def dec_members_def validate_dump_suggestions_submit
        validate_dump_first_draft_submit validate_dump_revision_submit
        split: submission.splits ai_operation_kind.splits)
qed

lemma submission_roundtrip:
  "valid_submission p \<Longrightarrow> validate_submission (submission_kind p) (dump_submission p) = Some p"
  by (rule submission_codec.roundtrip) simp

text \<open>A submission stored with a queued operation is read back unchanged when the operation
  runs or is retried.\<close>

theorem stored_submission_roundtrip:
  "valid_submission p \<Longrightarrow> validate_submission (submission_kind p) (dump_submission p) = Some p"
  by (rule submission_roundtrip)

theorem stored_submission_roundtrip_witness:
  "valid_submission (SuggestionsSubmit
     \<lparr>sgs_analysis_id = 7,
      sgs_suggestion_decisions = [\<lparr>sd_suggestion_id = 9, sd_selected = True, sd_member_note = None\<rparr>],
      sgs_member_context = tx ''ctx''\<rparr>) \<and>
   validate_submission SUGGESTIONS (dump_submission (SuggestionsSubmit
     \<lparr>sgs_analysis_id = 7,
      sgs_suggestion_decisions = [\<lparr>sd_suggestion_id = 9, sd_selected = True, sd_member_note = None\<rparr>],
      sgs_member_context = tx ''ctx''\<rparr>)) =
   Some (SuggestionsSubmit
     \<lparr>sgs_analysis_id = 7,
      sgs_suggestion_decisions = [\<lparr>sd_suggestion_id = 9, sd_selected = True, sd_member_note = None\<rparr>],
      sgs_member_context = tx ''ctx''\<rparr>)"
proof -
  let ?p = "SuggestionsSubmit
     \<lparr>sgs_analysis_id = 7,
      sgs_suggestion_decisions = [\<lparr>sd_suggestion_id = 9, sd_selected = True, sd_member_note = None\<rparr>],
      sgs_member_context = tx ''ctx''\<rparr>"
  have "valid_submission ?p"
    by (simp add: valid_submission_def valid_decision_def mk_decision_def normalize_note_def
        mk_suggestions_submit_def unique_ids_def)
  with stored_submission_roundtrip [of ?p] show ?thesis by (simp add: submission_kind_def)
qed

end
