(* ===== verification/Store_Rows.thy ===== *)
theory Store_Rows
  imports Store_Facts
begin

text \<open>
  Which rows the tables accept. For each table a predicate says that a new row meets the constraints
  the mapped classes of src/backend/app/modules/tasks/models.py declare for it, and a lemma that
  adding such a row, changing rows without touching what the constraints read, or deleting rows
  nobody refers to leaves a database that commits.
\<close>

lemmas table_constraints = db_ok_def integrity_ok_def unique_keys_def checks_hold_def references_hold_def
  columns_ok_def

lemma flush_ok [simp]: "db_ok d \<Longrightarrow> flush d = Inr d"
  by simp

section \<open>Tasks and presets\<close>

definition task_fits :: "rewrite_task \<Rightarrow> db \<Rightarrow> bool" where
  "task_fits t d \<longleftrightarrow> t_id t \<notin> t_id ` set (tasks d) \<and> t_owner_id t \<in> m_id ` set (members d) \<and>
     length (t_name t) \<le> 160 \<and> length (t_source_text t) \<le> 20000"

lemma db_ok_add_task: "db_ok d \<Longrightarrow> task_fits t d \<Longrightarrow> db_ok (add_task t d)"
  unfolding table_constraints task_fits_def add_task_def
  by (auto simp: list_all_iff cong: option.case_cong)

lemma db_ok_replace_task:
  assumes "db_ok d" and "t \<in> set (tasks d)" and "t_id t' = t_id t" and "t_owner_id t' = t_owner_id t"
    and "length (t_name t') \<le> 160" and "length (t_source_text t') \<le> 20000"
  shows "db_ok (d\<lparr>tasks := update_where (\<lambda>r. t_id r = t_id t) (\<lambda>_. t') (tasks d)\<rparr>)"
proof -
  let ?ts = "update_where (\<lambda>r. t_id r = t_id t) (\<lambda>_. t') (tasks d)"
  have "map t_id ?ts = map t_id (tasks d)" using assms(3) by (simp add: update_where_def)
  moreover from this have "t_id ` set ?ts = t_id ` set (tasks d)" by (metis set_map)
  moreover have "t_owner_id t \<in> m_id ` set (members d)"
    using assms(1,2) by (simp add: table_constraints list_all_iff)
  ultimately show ?thesis
    using assms(1,4-6) unfolding table_constraints
    by (simp add: list_all_iff set_update_where cong: option.case_cong) (auto simp: set_update_where)
qed

lemma db_ok_presets:
  assumes "db_ok d" and "distinct (map cp_id ps)" and "distinct (map (\<lambda>p. (cp_owner_id p, cp_name p)) ps)"
    and "\<And>p. p \<in> set ps \<Longrightarrow> cp_owner_id p \<in> m_id ` set (members d) \<and> length (cp_name p) \<le> 120"
  shows "db_ok (d\<lparr>presets := ps\<rparr>)"
  using assms unfolding table_constraints by (simp add: list_all_iff cong: option.case_cong)

section \<open>Versions\<close>

definition version_fits :: "script_version \<Rightarrow> db \<Rightarrow> bool" where
  "version_fits v d \<longleftrightarrow> v_id v \<notin> v_id ` set (versions d) \<and> v_task_id v \<in> t_id ` set (tasks d) \<and>
     (case v_parent_id v of None \<Rightarrow> True | Some p \<Rightarrow> p \<in> v_id ` set (versions d))"

lemma db_ok_add_version: "db_ok d \<Longrightarrow> version_fits v d \<Longrightarrow> db_ok (d\<lparr>versions := versions d @ [v]\<rparr>)"
  unfolding table_constraints version_fits_def
  by (auto simp: list_all_iff split: option.splits)

lemma db_ok_update_versions:
  assumes "db_ok d"
    and g: "\<And>v. v \<in> set (versions d) \<Longrightarrow>
      v_id (g v) = v_id v \<and> v_task_id (g v) = v_task_id v \<and> v_parent_id (g v) = v_parent_id v"
  shows "db_ok (d\<lparr>versions := map g (versions d)\<rparr>)"
proof -
  have "map v_id (map g (versions d)) = map v_id (versions d)" using g by simp
  moreover from this have "v_id ` set (map g (versions d)) = v_id ` set (versions d)" by (metis set_map)
  ultimately show ?thesis
    using assms unfolding table_constraints
    by (simp add: list_all_iff cong: option.case_cong del: map_map set_map) (simp add: list_all_iff)
qed

section \<open>Locked fragments\<close>

definition lock_fits :: "locked_fragment \<Rightarrow> db \<Rightarrow> bool" where
  "lock_fits l d \<longleftrightarrow> l_id l \<notin> l_id ` set (locks d) \<and>
     (l_task_id l, l_order_index l) \<notin> (\<lambda>l. (l_task_id l, l_order_index l)) ` set (locks d) \<and>
     0 \<le> l_start_offset l \<and> l_start_offset l < l_end_offset l \<and>
     l_task_id l \<in> t_id ` set (tasks d) \<and> l_source_version_id l \<in> v_id ` set (versions d)"

lemma db_ok_add_lock: "db_ok d \<Longrightarrow> lock_fits l d \<Longrightarrow> db_ok (d\<lparr>locks := locks d @ [l]\<rparr>)"
  unfolding table_constraints lock_fits_def
  by (simp add: list_all_iff cong: option.case_cong)

lemma db_ok_filter_locks: "db_ok d \<Longrightarrow> db_ok (d\<lparr>locks := filter P (locks d)\<rparr>)"
  unfolding table_constraints by (simp add: list_all_iff distinct_map_filter cong: option.case_cong)

section \<open>Analyses\<close>

definition analysis_fits :: "analysis_record \<Rightarrow> db \<Rightarrow> bool" where
  "analysis_fits a d \<longleftrightarrow> ar_id a \<notin> ar_id ` set (analyses d) \<and>
     (ar_task_id a, ar_sequence a) \<notin> (\<lambda>a. (ar_task_id a, ar_sequence a)) ` set (analyses d) \<and>
     ar_task_id a \<in> t_id ` set (tasks d) \<and>
     length (ar_prompt_template_version a) \<le> 32 \<and> length (ar_model_identifier a) \<le> 160"

lemma db_ok_add_analysis: "db_ok d \<Longrightarrow> analysis_fits a d \<Longrightarrow> db_ok (d\<lparr>analyses := analyses d @ [a]\<rparr>)"
  unfolding table_constraints analysis_fits_def
  by (auto simp: list_all_iff cong: option.case_cong)

definition same_analysis :: "analysis_record \<Rightarrow> analysis_record \<Rightarrow> bool" where
  "same_analysis a b \<longleftrightarrow> ar_id b = ar_id a \<and> ar_task_id b = ar_task_id a \<and> ar_sequence b = ar_sequence a \<and>
     ar_prompt_template_version b = ar_prompt_template_version a \<and> ar_model_identifier b = ar_model_identifier a"

lemma db_ok_update_analyses:
  assumes "db_ok d" and g: "\<And>a. a \<in> set (analyses d) \<Longrightarrow> same_analysis a (g a)"
  shows "db_ok (d\<lparr>analyses := map g (analyses d)\<rparr>)"
proof -
  have "map ar_id (map g (analyses d)) = map ar_id (analyses d)"
    "map (\<lambda>a. (ar_task_id a, ar_sequence a)) (map g (analyses d)) =
       map (\<lambda>a. (ar_task_id a, ar_sequence a)) (analyses d)"
    using g by (simp_all add: same_analysis_def)
  moreover from this(1) have "ar_id ` set (map g (analyses d)) = ar_id ` set (analyses d)" by (metis set_map)
  ultimately show ?thesis
    using assms unfolding table_constraints
    by (simp add: list_all_iff cong: option.case_cong del: map_map set_map)
      (simp add: list_all_iff same_analysis_def)
qed

section \<open>Suggestions\<close>

definition suggestion_fits :: "suggestion_record \<Rightarrow> db \<Rightarrow> bool" where
  "suggestion_fits s d \<longleftrightarrow> sr_task_id s \<in> t_id ` set (tasks d) \<and> sr_analysis_id s \<in> ar_id ` set (analyses d) \<and>
     length (sr_suggestion_key s) \<le> 80 \<and> length (sr_title s) \<le> 160"

lemma db_ok_suggestions:
  assumes "db_ok d"
  shows "db_ok (d\<lparr>suggestions := ss\<rparr>) \<longleftrightarrow>
    distinct (map sr_id ss) \<and> (\<forall>s \<in> set ss. suggestion_fits s d)"
  using assms unfolding table_constraints suggestion_fits_def
  by (auto simp: list_all_iff cong: option.case_cong)

lemma suggestion_fits_mem: "db_ok d \<Longrightarrow> s \<in> set (suggestions d) \<Longrightarrow> suggestion_fits s d"
  by (simp add: table_constraints suggestion_fits_def list_all_iff)

lemma db_ok_update_suggestions:
  assumes "db_ok d"
    and g: "\<And>s. s \<in> set (suggestions d) \<Longrightarrow> sr_id (g s) = sr_id s \<and> sr_task_id (g s) = sr_task_id s \<and>
      sr_analysis_id (g s) = sr_analysis_id s \<and> sr_suggestion_key (g s) = sr_suggestion_key s \<and>
      sr_title (g s) = sr_title s"
  shows "db_ok (d\<lparr>suggestions := map g (suggestions d)\<rparr>)"
proof -
  have "map sr_id (map g (suggestions d)) = map sr_id (suggestions d)" using g by simp
  moreover have "suggestion_fits (g s) d" if "s \<in> set (suggestions d)" for s
    using suggestion_fits_mem [OF assms(1) that] g [OF that] by (simp add: suggestion_fits_def)
  ultimately show ?thesis
    using db_ok_keys(5) [OF assms(1)] unfolding db_ok_suggestions [OF assms(1)] by (auto simp del: map_map)
qed

section \<open>Operations\<close>

definition operation_fits :: "ai_operation \<Rightarrow> db \<Rightarrow> bool" where
  "operation_fits op d \<longleftrightarrow> o_id op \<notin> o_id ` set (operations d) \<and>
     (o_idempotency_key op = None \<or> op_scope op \<notin> op_scope ` set (operations d)) \<and>
     \<not> list_ex (\<lambda>r. o_task_id r = o_task_id op \<and> active r) (operations d) \<and>
     o_owner_id op \<in> m_id ` set (members d) \<and> o_task_id op \<in> t_id ` set (tasks d) \<and> op_columns_ok op"

lemma db_ok_add_operation:
  assumes "db_ok d" and "operation_fits op d"
  shows "db_ok (d\<lparr>operations := operations d @ [op]\<rparr>)"
  using assms unfolding table_constraints operation_fits_def
  by (auto simp: list_all_iff list_ex_iff image_iff cong: option.case_cong simp del: active_simps)

lemma db_ok_references:
  assumes "db_ok d" and "t \<in> set (tasks d)"
  shows "t_owner_id t \<in> m_id ` set (members d)" and "length (t_name t) \<le> 160"
    and "length (t_source_text t) \<le> 20000"
  using assms by (simp_all add: table_constraints list_all_iff)

lemma distinct_map_filter2: "distinct (map k (filter Q xs)) \<Longrightarrow> distinct (map k (filter Q (filter P xs)))"
  by (induction xs) auto

lemma db_ok_filter_operations: "db_ok d \<Longrightarrow> db_ok (d\<lparr>operations := filter P (operations d)\<rparr>)"
  unfolding table_constraints
  by (simp add: list_all_iff distinct_map_filter distinct_map_filter2 cong: option.case_cong del: filter_filter)

end
