(* ===== verification/Queue_Guarantees.thy ===== *)
theory Queue_Guarantees
  imports Demo_System Ai_Codec Store_Rows
begin

text \<open>
  What the operations of the queue promise to their callers: when \<open>submit\<close> accepts, that it is
  idempotent under an idempotency key, what \<open>cancel\<close> does to a queued operation, that \<open>retry\<close> repeats a
  submission, and that an active operation blocks the edits of its task and further submissions.
\<close>

section \<open>Idempotency\<close>

lemma existing_operation_mem:
  assumes "db_ok d" and "op \<in> set (operations d)" and "op_scope op = (m, t, k, Some key)"
  shows "existing_operation t m k (Some key) hash d =
    (if o_request_hash op \<noteq> hash then Inl key_reused else Inr (Some op))"
proof -
  let ?P = "\<lambda>op. op_scope op = (m, t, k, Some key)"
  have "x = op" if "x \<in> set (operations d)" "?P x" for x
  proof -
    have "o_idempotency_key y \<noteq> None" if "?P y" for y using that by (simp add: op_scope_def)
    then show ?thesis
      using distinct_key_eq [OF db_ok_keys(9) [OF assms(1)], of x op] that assms(2,3) by auto
  qed
  moreover obtain y where y: "find ?P (operations d) = Some y"
    using find_None_notin [of ?P "operations d" op] assms(2,3) by fastforce
  ultimately have "find ?P (operations d) = Some op" using find_Some_mem [OF y] by metis
  then show ?thesis by (simp add: existing_operation_def)
qed

lemma submit_stored:
  assumes "submit i now task m p (Some key) rid d = Inr (op, d')" and "db_ok d" and "task \<in> set (tasks d)"
  shows "op \<in> set (operations d') \<and> db_ok d' \<and> t_owner_id task = m \<and>
    op_scope op = (m, t_id task, submission_kind p, Some key) \<and>
    o_request_hash op = request_hash (submission_kind p) (t_id task) (dump_submission p)"
proof -
  let ?h = "request_hash (submission_kind p) (t_id task) (dump_submission p)"
  have own: "t_owner_id task = m" using assms(1) by (simp add: submit_def Let_def split: if_splits)
  show ?thesis
  proof (cases "existing_operation (t_id task) m (submission_kind p) (Some key) ?h d")
    case (Inr existing)
    show ?thesis
    proof (cases existing)
      case None
      have q: "queued_in now p task op d d'" "op = queued_operation i now m task p (Some key) ?h rid"
        using submit_new [OF assms(1) Inr [unfolded None] assms(2,3)] by blast+
      have "operations d' = operations d @ [op]" using queued_in_tasks [OF q(1)] by blast
      moreover have "db_ok d'" using q(1) by (simp add: queued_in_def)
      ultimately show ?thesis using own q(2) by (simp add: queued_operation_def op_scope_def)
    next
      case (Some op0)
      with Inr assms(1) have "op0 = op \<and> d' = d" by (simp add: submit_def Let_def split: if_splits)
      with Some Inr own assms(2) show ?thesis by (auto dest: existing_operation_Some)
    qed
  qed (use assms(1) own in \<open>simp add: submit_def Let_def\<close>)
qed

text \<open>C12: a submission repeated with its idempotency key returns the operation of the first one and
  leaves the database alone; the key with other inputs is refused.\<close>

theorem submit_idempotent:
  assumes "submit i now task m p (Some key) rid d = Inr (op, d')" and "db_ok d" and "task \<in> set (tasks d)"
    and "t_id task' = t_id task" and "t_owner_id task' = m" and "submission_kind q = submission_kind p"
  shows "submit i' now' task' m q (Some key) rid' d' =
    (if request_hash (submission_kind q) (t_id task) (dump_submission q) =
        request_hash (submission_kind p) (t_id task) (dump_submission p)
     then Inr (op, d') else Inl key_reused)"
proof -
  from submit_stored [OF assms(1-3)] existing_operation_mem [of d' op m "t_id task" "submission_kind p" key]
  have "existing_operation (t_id task) m (submission_kind p) (Some key) h d' =
    (if request_hash (submission_kind p) (t_id task) (dump_submission p) \<noteq> h
     then Inl key_reused else Inr (Some op))" for h by simp
  with assms(4-6) show ?thesis by (simp add: submit_def Let_def)
qed

theorem submit_idempotent_witness:
  "submit 21 9 demo_task 1 AnalysisSubmit (Some (tx ''k'')) None
     (demo_queued\<lparr>operations := [demo_keyed (Some (tx ''k'')) None]\<rparr>) =
   Inr (demo_keyed (Some (tx ''k'')) None, demo_queued\<lparr>operations := [demo_keyed (Some (tx ''k'')) None]\<rparr>)"
  using submit_idempotent [OF demo_submit [of "Some (tx ''k'')" None] demo_created_ok, of demo_task AnalysisSubmit 21 9 None]
  by (simp add: fits_column_def) (simp add: demo_created_def demo_task_def new_task_def)

section \<open>When submit accepts\<close>

lemma decide_row_keys [simp]:
  "sr_id (decide_row now ds s) = sr_id s" "sr_task_id (decide_row now ds s) = sr_task_id s"
  "sr_analysis_id (decide_row now ds s) = sr_analysis_id s"
  "sr_suggestion_key (decide_row now ds s) = sr_suggestion_key s" "sr_title (decide_row now ds s) = sr_title s"
  by (auto simp: decide_row_def orm_save_def split: option.splits)

lemma apply_suggestion_snapshot_ok:
  assumes "apply_suggestion_snapshot now t p d = Inr d1" and "db_ok d"
  shows "db_ok d1"
  using assms
  by (auto simp: apply_suggestion_snapshot_def update_where_def split: if_splits option.splits
      intro!: db_ok_update_suggestions)

lemma enqueue_ok:
  assumes ok: "db_ok d" and t: "task \<in> set (tasks d)" "t_owner_id task = m"
    and idle: "\<not> list_ex (\<lambda>r. o_task_id r = t_id task \<and> active r) (operations d)"
    and new: "i \<notin> o_id ` set (operations d)" and rid: "fits_column 80 rid" and h: "length h \<le> 64"
    and key: "fits_column 200 key" "key = None \<or> (m, t_id task, submission_kind p, key) \<notin> op_scope ` set (operations d)"
  shows "db_ok (enqueue now task (queued_operation i now m task p key h rid) d)"
proof -
  let ?op = "queued_operation i now m task p key h rid"
  have "op_columns_ok ?op"
    using db_ok_references(2) [OF ok t(1)] rid h key(1)
    by (simp add: op_columns_ok_def queued_operation_def fits_column_def)
  moreover have "m \<in> m_id ` set (members d)" using db_ok_references(1) [OF ok t(1)] t(2) by simp
  ultimately have "operation_fits ?op d"
    using idle new t key(2) by (simp add: operation_fits_def op_scope_def queued_operation_def del: active_simps)
  from db_ok_add_operation [OF ok this] show ?thesis unfolding enqueue_def by (rule db_ok_save_task) simp
qed

text \<open>The submitted decisions are about the suggestions of the task's selected analysis.\<close>

definition snapshot_current :: "uuid \<Rightarrow> submission \<Rightarrow> db \<Rightarrow> bool" where
  "snapshot_current task_id p d \<longleftrightarrow>
     p = AnalysisSubmit \<or> (\<exists>r. p = RevisionSubmit r \<and> rvs_scope r \<noteq> SUGGESTIONS_SCOPE) \<or>
     (\<exists>decisions analysis_id. payload_decisions p = Some decisions \<and> payload_analysis_id p = Some analysis_id \<and>
        list_ex (\<lambda>a. ar_id a = analysis_id \<and> ar_task_id a = task_id \<and> ar_is_selected a) (analyses d) \<and>
        sd_suggestion_id ` set decisions = sr_id ` set (suggestions_of task_id analysis_id d))"

lemma find_list_ex: "list_ex P xs \<longleftrightarrow> (\<exists>x. find P xs = Some x)"
  by (induction xs) auto

lemma snapshot_current_iff:
  "snapshot_current t p d \<longleftrightarrow> (\<exists>d1. apply_suggestion_snapshot now t p d = Inr d1)"
  by (cases p) (auto simp: snapshot_current_def apply_suggestion_snapshot_def submission_kind_def payload_scope_def
      payload_decisions_def payload_analysis_id_def find_list_ex split: option.splits)

text \<open>C13: a submission without idempotency key is accepted exactly when the task is the member's, has
  no active operation, its state may enter the AI state of the kind, the member has a provider setting
  and the decisions are about the current suggestions.\<close>

theorem submit_accepts_iff:
  assumes "db_ok d" and "task \<in> set (tasks d)" and "i \<notin> o_id ` set (operations d)" and "fits_column 80 rid"
  shows "(\<exists>op d'. submit i now task m p None rid d = Inr (op, d')) \<longleftrightarrow>
    t_owner_id task = m \<and> \<not> list_ex (\<lambda>op. o_task_id op = t_id task \<and> active op) (operations d) \<and>
    running_state (submission_kind p) \<in> set (allowed_transitions (t_state task)) \<and>
    list_ex (\<lambda>s. ps_member_id s = m) (provider_settings d) \<and> snapshot_current (t_id task) p d"
    (is "?lhs \<longleftrightarrow> ?rhs")
proof
  let ?h = "request_hash (submission_kind p) (t_id task) (dump_submission p)"
  have f: "find_task d (t_id task) = Some task" using assms(1,2) by (rule find_task_mem)
  have e: "existing_operation (t_id task) m (submission_kind p) None ?h d = Inr None"
    by (simp add: existing_operation_def)
  have tr: "assert_transition (t_state task) (running_state (submission_kind p)) = Inr u \<longleftrightarrow>
      running_state (submission_kind p) \<in> set (allowed_transitions (t_state task))" for u
    by (cases "submission_kind p") (auto simp: assert_transition_ok_iff)
  show "?rhs" if "?lhs"
    using that f e tr
    by (auto simp: submit_def Let_def bind_result_eq_Inr_iff snapshot_current_iff [where now = now]
        require_def list_ex_iff simp del: active_simps split: if_splits)
  show "?lhs" if r: "?rhs"
  proof -
    from r obtain d1 where d1: "apply_suggestion_snapshot now (t_id task) p d = Inr d1"
      unfolding snapshot_current_iff [where now = now] by blast
    obtain ss where ss: "d1 = d\<lparr>suggestions := ss\<rparr>" using apply_suggestion_snapshot_Inr [OF d1] by blast
    have "db_ok (enqueue now task (queued_operation i now m task p None ?h rid) d1)"
      using apply_suggestion_snapshot_ok [OF d1 assms(1)] assms r
      by (intro enqueue_ok) (simp_all add: ss fits_column_def del: active_simps)
    then have "flush (enqueue now task (queued_operation i now m task p None ?h rid) d1) =
        Inr (enqueue now task (queued_operation i now m task p None ?h rid) d1)" by simp
    moreover have "assert_transition (t_state task) (running_state (submission_kind p)) = Inr ()"
      using r tr by simp
    ultimately show ?thesis
      using r f d1 e by (simp add: submit_def Let_def del: active_simps flush_Inr_iff)
  qed
qed

theorem submit_accepts_iff_witness:
  "\<exists>op d'. submit 20 6 demo_task 1 AnalysisSubmit None None demo_created = Inr (op, d')"
  using submit_accepts_iff [of demo_created demo_task 20 None 6 1 AnalysisSubmit] demo_created_ok
  by (simp add: demo_defs fits_column_def snapshot_current_def)

section \<open>Cancelling\<close>

text \<open>A task apart from its last change.\<close>

abbreviation untouched :: "rewrite_task \<Rightarrow> rewrite_task" where
  "untouched t \<equiv> t\<lparr>t_updated_at := 0\<rparr>"

lemma untouched_save [simp]: "untouched (orm_save (touch_task now) f t) = untouched (f t)"
  by (simp add: orm_save_def)

lemma release_task_eq:
  assumes "find_task d (o_task_id op) = Some t" and "t_state t = o_running_task_state op"
  shows "release_task now op d = save_task now (o_task_id op) (\<lambda>t. t\<lparr>t_state := o_initial_task_state op\<rparr>) d"
  using assms find_task_Some [OF assms(1)] by (simp add: release_task_def)

lemma owned_mem:
  assumes "db_ok d" and "op \<in> set (operations d)"
  shows "owned (o_owner_id op) (o_id op) d = Inr op"
proof -
  let ?P = "\<lambda>r. o_id r = o_id op \<and> o_owner_id r = o_owner_id op"
  obtain x where x: "find ?P (operations d) = Some x"
    using find_None_notin [of ?P "operations d" op] assms(2) by fastforce
  have "x = op" using operation_eq [OF assms(1) _ assms(2), of x] find_Some_mem [OF x] by blast
  with x show ?thesis by (simp add: owned_def)
qed

lemma release_task_effect:
  assumes ok: "db_ok d"
  shows "map untouched (tasks (release_task now op d)) = map (\<lambda>t. untouched (t\<lparr>t_state := put_back op t\<rparr>)) (tasks d)"
    and "(release_task now op d)\<lparr>tasks := []\<rparr> = d\<lparr>tasks := []\<rparr>"
proof -
  show "(release_task now op d)\<lparr>tasks := []\<rparr> = d\<lparr>tasks := []\<rparr>"
    by (simp add: release_task_def save_task_def split: option.split)
  show "map untouched (tasks (release_task now op d)) = map (\<lambda>t. untouched (t\<lparr>t_state := put_back op t\<rparr>)) (tasks d)"
  proof (cases "\<exists>t. find_task d (o_task_id op) = Some t \<and> t_state t = o_running_task_state op")
    case True
    then obtain t where t: "find_task d (o_task_id op) = Some t" "t_state t = o_running_task_state op" by blast
    note m = find_task_Some [OF t(1)]
    have "x = t" if "x \<in> set (tasks d)" "t_id x = o_task_id op" for x using task_eq [OF ok that(1)] m that(2) by simp
    then have "untouched (if t_id x = o_task_id op then orm_save (touch_task now) (\<lambda>t. t\<lparr>t_state := o_initial_task_state op\<rparr>) x else x) =
        untouched (x\<lparr>t_state := put_back op x\<rparr>)" if "x \<in> set (tasks d)" for x
      using that t(2) by (cases "t_id x = o_task_id op") (simp_all add: put_back_def)
    then show ?thesis by (simp add: release_task_eq [OF t] tasks_save_task)
  next
    case False
    have "put_back op x = t_state x" if "x \<in> set (tasks d)" for x
      using False find_task_mem [OF ok that] by (auto simp: put_back_def)
    moreover have "release_task now op d = d" using False by (auto simp: release_task_def split: option.split)
    ultimately show ?thesis by simp
  qed
qed

text \<open>What cancelling a queued operation does.\<close>

lemma cancel_queued:
  assumes ok: "db_ok d" and op: "op \<in> set (operations d)" "o_status op = QUEUED"
  shows "\<exists>d'. cancel now (o_owner_id op) (o_id op) d = Inr (cancel_row now op, d') \<and>
    d'\<lparr>tasks := [], operations := []\<rparr> = d\<lparr>tasks := [], operations := []\<rparr> \<and>
    operations d' = map (\<lambda>r. if o_id r = o_id op then cancel_row now r else r) (operations d) \<and>
    map untouched (tasks d') = map (\<lambda>t. untouched (t\<lparr>t_state := put_back op t\<rparr>)) (tasks d)"
proof -
  let ?h = "\<lambda>r. if o_id r = o_id op then cancel_row now r else r"
  let ?d = "d\<lparr>operations := map ?h (operations d)\<rparr>"
  have ops: "update_where (\<lambda>r. o_id r = o_id op \<and> o_status r = QUEUED) (cancel_row now) (operations d) = map ?h (operations d)"
    using operation_eq [OF ok _ op(1)] op(2) by (auto simp: update_where_def)
  have "db_ok ?d"
    by (rule db_ok_update_operations [OF ok]) (auto simp: same_keys_def cancel_row_def op_columns_ok_def)
  note r = release_task_effect [OF this, of now op]
  have "db_ok (release_task now op ?d)"
    using \<open>db_ok ?d\<close> by (auto simp: release_task_def intro!: db_ok_save_task split: option.split)
  then have "flush (release_task now op ?d) = Inr (release_task now op ?d)" by simp
  moreover have "list_ex (\<lambda>r. o_id r = o_id op \<and> o_status r = QUEUED) (operations d)" using op by (auto simp: list_ex_iff)
  ultimately have "cancel now (o_owner_id op) (o_id op) d = Inr (cancel_row now op, release_task now op ?d)"
    by (simp add: cancel_def owned_mem [OF ok op(1)] ops Let_def commit_def del: flush_Inr_iff)
  moreover have "operations (release_task now op ?d) = map ?h (operations d)"
    by (simp add: release_task_def save_task_def split: option.split)
  moreover have "(release_task now op ?d)\<lparr>tasks := [], operations := []\<rparr> = d\<lparr>tasks := [], operations := []\<rparr>"
    using arg_cong [OF r(2), of "\<lambda>d. d\<lparr>operations := []\<rparr>"] by simp
  ultimately show ?thesis using r(1) by (intro exI [of _ "release_task now op ?d"]) simp
qed

section \<open>Retrying\<close>

lemma dump_submission_truthy: "submission_kind p \<noteq> ANALYSIS \<Longrightarrow> truthy (dump_submission p)"
  by (cases p) (simp_all add: submission_kind_def dump_submission_def dump_suggestions_submit_def
      dump_first_draft_submit_def dump_revision_submit_def)

text \<open>Retrying a failed or cancelled operation submits its stored inputs again, under the new
  key and with the stored request identifier.\<close>

theorem retry_resubmits:
  assumes "db_ok d" and "op \<in> set (operations d)" and "o_status op = FAILED \<or> o_status op = CANCELLED"
    and "valid_submission p" and "o_kind op = submission_kind p" and "o_request_payload op = dump_submission p"
  shows "\<exists>task \<in> set (tasks d). t_id task = o_task_id op \<and>
    retry i now (o_owner_id op) (o_id op) key d = submit i now task (o_owner_id op) p key (o_request_id op) d"
proof -
  obtain task where t: "task \<in> set (tasks d)" "t_id task = o_task_id op"
    using operation_task_exists [OF assms(1,2)] by blast
  have "find_task d (o_task_id op) = Some task" using find_task_mem [OF assms(1) t(1)] t(2) by simp
  moreover have "owned (o_owner_id op) (o_id op) d = Inr op" by (rule owned_mem [OF assms(1,2)])
  moreover have "truthy (o_request_payload op) \<or> o_kind op = ANALYSIS"
    using dump_submission_truthy [of p] assms(5,6) by auto
  moreover have "validate_submission (o_kind op) (o_request_payload op) = Some p"
    using submission_roundtrip [OF assms(4)] assms(5,6) by simp
  ultimately show ?thesis using t assms(3) by (intro bexI [of _ task]) (auto simp: retry_def)
qed

theorem retry_resubmits_witness:
  "\<exists>task \<in> set (tasks demo_created). t_id task = 10 \<and>
     retry 21 9 1 20 None (demo_created\<lparr>operations := [cancel_row 7 demo_operation]\<rparr>) =
     submit 21 9 task 1 AnalysisSubmit None None (demo_created\<lparr>operations := [cancel_row 7 demo_operation]\<rparr>)"
proof -
  let ?d = "demo_created\<lparr>operations := [cancel_row 7 demo_operation]\<rparr>"
  have "db_ok ?d" by (simp add: demo_defs constraint_defs cancel_row_def)
  from retry_resubmits [OF this, of "cancel_row 7 demo_operation" AnalysisSubmit 21 9 None] show ?thesis
    by (simp add: valid_submission_def demo_operation_def queued_operation_def cancel_row_def submission_kind_def
        dump_submission_def demo_task_def new_task_def)
qed

section \<open>A task with an active operation is not changed\<close>

lemma submit_blocked:
  assumes "list_ex (\<lambda>r. o_task_id r = t_id task \<and> active r) (operations d)" and "task \<in> set (tasks d)" and "t_owner_id task = m"
  shows "submit i now task m p key rid d =
    (case existing_operation (t_id task) m (submission_kind p) key
       (request_hash (submission_kind p) (t_id task) (dump_submission p)) d of
       Inl e \<Rightarrow> Inl e | Inr (Some op) \<Rightarrow> Inr (op, d) | Inr None \<Rightarrow> Inl operation_in_progress)"
proof -
  obtain task' where "find_task d (t_id task) = Some task'" "t_id task' = t_id task"
    using assms(2) find_None_notin [of "\<lambda>r. t_id r = t_id task" "tasks d" task] find_Some_mem
    by (cases "find_task d (t_id task)") (force simp: find_task_def)+
  with assms(1,3) show ?thesis
    by (auto simp: submit_def Let_def split: sum.split option.split simp del: active_simps)
qed

lemma submit_blocked_cases:
  assumes "list_ex (\<lambda>r. o_task_id r = t_id task \<and> active r) (operations d)" and "task \<in> set (tasks d)" and "t_owner_id task = m"
  shows "submit i now task m p key rid d = Inl operation_in_progress \<or>
    key \<noteq> None \<and> (submit i now task m p key rid d = Inl key_reused \<or>
      (\<exists>op \<in> set (operations d). op_scope op = (m, t_id task, submission_kind p, key) \<and> submit i now task m p key rid d = Inr (op, d)))"
proof -
  let ?e = "existing_operation (t_id task) m (submission_kind p) key
    (request_hash (submission_kind p) (t_id task) (dump_submission p)) d"
  have "?e = Inr None \<or> key \<noteq> None \<and> (?e = Inl key_reused \<or>
      (\<exists>op \<in> set (operations d). op_scope op = (m, t_id task, submission_kind p, key) \<and> ?e = Inr (Some op)))"
    by (auto simp: existing_operation_def split: option.split dest!: find_Some_mem)
  then show ?thesis unfolding submit_blocked [OF assms] by auto
qed

text \<open>C16: while a task has a queued or running operation, the handlers that edit the task, its
  analyses, suggestions, versions and locks all answer 409 \<open>ai_operation_in_progress\<close> (a request to cancel
  the operation is not among them: it gets through). A new submission for the task is refused with 409
  \<open>operation_in_progress\<close>, and so is the retry of an earlier operation of the task whose stored inputs are
  readable; only under an idempotency key used before for the task and kind do they give that operation
  back or refuse the key, and then the database stays as it is.\<close>

theorem active_operation_blocks_changes:
  assumes "op \<in> set (operations d)" and "o_task_id op = tid" and "active op"
    and "owned_task tid m d = Inr task" and "db_ok d"
  shows "update_task now m tid tu d = Inl ai_in_progress \<and>
    archive_task now m tid d = Inl ai_in_progress \<and> restore_task now m tid d = Inl ai_in_progress \<and>
    update_analysis now m tid aid cor d = Inl ai_in_progress \<and>
    update_suggestion now m tid sid su d = Inl ai_in_progress \<and>
    delete_lock m tid lid d = Inl ai_in_progress \<and>
    (owned_version tid vid m d = Inr v \<longrightarrow>
       create_manual_edit i now m tid vid me d = Inl ai_in_progress \<and>
       create_lock i now m tid vid lc d = Inl ai_in_progress \<and>
       finalize_version aware now m tid vid d = Inl ai_in_progress) \<and>
    (submit_operation i now m tid p key rid d = execute_ai (Inl operation_in_progress) \<or>
     key \<noteq> None \<and> (submit_operation i now m tid p key rid d = execute_ai (Inl key_reused) \<or>
       (\<exists>used \<in> set (operations d). op_scope used = (m, tid, submission_kind p, key) \<and>
          submit_operation i now m tid p key rid d = Inr (used, d)))) \<and>
    (old \<in> set (operations d) \<and> o_owner_id old = m \<and> o_task_id old = tid \<and> (o_status old = FAILED \<or> o_status old = CANCELLED) \<and>
       (truthy (o_request_payload old) \<or> o_kind old = ANALYSIS) \<and>
       validate_submission (o_kind old) (o_request_payload old) = Some q \<longrightarrow>
     retry_ai_operation i now m (o_id old) key d = execute_ai (Inl operation_in_progress) \<or>
     key \<noteq> None \<and> (retry_ai_operation i now m (o_id old) key d = execute_ai (Inl key_reused) \<or>
       (\<exists>used \<in> set (operations d). op_scope used = (m, tid, submission_kind q, key) \<and>
          retry_ai_operation i now m (o_id old) key d = Inr (used, d))))"
proof -
  note t = owned_task_Inr [OF assms(4)]
  have "filter (\<lambda>op. o_task_id op = tid \<and> active op) (operations d) \<noteq> []"
    using assms(1-3) unfolding filter_empty_conv by blast
  then have "assert_no_active_ai tid d = Inl ai_in_progress" by (simp add: assert_no_active_ai_def)
  then have edits: "update_task now m tid tu d = Inl ai_in_progress \<and>
      archive_task now m tid d = Inl ai_in_progress \<and> restore_task now m tid d = Inl ai_in_progress \<and>
      update_analysis now m tid aid cor d = Inl ai_in_progress \<and>
      update_suggestion now m tid sid su d = Inl ai_in_progress \<and>
      delete_lock m tid lid d = Inl ai_in_progress \<and>
      (owned_version tid vid m d = Inr v \<longrightarrow>
         create_manual_edit i now m tid vid me d = Inl ai_in_progress \<and>
         create_lock i now m tid vid lc d = Inl ai_in_progress \<and>
         finalize_version aware now m tid vid d = Inl ai_in_progress)"
    using assms(4)
    by (simp add: update_task_def archive_task_def restore_task_def update_analysis_def update_suggestion_def
        create_manual_edit_def create_lock_def delete_lock_def finalize_version_def)
  have busy: "list_ex (\<lambda>r. o_task_id r = t_id task \<and> active r) (operations d)"
    using assms(1-3) t by (auto simp: list_ex_iff simp del: active_simps)
  note blocked = submit_blocked_cases [OF busy, of m i now _ key]
  have submitted: "submit_operation i now m tid p key rid d = execute_ai (Inl operation_in_progress) \<or>
      key \<noteq> None \<and> (submit_operation i now m tid p key rid d = execute_ai (Inl key_reused) \<or>
        (\<exists>used \<in> set (operations d). op_scope used = (m, tid, submission_kind p, key) \<and>
           submit_operation i now m tid p key rid d = Inr (used, d)))"
    using blocked [of p "if p = AnalysisSubmit then None else rid"] t assms(4)
    by (auto simp: submit_operation_eq execute_ai_def)
  have retried: "retry_ai_operation i now m (o_id old) key d = execute_ai (submit i now task m q key (o_request_id old) d)"
    if "old \<in> set (operations d)" "o_owner_id old = m" "o_task_id old = tid" "o_status old = FAILED \<or> o_status old = CANCELLED"
      "validate_submission (o_kind old) (o_request_payload old) = Some q" "truthy (o_request_payload old) \<or> o_kind old = ANALYSIS"
  proof -
    have "find_task d tid = Some task" using find_task_mem [OF assms(5)] t by auto
    with owned_mem [OF assms(5) that(1)] that show ?thesis by (auto simp: retry_ai_operation_def retry_def)
  qed
  show ?thesis
    using edits submitted retried blocked [of q "o_request_id old"] t by (auto simp: execute_ai_def)
qed

theorem active_operation_blocks_changes_witness:
  "archive_task 9 1 10 demo_queued = Inl ai_in_progress \<and>
   submit_operation 21 9 1 10 AnalysisSubmit None None demo_queued = execute_ai (Inl operation_in_progress)"
proof -
  have "db_ok demo_queued" by (simp add: demo_defs constraint_defs)
  moreover have "owned_task 10 1 demo_queued = Inr (demo_task\<lparr>t_state := ANALYZING, t_updated_at := 6\<rparr>)"
    by (simp add: demo_defs owned_task_def repo_get_owned_def)
  moreover have "demo_operation \<in> set (operations demo_queued)" "o_task_id demo_operation = 10" "active demo_operation"
    by (simp_all add: demo_defs)
  ultimately show ?thesis
    using active_operation_blocks_changes [where op = demo_operation and d = demo_queued and tid = 10 and m = 1 and
        now = 9 and i = 21 and p = AnalysisSubmit and key = None and rid = None] by blast
qed

end
