(* ===== verification/Content_Invariant.thy ===== *)
theory Content_Invariant
  imports Ai_System
begin

text \<open>
  What members see of a task, its content: versions, locked fragments, analyses and suggestions.
  \<open>content_ok\<close> is the invariant of one task's content; \<open>material_ok\<close> says that what a running
  execution captured when it was claimed is still what the database holds. Both hold in every reachable
  state, because handlers change the content of idle tasks only and an execution only its own task's.
\<close>

section \<open>The content of a task\<close>

record content =
  c_versions :: "script_version list"
  c_locks :: "locked_fragment list"
  c_analyses :: "analysis_record list"
  c_suggestions :: "suggestion_record list"

definition content_of :: "uuid \<Rightarrow> db \<Rightarrow> content" where
  "content_of i d =
     \<lparr>c_versions = filter (\<lambda>v. v_task_id v = i) (versions d),
      c_locks = filter (\<lambda>l. l_task_id l = i) (locks d),
      c_analyses = filter (\<lambda>a. ar_task_id a = i) (analyses d),
      c_suggestions = filter (\<lambda>s. sr_task_id s = i) (suggestions d)\<rparr>"

text \<open>At most one final version and one first draft; every other version has a parent in the task.\<close>

definition versions_ok :: "script_version list \<Rightarrow> bool" where
  "versions_ok vs \<longleftrightarrow>
     length (filter v_is_current_final vs) \<le> 1 \<and>
     length (filter (\<lambda>v. v_kind v = FIRST_DRAFT_VERSION) vs) \<le> 1 \<and>
     (\<forall>v \<in> set vs. case v_parent_id v of None \<Rightarrow> v_kind v = FIRST_DRAFT_VERSION
        | Some p \<Rightarrow> v_kind v \<noteq> FIRST_DRAFT_VERSION \<and> p \<in> v_id ` set vs)"

text \<open>A locked fragment is the text of its version at its offsets; fragments of a version are disjoint.\<close>

definition locks_ok :: "script_version list \<Rightarrow> locked_fragment list \<Rightarrow> bool" where
  "locks_ok vs ls \<longleftrightarrow>
     (\<forall>l \<in> set ls. \<exists>v \<in> set vs. v_id v = l_source_version_id l \<and>
        selected_text (v_content v) (l_start_offset l) (l_end_offset l) = Inr (l_text l)) \<and>
     (\<forall>l \<in> set ls. \<forall>l' \<in> set ls. l_source_version_id l = l_source_version_id l' \<longrightarrow>
        l = l' \<or> l_end_offset l \<le> l_start_offset l' \<or> l_end_offset l' \<le> l_start_offset l)"

text \<open>One analysis is the selected one, and every stored analysis can be read back.\<close>

definition analyses_ok :: "analysis_record list \<Rightarrow> bool" where
  "analyses_ok as \<longleftrightarrow>
     (as = [] \<or> length (filter ar_is_selected as) = 1) \<and>
     (\<forall>a \<in> set as. dec_analysis_result (ar_payload a) \<noteq> None)"

text \<open>The suggestions of an analysis are five to eight with distinct keys, or there are none.\<close>

definition suggestions_ok :: "analysis_record list \<Rightarrow> suggestion_record list \<Rightarrow> bool" where
  "suggestions_ok as ss \<longleftrightarrow>
     (\<forall>s \<in> set ss. sr_analysis_id s \<in> ar_id ` set as) \<and>
     (\<forall>i. filter (\<lambda>s. sr_analysis_id s = i) ss = [] \<or>
        5 \<le> length (filter (\<lambda>s. sr_analysis_id s = i) ss) \<and>
        length (filter (\<lambda>s. sr_analysis_id s = i) ss) \<le> 8 \<and>
        distinct (map sr_suggestion_key (filter (\<lambda>s. sr_analysis_id s = i) ss)))"

definition content_ok :: "content \<Rightarrow> bool" where
  "content_ok c \<longleftrightarrow> versions_ok (c_versions c) \<and> locks_ok (c_versions c) (c_locks c) \<and>
     analyses_ok (c_analyses c) \<and> suggestions_ok (c_analyses c) (c_suggestions c)"

section \<open>Changes of the content\<close>

definition same_content :: "db \<Rightarrow> db \<Rightarrow> bool" where
  "same_content d d' \<longleftrightarrow> versions d' = versions d \<and> locks d' = locks d \<and> analyses d' = analyses d \<and>
     suggestions d' = suggestions d"

lemma same_content_of: "same_content d d' \<Longrightarrow> content_of i d' = content_of i d"
  by (simp add: same_content_def content_of_def)

lemma same_content_trans: "same_content d d' \<Longrightarrow> same_content d' d'' \<Longrightarrow> same_content d d''"
  by (simp add: same_content_def)

definition idle :: "uuid \<Rightarrow> db \<Rightarrow> bool" where
  "idle i d \<longleftrightarrow> (\<forall>op \<in> set (operations d). o_task_id op = i \<longrightarrow> \<not> active op)"

text \<open>A change of one task's content that keeps the invariant.\<close>

definition content_change :: "uuid \<Rightarrow> db \<Rightarrow> db \<Rightarrow> bool" where
  "content_change i d d' \<longleftrightarrow>
     (\<forall>j. j \<noteq> i \<longrightarrow> content_of j d' = content_of j d) \<and>
     (content_ok (content_of i d) \<longrightarrow> content_ok (content_of i d'))"

definition handler_step :: "db \<Rightarrow> db \<Rightarrow> bool" where
  "handler_step d d' \<longleftrightarrow> same_content d d' \<or> (\<exists>i. idle i d \<and> content_change i d d')"

lemma content_change_ok:
  assumes "content_change i d d'" and "\<And>j. content_ok (content_of j d)"
  shows "content_ok (content_of j d')"
  using assms unfolding content_change_def by metis

lemma handler_step_ok:
  assumes "handler_step d d'" and "\<And>j. content_ok (content_of j d)"
  shows "content_ok (content_of j d')"
  using assms content_change_ok same_content_of unfolding handler_step_def by metis

lemma filter_update_where:
  "(\<And>x. x \<in> set xs \<Longrightarrow> P x \<Longrightarrow> Q (f x) \<longleftrightarrow> Q x) \<Longrightarrow>
   filter Q (update_where P f xs) = update_where P f (filter Q xs)"
  by (induction xs) (auto simp: update_where_def)

lemma filter_map_commute: "(\<And>x. x \<in> set xs \<Longrightarrow> P (g x) = P x) \<Longrightarrow> filter P (map g xs) = map g (filter P xs)"
  by (induction xs) auto

lemma update_where_same: "(\<And>x. x \<in> set xs \<Longrightarrow> P x \<Longrightarrow> f x = x) \<Longrightarrow> update_where P f xs = xs"
  by (induction xs) (auto simp: update_where_def)

lemma locks_ok_versions:
  assumes "locks_ok vs ls"
    and "\<And>v. v \<in> set vs \<Longrightarrow> \<exists>v' \<in> set vs'. v_id v' = v_id v \<and> v_content v' = v_content v"
  shows "locks_ok vs' ls"
  using assms unfolding locks_ok_def by metis

lemma locks_ok_subset: "locks_ok vs ls \<Longrightarrow> set ls' \<subseteq> set ls \<Longrightarrow> locks_ok vs ls'"
  unfolding locks_ok_def by blast

lemma locks_ok_snoc:
  assumes "locks_ok vs ls" and "v \<in> set vs" and "v_id v = l_source_version_id l"
    and "selected_text (v_content v) (l_start_offset l) (l_end_offset l) = Inr (l_text l)"
    and "\<forall>l' \<in> set ls. l_source_version_id l' = l_source_version_id l \<longrightarrow>
      l_end_offset l' \<le> l_start_offset l \<or> l_end_offset l \<le> l_start_offset l'"
  shows "locks_ok vs (ls @ [l])"
  using assms unfolding locks_ok_def by (auto; metis)

lemma versions_ok_snoc:
  assumes "versions_ok vs" and "\<not> v_is_current_final v"
    and "if v_kind v = FIRST_DRAFT_VERSION
      then v_parent_id v = None \<and> (\<forall>x \<in> set vs. v_kind x \<noteq> FIRST_DRAFT_VERSION)
      else \<exists>p. v_parent_id v = Some p \<and> p \<in> v_id ` set vs"
  shows "versions_ok (vs @ [v])"
  using assms unfolding versions_ok_def by (auto split: if_splits option.splits simp: filter_empty_conv)

text \<open>Rows that change without touching what the invariant reads.\<close>

lemma suggestions_ok_map:
  assumes "suggestions_ok as ss"
    and g: "\<And>s. s \<in> set ss \<Longrightarrow> sr_analysis_id (g s) = sr_analysis_id s \<and> sr_suggestion_key (g s) = sr_suggestion_key s"
  shows "suggestions_ok as (map g ss)"
proof -
  have f: "filter (\<lambda>s. sr_analysis_id s = i) (map g ss) = map g (filter (\<lambda>s. sr_analysis_id s = i) ss)" for i
    using g by (induction ss) auto
  have k: "map (sr_suggestion_key \<circ> g) (filter (\<lambda>s. sr_analysis_id s = i) ss) =
      map sr_suggestion_key (filter (\<lambda>s. sr_analysis_id s = i) ss)" for i
    using g by simp
  show ?thesis using assms unfolding suggestions_ok_def by (auto simp: f k)
qed

lemma single_filter_distinct:
  assumes "distinct (map k xs)"
  shows "length (filter (\<lambda>x. k x = i) xs) \<le> 1"
proof -
  have "distinct (map k (filter (\<lambda>x. k x = i) xs))" using assms by (rule distinct_map_filter)
  moreover have "set (map k (filter (\<lambda>x. k x = i) xs)) \<subseteq> {i}" by auto
  ultimately have "length (map k (filter (\<lambda>x. k x = i) xs)) \<le> card {i}"
    by (metis card_mono distinct_card finite.emptyI finite.insertI)
  then show ?thesis by simp
qed

section \<open>Handlers\<close>

lemma manual_edit_content:
  assumes "create_manual_edit i now m t v p d = Inr (r, d')"
  shows "idle t d \<and> content_change t d d'"
proof -
  from assms obtain parent where par: "parent \<in> set (versions d)" "v_task_id parent = t"
    and idle: "idle t d" and r: "r = manual_version i now t parent p"
    and d': "d' = save_task now t (\<lambda>t. t\<lparr>t_state := EDITING\<rparr>) (d\<lparr>versions := versions d @ [r]\<rparr>)"
    by (auto simp: create_manual_edit_def Let_def bind_result_eq_Inr_iff assert_no_active_ai_Inr idle_def
        dest!: owned_task_Inr owned_version_Inr)
  have rt: "v_task_id r = t" by (simp add: r manual_version_def)
  have vs: "c_versions (content_of t d') = c_versions (content_of t d) @ [r]"
    by (simp add: content_of_def d' rt)
  have mem: "parent \<in> set (c_versions (content_of t d))" using par by (simp add: content_of_def)
  have "versions_ok (c_versions (content_of t d'))" if "versions_ok (c_versions (content_of t d))"
    unfolding vs by (rule versions_ok_snoc [OF that]) (use mem in \<open>auto simp: r manual_version_def\<close>)
  moreover have "locks_ok (c_versions (content_of t d')) ls" if "locks_ok (c_versions (content_of t d)) ls" for ls
    unfolding vs by (rule locks_ok_versions [OF that]) auto
  moreover have "content_of j d' = content_of j d" if "j \<noteq> t" for j using that rt by (simp add: content_of_def d')
  moreover have "c_locks (content_of t d') = c_locks (content_of t d)"
    "c_analyses (content_of t d') = c_analyses (content_of t d)"
    "c_suggestions (content_of t d') = c_suggestions (content_of t d)" by (simp_all add: content_of_def d')
  ultimately show ?thesis using idle by (simp add: content_change_def content_ok_def)
qed

lemma create_lock_content:
  assumes "create_lock i now m t v p d = Inr (l, d')"
  shows "idle t d \<and> content_change t d d'"
proof -
  from assms obtain x where x: "x \<in> set (versions d)" "v_id x = v" "v_task_id x = t"
    and idle: "idle t d"
    and sel: "selected_text (v_content x) (lk_start_offset p) (lk_end_offset p) = Inr (l_text l)"
    and ov: "assert_no_overlapping_range (lk_start_offset p) (lk_end_offset p)
      (map (\<lambda>l. (l_start_offset l, l_end_offset l))
        (filter (\<lambda>l. l_task_id l = t \<and> l_source_version_id l = v) (locks d))) = Inr ()"
    and l: "l_task_id l = t" "l_source_version_id l = v" "l_start_offset l = lk_start_offset p"
      "l_end_offset l = lk_end_offset p"
    and d': "d' = d\<lparr>locks := locks d @ [l]\<rparr>"
    by (auto simp: create_lock_def Let_def bind_result_eq_Inr_iff assert_no_active_ai_Inr idle_def
        dest!: owned_task_Inr owned_version_Inr)
  let ?c = "content_of t d"
  have "locks_ok (c_versions ?c) (c_locks ?c @ [l])" if "locks_ok (c_versions ?c) (c_locks ?c)"
    by (rule locks_ok_snoc [OF that, of x])
      (use x l sel ov in \<open>auto simp: content_of_def assert_no_overlapping_range_ok_iff\<close>)
  moreover have "content_of t d' = ?c\<lparr>c_locks := c_locks ?c @ [l]\<rparr>" by (simp add: content_of_def d' l)
  moreover have "content_of j d' = content_of j d" if "j \<noteq> t" for j using that l by (simp add: content_of_def d')
  ultimately show ?thesis using idle by (simp add: content_change_def content_ok_def)
qed

lemma delete_lock_content:
  assumes "delete_lock m t i d = Inr (u, d')"
  shows "idle t d \<and> content_change t d d'"
proof -
  from assms have idle: "idle t d"
    and d': "d' = d\<lparr>locks := filter (\<lambda>l. \<not> (l_id l = i \<and> l_task_id l = t)) (locks d)\<rparr>"
    by (auto simp: delete_lock_def bind_result_eq_Inr_iff assert_no_active_ai_Inr idle_def split: if_splits)
  let ?c = "content_of t d"
  have "content_of t d' = ?c\<lparr>c_locks := filter (\<lambda>l. l_id l \<noteq> i) (c_locks ?c)\<rparr>"
    by (simp add: content_of_def d') (rule filter_cong; auto)
  moreover have "content_of j d' = content_of j d" if "j \<noteq> t" for j
    using that by (simp add: content_of_def d') (rule filter_cong; auto)
  ultimately show ?thesis using idle locks_ok_subset by (fastforce simp: content_change_def content_ok_def)
qed

lemma versions_ok_map:
  assumes "versions_ok vs"
    and g: "\<And>v. v \<in> set vs \<Longrightarrow> v_id (g v) = v_id v \<and> v_kind (g v) = v_kind v \<and> v_parent_id (g v) = v_parent_id v"
    and f: "length (filter v_is_current_final (map g vs)) \<le> 1"
  shows "versions_ok (map g vs)"
proof -
  have "length (filter (\<lambda>v. v_kind v = k) (map g vs)) = length (filter (\<lambda>v. v_kind v = k) vs)" for k
    using g by (induction vs) auto
  moreover have "v_id ` set (map g vs) = v_id ` set vs" using g by (force simp: image_iff)
  ultimately show ?thesis
    using assms(1) f unfolding versions_ok_def by (auto simp: g simp del: set_map split: option.splits) (auto simp: g split: option.splits)
qed

lemma finalize_content:
  assumes "finalize_version aware now m t v d = Inr (r, d')" and ok: "db_ok d"
  shows "idle t d \<and> content_change t d d'"
proof -
  let ?f = "\<lambda>x. x\<lparr>v_is_current_final := (v_id x = v), v_updated_at := now\<rparr>"
  from assms(1) obtain x where x: "x \<in> set (versions d)" "v_id x = v" "v_task_id x = t" and idle: "idle t d"
    and d': "d' = save_task now t (\<lambda>t. t\<lparr>t_state := FINALIZED, t_finalized_at := Some now\<rparr>)
      (d\<lparr>versions := set_final now t v (versions d)\<rparr>)"
    by (auto simp: finalize_version_def bind_result_eq_Inr_iff assert_no_active_ai_Inr idle_def
        dest!: owned_task_Inr owned_version_Inr)
  have own: "v_task_id y = t" if "y \<in> set (versions d)" "v_id y = v" for y
    using distinct_key_eq [OF db_ok_keys(3) [OF ok] that(1) x(1)] that x by simp
  have vs: "versions d' = map (\<lambda>y. if v_task_id y = t then ?f y else y) (versions d)"
    using own by (auto simp: d' set_final_def update_where_def)
  have other: "content_of j d' = content_of j d" if "j \<noteq> t" for j
  proof -
    have "filter (\<lambda>y. v_task_id y = j) (versions d') = filter (\<lambda>y. v_task_id y = j) (versions d)"
      unfolding vs using that by (intro filter_map_same) auto
    then show ?thesis by (simp add: content_of_def) (simp add: d')
  qed
  have vt: "c_versions (content_of t d') = map ?f (c_versions (content_of t d))"
    unfolding content_of_def vs by (simp add: filter_map_commute)
  have one: "length (filter v_is_current_final (map ?f (c_versions (content_of t d)))) \<le> 1"
  proof -
    have "distinct (map v_id (c_versions (content_of t d)))"
      using db_ok_keys(3) [OF ok] by (simp add: content_of_def distinct_map_filter)
    from single_filter_distinct [OF this, of v] show ?thesis by (simp add: comp_def)
  qed
  have "versions_ok (c_versions (content_of t d'))" if "versions_ok (c_versions (content_of t d))"
    unfolding vt by (rule versions_ok_map [OF that _ one]) simp
  moreover have "locks_ok (c_versions (content_of t d')) ls" if "locks_ok (c_versions (content_of t d)) ls" for ls
    unfolding vt by (rule locks_ok_versions [OF that]) auto
  moreover have "c_locks (content_of t d') = c_locks (content_of t d)"
    "c_analyses (content_of t d') = c_analyses (content_of t d)"
    "c_suggestions (content_of t d') = c_suggestions (content_of t d)" by (simp_all add: content_of_def d')
  ultimately show ?thesis using idle other by (simp add: content_change_def content_ok_def)
qed

text \<open>One row of a table, found by its key, is replaced.\<close>

lemma update_row:
  assumes "distinct (map k xs)" and "x \<in> set xs"
  shows "update_where (\<lambda>y. k y = k x) (\<lambda>_. f x) xs = map (\<lambda>y. if k y = k x then f y else y) xs"
  using assms distinct_key_eq [OF assms(1) _ assms(2)] by (auto simp: update_where_def)

lemma analyses_ok_map:
  assumes "analyses_ok as"
    and "\<And>a. a \<in> set as \<Longrightarrow> ar_is_selected (g a) = ar_is_selected a \<and> dec_analysis_result (ar_payload (g a)) \<noteq> None"
  shows "analyses_ok (map g as)"
proof -
  have "length (filter ar_is_selected (map g as)) = length (filter ar_is_selected as)"
    using assms(2) by (induction as) auto
  then show ?thesis using assms unfolding analyses_ok_def by auto
qed

lemma update_analysis_content:
  assumes "update_analysis now m t i p d = Inr (r, d')" and ok: "db_ok d"
    and valid: "valid_analysis_result (cor_analysis p)"
  shows "idle t d \<and> content_change t d d'"
proof -
  let ?f = "orm_save (\<lambda>a. a\<lparr>ar_updated_at := now\<rparr>)
    (\<lambda>a. a\<lparr>ar_payload := enc_analysis_result (cor_analysis p), ar_member_notes := cor_member_notes p\<rparr>)"
  from assms(1) obtain a where a: "a \<in> set (analyses d)" "ar_task_id a = t" and idle: "idle t d"
    and d': "d' = d\<lparr>analyses := update_where (\<lambda>x. ar_id x = ar_id a) (\<lambda>_. ?f a) (analyses d)\<rparr>"
    by (auto simp: update_analysis_def Let_def bind_result_eq_Inr_iff assert_no_active_ai_Inr idle_def
        dest!: find_Some_mem)
  have f: "ar_task_id (?f x) = ar_task_id x" "ar_id (?f x) = ar_id x" "ar_is_selected (?f x) = ar_is_selected x"
    "ar_payload (?f x) = enc_analysis_result (cor_analysis p)" for x
    by (subst orm_save_field; simp)+
  let ?g = "\<lambda>x. if ar_id x = ar_id a then ?f x else x"
  have an: "analyses d' = map ?g (analyses d)" using update_row [OF db_ok_keys(4) [OF ok] a(1)] by (simp add: d')
  have own: "ar_task_id x = t" if "x \<in> set (analyses d)" "ar_id x = ar_id a" for x
    using distinct_key_eq [OF db_ok_keys(4) [OF ok] that(1) a(1)] that a by simp
  have "filter (\<lambda>x. ar_task_id x = j) (analyses d') = filter (\<lambda>x. ar_task_id x = j) (analyses d)" if "j \<noteq> t" for j
    unfolding an using that own by (intro filter_map_same) (auto simp: f)
  then have other: "content_of j d' = content_of j d" if "j \<noteq> t" for j
    using that by (simp add: content_of_def) (simp add: d')
  have at: "c_analyses (content_of t d') = map ?g (c_analyses (content_of t d))"
    unfolding content_of_def an content.simps by (rule filter_map_commute) (simp add: f)
  have "analyses_ok (c_analyses (content_of t d'))" if "analyses_ok (c_analyses (content_of t d))"
    unfolding at by (rule analyses_ok_map [OF that])
      (use that dec_enc_analysis_result [OF valid] in \<open>auto simp: analyses_ok_def f\<close>)
  moreover have "suggestions_ok (c_analyses (content_of t d')) ss" if "suggestions_ok (c_analyses (content_of t d)) ss" for ss
  proof -
    have ids: "ar_id ` set (map ?g as) = ar_id ` set as" for as
    proof -
      have "map ar_id (map ?g as) = map ar_id as" by (simp add: f)
      from arg_cong [OF this, of set] show ?thesis unfolding set_map .
    qed
    show ?thesis using that unfolding suggestions_ok_def at ids .
  qed
  moreover have "c_locks (content_of t d') = c_locks (content_of t d)"
    "c_versions (content_of t d') = c_versions (content_of t d)"
    "c_suggestions (content_of t d') = c_suggestions (content_of t d)" by (simp_all add: content_of_def d')
  ultimately show ?thesis using idle other by (simp add: content_change_def content_ok_def)
qed

text \<open>Suggestions keep their keys under decisions.\<close>

lemma suggestion_rows_content:
  assumes d': "suggestions d' = map g (suggestions d)" "versions d' = versions d" "locks d' = locks d"
      "analyses d' = analyses d"
    and g: "\<And>s. s \<in> set (suggestions d) \<Longrightarrow> sr_task_id (g s) = sr_task_id s \<and>
      sr_analysis_id (g s) = sr_analysis_id s \<and> sr_suggestion_key (g s) = sr_suggestion_key s \<and>
      (sr_task_id s \<noteq> t \<longrightarrow> g s = s)"
  shows "content_change t d d'"
proof -
  have "filter (\<lambda>x. sr_task_id x = j) (suggestions d') = filter (\<lambda>x. sr_task_id x = j) (suggestions d)" if "j \<noteq> t" for j
    unfolding d' using that g by (intro filter_map_same) auto
  then have "content_of j d' = content_of j d" if "j \<noteq> t" for j using that by (simp add: content_of_def d'(2-))
  moreover have "c_suggestions (content_of t d') = map g (c_suggestions (content_of t d))"
    unfolding content_of_def d' content.simps by (rule filter_map_commute) (use g in simp)
  moreover have "suggestions_ok as (map g (c_suggestions (content_of t d)))"
    if "suggestions_ok as (c_suggestions (content_of t d))" for as
    by (rule suggestions_ok_map [OF that]) (use g in \<open>simp add: content_of_def\<close>)
  moreover have "c_locks (content_of t d') = c_locks (content_of t d)"
    "c_versions (content_of t d') = c_versions (content_of t d)"
    "c_analyses (content_of t d') = c_analyses (content_of t d)" by (simp_all add: content_of_def d')
  ultimately show ?thesis by (simp add: content_change_def content_ok_def)
qed

lemma update_suggestion_content:
  assumes "update_suggestion now m t i p d = Inr (r, d')" and ok: "db_ok d"
  shows "idle t d \<and> content_change t d d'"
proof -
  let ?f = "orm_save (\<lambda>s. s\<lparr>sr_updated_at := now\<rparr>)
    (\<lambda>s. s\<lparr>sr_decision := sgu_decision p, sr_member_note := sgu_member_note p\<rparr>)"
  from assms(1) obtain a where a: "a \<in> set (suggestions d)" "sr_task_id a = t" and idle: "idle t d"
    and d': "d' = d\<lparr>suggestions := update_where (\<lambda>x. sr_id x = sr_id a) (\<lambda>_. ?f a) (suggestions d)\<rparr>"
    by (auto simp: update_suggestion_def Let_def bind_result_eq_Inr_iff assert_no_active_ai_Inr idle_def
        dest!: find_Some_mem)
  have f: "sr_task_id (?f x) = sr_task_id x" "sr_analysis_id (?f x) = sr_analysis_id x"
    "sr_suggestion_key (?f x) = sr_suggestion_key x" for x
    by (subst orm_save_field; simp)+
  let ?g = "\<lambda>x. if sr_id x = sr_id a then ?f x else x"
  have "sr_task_id x = t" if "x \<in> set (suggestions d)" "sr_id x = sr_id a" for x
    using distinct_key_eq [OF db_ok_keys(5) [OF ok] that(1) a(1)] that a by simp
  moreover have "suggestions d' = map ?g (suggestions d)"
    using update_row [OF db_ok_keys(5) [OF ok] a(1), of ?f] by (simp add: d')
  ultimately have "content_change t d d'"
    by (intro suggestion_rows_content [where g = ?g]) (auto simp: f d')
  with idle show ?thesis by simp
qed

lemma decide_row_same [simp]:
  "sr_task_id (decide_row now ds s) = sr_task_id s" "sr_analysis_id (decide_row now ds s) = sr_analysis_id s"
  "sr_suggestion_key (decide_row now ds s) = sr_suggestion_key s"
  by (auto simp: decide_row_def orm_save_def split: option.splits)

lemma submit_content:
  assumes "submit i now task m p key rid d = Inr (op, d')" and "db_ok d" and "task \<in> set (tasks d)"
  shows "handler_step d d'"
  using submit_Inr [OF assms]
proof (elim disjE conjE)
  assume q: "queued_in now p task op d d'"
  then obtain ss where ap: "apply_suggestion_snapshot now (t_id task) p d = Inr (d\<lparr>suggestions := ss\<rparr>)"
    and d': "d' = enqueue now task op (d\<lparr>suggestions := ss\<rparr>)" unfolding queued_in_def by blast
  have idle: "idle (t_id task) d" using q by (auto simp: queued_in_def idle_def list_ex_iff)
  show ?thesis
  proof (cases "ss = suggestions d")
    case True
    then show ?thesis by (simp add: handler_step_def same_content_def d' enqueue_def)
  next
    case False
    with ap obtain ds aid where "ss = update_where (\<lambda>s. sr_task_id s = t_id task \<and> sr_analysis_id s = aid)
        (decide_row now ds) (suggestions d)"
      by (auto simp: apply_suggestion_snapshot_def split: if_splits option.splits
          dest!: arg_cong [where f = suggestions])
    then have "content_change (t_id task) d d'"
      by (intro suggestion_rows_content [where g = "\<lambda>s. if sr_task_id s = t_id task \<and> sr_analysis_id s = aid
            then decide_row now ds s else s"]) (auto simp: d' enqueue_def update_where_def)
    with idle show ?thesis unfolding handler_step_def by blast
  qed
qed (simp add: handler_step_def same_content_def)

lemmas frame_defs = create_preset_def preset_create_row_def update_preset_def replace_settings_def
  delete_preset_def preset_delete_def create_task_def repo_create_def add_task_def copy_task_def repo_copy_def
  archive_task_def restore_task_def store_snapshot_def clear_ai_operation_history_def clear_completed_def

lemma same_content_frames:
  "create_preset i now m pc d = Inr (r1, d') \<Longrightarrow> same_content d d'"
  "update_preset now m i pu d = Inr (r1, d') \<Longrightarrow> same_content d d'"
  "delete_preset m i d = Inr (u, d') \<Longrightarrow> same_content d d'"
  "create_task i now m tc d = Inr (r2, d') \<Longrightarrow> same_content d d'"
  "copy_task i now m s d = Inr (r2, d') \<Longrightarrow> same_content d d'"
  "archive_task now m i d = Inr (r2, d') \<Longrightarrow> same_content d d'"
  "restore_task now m i d = Inr (r2, d') \<Longrightarrow> same_content d d'"
  "clear_ai_operation_history m d = Inr (u, d') \<Longrightarrow> same_content d d'"
  by (auto simp: frame_defs same_content_def Let_def bind_result_eq_Inr_iff split: option.splits)

lemma update_task_same_content:
  "update_task now m i tu d = Inr (r, d') \<Longrightarrow> same_content d d'"
  by (auto simp: update_task_def bind_result_eq_Inr_iff same_content_def dest!: repo_update_draft_Inr)

lemma release_task_same_content [simp]: "same_content d (release_task now op d)"
  by (simp add: same_content_def)

lemma cancel_same_content: "cancel now m i d = Inr (op, d') \<Longrightarrow> same_content d d'"
  by (auto simp: cancel_def Let_def bind_result_eq_Inr_iff same_content_def split: if_splits)

lemma http_content:
  assumes "http now fresh d d'" and inv: "db_inv d"
  shows "handler_step d d'"
proof -
  note ok = db_invD(1) [OF inv]
  have retry: "handler_step d d'" if r: "retry i now m o' key d = Inr (op, d')" for i m o' key op
  proof -
    from r obtain p t rid where "submit i now t m p key rid d = Inr (op, d')" "t \<in> set (tasks d)"
      by (auto simp: retry_def bind_result_eq_Inr_iff split: if_splits dest!: find_task_Some)
    with submit_content ok show ?thesis by blast
  qed
  have sub: "handler_step d d'" if r: "submit_operation i now m t p key rid d = Inr (op, d')" for i m t p key rid op
  proof -
    from r obtain task rid' where "submit i now task m p key rid' d = Inr (op, d')" "task \<in> set (tasks d)"
      by (auto simp: submit_operation_eq bind_result_eq_Inr_iff dest!: owned_task_Inr)
    with submit_content ok show ?thesis by blast
  qed
  from assms(1) show ?thesis
  proof cases
    case http_create_preset
    from same_content_frames(1) [OF http_create_preset(1)] show ?thesis by (simp add: handler_step_def)
  next
    case http_update_preset
    from same_content_frames(2) [OF http_update_preset(1)] show ?thesis by (simp add: handler_step_def)
  next
    case http_delete_preset
    from same_content_frames(3) [OF http_delete_preset(1)] show ?thesis by (simp add: handler_step_def)
  next
    case http_create_task
    from same_content_frames(4) [OF http_create_task(1)] show ?thesis by (simp add: handler_step_def)
  next
    case http_update_task
    from update_task_same_content [OF http_update_task(1)] show ?thesis by (simp add: handler_step_def)
  next
    case http_copy_task
    from same_content_frames(5) [OF http_copy_task(1)] show ?thesis by (simp add: handler_step_def)
  next
    case http_archive_task
    from same_content_frames(6) [OF http_archive_task(1)] show ?thesis by (simp add: handler_step_def)
  next
    case http_restore_task
    from same_content_frames(7) [OF http_restore_task(1)] show ?thesis by (simp add: handler_step_def)
  next
    case http_clear
    from same_content_frames(8) [OF http_clear(1)] show ?thesis by (simp add: handler_step_def)
  next
    case http_submit
    from sub [OF http_submit(1)] show ?thesis .
  next
    case http_retry
    then show ?thesis using retry by (simp add: retry_ai_operation_def)
  next
    case http_cancel
    then show ?thesis using cancel_same_content by (simp add: cancel_ai_operation_def handler_step_def)
  next
    case http_update_analysis
    from update_analysis_content [OF http_update_analysis(1) ok http_update_analysis(2)] show ?thesis unfolding handler_step_def by blast
  next
    case http_update_suggestion
    from update_suggestion_content [OF http_update_suggestion ok] show ?thesis unfolding handler_step_def by blast
  next
    case http_manual_edit
    from manual_edit_content [OF http_manual_edit] show ?thesis unfolding handler_step_def by blast
  next
    case http_create_lock
    from create_lock_content [OF http_create_lock] show ?thesis unfolding handler_step_def by blast
  next
    case http_delete_lock
    from delete_lock_content [OF http_delete_lock] show ?thesis unfolding handler_step_def by blast
  next
    case http_finalize
    from finalize_content [OF http_finalize ok] show ?thesis unfolding handler_step_def by blast
  qed
qed

section \<open>Executions\<close>

text \<open>What an execution captured at its claim is what the task's content still holds.\<close>

definition material_ok :: "content \<Rightarrow> prepared \<Rightarrow> bool" where
  "material_ok c p \<longleftrightarrow>
     (case p of
        PreparedAnalysis _ \<Rightarrow> True
      | PreparedSuggestions _ record _ _ previous fixed \<Rightarrow>
          record \<in> set (c_analyses c) \<and>
          previous = order_by2 sr_created_at sr_id (filter (\<lambda>s. sr_analysis_id s = ar_id record) (c_suggestions c)) \<and>
          (\<exists>P. fixed = filter P previous)
      | PreparedFirstDraft drafted _ _ _ \<Rightarrow>
          drafted \<longleftrightarrow> list_ex (\<lambda>v. v_kind v = FIRST_DRAFT_VERSION) (c_versions c)
      | PreparedRevision _ parent lock_snapshots _ _ _ \<Rightarrow>
          (\<exists>v \<in> set (c_versions c). v_id v = vas_id parent \<and> v_content v = vas_content parent) \<and>
          map lfs_text lock_snapshots = map l_text (sort_key l_order_index (c_locks c)))"

lemma fixed_suggestions_filter:
  "fixed_suggestions decisions items = Inr fixed \<Longrightarrow> \<exists>P. fixed = filter P items"
proof -
  assume "fixed_suggestions decisions items = Inr fixed"
  then have "fixed = filter (\<lambda>item. \<exists>x. decision_at decisions (sr_id item) = Some x \<and> sd_selected x) items"
    by (induction items arbitrary: fixed) (auto simp: bind_result_eq_Inr_iff split: option.splits if_splits)
  then show ?thesis by blast
qed

lemma suggestions_of_content:
  "suggestions_of t a d = filter (\<lambda>s. sr_analysis_id s = a) (c_suggestions (content_of t d))"
  by (simp add: suggestions_of_def content_of_def conj_commute)

lemma has_first_draft_content:
  "has_first_draft t d \<longleftrightarrow> list_ex (\<lambda>v. v_kind v = FIRST_DRAFT_VERSION) (c_versions (content_of t d))"
  by (auto simp: has_first_draft_def content_of_def list_ex_iff filter_empty_conv)

lemma prepare_material:
  assumes "prepare task p d = Inr (prep, hash)"
  shows "material_ok (content_of (t_id task) d) prep"
proof (cases p)
  case AnalysisSubmit
  with assms show ?thesis by (auto simp: prepare_def prepare_analyze_def material_ok_def)
next
  case (SuggestionsSubmit s)
  with assms show ?thesis
    by (auto simp: prepare_def prepare_suggest_def Let_def bind_result_eq_Inr_iff material_ok_def find_analysis_def
        suggestions_of_content content_of_def [of _ d] split: if_splits
        dest!: find_Some_mem dest: fixed_suggestions_filter)
next
  case (FirstDraftSubmit f)
  with assms show ?thesis
    by (auto simp: prepare_def prepare_first_draft_def Let_def bind_result_eq_Inr_iff material_ok_def
        has_first_draft_content)
next
  case (RevisionSubmit r)
  with assms show ?thesis
    by (auto simp: prepare_def prepare_revise_def Let_def bind_result_eq_Inr_iff material_ok_def comp_def
        content_of_def split: prod.splits dest!: find_Some_mem)
qed

lemma persist_analysis_content:
  assumes p: "persist_analysis i now t a d = Inr (x, d1)" and a: "\<not> blank (asr_analysis a)"
  shows "content_change t d d1"
proof -
  let ?u = "\<lambda>a. a\<lparr>ar_is_selected := False, ar_updated_at := now\<rparr>"
  obtain r where r: "ar_task_id r = t" "ar_is_selected r"
      "ar_payload r = enc_analysis_result (TextAnalysis (asr_analysis a))"
    and d1: "d1 = d\<lparr>analyses := update_where (\<lambda>a. ar_task_id a = t) ?u (analyses d) @ [r]\<rparr>"
  proof -
    let ?r = "\<lambda>n. \<lparr>ar_id = i, ar_task_id = t, ar_sequence = n,
      ar_payload = enc_analysis_result (TextAnalysis (asr_analysis a)), ar_member_notes = None, ar_is_selected = True,
      ar_prompt_template_version = pm_prompt_template_version (asr_metadata a),
      ar_model_identifier = pm_model_identifier (asr_metadata a), ar_created_at = now, ar_updated_at = now\<rparr>"
    from p obtain n where "d1 = d\<lparr>analyses := update_where (\<lambda>a. ar_task_id a = t) ?u (analyses d) @ [?r n]\<rparr>"
      by (auto simp: persist_analysis_def Let_def map_ok_Inr)
    then show ?thesis by (intro that [of "?r n"]) simp_all
  qed
  have "filter (\<lambda>a. ar_task_id a = j) (update_where (\<lambda>a. ar_task_id a = t) ?u (analyses d)) =
      filter (\<lambda>a. ar_task_id a = j) (analyses d)" if "j \<noteq> t" for j
    unfolding update_where_def using that by (intro filter_map_same) auto
  then have other: "content_of j d1 = content_of j d" if "j \<noteq> t" for j
    using that r by (simp add: content_of_def d1)
  have an: "c_analyses (content_of t d1) = map ?u (c_analyses (content_of t d)) @ [r]"
  proof -
    have "filter (\<lambda>a. ar_task_id a = t) (map (\<lambda>a. if ar_task_id a = t then ?u a else a) xs) =
        map ?u (filter (\<lambda>a. ar_task_id a = t) xs)" for xs by (induction xs) auto
    then show ?thesis using r by (simp add: content_of_def d1 update_where_def)
  qed
  have "valid_analysis_result (TextAnalysis (asr_analysis a))"
    using a by (auto simp: valid_analysis_result_def blank_iff)
  from dec_enc_analysis_result [OF this] r
  have "analyses_ok (c_analyses (content_of t d1))" if "analyses_ok (c_analyses (content_of t d))"
    using that unfolding an by (auto simp: analyses_ok_def filter_empty_conv)
  moreover have "suggestions_ok (c_analyses (content_of t d1)) ss" if "suggestions_ok (c_analyses (content_of t d)) ss" for ss
    using that unfolding an suggestions_ok_def by (auto simp: image_image)
  moreover have "c_locks (content_of t d1) = c_locks (content_of t d)"
    "c_versions (content_of t d1) = c_versions (content_of t d)"
    "c_suggestions (content_of t d1) = c_suggestions (content_of t d)" by (simp_all add: content_of_def d1)
  ultimately show ?thesis using other by (simp add: content_change_def content_ok_def)
qed

lemma persist_version_content:
  assumes p: "persist_version i now t v d = Inr (x, d1)"
    and v: "if vsr_kind v = FIRST_DRAFT_VERSION
      then vsr_parent_version_id v = None \<and> \<not> list_ex (\<lambda>v. v_kind v = FIRST_DRAFT_VERSION) (c_versions (content_of t d))
      else \<exists>q. vsr_parent_version_id v = Some q \<and> q \<in> v_id ` set (c_versions (content_of t d))"
  shows "content_change t d d1"
proof -
  let ?r = "version_record i now t v"
  from p have d1: "d1 = d\<lparr>versions := versions d @ [?r]\<rparr>" by (auto simp: persist_version_def map_ok_Inr)
  have r: "v_task_id ?r = t" "v_kind ?r = vsr_kind v" "v_parent_id ?r = vsr_parent_version_id v" "\<not> v_is_current_final ?r"
    by (simp_all add: version_record_def)
  have vs: "c_versions (content_of t d1) = c_versions (content_of t d) @ [?r]"
    using r by (simp add: content_of_def d1)
  have "versions_ok (c_versions (content_of t d1))" if "versions_ok (c_versions (content_of t d))"
    unfolding vs by (rule versions_ok_snoc [OF that]) (use v r in \<open>auto simp: list_ex_iff split: if_splits\<close>)
  moreover have "locks_ok (c_versions (content_of t d1)) ls" if "locks_ok (c_versions (content_of t d)) ls" for ls
    unfolding vs by (rule locks_ok_versions [OF that]) auto
  moreover have "content_of j d1 = content_of j d" if "j \<noteq> t" for j using that r by (simp add: content_of_def d1)
  moreover have "c_locks (content_of t d1) = c_locks (content_of t d)"
    "c_analyses (content_of t d1) = c_analyses (content_of t d)"
    "c_suggestions (content_of t d1) = c_suggestions (content_of t d)" by (simp_all add: content_of_def d1)
  ultimately show ?thesis by (simp add: content_change_def content_ok_def)
qed

lemma mset_order_by2 [simp]: "mset (order_by2 k1 k2 xs) = mset xs"
  by (simp add: order_by2_def)

text \<open>The fixed suggestions, in the order the table has them.\<close>

lemma fixed_rows:
  assumes "distinct (map k g)" and "mset previous = mset g" and "fixed = filter P previous"
  shows "mset (filter (\<lambda>s. k s \<in> k ` set fixed) g) = mset fixed"
proof -
  have sets: "set previous = set g" using assms(2) by (metis set_mset_mset)
  have "k s \<in> k ` set fixed \<longleftrightarrow> P s" if s: "s \<in> set g" for s
  proof
    assume "k s \<in> k ` set fixed"
    then obtain s' where "s' \<in> set g" "k s = k s'" "P s'" using assms(3) sets by auto
    with distinct_key_eq [OF assms(1) s] show "P s" by blast
  qed (use assms(3) sets s in auto)
  then have "filter (\<lambda>s. k s \<in> k ` set fixed) g = filter P g" by (intro filter_cong) auto
  with assms(2,3) show ?thesis by (simp add: mset_filter)
qed

lemma map_result_keys:
  "map_result stored_suggestion fixed = Inr kept \<Longrightarrow> map su_suggestion_id kept = map sr_suggestion_key fixed"
  by (induction fixed arbitrary: kept)
    (auto simp: bind_result_eq_Inr_iff stored_suggestion_def mk_suggestion_def split: if_splits)

lemma rows_keys:
  "map sr_suggestion_key (map (\<lambda>(n, item). suggestion_row (fresh n) now t a item) (enumerate k items)) =
     map su_suggestion_id items"
  by (induction items arbitrary: k) (simp_all add: suggestion_row_def)

lemma rows_fields:
  "s \<in> set (map (\<lambda>(n, item). suggestion_row (fresh n) now t a item) (enumerate k items)) \<Longrightarrow>
     sr_task_id s = t \<and> sr_analysis_id s = a"
  by (auto simp: suggestion_row_def)

lemma persist_suggestions_content:
  assumes p: "persist_suggestions fresh now t record previous fixed result d = Inr (x, d1)" and ok: "db_ok d"
    and c: "record \<in> set (c_analyses (content_of t d))"
      "previous = order_by2 sr_created_at sr_id
        (filter (\<lambda>s. sr_analysis_id s = ar_id record) (c_suggestions (content_of t d)))"
      "fixed = filter P previous"
  shows "content_change t d d1"
proof -
  let ?a = "ar_id record" and ?ss = "c_suggestions (content_of t d)"
  let ?g = "filter (\<lambda>s. sr_analysis_id s = ?a) ?ss"
  let ?new = "suggestion_replacements previous fixed (ssr_suggestions result)"
  let ?rows = "map (\<lambda>(n, item). suggestion_row (fresh n) now t ?a item) (enumerate 0 ?new)"
  let ?keep = "\<lambda>s. sr_analysis_id s = ?a \<longrightarrow> sr_id s \<in> sr_id ` set fixed"
  from p obtain kept where kept: "map_result stored_suggestion fixed = Inr kept"
    and valid: "valid_suggestion_set (kept @ ?new)"
    and d1: "d1 = d\<lparr>suggestions := filter (\<lambda>s. \<not> (sr_task_id s = t \<and> sr_analysis_id s = ?a \<and>
        sr_id s \<notin> sr_id ` set fixed)) (suggestions d) @ ?rows\<rparr>"
    by (auto simp: persist_suggestions_def Let_def bind_result_eq_Inr_iff map_ok_Inr mk_suggestion_set_def
        split: if_splits)
  note rows = rows_fields [of _ fresh now t ?a 0 ?new]
  have other: "content_of j d1 = content_of j d" if "j \<noteq> t" for j
  proof -
    have "filter (\<lambda>s. sr_task_id s = j) ?rows = []" using rows that by (auto simp: filter_empty_conv)
    then show ?thesis using that by (auto simp: content_of_def d1 intro: filter_cong)
  qed
  have st: "c_suggestions (content_of t d1) = filter ?keep ?ss @ ?rows"
  proof -
    have "filter (\<lambda>s. sr_task_id s = t) ?rows = ?rows" using rows by (intro filter_True) blast
    then show ?thesis by (auto simp: content_of_def d1 intro: filter_cong)
  qed
  have ids: "distinct (map sr_id ?g)"
    using db_ok_keys(5) [OF ok] by (simp add: content_of_def distinct_map_filter)
  have fixed: "mset (filter (\<lambda>s. sr_id s \<in> sr_id ` set fixed) ?g) = mset fixed"
    by (rule fixed_rows [OF ids _ c(3)]) (simp add: c(2))
  let ?g' = "filter (\<lambda>s. sr_analysis_id s = ?a) (filter ?keep ?ss @ ?rows)"
  have g': "?g' = filter (\<lambda>s. sr_id s \<in> sr_id ` set fixed) ?g @ ?rows"
  proof -
    have "filter (\<lambda>s. sr_analysis_id s = ?a) ?rows = ?rows" using rows by (intro filter_True) blast
    then show ?thesis by (auto intro: filter_cong)
  qed
  have keys: "mset (map sr_suggestion_key ?g') = mset (map su_suggestion_id (kept @ ?new))"
    unfolding g' map_append mset_append mset_map [of _ "filter _ _"] fixed rows_keys map_result_keys [OF kept]
    by simp
  then have "distinct (map sr_suggestion_key ?g') \<longleftrightarrow> distinct (map su_suggestion_id (kept @ ?new))"
    by (rule mset_eq_imp_distinct_iff)
  moreover have "length ?g' = length (kept @ ?new)" using mset_eq_length [OF keys] unfolding length_map .
  ultimately have grp: "distinct (map sr_suggestion_key ?g')" "5 \<le> length ?g'" "length ?g' \<le> 8"
    using valid by (simp_all add: valid_suggestion_set_iff)
  have "suggestions_ok as (filter ?keep ?ss @ ?rows)" if "suggestions_ok as ?ss" "as = c_analyses (content_of t d)" for as
    unfolding suggestions_ok_def
  proof (intro conjI allI ballI)
    fix s assume "s \<in> set (filter ?keep ?ss @ ?rows)"
    then consider "s \<in> set ?ss" | "sr_analysis_id s = ?a" using rows [of s]
      unfolding set_append Un_iff set_filter by blast
    then show "sr_analysis_id s \<in> ar_id ` set as" using that c(1) unfolding suggestions_ok_def by cases auto
  next
    fix i
    show "filter (\<lambda>s. sr_analysis_id s = i) (filter ?keep ?ss @ ?rows) = [] \<or>
        5 \<le> length (filter (\<lambda>s. sr_analysis_id s = i) (filter ?keep ?ss @ ?rows)) \<and>
        length (filter (\<lambda>s. sr_analysis_id s = i) (filter ?keep ?ss @ ?rows)) \<le> 8 \<and>
        distinct (map sr_suggestion_key (filter (\<lambda>s. sr_analysis_id s = i) (filter ?keep ?ss @ ?rows)))"
    proof (cases "i = ?a")
      case True
      then show ?thesis using grp by blast
    next
      case False
      have "filter (\<lambda>s. sr_analysis_id s = i) ?rows = []" using rows False by (auto simp: filter_empty_conv)
      moreover have "filter (\<lambda>s. sr_analysis_id s = i) (filter ?keep ?ss) = filter (\<lambda>s. sr_analysis_id s = i) ?ss"
        using False by (auto intro: filter_cong)
      ultimately have "filter (\<lambda>s. sr_analysis_id s = i) (filter ?keep ?ss @ ?rows) =
          filter (\<lambda>s. sr_analysis_id s = i) ?ss" by simp
      with that(1) show ?thesis unfolding suggestions_ok_def by simp
    qed
  qed
  moreover have "c_locks (content_of t d1) = c_locks (content_of t d)"
    "c_versions (content_of t d1) = c_versions (content_of t d)"
    "c_analyses (content_of t d1) = c_analyses (content_of t d)" by (simp_all add: content_of_def d1)
  ultimately show ?thesis using other st by (simp add: content_change_def content_ok_def)
qed

lemma persist_content:
  assumes p: "persist fresh now r res d = Inr (x, d1)" and ok: "db_ok d"
    and well: "result_well (run_prepared r) res" and m: "material_ok (content_of (t_id (run_task r)) d) (run_prepared r)"
  shows "content_change (t_id (run_task r)) d d1"
proof (cases "run_prepared r")
  case (PreparedAnalysis b)
  with well obtain a where a: "res = AnalysisResultOf a" "\<not> blank (asr_analysis a)"
    by (auto simp: result_well_def split: service_result.splits)
  with p show ?thesis by (auto simp: persist_def intro: persist_analysis_content)
next
  case (PreparedSuggestions b rc an pl previous fixed)
  with well obtain s where "res = SuggestionsResultOf s"
    by (auto simp: result_well_def split: service_result.splits)
  with p m PreparedSuggestions ok show ?thesis
    by (auto simp: persist_def material_ok_def intro: persist_suggestions_content)
next
  case (PreparedFirstDraft drafted an sel pl)
  with well obtain v where v: "res = VersionResultOf v" "\<not> drafted" "vsr_kind v = FIRST_DRAFT_VERSION"
      "vsr_parent_version_id v = None"
    by (auto simp: result_well_def split: service_result.splits)
  from p v(1) have "persist_version (fresh 0) now (t_id (run_task r)) v d = Inr (x, d1)" by (simp add: persist_def)
  from persist_version_content [OF this] m v PreparedFirstDraft show ?thesis by (simp add: material_ok_def)
next
  case (PreparedRevision b parent ls an sel pl)
  with well obtain v where v: "res = VersionResultOf v" "vsr_kind v = AI_REVISION"
      "vsr_parent_version_id v = Some (vas_id parent)"
    by (auto simp: result_well_def revised_well_def split: service_result.splits)
  from m PreparedRevision have "vas_id parent \<in> v_id ` set (c_versions (content_of (t_id (run_task r)) d))"
    by (auto simp: material_ok_def intro: rev_image_eqI)
  moreover from p v(1) have "persist_version (fresh 0) now (t_id (run_task r)) v d = Inr (x, d1)"
    by (simp add: persist_def)
  ultimately show ?thesis using persist_version_content v by simp
qed

lemma failed_db_same_content: "same_content d (failed_db now op e st d)"
  by (simp add: same_content_def failed_db_def)

lemma execute_end_content:
  assumes inv: "db_inv d" and ok: "run_ok d m r" and e: "execute_end env fresh now r d = (j, d')"
    and mat: "material_ok (content_of (t_id (run_task r)) d) (run_prepared r)"
  shows "same_content d d' \<or> content_change (t_id (run_task r)) d d'"
proof -
  obtain op where op: "op \<in> set (running_ops d)" "o_id op = run_operation_id r" "o_task_id op = t_id (run_task r)"
    using run_ok_op [OF inv ok] by metis
  have d': "d' = snd (execute_finish env fresh now r d)"
    using e by (auto simp: execute_end_def split: prod.splits finish.splits if_splits)
  from execute_finish_cases [OF inv op, of env fresh now] show ?thesis
  proof (elim disjE exE conjE)
    fix op' res rt rid d1
    assume i: "invoke env r = Inr res" and p: "persist fresh now r res d = Inr ((rt, rid), d1)"
      and f: "execute_finish env fresh now r d = (FinishReturned op', succeeded_db now op res rt rid d1)"
    have "content_change (t_id (run_task r)) d d1"
      by (rule persist_content [OF p db_invD(1) [OF inv] invoke_Inr [OF i] mat])
    moreover have "same_content d1 d'" by (simp add: d' f same_content_def succeeded_db_def)
    ultimately show ?thesis by (simp add: content_change_def same_content_of)
  next
    assume "finish_fails now op d (execute_finish env fresh now r d)"
    then show ?thesis using failed_db_same_content unfolding finish_fails_def d' by force
  qed
qed

section \<open>Reachable content\<close>

definition runs_ok :: "db \<Rightarrow> jobs \<Rightarrow> bool" where
  "runs_ok d jobs \<longleftrightarrow> (\<forall>m r. jobs m = Some (JobRunning r) \<longrightarrow>
     material_ok (content_of (t_id (run_task r)) d) (run_prepared r))"

definition content_inv :: "system \<Rightarrow> bool" where
  "content_inv s \<longleftrightarrow> sys_inv s \<and> (\<forall>i. content_ok (content_of i (sys_db s))) \<and> runs_ok (sys_db s) (sys_jobs s)"

lemma content_inv_same:
  assumes "\<forall>i. content_ok (content_of i d)" and "runs_ok d jobs" and "same_content d d'"
    and "\<And>m r. jobs' m = Some (JobRunning r) \<Longrightarrow> jobs m = Some (JobRunning r)"
  shows "(\<forall>i. content_ok (content_of i d')) \<and> runs_ok d' jobs'"
  using assms same_content_of unfolding runs_ok_def by metis

lemma content_inv_done:
  assumes "\<forall>i. content_ok (content_of i d)" and "runs_ok d jobs" and "same_content d d'"
  shows "(\<forall>i. content_ok (content_of i d')) \<and> runs_ok d' (jobs(m \<mapsto> JobDone))"
  by (rule content_inv_same [OF assms]) (simp split: if_splits)

lemma run_task_not_idle:
  assumes "jobs_wf d jobs" and "jobs m = Some (JobRunning r)" and "idle i d"
  shows "t_id (run_task r) \<noteq> i"
  using jobs_wfD(2) [OF assms(1,2)] assms(3) by (auto simp: run_ok_def idle_def in_running_ops)

lemma content_inv_handler:
  assumes wf: "jobs_wf d jobs" and ok: "\<forall>i. content_ok (content_of i d)" and runs: "runs_ok d jobs"
    and h: "handler_step d d'"
  shows "(\<forall>i. content_ok (content_of i d')) \<and> runs_ok d' jobs"
proof
  show "\<forall>i. content_ok (content_of i d')" using handler_step_ok [OF h] ok by blast
  show "runs_ok d' jobs"
    using h unfolding handler_step_def
  proof (elim disjE exE conjE)
    fix i assume i: "idle i d" "content_change i d d'"
    show ?thesis
      unfolding runs_ok_def
    proof (intro allI impI)
      fix m r assume r: "jobs m = Some (JobRunning r)"
      from run_task_not_idle [OF wf r i(1)] i(2)
      have "content_of (t_id (run_task r)) d' = content_of (t_id (run_task r)) d" by (simp add: content_change_def)
      with runs r show "material_ok (content_of (t_id (run_task r)) d') (run_prepared r)" by (simp add: runs_ok_def)
    qed
  qed (use runs same_content_of in \<open>simp add: runs_ok_def\<close>)
qed

lemma content_inv_end:
  assumes inv: "db_inv d" and wf: "jobs_wf d jobs" and ok: "\<forall>i. content_ok (content_of i d)" and runs: "runs_ok d jobs"
    and m: "jobs m = Some (JobRunning r)" and e: "execute_end env fresh now r d = (j, d')"
  shows "(\<forall>i. content_ok (content_of i d')) \<and> runs_ok d' (jobs(m \<mapsto> j))"
proof -
  have nj: "\<And>r. j \<noteq> JobRunning r"
    using e by (auto simp: execute_end_def split: prod.splits finish.splits if_splits)
  note run = jobs_wfD(2) [OF wf m]
  from runs m have mat: "material_ok (content_of (t_id (run_task r)) d) (run_prepared r)" by (simp add: runs_ok_def)
  from execute_end_content [OF inv run e mat] show ?thesis
  proof
    assume "same_content d d'"
    then show ?thesis by (rule content_inv_same [OF ok runs]) (use nj in \<open>simp split: if_splits\<close>)
  next
    assume c: "content_change (t_id (run_task r)) d d'"
    have "t_id (run_task r') \<noteq> t_id (run_task r)" if r': "jobs m' = Some (JobRunning r')" "m' \<noteq> m" for m' r'
    proof
      assume same: "t_id (run_task r') = t_id (run_task r)"
      obtain op op' where "op \<in> set (running_ops d)" "o_owner_id op = m" "o_task_id op = t_id (run_task r)"
        "op' \<in> set (running_ops d)" "o_owner_id op' = m'" "o_task_id op' = t_id (run_task r')"
        using run jobs_wfD(2) [OF wf r'(1)] unfolding run_ok_def by blast
      with active_eq [OF db_invD(1) [OF inv], of op op'] same r'(2) show False by (simp add: in_running_ops)
    qed
    with c have "content_of (t_id (run_task r')) d' = content_of (t_id (run_task r')) d"
      if "jobs m' = Some (JobRunning r')" "m' \<noteq> m" for m' r' using that by (simp add: content_change_def)
    then have "runs_ok d' (jobs(m \<mapsto> j))" using runs nj unfolding runs_ok_def by simp
    with content_change_ok [OF c] ok show ?thesis by blast
  qed
qed

lemma recover_same_content:
  assumes "recover_stale_operations m now d = Inr (n, d')"
  shows "same_content d d'"
proof -
  have "same_content d (fold (recover_one now) ops d)" for ops d
  proof (induction ops arbitrary: d)
    case (Cons op ops)
    have "same_content d (recover_one now op d)" by (simp add: recover_one_release same_content_def)
    with Cons show ?case using same_content_trans by simp
  qed (simp add: same_content_def)
  then show ?thesis
    using assms by (auto simp: recover_stale_operations_def Let_def same_content_def split: if_splits)
qed

lemma recover_owners_same_content: "same_content d (snd (recover_owners now jobs owners d))"
proof (induction now jobs owners d rule: recover_owners.induct)
  case (2 now jobs owner owners d)
  then show ?case
    using recover_same_content same_content_trans
    by (auto simp: same_content_def split: sum.splits prod.splits)
qed (simp add: same_content_def)

lemma begin_content:
  assumes wf: "jobs_wf d jobs" and m: "jobs m = Some (JobNew i)" and b: "execute_begin env lock now i d = (j, d')"
  shows "same_content d d' \<and>
    (\<forall>r. j = JobRunning r \<longrightarrow> material_ok (content_of (t_id (run_task r)) d) (run_prepared r))"
proof (cases "find_operation d i")
  case (Some op)
  have free: "\<And>x. x \<in> set (running_ops d) \<Longrightarrow> o_owner_id x \<noteq> o_owner_id op"
    using no_running [OF wf m] jobs_wfD(1) [OF wf m] find_operation_Some [OF Some] by simp
  have "same_content d d' \<and> (\<forall>r. j = JobRunning r \<longrightarrow> material_ok (content_of (t_id (run_task r)) d) (run_prepared r))"
    if rm: "run_method env lock now op p d = (j, d')" for p
  proof (cases "find_task d (o_task_id op)")
    case None
    with rm show ?thesis by (auto simp: run_method_def recover_nothing [OF free] same_content_def)
  next
    case (Some task)
    show ?thesis
    proof (cases "prepare task p d")
      case (Inl e)
      with rm Some show ?thesis by (auto simp: run_method_def recover_nothing [OF free] same_content_def)
    next
      case (Inr ph)
      obtain prep hash where ph: "ph = (prep, hash)" by (cases ph)
      obtain c d2 where c: "execute_claim env lock (Some (o_id op)) now 0 (o_owner_id op) (t_id task)
          (o_kind op) None hash prep d = (c, d2)" by (metis prod.exhaust)
      with rm Some Inr ph have j: "j = job_after_claim (o_id op) c" "d' = d2"
        by (simp_all add: run_method_def recover_nothing [OF free])
      from prepare_material [OF Inr [unfolded ph]] execute_claim_queued [OF c] show ?thesis
        by (auto simp: j job_after_claim_def claimed_from_def same_content_def claim_update_def
            split: claim.splits if_splits)
    qed
  qed
  with b Some show ?thesis
    by (auto simp: execute_begin_def same_content_def split: if_splits option.splits)
qed (use b in \<open>auto simp: execute_begin_def same_content_def\<close>)

lemma content_inv_step:
  assumes st: "step env s s'" and inv: "content_inv s"
  shows "content_inv s'"
proof -
  have sys: "sys_inv s'" using sys_inv_step [OF st] inv by (simp add: content_inv_def)
  have db: "db_inv (sys_db s)" and wf: "jobs_wf (sys_db s) (sys_jobs s)"
    and ok: "\<forall>i. content_ok (content_of i (sys_db s))" and runs: "runs_ok (sys_db s) (sys_jobs s)"
    using inv by (simp_all add: content_inv_def sys_inv_def)
  have "(\<forall>i. content_ok (content_of i (sys_db s'))) \<and> runs_ok (sys_db s') (sys_jobs s')"
    using st
  proof cases
    case (step_http now jobs d d' clock)
    with content_inv_handler [of d jobs d'] http_content [OF step_http(3)] db wf ok runs show ?thesis by simp
  next
    case (step_identity ps ms d jobs clock)
    then show ?thesis using content_inv_same [OF ok runs, of "sys_db s'" "sys_jobs s'"] by (simp add: same_content_def)
  next
    case (step_tick now d jobs d' jobs' clock)
    have "same_content d d' \<and> (\<forall>m r. jobs' m = Some (JobRunning r) \<longrightarrow> jobs m = Some (JobRunning r))"
    proof -
      let ?owners = "remdups (map o_owner_id (filter (\<lambda>op. o_status op = RUNNING) (operations d)))"
      let ?rows = "order_by2 o_created_at o_id (filter active (operations d'))"
      let ?running = "map o_owner_id (filter (\<lambda>row. o_status row = RUNNING) ?rows)"
      have d': "d' = snd (recover_owners now (drop_done jobs) ?owners d)"
        and jobs': "jobs' = start_jobs ?running ?rows (drop_done jobs)"
        using tick_db [of d now jobs d' jobs'] db step_tick by simp_all
      have "jobs m = Some (JobRunning r)" if "jobs' m = Some (JobRunning r)" for m r
        using start_jobs_cases [of ?running ?rows "drop_done jobs" m] that
        by (auto simp: jobs' drop_done_def split: if_splits)
      with recover_owners_same_content [of d now "drop_done jobs" ?owners] d' show ?thesis by simp
    qed
    with step_tick content_inv_same [OF ok runs, of d' jobs'] show ?thesis by simp
  next
    case (step_begin jobs m i lock now d j d' clock)
    note b = begin_content [of d jobs m i env lock now j d']
    have "runs_ok d (jobs(m \<mapsto> j))" using runs wf b step_begin by (auto simp: runs_ok_def)
    with step_begin b wf ok content_inv_same [of d "jobs(m \<mapsto> j)" d' "jobs(m \<mapsto> j)"] show ?thesis by simp
  next
    case (step_end jobs m r fresh now d j d' clock)
    with content_inv_end [of d jobs m r env fresh now j d'] db wf ok runs show ?thesis by simp
  next
    case (step_cleanup jobs m i e now d d' clock)
    have "same_content d d'"
      unfolding step_cleanup(4) [symmetric]
      by (auto simp: execute_cleanup_def cleanup_changes_def reset_task_def Let_def same_content_def flush_def
          split: option.splits sum.splits if_splits)
    with step_cleanup content_inv_done [OF ok runs, of d' m] show ?thesis by simp
  next
    case (step_cancel_job jobs m j now d j' d' clock)
    have "same_content d d' \<and> j' = JobDone"
      using step_cancel_job(4)
      by (auto simp: cancel_waiting_def finish_cancelled_def record_cancellation_def record_failure_def same_content_def
          split: job.splits sum.splits option.splits prod.splits)
    with step_cancel_job content_inv_done [OF ok runs, of d' m] show ?thesis by simp
  next
    case (step_lose_job jobs m j clock now d)
    with ok runs show ?thesis by (simp add: runs_ok_def)
  next
    case (step_crash d jobs clock)
    with ok show ?thesis by (simp add: runs_ok_def)
  qed
  with sys show ?thesis by (simp add: content_inv_def)
qed

lemma content_inv_init:
  assumes "init s"
  shows "content_inv s"
proof -
  have "content_of i (sys_db s) = \<lparr>c_versions = [], c_locks = [], c_analyses = [], c_suggestions = []\<rparr>" for i
    using assms
    by (auto simp: init_def content_of_def db_ok_def integrity_ok_def references_hold_def list_all_iff filter_empty_conv)
  moreover have "runs_ok (sys_db s) (sys_jobs s)" using assms by (simp add: init_def runs_ok_def)
  ultimately show ?thesis
    using sys_inv_init [OF assms]
    by (simp add: content_inv_def content_ok_def versions_ok_def locks_ok_def analyses_ok_def suggestions_ok_def)
qed

interpretation content: transition_system init "step env" content_inv for env
  by unfold_locales (auto intro: content_inv_init content_inv_step)

end
