(* ===== verification/Content_Guarantees.thy ===== *)
theory Content_Guarantees
  imports Content_Invariant Demo_System
begin

text \<open>
  What members can rely on for the content of their tasks: the shape of versions, locked fragments,
  analyses and suggestions in every reachable state, and what the handlers of versions and locks do.
\<close>

section \<open>Content of reachable states\<close>

text \<open>C17: in every reachable state a task has at most one final version and at most one first draft,
  and every version that is not a first draft was derived from another version of the same task. (As for C6, without cancellations
  that arrive when a success has just been committed.)\<close>

theorem reachable_versions:
  assumes "init s0" and "(step env)\<^sup>*\<^sup>* s0 s" and "vs = filter (\<lambda>v. v_task_id v = i) (versions (sys_db s))"
  shows "length (filter v_is_current_final vs) \<le> 1 \<and>
    length (filter (\<lambda>v. v_kind v = FIRST_DRAFT_VERSION) vs) \<le> 1 \<and>
    (\<forall>v. v \<in> set vs \<and> v_kind v \<noteq> FIRST_DRAFT_VERSION \<longrightarrow> (\<exists>p \<in> set vs. v_parent_id v = Some (v_id p)))"
proof -
  have "versions_ok vs"
    using content.reachable_inv [OF assms(1,2)] assms(3) by (simp add: content_inv_def content_ok_def content_of_def)
  then show ?thesis unfolding versions_ok_def by (force split: option.splits)
qed

theorem reachable_versions_witness:
  "length (filter v_is_current_final (filter (\<lambda>v. v_task_id v = 10) (versions demo_running))) \<le> 1"
  using reachable_versions [OF demo_init_ok demo_reachable refl, of 10] by (simp add: demo_sys_def)

text \<open>C18: in every reachable state a locked fragment is the text between its offsets in the version it
  was taken from, a version of the same task, and the fragments of one version do not overlap.\<close>

theorem reachable_locks:
  assumes "init s0" and "(step env)\<^sup>*\<^sup>* s0 s" and "d = sys_db s"
  shows "(\<forall>l \<in> set (locks d). \<exists>v \<in> set (versions d). v_id v = l_source_version_id l \<and> v_task_id v = l_task_id l \<and>
      0 \<le> l_start_offset l \<and> l_start_offset l < l_end_offset l \<and> l_end_offset l \<le> int (length (v_content v)) \<and>
      l_text l = slice (v_content v) (nat (l_start_offset l)) (nat (l_end_offset l))) \<and>
    (\<forall>l \<in> set (locks d). \<forall>l' \<in> set (locks d).
      l \<noteq> l' \<and> l_task_id l = l_task_id l' \<and> l_source_version_id l = l_source_version_id l' \<longrightarrow>
      l_end_offset l \<le> l_start_offset l' \<or> l_end_offset l' \<le> l_start_offset l)"
proof -
  have ok: "locks_ok (filter (\<lambda>v. v_task_id v = i) (versions d)) (filter (\<lambda>l. l_task_id l = i) (locks d))" for i
    using content.reachable_inv [OF assms(1,2)] assms(3) by (simp add: content_inv_def content_ok_def content_of_def)
  have "\<exists>v \<in> set (versions d). v_id v = l_source_version_id l \<and> v_task_id v = l_task_id l \<and>
      0 \<le> l_start_offset l \<and> l_start_offset l < l_end_offset l \<and> l_end_offset l \<le> int (length (v_content v)) \<and>
      l_text l = slice (v_content v) (nat (l_start_offset l)) (nat (l_end_offset l))" if l: "l \<in> set (locks d)" for l
  proof -
    from ok [of "l_task_id l"] l obtain v where v: "v \<in> set (versions d)" "v_task_id v = l_task_id l"
      "v_id v = l_source_version_id l"
      and t: "selected_text (v_content v) (l_start_offset l) (l_end_offset l) = Inr (l_text l)"
      unfolding locks_ok_def by auto
    with selected_text_ok [OF t] show ?thesis
      by (intro bexI [of _ v]) (auto simp: selected_text_def split: if_splits)
  qed
  moreover have "l_end_offset l \<le> l_start_offset l' \<or> l_end_offset l' \<le> l_start_offset l"
    if "l \<in> set (locks d)" "l' \<in> set (locks d)" "l \<noteq> l'" "l_task_id l = l_task_id l'"
      "l_source_version_id l = l_source_version_id l'" for l l'
    using ok [of "l_task_id l"] that unfolding locks_ok_def by auto
  ultimately show ?thesis by blast
qed

theorem reachable_locks_witness:
  "\<exists>d. d = sys_db demo_sys \<and> list_all (\<lambda>l. l_start_offset l < l_end_offset l) (locks d)"
  using reachable_locks [OF demo_init_ok demo_reachable refl] by (auto simp: list_all_iff)

text \<open>C19: in every reachable state each task with analyses has exactly one selected analysis, every stored
  analysis can be read back, and the suggestions of an analysis are none or five to eight with
  distinct keys.\<close>

theorem reachable_analyses:
  assumes "init s0" and "(step env)\<^sup>*\<^sup>* s0 s" and "d = sys_db s"
  shows "length (filter (\<lambda>a. ar_task_id a = i \<and> ar_is_selected a) (analyses d)) =
      (if list_ex (\<lambda>a. ar_task_id a = i) (analyses d) then 1 else 0) \<and>
    (\<forall>a \<in> set (analyses d). \<exists>r. stored_analysis a = Inr r) \<and>
    (suggestions_of i k d = [] \<or>
     5 \<le> length (suggestions_of i k d) \<and> length (suggestions_of i k d) \<le> 8 \<and>
     distinct (map sr_suggestion_key (suggestions_of i k d)))"
proof -
  have ok: "content_ok (content_of i d)" for i
    using content.reachable_inv [OF assms(1,2)] assms(3) by (simp add: content_inv_def)
  have "length (filter (\<lambda>a. ar_task_id a = i \<and> ar_is_selected a) (analyses d)) =
      (if list_ex (\<lambda>a. ar_task_id a = i) (analyses d) then 1 else 0)"
    using ok [of i] by (auto simp: content_ok_def analyses_ok_def content_of_def list_ex_iff conj_commute filter_empty_conv)
  moreover have "\<exists>r. stored_analysis a = Inr r" if "a \<in> set (analyses d)" for a
    using ok [of "ar_task_id a"] that
    by (auto simp: content_ok_def analyses_ok_def content_of_def stored_analysis_def)
  moreover have "suggestions_of i k d = [] \<or> 5 \<le> length (suggestions_of i k d) \<and> length (suggestions_of i k d) \<le> 8 \<and>
     distinct (map sr_suggestion_key (suggestions_of i k d))"
    using ok [of i] unfolding content_ok_def suggestions_ok_def suggestions_of_content by blast
  ultimately show ?thesis by blast
qed

theorem reachable_analyses_witness:
  "length (filter (\<lambda>a. ar_task_id a = 10 \<and> ar_is_selected a) (analyses demo_running)) = 0"
  using reachable_analyses [OF demo_init_ok demo_reachable refl, of 10]
  by (simp add: demo_sys_def demo_running_def demo_queued_def demo_created_def demo_empty_def)

end
