(* ===== verification/Request_Invariant.thy ===== *)
theory Request_Invariant
  imports Content_Invariant Queue_Guarantees
begin

text \<open>
  The stored request of an operation: kind, task, inputs, hash and keys are written once by \<open>submit\<close> and
  kept by everything the handlers and the worker do afterwards. So the worker and \<open>retry\<close> always read
  back a valid submission, the one the member made, and cancelling a queued operation undoes it.
\<close>

section \<open>Units of work keep the requests\<close>

definition same_request :: "ai_operation \<Rightarrow> ai_operation \<Rightarrow> bool" where
  "same_request op op' \<longleftrightarrow> o_id op' = o_id op \<and> o_owner_id op' = o_owner_id op \<and> o_task_id op' = o_task_id op \<and>
     o_kind op' = o_kind op \<and> o_idempotency_key op' = o_idempotency_key op \<and>
     o_request_hash op' = o_request_hash op \<and> o_request_payload op' = o_request_payload op \<and>
     o_request_id op' = o_request_id op \<and> o_initial_task_state op' = o_initial_task_state op \<and>
     o_running_task_state op' = o_running_task_state op"

definition keeps_requests :: "db \<Rightarrow> db \<Rightarrow> bool" where
  "keeps_requests d d' \<longleftrightarrow> (\<forall>op' \<in> set (operations d'). \<exists>op \<in> set (operations d). same_request op op')"

lemma same_request_refl [simp]: "same_request op op"
  by (simp add: same_request_def)

lemma keeps_requests_subset: "set (operations d') \<subseteq> set (operations d) \<Longrightarrow> keeps_requests d d'"
  unfolding keeps_requests_def using same_request_refl by blast

lemma keeps_requests_same: "operations d' = operations d \<Longrightarrow> keeps_requests d d'"
  by (simp add: keeps_requests_subset)

lemma keeps_requests_map:
  assumes "operations d' = map h (operations d)" and "\<And>op. same_request op (h op)"
  shows "keeps_requests d d'"
  using assms by (auto simp: keeps_requests_def)

lemma keeps_requests_trans: "keeps_requests d d1 \<Longrightarrow> keeps_requests d1 d' \<Longrightarrow> keeps_requests d d'"
  unfolding keeps_requests_def same_request_def by metis

lemma keeps_requests_update_where:
  assumes "\<And>op. same_request op (f op)" and "operations d1 = operations d"
  shows "keeps_requests d (d1\<lparr>operations := update_where P f (operations d)\<rparr>)"
  by (rule keeps_requests_map [where h = "\<lambda>op. if P op then f op else op"]) (simp_all add: update_where_def assms)

lemma keeps_requests_save_operation:
  assumes "\<And>op. same_request op (f op)" and "operations d1 = operations d"
  shows "keeps_requests d (save_operation now i f d1)"
proof -
  have "same_request op (orm_save (touch_operation now) f op)" for op
    using assms(1) [of op] by (simp add: orm_save_def same_request_def)
  then show ?thesis
    by (intro keeps_requests_map [where h = "\<lambda>op. if o_id op = i then orm_save (touch_operation now) f op else op"])
      (simp_all add: operations_save_operation assms(2))
qed

lemma same_request_changes [simp]:
  "same_request op (mark_stale now op)" "same_request op (cancel_row now op)" "same_request op (claim_row now op)"
  "same_request op (fail_queued now e op)" "same_request op (complete_operation now res rt rid op)"
  "same_request op (fail_operation now x st op)"
  by (simp_all add: same_request_def mark_stale_def cancel_row_def claim_row_def fail_queued_def
      complete_operation_def fail_operation_def split: prod.splits)

lemma operations_release_task [simp]: "operations (release_task now op d) = operations d"
  by (simp add: release_task_def split: option.splits)

lemma keeps_requests_recover: "recover_stale_operations m now d = Inr (n, d') \<Longrightarrow> keeps_requests d d'"
proof -
  have "keeps_requests d (fold (recover_one now) ops d)" for ops d
  proof (induction ops arbitrary: d)
    case (Cons op ops)
    have "keeps_requests d (recover_one now op d)"
      unfolding recover_one_release by (rule keeps_requests_save_operation) simp_all
    with Cons show ?case using keeps_requests_trans by simp
  qed (simp add: keeps_requests_same)
  then show "recover_stale_operations m now d = Inr (n, d') \<Longrightarrow> keeps_requests d d'"
    by (auto simp: recover_stale_operations_def Let_def keeps_requests_same split: if_splits)
qed

lemma keeps_requests_recover_owners: "keeps_requests d (snd (recover_owners now jobs owners d))"
  by (induction now jobs owners d rule: recover_owners.induct)
    (auto simp: keeps_requests_same split: sum.splits intro: keeps_requests_trans [OF keeps_requests_recover])

lemma keeps_requests_begin:
  assumes wf: "jobs_wf d jobs" and m: "jobs m = Some (JobNew i)" and b: "execute_begin env lock now i d = (j, d')"
  shows "keeps_requests d d'"
proof (cases "find_operation d i")
  case (Some op)
  have free: "\<And>x. x \<in> set (running_ops d) \<Longrightarrow> o_owner_id x \<noteq> o_owner_id op"
    using no_running [OF wf m] jobs_wfD(1) [OF wf m] find_operation_Some [OF Some] by simp
  have cl: "keeps_requests d (save_task now k (\<lambda>t. t\<lparr>t_state := st\<rparr>) (claim_update now q d))" for k st q
    by (rule keeps_requests_map [where h = "\<lambda>op. if o_id op = q \<and> o_status op = QUEUED then claim_row now op else op"])
      (simp_all add: claim_update_def update_where_def)
  have "keeps_requests d d'" if "run_method env lock now op p d = (j, d')" "submission_kind p = o_kind op" for p
    using run_method_cases [OF that(1) free that(2)] cl keeps_requests_same by (auto simp: claimed_from_def)
  with b Some show ?thesis
    by (auto simp: execute_begin_def keeps_requests_same split: if_splits option.splits dest: validate_submission_kind)
qed (use b in \<open>auto simp: execute_begin_def keeps_requests_same\<close>)

lemma keeps_requests_failed: "keeps_requests d (failed_db now op e st d)"
  unfolding failed_db_def by (rule keeps_requests_save_operation) simp_all

lemma keeps_requests_end:
  assumes inv: "db_inv d" and ok: "run_ok d m r" and e: "execute_end env fresh now r d = (j, d')"
  shows "keeps_requests d d'"
proof -
  obtain op where op: "op \<in> set (running_ops d)" "o_id op = run_operation_id r" "o_task_id op = t_id (run_task r)"
    using run_ok_op [OF inv ok] by metis
  have s: "keeps_requests d (succeeded_db now op res rt rid d1)" if "persist fresh now r res d = Inr ((rt, rid), d1)"
    for res rt rid d1
    unfolding succeeded_db_def by (rule keeps_requests_save_operation) (use persist_frame [OF that] in simp_all)
  have "d' = snd (execute_finish env fresh now r d)" using e by (auto simp: execute_end_def split: prod.splits finish.splits)
  with s keeps_requests_failed execute_finish_cases [OF inv op, of env fresh now] show ?thesis
    unfolding finish_fails_def by fastforce
qed

lemma keeps_requests_cleanup: "keeps_requests d (execute_cleanup now i e d)"
proof -
  have "keeps_requests d (cleanup_changes now i e d)"
    by (rule keeps_requests_map [where h = "\<lambda>op. if o_id op = i \<and> o_status op = QUEUED then fail_queued now e op else op"])
      (simp_all add: cleanup_changes_def reset_task_def Let_def update_where_def split: option.splits)
  then show ?thesis
    by (cases "flush (cleanup_changes now i e d)")
      (simp_all add: execute_cleanup_def keeps_requests_same flush_def split: if_splits)
qed

lemma keeps_requests_cancel_waiting:
  assumes inv: "db_inv d" and wf: "jobs_wf d jobs" and m: "jobs m = Some j" and c: "cancel_waiting now j d = (j', d')"
  shows "keeps_requests d d'"
proof (cases "\<exists>r. j = JobRunning r")
  case True
  then obtain r where r: "j = JobRunning r" by blast
  obtain op t where op: "op \<in> set (running_ops d)" "find_operation d (run_operation_id r) = Some op"
    "o_id op = run_operation_id r" "o_task_id op = t_id (run_task r)" "find_task d (t_id (run_task r)) = Some t"
    using run_ok_op [OF inv jobs_wfD(2) [OF wf m [unfolded r]]] by metis
  have "d' = snd (finish_cancelled now r d)" using c r by (simp add: cancel_waiting_def)
  then obtain e st where "d' = failed_db now op e st d"
    using finish_failures(4) [OF inv op, of now] unfolding finish_fails_def by (metis snd_conv)
  then show ?thesis by (simp add: keeps_requests_failed)
next
  case False
  with c show ?thesis by (cases j) (auto simp: cancel_waiting_def keeps_requests_same)
qed

section \<open>The invariant\<close>

definition stores_request :: "submission \<Rightarrow> ai_operation \<Rightarrow> bool" where
  "stores_request p op \<longleftrightarrow> valid_submission p \<and> o_kind op = submission_kind p \<and>
     o_request_payload op = dump_submission p \<and>
     o_request_hash op = request_hash (submission_kind p) (o_task_id op) (dump_submission p)"

definition requests_ok :: "db \<Rightarrow> bool" where
  "requests_ok d \<longleftrightarrow> (\<forall>op \<in> set (operations d). \<exists>p. stores_request p op)"

lemma requests_ok_keeps: "keeps_requests d d' \<Longrightarrow> requests_ok d \<Longrightarrow> requests_ok d'"
  unfolding requests_ok_def keeps_requests_def same_request_def stores_request_def by metis

lemma stores_request_read: "stores_request p op \<Longrightarrow> validate_submission (o_kind op) (o_request_payload op) = Some p"
  by (simp add: stores_request_def submission_roundtrip)

lemma submit_requests:
  assumes "submit i now task m p key rid d = Inr (op, d')" and "db_ok d" and "task \<in> set (tasks d)"
    and "valid_submission p" and "requests_ok d"
  shows "requests_ok d'"
  using submit_Inr [OF assms(1-3)]
proof (elim disjE conjE)
  assume q: "queued_in now p task op d d'"
  let ?h = "request_hash (submission_kind p) (t_id task) (dump_submission p)"
  have "existing_operation (t_id task) m (submission_kind p) key ?h d = Inr None \<or> d' = d"
    using assms(1) by (auto simp: submit_def Let_def bind_result_eq_Inr_iff split: if_splits option.splits)
  then show ?thesis
  proof
    assume "existing_operation (t_id task) m (submission_kind p) key ?h d = Inr None"
    from submit_new [OF assms(1) this assms(2,3)] have "stores_request p op"
      using assms(4) by (simp add: stores_request_def queued_operation_def)
    with queued_in_tasks [OF q] assms(5) show ?thesis by (auto simp: requests_ok_def)
  qed (use assms(5) in simp)
qed (use assms(5) in simp)

lemma http_requests:
  assumes h: "http now fresh d d'" and inv: "db_inv d" and ok: "requests_ok d"
  shows "requests_ok d'"
proof -
  note same = requests_ok_keeps [OF keeps_requests_same ok]
  show ?thesis
    using h
  proof cases
    case (http_submit i m tid sub key rid op)
    then obtain task rid' where "submit i now task m sub key rid' d = Inr (op, d')" "task \<in> set (tasks d)"
      by (auto simp: submit_operation_eq bind_result_eq_Inr_iff execute_ai_def dest!: owned_task_Inr)
    with submit_requests [OF _ db_invD(1) [OF inv]] http_submit ok show ?thesis by blast
  next
    case (http_retry i m o' key op)
    then obtain op0 p t rid where "op0 \<in> set (operations d)"
        and v: "validate_submission (o_kind op0) (o_request_payload op0) = Some p"
        and s: "submit i now t m p key rid d = Inr (op, d')" "t \<in> set (tasks d)"
      by (auto simp: retry_ai_operation_def execute_ai_def retry_def owned_def bind_result_eq_Inr_iff
          split: if_splits dest!: find_task_Some find_Some_mem)
    with ok obtain q where "stores_request q op0" unfolding requests_ok_def by blast
    with stores_request_read [OF this] v have "valid_submission p" by (simp add: stores_request_def)
    with submit_requests [OF s(1) db_invD(1) [OF inv] s(2)] ok show ?thesis by blast
  next
    case (http_cancel m i op)
    then have "cancel now m i d = Inr (op, d')" by (simp add: cancel_ai_operation_def execute_ai_def)
    then have "keeps_requests d d'"
      by (auto simp: cancel_def Let_def bind_result_eq_Inr_iff split: if_splits
          intro!: keeps_requests_map [where h = "\<lambda>r. if o_id r = i \<and> o_status r = QUEUED then cancel_row now r else r"]
          simp: owned_def update_where_def dest!: find_Some_mem)
    with ok show ?thesis using requests_ok_keeps by blast
  next
    case (http_clear m u')
    then have "keeps_requests d d'"
      by (auto simp: clear_ai_operation_history_def clear_completed_def intro!: keeps_requests_subset)
    with ok show ?thesis using requests_ok_keeps by blast
  qed (use same inv create_preset_inv update_preset_inv delete_preset_inv create_task_inv update_task_inv copy_task_inv
      archive_task_inv restore_task_inv update_analysis_inv update_suggestion_inv create_manual_edit_inv create_lock_inv
      delete_lock_inv finalize_version_inv in metis)+
qed

text \<open>A handler keeps the requests or appends an operation.\<close>

lemma submit_appends:
  assumes "submit i now task m p key rid d = Inr (op, d')" and "db_ok d" and "task \<in> set (tasks d)"
  shows "d' = d \<or> operations d' = operations d @ [op]"
  using submit_Inr [OF assms] queued_in_tasks by blast

lemma http_operations:
  assumes h: "http now fresh d d'" and inv: "db_inv d"
  shows "keeps_requests d d' \<or> (\<exists>op. operations d' = operations d @ [op])"
proof -
  have same: "keeps_requests d d' \<or> (\<exists>op. operations d' = operations d @ [op])" if "operations d' = operations d"
    using keeps_requests_same [OF that] ..
  show ?thesis
    using h
  proof cases
    case (http_submit i m tid sub key rid op)
    then obtain task rid' where "submit i now task m sub key rid' d = Inr (op, d')" "task \<in> set (tasks d)"
      by (auto simp: submit_operation_eq bind_result_eq_Inr_iff execute_ai_def dest!: owned_task_Inr)
    with submit_appends [OF _ db_invD(1) [OF inv]] keeps_requests_same [of d d'] show ?thesis by blast
  next
    case (http_retry i m o' key op)
    then obtain p t rid where "submit i now t m p key rid d = Inr (op, d')" "t \<in> set (tasks d)"
      by (auto simp: retry_ai_operation_def execute_ai_def retry_def bind_result_eq_Inr_iff split: if_splits dest!: find_task_Some)
    with submit_appends [OF _ db_invD(1) [OF inv]] keeps_requests_same [of d d'] show ?thesis by blast
  next
    case (http_cancel m i op)
    then have "cancel now m i d = Inr (op, d')" by (simp add: cancel_ai_operation_def execute_ai_def)
    then have "keeps_requests d d'"
      by (auto simp: cancel_def Let_def bind_result_eq_Inr_iff split: if_splits
          intro!: keeps_requests_map [where h = "\<lambda>r. if o_id r = i \<and> o_status r = QUEUED then cancel_row now r else r"]
          simp: owned_def update_where_def dest!: find_Some_mem)
    then show ?thesis ..
  next
    case (http_clear m u')
    then show ?thesis by (auto simp: clear_ai_operation_history_def clear_completed_def intro!: keeps_requests_subset)
  qed (rule same, use inv create_preset_inv update_preset_inv delete_preset_inv create_task_inv
      update_task_inv copy_task_inv archive_task_inv restore_task_inv update_analysis_inv update_suggestion_inv
      create_manual_edit_inv create_lock_inv delete_lock_inv finalize_version_inv in metis)+
qed

lemma step_operations:
  assumes st: "step env s s'" and inv: "sys_inv s"
  shows "keeps_requests (sys_db s) (sys_db s') \<or> (\<exists>now. http now (unused (sys_jobs s)) (sys_db s) (sys_db s'))"
proof -
  have db: "db_inv (sys_db s)" and wf: "jobs_wf (sys_db s) (sys_jobs s)" using inv by (simp_all add: sys_inv_def)
  show ?thesis
    using st
  proof cases
    case (step_tick now d jobs d' jobs' clock)
    with tick_db [of d now jobs d' jobs'] db keeps_requests_recover_owners show ?thesis by simp
  next
    case (step_begin jobs m i lock now d j d' clock)
    with keeps_requests_begin [of d jobs m i env lock now j d'] wf show ?thesis by simp
  next
    case (step_end jobs m r fresh now d j d' clock)
    with keeps_requests_end [of d m r env fresh now j d'] jobs_wfD(2) [of d jobs m r] db wf show ?thesis by simp
  next
    case (step_cleanup jobs m i e now d d' clock)
    with keeps_requests_cleanup show ?thesis by auto
  next
    case (step_cancel_job jobs m j now d j' d' clock)
    with keeps_requests_cancel_waiting [of d jobs m j now j' d'] db wf show ?thesis by simp
  qed (auto simp: keeps_requests_same)
qed

definition request_inv :: "system \<Rightarrow> bool" where
  "request_inv s \<longleftrightarrow> sys_inv s \<and> requests_ok (sys_db s)"

lemma request_inv_init: "init s \<Longrightarrow> request_inv s"
  using sys_inv_init by (simp add: request_inv_def requests_ok_def init_def)

lemma request_inv_step:
  assumes st: "step env s s'" and inv: "request_inv s"
  shows "request_inv s'"
proof -
  have sys: "sys_inv s" and ok: "requests_ok (sys_db s)" using inv by (simp_all add: request_inv_def)
  then have "db_inv (sys_db s)" by (simp add: sys_inv_def)
  with step_operations [OF st sys] requests_ok_keeps http_requests ok have "requests_ok (sys_db s')" by blast
  with sys_inv_step [OF st sys] show ?thesis by (simp add: request_inv_def)
qed

interpretation requests: transition_system init "step env" request_inv for env
  by unfold_locales (auto intro: request_inv_init request_inv_step)

section \<open>Requests can be repeated\<close>

lemma retry_submits:
  assumes ok: "db_ok d" and op: "op \<in> set (operations d)" "o_status op = FAILED \<or> o_status op = CANCELLED"
    and p: "stores_request p op" and t: "task \<in> set (tasks d)" "t_id task = o_task_id op"
  shows "retry i now (o_owner_id op) (o_id op) key d = submit i now task (o_owner_id op) p key (o_request_id op) d"
proof -
  obtain task' where task': "task' \<in> set (tasks d)" "t_id task' = o_task_id op"
      "retry i now (o_owner_id op) (o_id op) key d = submit i now task' (o_owner_id op) p key (o_request_id op) d"
    using retry_resubmits [OF ok op, of p i now key] p by (auto simp: stores_request_def)
  moreover have "task' = task" using task_eq [OF ok task'(1) t(1)] task'(2) t(2) by simp
  ultimately show ?thesis by simp
qed

lemma submit_again:
  assumes "db_ok d" and "op \<in> set (operations d)" and "stores_request p op" and "o_idempotency_key op = Some k"
    and "t_id task = o_task_id op" and "t_owner_id task = o_owner_id op"
  shows "submit i now task (o_owner_id op) p (Some k) rid d = Inr (op, d)"
  using existing_operation_mem [OF assms(1,2), of "o_owner_id op" "o_task_id op" "submission_kind p" k] assms(3-6)
  by (simp add: submit_def Let_def op_scope_def stores_request_def)

text \<open>C15: in every reachable state each operation still holds a valid submission of its kind for its task,
  whatever has happened to it: the worker and \<open>retry\<close> read back what the member submitted, a retry of a
  failed or cancelled operation is the same submission made again, and the same submission under the same
  idempotency key gives the operation back and changes nothing.\<close>

theorem stored_request_can_be_repeated:
  assumes "init s0" and "(step env)\<^sup>*\<^sup>* s0 s" and "d = sys_db s" and "op \<in> set (operations d)"
  shows "\<exists>p. \<exists>task \<in> set (tasks d). valid_submission p \<and> t_id task = o_task_id op \<and> t_owner_id task = o_owner_id op \<and>
    validate_submission (o_kind op) (o_request_payload op) = Some p \<and>
    (o_status op = FAILED \<or> o_status op = CANCELLED \<longrightarrow>
       (\<forall>i now key. retry i now (o_owner_id op) (o_id op) key d =
          submit i now task (o_owner_id op) p key (o_request_id op) d)) \<and>
    (o_idempotency_key op \<noteq> None \<longrightarrow>
       (\<forall>i now rid. submit i now task (o_owner_id op) p (o_idempotency_key op) rid d = Inr (op, d)))"
proof -
  have "request_inv s" using requests.reachable_inv [OF assms(1,2)] .
  then have inv: "db_inv d" and "requests_ok d" using assms(3) by (simp_all add: request_inv_def sys_inv_def)
  then obtain p where p: "stores_request p op" using assms(4) unfolding requests_ok_def by blast
  note ok = db_invD(1) [OF inv]
  obtain task where t: "task \<in> set (tasks d)" "t_id task = o_task_id op" using operation_task_exists [OF ok assms(4)] by blast
  have own: "t_owner_id task = o_owner_id op" using db_invD(5) [OF inv] assms(4) t by (simp add: owners_wf_def)
  show ?thesis
    using t own p stores_request_read [OF p] retry_submits [OF ok assms(4) _ p t] submit_again [OF ok assms(4) p _ t(2) own]
    by (intro exI [of _ p] bexI [of _ task]) (auto simp: stores_request_def)
qed

theorem stored_request_can_be_repeated_witness:
  "\<exists>p. valid_submission p \<and> validate_submission ANALYSIS (o_request_payload (claim_row 8 demo_operation)) = Some p"
  using stored_request_can_be_repeated [OF demo_init_ok demo_reachable refl, of "claim_row 8 demo_operation"]
  by (auto simp: demo_sys_def demo_running_def claim_row_def demo_operation_def queued_operation_def submission_kind_def)

section \<open>Cancelling undoes submitting\<close>

text \<open>An operation keeps its request as long as it exists.\<close>

lemma step_same_request:
  assumes st: "step env s s'" and inv: "sys_inv s" and op: "op \<in> set (operations (sys_db s))"
    and op': "op' \<in> set (operations (sys_db s'))" "o_id op' = o_id op"
  shows "same_request op op'"
proof -
  have db: "db_inv (sys_db s)" using inv by (simp add: sys_inv_def)
  have kept: "same_request op op'" if "x \<in> set (operations (sys_db s))" "same_request x op'" for x
  proof -
    have "o_id x = o_id op" using that(2) op'(2) unfolding same_request_def by metis
    with operation_eq [OF db_invD(1) [OF db] that(1) op] that(2) show ?thesis by blast
  qed
  have new: "same_request op op'" if "operations (sys_db s') = operations (sys_db s) @ [y]" for y
  proof -
    have "db_inv (sys_db s')" using sys_inv_step [OF st inv] by (simp add: sys_inv_def)
    with operation_eq [OF db_invD(1), of "sys_db s'" op' op] op op' that show ?thesis by simp
  qed
  from step_operations [OF st inv] http_operations [OF _ db] show ?thesis
    using kept new op'(1) unfolding keeps_requests_def by blast
qed

lemma steps_same_request:
  assumes "(\<lambda>x y. step env x y \<and> i \<in> o_id ` set (operations (sys_db y)))\<^sup>*\<^sup>* s s'"
    and "sys_inv s" and "op \<in> set (operations (sys_db s))" and "o_id op = i"
  shows "sys_inv s' \<and> (\<exists>op' \<in> set (operations (sys_db s')). o_id op' = i \<and> same_request op op')"
  using assms
proof (induction rule: rtranclp_induct)
  case (step y z)
  then obtain op1 op2 where o: "sys_inv y" "op1 \<in> set (operations (sys_db y))" "o_id op1 = i" "same_request op op1"
    "op2 \<in> set (operations (sys_db z))" "o_id op2 = i" by auto
  have st: "step env y z" using step(2) by blast
  have "same_request op1 op2" by (rule step_same_request [OF st o(1,2,5)]) (simp add: o)
  with o have "same_request op op2" by (simp add: same_request_def)
  with sys_inv_step [OF st o(1)] o(5,6) show ?case by blast
qed auto

lemma submit_queues:
  assumes "submit_operation i now m tid p key rid d = Inr (op, d1)" and ok: "db_ok d"
    and new: "i \<notin> o_id ` set (operations d)" "o_id op = i"
  shows "\<exists>task. owned_task tid m d = Inr task \<and> queued_in now p task op d d1 \<and> o_owner_id op = m"
proof -
  obtain task rid' where task: "owned_task tid m d = Inr task" and s: "submit i now task m p key rid' d = Inr (op, d1)"
    using assms(1) by (auto simp: submit_operation_eq bind_result_eq_Inr_iff execute_ai_def)
  note t = owned_task_Inr [OF task]
  have "queued_in now p task op d d1" using submit_Inr [OF s ok] t new by auto
  moreover from this have "o_owner_id op = m" using t by (simp add: queued_in_def)
  ultimately show ?thesis using task by blast
qed

text \<open>C14: cancelling undoes a submission, with or without idempotency key. A submission stores the decisions
  it carries, puts the task into the AI state of its kind and appends the operation, nothing else. However
  the backend goes on, while the operation exists and is queued the member can cancel it: it is marked
  cancelled, its task goes from the AI state back into the state it had before the submission, and nothing
  else changes, stored decisions included. If no task has changed in between, every task is as it was
  before the submission, apart from modification times.\<close>

theorem cancel_undoes_submit:
  assumes "init s0" and "(step env)\<^sup>*\<^sup>* s0 s" and "submit_operation i now m tid p key rid (sys_db s) = Inr (op, d1)"
    and "valid_submission p" and "unused (sys_jobs s) i" and "sys_clock s \<le> now"
    and "i \<notin> o_id ` set (operations (sys_db s))" and "o_id op = i"
    and "(\<lambda>x y. step env x y \<and> i \<in> o_id ` set (operations (sys_db y)))\<^sup>*\<^sup>* (s\<lparr>sys_db := d1, sys_clock := now\<rparr>) s'"
    and "row \<in> set (operations (sys_db s'))" and "o_id row = i" and "o_status row = QUEUED"
  shows "\<exists>task d0 d'. owned_task tid m (sys_db s) = Inr task \<and>
    apply_suggestion_snapshot now tid p (sys_db s) = Inr d0 \<and> d1 = enqueue now task op d0 \<and>
    cancel_ai_operation now' m i (sys_db s') = Inr (cancel_row now' row, d') \<and>
    d'\<lparr>tasks := [], operations := []\<rparr> = (sys_db s')\<lparr>tasks := [], operations := []\<rparr> \<and>
    operations d' = map (\<lambda>r. if o_id r = i then cancel_row now' r else r) (operations (sys_db s')) \<and>
    map untouched (tasks d') =
      map (\<lambda>t. untouched (if t_id t = tid \<and> t_state t = running_state (submission_kind p)
                        then t\<lparr>t_state := t_state task\<rparr> else t)) (tasks (sys_db s')) \<and>
    (tasks (sys_db s') = tasks d1 \<longrightarrow> map untouched (tasks d') = map untouched (tasks (sys_db s)))"
proof -
  let ?d = "sys_db s" and ?s1 = "s\<lparr>sys_db := d1, sys_clock := now\<rparr>"
  have inv: "db_inv ?d" using backend.reachable_inv [OF assms(1,2)] by (simp add: sys_inv_def)
  obtain task where task: "owned_task tid m ?d = Inr task" and q: "queued_in now p task op ?d d1" and own: "o_owner_id op = m"
    using submit_queues [OF assms(3) db_invD(1) [OF inv] assms(7,8)] by blast
  note t = owned_task_Inr [OF task] and t1 = queued_in_tasks [OF q]
  obtain ss where d0: "apply_suggestion_snapshot now tid p ?d = Inr (?d\<lparr>suggestions := ss\<rparr>)"
    "d1 = enqueue now task op (?d\<lparr>suggestions := ss\<rparr>)" using q t by (auto simp: queued_in_def)
  have "step env s ?s1"
    using step_http [OF http_submit [where i = i and fresh = "unused (sys_jobs s)", OF assms(3,4,5)] assms(6), of env] by (cases s) simp
  with assms(2) have "(step env)\<^sup>*\<^sup>* s0 ?s1" by (rule rtranclp.rtrancl_into_rtrancl)
  then have "sys_inv ?s1" by (rule backend.reachable_inv [OF assms(1)])
  from steps_same_request [OF assms(9) this, of op] t1 assms(8) obtain op' where
    inv': "sys_inv s'" and op': "op' \<in> set (operations (sys_db s'))" "o_id op' = i" "same_request op op'" by auto
  have ok': "db_ok (sys_db s')" using inv' db_invD(1) by (simp add: sys_inv_def)
  have "op' = row" using operation_eq [OF ok' op'(1) assms(10)] op'(2) assms(11) by simp
  then have row: "o_owner_id row = m" "o_task_id row = tid" "o_initial_task_state row = t_state task"
      "o_running_task_state row = running_state (submission_kind p)"
    using op'(3) q own t by (simp_all add: same_request_def queued_in_def)
  obtain d' where c: "cancel now' m i (sys_db s') = Inr (cancel_row now' row, d')"
      "d'\<lparr>tasks := [], operations := []\<rparr> = (sys_db s')\<lparr>tasks := [], operations := []\<rparr>"
      "operations d' = map (\<lambda>r. if o_id r = i then cancel_row now' r else r) (operations (sys_db s'))"
      "map untouched (tasks d') = map (\<lambda>t. untouched (t\<lparr>t_state := put_back row t\<rparr>)) (tasks (sys_db s'))"
    using cancel_queued [OF ok' assms(10,12), of now'] row(1) assms(11) by auto
  have put: "t\<lparr>t_state := put_back row t\<rparr> = (if t_id t = tid \<and> t_state t = running_state (submission_kind p)
      then t\<lparr>t_state := t_state task\<rparr> else t)" for t
    by (simp add: put_back_def row)
  have "map untouched (tasks d') = map untouched (tasks ?d)" if "tasks (sys_db s') = tasks d1"
  proof -
    let ?g = "\<lambda>r. if t_id r = t_id task then orm_save (touch_task now) (\<lambda>r. r\<lparr>t_state := o_running_task_state op\<rparr>) r else r"
    have "untouched (?g r\<lparr>t_state := put_back row (?g r)\<rparr>) = untouched r" if "r \<in> set (tasks ?d)" for r
    proof (cases "t_id r = t_id task")
      case True
      with task_eq [OF db_invD(1) [OF inv] that] t have "r = task" by blast
      with q t show ?thesis by (simp add: put_back_def row queued_in_def orm_save_def)
    qed (use t in \<open>simp add: put_back_def row\<close>)
    with c(4) that t1 show ?thesis by simp
  qed
  then show ?thesis
    using task d0 c unfolding put
    by (intro exI [of _ task] exI [of _ "?d\<lparr>suggestions := ss\<rparr>"] exI [of _ d']) (simp add: cancel_ai_operation_def execute_ai_def)
qed

theorem cancel_undoes_submit_witness:
  "\<exists>d'. cancel_ai_operation 9 1 20 demo_queued = Inr (cancel_row 9 demo_operation, d') \<and>
     map untouched (tasks d') = map untouched (tasks demo_created)"
proof -
  let ?s = "\<lparr>sys_db = demo_created, sys_jobs = Map.empty, sys_clock = 5\<rparr>"
  have "step demo_env demo_init ?s" unfolding demo_init_def by (rule step_http [OF demo_http_create]) simp
  then have r: "(step demo_env)\<^sup>*\<^sup>* demo_init ?s" by blast
  have "owned_task 10 1 demo_created = Inr demo_task" by (simp add: owned_task_def repo_get_owned_def demo_defs)
  then have s: "submit_operation 20 6 1 10 AnalysisSubmit None None (sys_db ?s) = Inr (demo_operation, demo_queued)"
    using demo_submit [of None None]
    by (simp add: submit_operation_eq fits_column_def) (simp add: demo_queued_def demo_operation_def demo_keyed_def)
  have ids: "o_id demo_operation = 20" "operations demo_queued = [demo_operation]" "o_status demo_operation = QUEUED"
    "operations demo_created = []" by (simp_all add: demo_defs)
  have "valid_submission AnalysisSubmit" "unused (sys_jobs ?s) 20" by (simp_all add: valid_submission_def unused_def)
  from cancel_undoes_submit [OF demo_init_ok r s this _ _ _ rtranclp.rtrancl_refl, of demo_operation 9] ids
  show ?thesis by auto
qed

end
