(* ===== verification/Task_Views.thy ===== *)
theory Task_Views
  imports Content_Invariant Demo_System
begin

text \<open>
  The response models of src/backend/app/modules/tasks/schemas.py: what a handler's rows become before
  they are sent. Building a response validates it; \<open>None\<close> is the \<open>ResponseValidationError\<close> that turns
  the answer into a 500. The theorem says which stored rows can be answered.
\<close>

section \<open>Response models\<close>

record task_summary =
  sv_id :: uuid
  sv_name :: pystr
  sv_state :: task_state
  sv_created_at :: instant
  sv_updated_at :: instant
  sv_finalized_at :: "instant option"

record task_detail = task_summary +
  sv_source_text :: pystr
  sv_creative_settings :: creative_settings

definition task_summary_of :: "rewrite_task \<Rightarrow> task_summary" where
  "task_summary_of t =
     \<lparr>sv_id = t_id t, sv_name = t_name t, sv_state = t_state t, sv_created_at = t_created_at t,
      sv_updated_at = t_updated_at t, sv_finalized_at = t_finalized_at t\<rparr>"

definition valid_settings :: "creative_settings option \<Rightarrow> creative_settings option" where
  "valid_settings s = (case s of Some c \<Rightarrow> if valid_creative_settings c then Some c else None | None \<Rightarrow> None)"

definition task_detail_of :: "rewrite_task \<Rightarrow> task_detail option" where
  "task_detail_of t =
     map_option (\<lambda>c. task_summary.extend (task_summary_of t)
         \<lparr>sv_source_text = t_source_text t, sv_creative_settings = c\<rparr>)
       (valid_settings (t_creative_settings t))"

record preset_view =
  pv_id :: uuid
  pv_name :: pystr
  pv_settings :: creative_settings
  pv_created_at :: instant
  pv_updated_at :: instant

definition preset_view_of :: "creative_preset \<Rightarrow> preset_view option" where
  "preset_view_of p =
     map_option (\<lambda>c. \<lparr>pv_id = cp_id p, pv_name = cp_name p, pv_settings = c, pv_created_at = cp_created_at p,
        pv_updated_at = cp_updated_at p\<rparr>) (valid_settings (Some (cp_settings p)))"

record suggestion_view =
  sgv_id :: uuid
  sgv_analysis_id :: uuid
  sgv_suggestion_key :: pystr
  sgv_analysis_issue_ids :: "pystr list"
  sgv_priority :: suggestion_priority
  sgv_title :: pystr
  sgv_problem :: pystr
  sgv_direction :: pystr
  sgv_reason :: pystr
  sgv_impact_scope :: pystr
  sgv_example :: "pystr option"
  sgv_decision :: suggestion_decision
  sgv_member_note :: "pystr option"

definition suggestion_view_of :: "suggestion_record \<Rightarrow> suggestion_view" where
  "suggestion_view_of s =
     \<lparr>sgv_id = sr_id s, sgv_analysis_id = sr_analysis_id s, sgv_suggestion_key = sr_suggestion_key s,
      sgv_analysis_issue_ids = sr_analysis_issue_ids s, sgv_priority = sr_priority s, sgv_title = sr_title s,
      sgv_problem = sr_problem s, sgv_direction = sr_direction s, sgv_reason = sr_reason s,
      sgv_impact_scope = sr_impact_scope s, sgv_example = sr_example s, sgv_decision = sr_decision s,
      sgv_member_note = sr_member_note s\<rparr>"

text \<open>\<open>payload: dict[str, Any]\<close> takes any JSON object.\<close>

record analysis_view =
  anv_id :: uuid
  anv_sequence :: int
  anv_payload :: "(pystr \<times> json) list"
  anv_member_notes :: "pystr option"
  anv_is_selected :: bool
  anv_prompt_template_version :: pystr
  anv_model_identifier :: pystr
  anv_created_at :: instant

definition analysis_view_of :: "analysis_record \<Rightarrow> analysis_view option" where
  "analysis_view_of a =
     (case ar_payload a of
        JObj ms \<Rightarrow> Some
          \<lparr>anv_id = ar_id a, anv_sequence = ar_sequence a, anv_payload = ms, anv_member_notes = ar_member_notes a,
           anv_is_selected = ar_is_selected a, anv_prompt_template_version = ar_prompt_template_version a,
           anv_model_identifier = ar_model_identifier a, anv_created_at = ar_created_at a\<rparr>
      | _ \<Rightarrow> None)"

record ai_operation_view =
  ov_id :: uuid
  ov_task_id :: uuid
  ov_task_name :: pystr
  ov_kind :: ai_operation_kind
  ov_status :: ai_operation_status
  ov_resource_type :: "pystr option"
  ov_resource_id :: "uuid option"
  ov_error_code :: "pystr option"
  ov_error_message :: "pystr option"
  ov_error_details :: "(pystr \<times> json) list"
  ov_created_at :: instant
  ov_started_at :: "instant option"
  ov_completed_at :: "instant option"

definition ai_operation_view_of :: "ai_operation \<Rightarrow> ai_operation_view" where
  "ai_operation_view_of op =
     \<lparr>ov_id = o_id op, ov_task_id = o_task_id op, ov_task_name = o_task_name op, ov_kind = o_kind op,
      ov_status = o_status op, ov_resource_type = o_resource_type op, ov_resource_id = o_resource_id op,
      ov_error_code = o_error_code op, ov_error_message = o_error_message op,
      ov_error_details = o_error_details op, ov_created_at = o_created_at op,
      ov_started_at = o_started_at op, ov_completed_at = o_completed_at op\<rparr>"

record locked_fragment_view =
  lv_id :: uuid
  lv_source_version_id :: uuid
  lv_text :: pystr
  lv_start_offset :: int
  lv_end_offset :: int
  lv_order_index :: int
  lv_note :: "pystr option"

definition locked_fragment_view_of :: "locked_fragment \<Rightarrow> locked_fragment_view" where
  "locked_fragment_view_of l =
     \<lparr>lv_id = l_id l, lv_source_version_id = l_source_version_id l, lv_text = l_text l,
      lv_start_offset = l_start_offset l, lv_end_offset = l_end_offset l, lv_order_index = l_order_index l,
      lv_note = l_note l\<rparr>"

record version_view =
  vv_id :: uuid
  vv_parent_id :: "uuid option"
  vv_kind :: version_kind
  vv_content :: pystr
  vv_instruction :: "pystr option"
  vv_provenance :: "(pystr \<times> json) list"
  vv_validation_status :: validation_status
  vv_validation_details :: "(pystr \<times> json) list"
  vv_is_current_final :: bool
  vv_created_at :: instant

definition version_view_of :: "script_version \<Rightarrow> version_view" where
  "version_view_of v =
     \<lparr>vv_id = v_id v, vv_parent_id = v_parent_id v, vv_kind = v_kind v, vv_content = v_content v,
      vv_instruction = v_instruction v, vv_provenance = v_provenance v,
      vv_validation_status = v_validation_status v, vv_validation_details = v_validation_details v,
      vv_is_current_final = v_is_current_final v, vv_created_at = v_created_at v\<rparr>"

record version_compare_response =
  vcr_left_version_id :: uuid
  vcr_right_version_id :: uuid
  vcr_diff :: pystr

definition version_compare_response_of :: "uuid \<times> uuid \<times> pystr \<Rightarrow> version_compare_response" where
  "version_compare_response_of c =
     (case c of (left, right, diff) \<Rightarrow>
        \<lparr>vcr_left_version_id = left, vcr_right_version_id = right, vcr_diff = diff\<rparr>)"

text \<open>\<open>task_exception_handler\<close> answers a \<open>TaskApiError\<close>; no handler is registered for any other exception.\<close>

definition task_exception_response :: "task_exc \<Rightarrow> int \<times> json" where
  "task_exception_response e =
     (case e of
        TaskApiError code message status details \<Rightarrow>
          (status, JObj [(tx ''error'', JObj [(tx ''code'', JStr (tx code)), (tx ''message'', JStr message),
             (tx ''details'', JObj details)])])
      | _ \<Rightarrow> (500, JStr (tx ''Internal Server Error'')))"

section \<open>Settings of tasks and presets\<close>

text \<open>No unit of work but the four handlers that take settings brings new ones into the tables.\<close>

definition keeps_settings :: "db \<Rightarrow> db \<Rightarrow> bool" where
  "keeps_settings d d' \<longleftrightarrow>
     t_creative_settings ` set (tasks d') \<subseteq> t_creative_settings ` set (tasks d) \<and>
     cp_settings ` set (presets d') \<subseteq> cp_settings ` set (presets d)"

definition settings_ok :: "db \<Rightarrow> bool" where
  "settings_ok d \<longleftrightarrow>
     list_all (\<lambda>t. case t_creative_settings t of None \<Rightarrow> True | Some c \<Rightarrow> valid_creative_settings c) (tasks d) \<and>
     list_all (\<lambda>p. valid_creative_settings (cp_settings p)) (presets d)"

lemma keeps_settings_refl [simp]: "keeps_settings d d"
  by (simp add: keeps_settings_def)

lemma keeps_settings_trans: "keeps_settings d d' \<Longrightarrow> keeps_settings d' d'' \<Longrightarrow> keeps_settings d d''"
  unfolding keeps_settings_def by blast

lemma keeps_settings_ok:
  assumes "keeps_settings d d'" and "settings_ok d" shows "settings_ok d'"
proof -
  have "\<exists>t0 \<in> set (tasks d). t_creative_settings t = t_creative_settings t0" if "t \<in> set (tasks d')" for t
    using assms(1) that unfolding keeps_settings_def by blast
  moreover have "\<exists>p0 \<in> set (presets d). cp_settings p = cp_settings p0" if "p \<in> set (presets d')" for p
    using assms(1) that unfolding keeps_settings_def by blast
  ultimately show ?thesis using assms(2) unfolding settings_ok_def list_all_iff by metis
qed

lemma keeps_settings_tasks:
  assumes "tasks d' = map g (tasks d)" and "\<And>t. t_creative_settings (g t) = t_creative_settings t"
    and "presets d' = presets d"
  shows "keeps_settings d d'"
  using assms by (auto simp: keeps_settings_def)

lemma keeps_settings_same: "tasks d' = tasks d \<Longrightarrow> presets d' = presets d \<Longrightarrow> keeps_settings d d'"
  by (simp add: keeps_settings_def)


lemma keeps_save_task [simp]:
  assumes "\<And>t. t_creative_settings (f t) = t_creative_settings t"
  shows "keeps_settings d (save_task now i f d)"
  by (rule keeps_settings_tasks [OF tasks_save_task]) (use assms in \<open>auto simp: orm_save_def\<close>)

lemma keeps_operations [simp]: "keeps_settings d (d1\<lparr>operations := ops\<rparr>) \<longleftrightarrow> keeps_settings d d1"
  by (simp add: keeps_settings_def)

lemma keeps_save_operation [simp]: "keeps_settings d (save_operation now i f d)"
  by (simp add: keeps_settings_same)

lemma keeps_release_task [simp]: "keeps_settings d (release_task now op d)"
  by (simp add: release_task_def split: option.splits)

lemma keeps_recover: "recover_stale_operations m now d = Inr (n, d') \<Longrightarrow> keeps_settings d d'"
proof -
  have "keeps_settings d (fold (recover_one now) ops d)" for ops d
  proof (induction ops arbitrary: d)
    case (Cons op ops)
    have "keeps_settings d (recover_one now op d)"
      unfolding recover_one_release by (rule keeps_settings_trans [OF keeps_release_task keeps_save_operation])
    with Cons show ?case using keeps_settings_trans by simp
  qed simp
  then show "recover_stale_operations m now d = Inr (n, d') \<Longrightarrow> keeps_settings d d'"
    by (auto simp: recover_stale_operations_def Let_def split: if_splits)
qed

lemma keeps_recover_owners: "keeps_settings d (snd (recover_owners now jobs owners d))"
  by (induction now jobs owners d rule: recover_owners.induct)
    (auto split: sum.splits intro: keeps_settings_trans [OF keeps_recover])

lemma keeps_claim: "keeps_settings d (save_task now k (\<lambda>t. t\<lparr>t_state := st\<rparr>) (claim_update now q d))"
  by (rule keeps_settings_trans [OF _ keeps_save_task]) (simp_all add: claim_update_def)

lemma keeps_persist: "persist fresh now r res d = Inr (x, d') \<Longrightarrow> keeps_settings d d'"
  by (auto simp: persist_def persist_analysis_def persist_suggestions_def persist_version_def Let_def
      bind_result_eq_Inr_iff map_ok_Inr keeps_settings_same split: service_result.splits prepared.splits)

lemma keeps_failed [simp]: "keeps_settings d (failed_db now op e st d)"
  unfolding failed_db_def by (rule keeps_settings_trans [OF keeps_save_task keeps_save_operation]) simp

lemma keeps_end:
  assumes inv: "db_inv d" and ok: "run_ok d m r" and e: "execute_end env fresh now r d = (j, d')"
  shows "keeps_settings d d'"
proof -
  obtain op where op: "op \<in> set (running_ops d)" "o_id op = run_operation_id r" "o_task_id op = t_id (run_task r)"
    using run_ok_op [OF inv ok] by metis
  have s: "keeps_settings d (succeeded_db now op res rt rid d1)" if "persist fresh now r res d = Inr ((rt, rid), d1)"
    for res rt rid d1
    unfolding succeeded_db_def
    by (rule keeps_settings_trans [OF keeps_settings_trans [OF keeps_persist [OF that] keeps_save_task] keeps_save_operation]) simp
  have "d' = snd (execute_finish env fresh now r d)" using e by (auto simp: execute_end_def split: prod.splits finish.splits)
  with s execute_finish_cases [OF inv op, of env fresh now] show ?thesis
    unfolding finish_fails_def by fastforce
qed

lemma keeps_cleanup: "keeps_settings d (execute_cleanup now i e d)"
proof -
  have "keeps_settings d (reset_task now op d)" for op
    by (rule keeps_settings_tasks [OF tasks_reset_task]) (simp_all add: reset_task_def)
  then have "keeps_settings d (cleanup_changes now i e d)"
    by (auto simp: cleanup_changes_def Let_def intro: keeps_settings_trans split: option.splits)
  then show ?thesis by (cases "flush (cleanup_changes now i e d)") (simp_all add: execute_cleanup_def flush_def split: if_splits)
qed

section \<open>Handlers\<close>

lemma keeps_snapshot: "apply_suggestion_snapshot now k p d = Inr d1 \<Longrightarrow> keeps_settings d d1"
  by (auto simp: apply_suggestion_snapshot_def keeps_settings_same split: if_splits option.splits)

lemma keeps_enqueue: "keeps_settings d d1 \<Longrightarrow> keeps_settings d (enqueue now t op d1)"
  unfolding enqueue_def by (rule keeps_settings_trans [OF _ keeps_save_task]) simp_all

lemma keeps_submit: "submit i now t m p key rid d = Inr (op, d') \<Longrightarrow> keeps_settings d d'"
  by (auto simp: submit_def Let_def bind_result_eq_Inr_iff flush_def keeps_enqueue [OF keeps_snapshot]
      split: option.splits sum.splits task_exc.splits if_splits)

lemma settings_ok_preset_handlers:
  assumes "settings_ok d"
  shows "create_preset i now m pc d = Inr (r, d') \<Longrightarrow> valid_creative_settings (prc_settings pc) \<Longrightarrow> settings_ok d'"
    and "update_preset now m i pu d = Inr (r, d') \<Longrightarrow>
      (\<forall>c. pru_settings pu = Some c \<longrightarrow> valid_creative_settings c) \<Longrightarrow> settings_ok d'"
proof -
  show "create_preset i now m pc d = Inr (r, d') \<Longrightarrow> valid_creative_settings (prc_settings pc) \<Longrightarrow> settings_ok d'"
    using assms by (auto simp: frame_defs settings_ok_def bind_result_eq_Inr_iff Let_def)
  assume u: "update_preset now m i pu d = Inr (r, d')" "\<forall>c. pru_settings pu = Some c \<longrightarrow> valid_creative_settings c"
  then obtain p where p: "preset_get_owned i m d = Inr p" and r: "replace_settings now p (pru_name pu) (pru_settings pu) d = Inr (r, d')"
    by (auto simp: update_preset_def bind_result_eq_Inr_iff)
  have "p \<in> set (presets d)" using p by (auto simp: preset_get_owned_def dest!: find_Some_mem)
  then have "valid_creative_settings (cp_settings r)"
    using r u(2) assms
    by (auto simp: replace_settings_def Let_def bind_result_eq_Inr_iff orm_save_def settings_ok_def list_all_iff
        split: option.splits if_splits)
  moreover have "d' = d\<lparr>presets := update_where (\<lambda>x. cp_id x = cp_id p) (\<lambda>_. r) (presets d)\<rparr>"
    using r by (auto simp: replace_settings_def Let_def bind_result_eq_Inr_iff)
  ultimately show "settings_ok d'" using assms by (auto simp: settings_ok_def list_all_iff update_where_def)
qed


lemma settings_ok_create_task:
  assumes "settings_ok d" and "create_task i now m c d = Inr (t, d')" and "valid_creative_settings (tc_creative_settings c)"
  shows "settings_ok d'"
  using assms by (auto simp: frame_defs settings_ok_def bind_result_eq_Inr_iff Let_def new_task_def)

lemma settings_ok_update_task:
  assumes "settings_ok d" and "update_task now m i tu d = Inr (r, d')"
    and "\<forall>c. tu_creative_settings tu = Some (Some c) \<longrightarrow> valid_creative_settings c"
  shows "settings_ok d'"
proof -
  from assms(2) obtain t where t: "t \<in> set (tasks d)" and u: "repo_update_draft now t tu d = Inr (r, d')"
    by (auto simp: update_task_def bind_result_eq_Inr_iff dest!: owned_task_Inr)
  have "case t_creative_settings r of None \<Rightarrow> True | Some c \<Rightarrow> valid_creative_settings c"
    using u t assms(1,3)
    by (auto simp: repo_update_draft_def apply_task_update_def Let_def bind_result_eq_Inr_iff orm_save_def settings_ok_def
        list_all_iff split: option.splits if_splits)
  moreover note repo_update_draft_Inr [OF u]
  ultimately show ?thesis using assms(1) by (auto simp: settings_ok_def list_all_iff update_where_def)
qed

lemma keeps_other_handlers:
  "delete_preset m i d = Inr (u, d') \<Longrightarrow> keeps_settings d d'"
  "copy_task i now m s d = Inr (t, d') \<Longrightarrow> keeps_settings d d'"
  "archive_task now m i d = Inr (t, d') \<Longrightarrow> keeps_settings d d'"
  "restore_task now m i d = Inr (t, d') \<Longrightarrow> keeps_settings d d'"
  "clear_ai_operation_history m d = Inr (u, d') \<Longrightarrow> keeps_settings d d'"
  "cancel now m i d = Inr (op, d') \<Longrightarrow> keeps_settings d d'"
proof -
  have copied: "keeps_settings d d'" if "repo_copy i now source m d = Inr (t, d')" "source \<in> set (tasks d)" for source
  proof -
    from that(1) obtain c where "t_creative_settings source = Some c" "tasks d' = tasks d @ [t]" "t_creative_settings t = Some c"
      "presets d' = presets d"
      by (auto simp: repo_copy_def bind_result_eq_Inr_iff Let_def add_task_def new_task_def split: option.splits)
    with imageI [OF that(2), of t_creative_settings] show ?thesis by (simp add: keeps_settings_def)
  qed
  show "copy_task i now m s d = Inr (t, d') \<Longrightarrow> keeps_settings d d'"
    by (auto simp: copy_task_def bind_result_eq_Inr_iff intro: copied dest!: owned_task_Inr)
  show "cancel now m i d = Inr (op, d') \<Longrightarrow> keeps_settings d d'"
    by (auto simp: cancel_def Let_def bind_result_eq_Inr_iff intro: keeps_settings_trans [OF _ keeps_release_task] split: if_splits)
  have stored: "keeps_settings d d'" if "store_snapshot now task sn d = Inr (t, d')" for task sn
    using that by (auto simp: store_snapshot_def Let_def)
  show "archive_task now m i d = Inr (t, d') \<Longrightarrow> keeps_settings d d'"
    "restore_task now m i d = Inr (t, d') \<Longrightarrow> keeps_settings d d'"
    by (auto simp: archive_task_def restore_task_def bind_result_eq_Inr_iff intro: stored)
qed (auto simp: frame_defs bind_result_eq_Inr_iff keeps_settings_def)

lemma keeps_content_handlers:
  "update_analysis now m t i cor d = Inr (a, d') \<Longrightarrow> keeps_settings d d'"
  "update_suggestion now m t i su d = Inr (s, d') \<Longrightarrow> keeps_settings d d'"
  "create_manual_edit i now m t vid me d = Inr (v, d') \<Longrightarrow> keeps_settings d d'"
  "create_lock i now m t vid lc d = Inr (l, d') \<Longrightarrow> keeps_settings d d'"
  "delete_lock m t i d = Inr (u, d') \<Longrightarrow> keeps_settings d d'"
  "finalize_version aware now m t vid d = Inr (v, d') \<Longrightarrow> keeps_settings d d'"
proof -
  show "update_analysis now m t i cor d = Inr (a, d') \<Longrightarrow> keeps_settings d d'"
    by (auto simp: update_analysis_def bind_result_eq_Inr_iff Let_def intro: keeps_settings_same split: option.splits)
  show "update_suggestion now m t i su d = Inr (s, d') \<Longrightarrow> keeps_settings d d'"
    by (auto simp: update_suggestion_def bind_result_eq_Inr_iff Let_def intro: keeps_settings_same split: option.splits)
  show "create_manual_edit i now m t vid me d = Inr (v, d') \<Longrightarrow> keeps_settings d d'"
    by (auto simp: create_manual_edit_def bind_result_eq_Inr_iff Let_def
        intro: keeps_settings_same keeps_settings_trans [OF keeps_settings_same keeps_save_task] split: option.splits if_splits)
  show "create_lock i now m t vid lc d = Inr (l, d') \<Longrightarrow> keeps_settings d d'"
    by (auto simp: create_lock_def bind_result_eq_Inr_iff Let_def intro: keeps_settings_same split: option.splits)
  show "delete_lock m t i d = Inr (u, d') \<Longrightarrow> keeps_settings d d'"
    by (auto simp: delete_lock_def bind_result_eq_Inr_iff intro: keeps_settings_same split: if_splits)
  show "finalize_version aware now m t vid d = Inr (v, d') \<Longrightarrow> keeps_settings d d'"
    by (auto simp: finalize_version_def bind_result_eq_Inr_iff Let_def
        intro: keeps_settings_trans [OF keeps_settings_same keeps_save_task])
qed

lemma http_settings:
  assumes "http now fresh d d'" and ok: "settings_ok d"
  shows "settings_ok d'"
proof -
  note keep = keeps_settings_ok [OF _ ok]
  show ?thesis
    using assms(1)
  proof cases
    case http_create_preset
    with settings_ok_preset_handlers(1) [OF ok] show ?thesis by blast
  next
    case http_update_preset
    with settings_ok_preset_handlers(2) [OF ok] show ?thesis by blast
  next
    case http_create_task
    with settings_ok_create_task [OF ok] show ?thesis by blast
  next
    case http_update_task
    with settings_ok_update_task [OF ok] show ?thesis by blast
  next
    case http_submit
    then show ?thesis by (auto simp: submit_operation_eq bind_result_eq_Inr_iff intro: keep keeps_submit)
  next
    case http_retry
    then show ?thesis
      by (auto simp: retry_ai_operation_def retry_def bind_result_eq_Inr_iff intro: keep keeps_submit split: if_splits)
  next
    case http_cancel
    then show ?thesis using keep [OF keeps_other_handlers(6)] by (simp add: cancel_ai_operation_def)
  next
    case http_delete_preset
    then show ?thesis by (rule keep [OF keeps_other_handlers(1)])
  next
    case http_copy_task
    then show ?thesis by (rule keep [OF keeps_other_handlers(2)])
  next
    case http_archive_task
    then show ?thesis by (rule keep [OF keeps_other_handlers(3)])
  next
    case http_restore_task
    then show ?thesis by (rule keep [OF keeps_other_handlers(4)])
  next
    case http_clear
    then show ?thesis by (rule keep [OF keeps_other_handlers(5)])
  next
    case http_update_analysis
    from keep [OF keeps_content_handlers(1) [OF http_update_analysis(1)]] show ?thesis .
  next
    case http_update_suggestion
    then show ?thesis by (rule keep [OF keeps_content_handlers(2)])
  next
    case http_manual_edit
    then show ?thesis by (rule keep [OF keeps_content_handlers(3)])
  next
    case http_create_lock
    then show ?thesis by (rule keep [OF keeps_content_handlers(4)])
  next
    case http_delete_lock
    then show ?thesis by (rule keep [OF keeps_content_handlers(5)])
  next
    case http_finalize
    then show ?thesis by (rule keep [OF keeps_content_handlers(6)])
  qed
qed


section \<open>Reachable settings\<close>

lemma keeps_begin:
  assumes wf: "jobs_wf d jobs" and m: "jobs m = Some (JobNew i)" and b: "execute_begin env lock now i d = (j, d')"
  shows "keeps_settings d d'"
proof (cases "find_operation d i")
  case (Some op)
  have free: "\<And>x. x \<in> set (running_ops d) \<Longrightarrow> o_owner_id x \<noteq> o_owner_id op"
    using no_running [OF wf m] jobs_wfD(1) [OF wf m] find_operation_Some [OF Some] by simp
  have "keeps_settings d d'" if "run_method env lock now op p d = (j, d')" "submission_kind p = o_kind op" for p
    using run_method_cases [OF that(1) free that(2)] keeps_claim by (auto simp: claimed_from_def)
  with b Some show ?thesis
    by (auto simp: execute_begin_def split: if_splits option.splits dest: validate_submission_kind)
qed (use b in \<open>auto simp: execute_begin_def\<close>)

lemma keeps_cancel_waiting:
  assumes inv: "db_inv d" and wf: "jobs_wf d jobs" and m: "jobs m = Some j" and c: "cancel_waiting now j d = (j', d')"
  shows "keeps_settings d d'"
proof (cases "\<exists>r. j = JobRunning r")
  case True
  then obtain r where r: "j = JobRunning r" by blast
  obtain op t where op: "op \<in> set (running_ops d)" "find_operation d (run_operation_id r) = Some op"
    "o_id op = run_operation_id r" "o_task_id op = t_id (run_task r)" "find_task d (t_id (run_task r)) = Some t"
    using run_ok_op [OF inv jobs_wfD(2) [OF wf m [unfolded r]]] by metis
  have "d' = snd (finish_cancelled now r d)" using c r by (simp add: cancel_waiting_def)
  then obtain e st where "d' = failed_db now op e st d"
    using finish_failures(4) [OF inv op, of now] unfolding finish_fails_def by (metis snd_conv)
  then show ?thesis by simp
next
  case False
  with c show ?thesis by (cases j) (auto simp: cancel_waiting_def)
qed

definition settings_inv :: "system \<Rightarrow> bool" where
  "settings_inv s \<longleftrightarrow> sys_inv s \<and> settings_ok (sys_db s)"

lemma settings_inv_init: "init s \<Longrightarrow> presets (sys_db s) = [] \<Longrightarrow> settings_inv s"
  using sys_inv_init by (auto simp: settings_inv_def settings_ok_def init_def)

lemma settings_inv_step:
  assumes st: "step env s s'" and inv: "settings_inv s"
  shows "settings_inv s'"
proof -
  have db: "db_inv (sys_db s)" and wf: "jobs_wf (sys_db s) (sys_jobs s)" and ok: "settings_ok (sys_db s)"
    using inv by (simp_all add: settings_inv_def sys_inv_def)
  note keep = keeps_settings_ok [OF _ ok]
  have "settings_ok (sys_db s')"
    using st
  proof cases
    case (step_http now jobs d d' clock)
    with http_settings ok show ?thesis by simp
  next
    case (step_identity ps ms d jobs clock)
    with ok show ?thesis by (simp add: settings_ok_def)
  next
    case (step_tick now d jobs d' jobs' clock)
    with tick_db [of d now jobs d' jobs'] db keeps_recover_owners have "keeps_settings d d'" by simp
    with keep step_tick show ?thesis by simp
  next
    case (step_begin jobs m i lock now d j d' clock)
    with keeps_begin [of d jobs m i env lock now j d'] wf keep show ?thesis by simp
  next
    case (step_end jobs m r fresh now d j d' clock)
    with keeps_end [of d m r env fresh now j d'] jobs_wfD(2) [of d jobs m r] db wf keep show ?thesis by simp
  next
    case (step_cleanup jobs m i e now d d' clock)
    with keeps_cleanup keep show ?thesis by auto
  next
    case (step_cancel_job jobs m j now d j' d' clock)
    with keeps_cancel_waiting [of d jobs m j now j' d'] db wf keep show ?thesis by simp
  next
    case (step_lose_job jobs m j clock now d)
    with ok show ?thesis by simp
  next
    case (step_crash d jobs clock)
    with ok show ?thesis by simp
  qed
  with sys_inv_step [OF st] inv show ?thesis by (simp add: settings_inv_def)
qed

interpretation settings: transition_system "\<lambda>s. init s \<and> presets (sys_db s) = []" "step env" settings_inv for env
  by unfold_locales (auto intro: settings_inv_init settings_inv_step)

section \<open>What can be answered\<close>

lemma valid_settings_stored:
  assumes "case s of None \<Rightarrow> True | Some c \<Rightarrow> valid_creative_settings c"
  shows "valid_settings s = s"
  using assms by (cases s) (simp_all add: valid_settings_def)

lemma dec_analysis_result_JObj: "dec_analysis_result v \<noteq> None \<Longrightarrow> \<exists>ms. v = JObj ms"
  by (cases v) (simp_all add: dec_analysis_result_def dec_analysis_def dec_text_analysis_def dec_members_def)

text \<open>C20: the response models fit what the tables hold. In every reachable state the detail of a task can
  be built for exactly the tasks whose settings are not null, with the stored settings, and every stored
  preset and every stored analysis can be shown. Only a null written by \<open>update_task\<close> makes a task
  unanswerable.\<close>

theorem stored_rows_are_answerable:
  assumes "init s0" and "presets (sys_db s0) = []" and "(step env)\<^sup>*\<^sup>* s0 s" and "d = sys_db s"
  shows "(\<forall>t \<in> set (tasks d). map_option sv_creative_settings (task_detail_of t) = t_creative_settings t) \<and>
    (\<forall>p \<in> set (presets d). map_option pv_settings (preset_view_of p) = Some (cp_settings p)) \<and>
    (\<forall>a \<in> set (analyses d). map_option (\<lambda>v. JObj (anv_payload v)) (analysis_view_of a) = Some (ar_payload a))"
proof -
  have ok: "settings_ok d"
    using settings.reachable_inv [OF conjI [OF assms(1,2)] assms(3)] assms(4) by (simp add: settings_inv_def)
  have "map_option sv_creative_settings (task_detail_of t) = t_creative_settings t" if "t \<in> set (tasks d)" for t
    using ok that valid_settings_stored [of "t_creative_settings t"]
    by (auto simp: settings_ok_def list_all_iff task_detail_of_def task_summary.defs option.map_comp o_def option.map_ident)
  moreover have "map_option pv_settings (preset_view_of p) = Some (cp_settings p)" if "p \<in> set (presets d)" for p
    using ok that by (auto simp: settings_ok_def list_all_iff preset_view_of_def valid_settings_def)
  moreover have "map_option (\<lambda>v. JObj (anv_payload v)) (analysis_view_of a) = Some (ar_payload a)"
    if a: "a \<in> set (analyses d)" for a
  proof -
    have "content_ok (content_of (ar_task_id a) d)"
      using content.reachable_inv [OF assms(1,3)] assms(4) by (simp add: content_inv_def)
    with a obtain ms where "ar_payload a = JObj ms"
      using dec_analysis_result_JObj [of "ar_payload a"] by (auto simp: content_ok_def content_of_def analyses_ok_def)
    then show ?thesis by (simp add: analysis_view_of_def)
  qed
  ultimately show ?thesis by blast
qed

theorem stored_rows_are_answerable_witness:
  "list_all (\<lambda>t. map_option sv_creative_settings (task_detail_of t) = Some demo_settings) (tasks demo_running)"
  using stored_rows_are_answerable [OF demo_init_ok _ demo_reachable refl]
  by (simp add: demo_init_def demo_sys_def demo_defs)

text \<open>A draft patched with \<open>"creative_settings": null\<close> is such a task: the update is committed, the answer
  to it fails, and so does copying the task.\<close>

lemma null_settings_lose_task:
  assumes "update_task now m i u d = Inr (t, d')" and "tu_creative_settings u = Some None"
  shows "t \<in> set (tasks d') \<and> task_detail_of t = None \<and>
    (db_ok d' \<longrightarrow> t_id t = i \<and> t_owner_id t = m \<and> copy_task k now m i d' = Inl TypeError)"
proof -
  from assms(1) obtain t0 where t0: "owned_task i m d = Inr t0" and u: "repo_update_draft now t0 u d = Inr (t, d')"
    by (auto simp: update_task_def bind_result_eq_Inr_iff)
  from t0 have i: "t0 \<in> set (tasks d)" "t_id t0 = i" "t_owner_id t0 = m" by (auto dest: owned_task_Inr)
  obtain t' where t': "apply_task_update u t0 = Inr t'" and
    t: "t = orm_save (\<lambda>t. t\<lparr>t_updated_at := now\<rparr>) (\<lambda>_. t') t0"
    and d': "d' = d\<lparr>tasks := update_where (\<lambda>r. t_id r = t_id t0) (\<lambda>_. t) (tasks d)\<rparr>"
    using u by (auto simp: repo_update_draft_def Let_def bind_result_eq_Inr_iff split: if_splits)
  have "t_creative_settings t' = None" "t_id t' = i" "t_owner_id t' = m"
    using t' assms(2) i by (auto simp: apply_task_update_def bind_result_eq_Inr_iff split: option.splits)
  then have none: "t_creative_settings t = None" and id: "t_id t = i" "t_owner_id t = m"
    by (auto simp: t orm_save_def)
  moreover have mem: "t \<in> set (tasks d')" using i by (auto simp: d' update_where_def)
  moreover have "copy_task k now m i d' = Inl TypeError" if "db_ok d'"
  proof -
    let ?f = "find (\<lambda>t. t_id t = i \<and> t_owner_id t = m) (tasks d')"
    obtain x where x: "?f = Some x" using find_None_notin [OF _ mem] id by (cases ?f) auto
    have "x \<in> set (tasks d')" "t_id x = i" using find_Some_mem [OF x] by simp_all
    then have "x = t" using find_task_mem [OF \<open>db_ok d'\<close>] mem id(1) by (metis option.inject)
    with x have "owned_task i m d' = Inr t" by (simp add: owned_task_def repo_get_owned_def)
    with none show ?thesis by (simp add: copy_task_def repo_copy_def)
  qed
  ultimately show ?thesis by (auto simp: task_detail_of_def valid_settings_def)
qed

end
