(* ===== verification/Handler_Answers.thy ===== *)
theory Handler_Answers
  imports Request_Invariant Task_Views
begin

text \<open>
  Every handler of src/backend/app/modules/tasks/router.py answers: in a reachable database, for a
  validated body and an identifier \<open>uuid4()\<close> has not returned before, the unit of work commits and the
  response model accepts the result, or it ends with an error the API documents (400, 404 or 409), unless
  the request is one of those the handlers crash on. \<open>respond\<close> gives the status of the answer and the
  database after it; \<open>request_valid\<close> states what validation guarantees of the bodies and \<open>crash_cause\<close>
  lists the requests that crash nevertheless.
\<close>

section \<open>Answers\<close>

definition documented :: "task_exc \<Rightarrow> bool" where
  "documented e \<longleftrightarrow> (case e of TaskApiError code message status details \<Rightarrow> status \<in> {400, 404, 409} | _ \<Rightarrow> False)"

text \<open>The exception of a failed result satisfies \<open>P\<close>.\<close>

definition errors_in :: "('e \<Rightarrow> bool) \<Rightarrow> 'e + 'r \<Rightarrow> bool" where
  "errors_in P r \<longleftrightarrow> (case r of Inl e \<Rightarrow> P e | Inr _ \<Rightarrow> True)"

lemma errors_in_simps [simp]:
  "errors_in P (Inr x)" "errors_in P (Inl e) \<longleftrightarrow> P e"
  "errors_in P (require b e) \<longleftrightarrow> b \<or> P e"
  "errors_in P (of_option e v) \<longleftrightarrow> v \<noteq> None \<or> P e"
  "errors_in P (map_ok f r) \<longleftrightarrow> errors_in P r" "errors_in (\<lambda>_. True) r"
  "errors_in P (map_error h r') \<longleftrightarrow> errors_in (\<lambda>e. P (h e)) r'"
  by (auto simp: errors_in_def require_def of_option_def map_ok_def bind_result_def map_error_def
      split: option.splits sum.splits)

lemma errors_in_bind: "errors_in P r \<Longrightarrow> (\<And>v. r = Inr v \<Longrightarrow> errors_in P (k v)) \<Longrightarrow> errors_in P (bind_result r k)"
  by (cases r) auto

lemma errors_in_mono: "errors_in P r \<Longrightarrow> (\<And>e. P e \<Longrightarrow> Q e) \<Longrightarrow> errors_in Q r"
  by (cases r) auto

abbreviation answered :: "task_exc + 'r \<Rightarrow> bool" where
  "answered r \<equiv> errors_in documented r"

lemmas answered_bind = errors_in_bind [where P = documented]

lemma answered_map_error: "(\<And>e. r = Inl e \<Longrightarrow> documented (h e)) \<Longrightarrow> answered (map_error h r)"
  by (cases r) auto

lemma answered_commit: "db_ok d \<Longrightarrow> answered (commit r d)"
  by (simp add: commit_def flush_def db_ok_def)

lemma documented_api_exc [simp]: "documented (api_exc code message status) \<longleftrightarrow> status \<in> {400, 404, 409}"
  by (simp add: documented_def api_exc_def)

lemma documented_errors [simp]:
  "documented task_not_found" "documented preset_not_found" "documented version_not_found"
  "documented analysis_not_found" "documented ai_in_progress" "documented preset_name_exists"
  by (simp_all add: task_not_found_def preset_not_found_def version_not_found_def analysis_not_found_def
      ai_in_progress_def preset_name_exists_def)

lemma answered_lookups [simp]:
  "answered (owned_task i m d)" "answered (owned_version i v m d)" "answered (assert_no_active_ai i d)"
  by (simp_all add: owned_task_def owned_version_def assert_no_active_ai_def repo_get_owned_def)

text \<open>The errors of the queue, which \<open>execute_ai\<close> turns into answers.\<close>

definition declined :: "task_exc \<Rightarrow> bool" where
  "declined e \<longleftrightarrow> (case e of TaskAiExecutionError code message status details \<Rightarrow> status \<in> {400, 404, 409} | _ \<Rightarrow> False)"

lemma declined_ai_exc [simp]: "declined (ai_exc code message status) \<longleftrightarrow> status \<in> {400, 404, 409}"
  by (simp add: declined_def ai_exc_def)

lemma answered_execute_ai: "errors_in declined r \<Longrightarrow> answered (execute_ai r)"
  unfolding execute_ai_def
  by (auto elim!: errors_in_mono simp: declined_def documented_def split: task_exc.splits)

section \<open>Requests and answers\<close>

text \<open>The endpoints with their path parameters, queries and validated bodies.\<close>

datatype task_request =
    ListPresets
  | CreatePreset preset_create
  | UpdatePreset uuid preset_update
  | DeletePreset uuid
  | ListTasks "pystr option" "task_state option" bool nat nat
  | CreateTask task_create
  | GetTask uuid
  | UpdateTask uuid task_update
  | CopyTask uuid
  | ArchiveTask uuid
  | RestoreTask uuid
  | SubmitAi uuid submission "pystr option" "pystr option"
  | UpdateAnalysis uuid uuid analysis_correction
  | GetAnalysis uuid uuid
  | GetAnalyses uuid
  | UpdateSuggestion uuid uuid suggestion_update
  | GetSuggestions uuid "uuid option"
  | ListAiOperations
  | ClearHistory
  | CancelAi uuid
  | RetryAi uuid "pystr option"
  | GetAiOperation uuid
  | ListVersions uuid
  | GetVersion uuid uuid
  | ManualEdit uuid uuid manual_edit_create
  | CompareVersions uuid uuid uuid
  | CreateLock uuid uuid locked_fragment_create
  | DeleteLock uuid uuid
  | GetLocks uuid
  | FinalizeVersion uuid uuid
  | ExportFinal uuid export_format

datatype answer_body =
    PresetBody preset_view
  | PresetsBody "preset_view list"
  | TaskBody task_detail
  | TasksBody "task_summary list"
  | OperationBody ai_operation_view
  | OperationsBody "ai_operation_view list"
  | AnalysisBody analysis_view
  | AnalysesBody "analysis_view list"
  | SuggestionBody suggestion_view
  | SuggestionsBody "suggestion_view list"
  | VersionBody version_view
  | VersionsBody "version_view list"
  | LockBody locked_fragment_view
  | LocksBody "locked_fragment_view list"
  | CompareBody version_compare_response
  | FileBody "pystr \<times> string \<times> pystr"
  | NoBody

text \<open>A list is answered when each of its members is.\<close>

fun all_views :: "('r \<Rightarrow> 'v option) \<Rightarrow> 'r list \<Rightarrow> 'v list option" where
  "all_views f [] = Some []"
| "all_views f (x # xs) = (case (f x, all_views f xs) of (Some v, Some vs) \<Rightarrow> Some (v # vs) | _ \<Rightarrow> None)"

lemma all_views_Some: "(\<And>x. x \<in> set xs \<Longrightarrow> f x \<noteq> None) \<Longrightarrow> all_views f xs \<noteq> None"
  by (induction xs) (auto split: option.splits)

text \<open>A body and the database after a unit of work that changes it, and after one that reads.\<close>

definition written :: "('r \<Rightarrow> answer_body option) \<Rightarrow> task_exc + 'r \<times> db \<Rightarrow> task_exc + answer_body option \<times> db" where
  "written f r = map_ok (\<lambda>(x, d'). (f x, d')) r"

definition shown :: "db \<Rightarrow> ('r \<Rightarrow> answer_body option) \<Rightarrow> task_exc + 'r \<Rightarrow> task_exc + answer_body option \<times> db" where
  "shown d f r = map_ok (\<lambda>x. (f x, d)) r"

abbreviation task_body :: "rewrite_task \<Rightarrow> answer_body option" where
  "task_body t \<equiv> map_option TaskBody (task_detail_of t)"

abbreviation preset_body :: "creative_preset \<Rightarrow> answer_body option" where
  "preset_body p \<equiv> map_option PresetBody (preset_view_of p)"

abbreviation operation_body :: "ai_operation \<Rightarrow> answer_body option" where
  "operation_body op \<equiv> Some (OperationBody (ai_operation_view_of op))"

abbreviation analysis_body :: "analysis_record \<Rightarrow> answer_body option" where
  "analysis_body a \<equiv> map_option AnalysisBody (analysis_view_of a)"

abbreviation version_body :: "script_version \<Rightarrow> answer_body option" where
  "version_body v \<equiv> Some (VersionBody (version_view_of v))"

text \<open>The request of member \<open>m\<close>: the body, \<open>None\<close> if the response model refuses it, and the database
  afterwards. \<open>i\<close> is what \<open>uuid4()\<close> returns; \<open>ilike\<close>, \<open>diff\<close>, \<open>aware\<close> and \<open>max_int\<close> are the parameters of
  the handlers.\<close>

fun handle ::
  "(pystr \<Rightarrow> pystr \<Rightarrow> bool) \<Rightarrow> (pystr \<Rightarrow> pystr \<Rightarrow> pystr \<Rightarrow> pystr \<Rightarrow> pystr) \<Rightarrow> bool \<Rightarrow> nat \<Rightarrow> uuid \<Rightarrow> instant \<Rightarrow> uuid \<Rightarrow> task_request \<Rightarrow>
   db \<Rightarrow> task_exc + answer_body option \<times> db" where
  "handle ilike diff aware max_int i now m ListPresets d =
     Inr (map_option PresetsBody (all_views preset_view_of (list_presets m d)), d)"
| "handle ilike diff aware max_int i now m (CreatePreset p) d = written preset_body (create_preset i now m p d)"
| "handle ilike diff aware max_int i now m (UpdatePreset k p) d = written preset_body (update_preset now m k p d)"
| "handle ilike diff aware max_int i now m (DeletePreset k) d = written (\<lambda>_. Some NoBody) (delete_preset m k d)"
| "handle ilike diff aware max_int i now m (ListTasks search state archived offset limit) d =
     shown d (\<lambda>ts. Some (TasksBody (map task_summary_of ts))) (list_tasks ilike max_int m search state archived offset limit d)"
| "handle ilike diff aware max_int i now m (CreateTask c) d = written task_body (create_task i now m c d)"
| "handle ilike diff aware max_int i now m (GetTask t) d = shown d task_body (get_task m t d)"
| "handle ilike diff aware max_int i now m (UpdateTask t u) d = written task_body (update_task now m t u d)"
| "handle ilike diff aware max_int i now m (CopyTask t) d = written task_body (copy_task i now m t d)"
| "handle ilike diff aware max_int i now m (ArchiveTask t) d = written task_body (archive_task now m t d)"
| "handle ilike diff aware max_int i now m (RestoreTask t) d = written task_body (restore_task now m t d)"
| "handle ilike diff aware max_int i now m (SubmitAi t p key rid) d = written operation_body (submit_operation i now m t p key rid d)"
| "handle ilike diff aware max_int i now m (UpdateAnalysis t a c) d = written analysis_body (update_analysis now m t a c d)"
| "handle ilike diff aware max_int i now m (GetAnalysis t a) d = shown d analysis_body (get_analysis m t a d)"
| "handle ilike diff aware max_int i now m (GetAnalyses t) d =
     shown d (\<lambda>as. map_option AnalysesBody (all_views analysis_view_of as)) (get_analyses m t d)"
| "handle ilike diff aware max_int i now m (UpdateSuggestion t s u) d =
     written (\<lambda>s. Some (SuggestionBody (suggestion_view_of s))) (update_suggestion now m t s u d)"
| "handle ilike diff aware max_int i now m (GetSuggestions t a) d =
     shown d (\<lambda>ss. Some (SuggestionsBody (map suggestion_view_of ss))) (get_suggestions m t a d)"
| "handle ilike diff aware max_int i now m ListAiOperations d =
     Inr (Some (OperationsBody (map ai_operation_view_of (list_ai_operations m d))), d)"
| "handle ilike diff aware max_int i now m ClearHistory d = written (\<lambda>_. Some NoBody) (clear_ai_operation_history m d)"
| "handle ilike diff aware max_int i now m (CancelAi k) d = written operation_body (cancel_ai_operation now m k d)"
| "handle ilike diff aware max_int i now m (RetryAi k key) d = written operation_body (retry_ai_operation i now m k key d)"
| "handle ilike diff aware max_int i now m (GetAiOperation k) d = shown d operation_body (get_ai_operation m k d)"
| "handle ilike diff aware max_int i now m (ListVersions t) d =
     shown d (\<lambda>vs. Some (VersionsBody (map version_view_of vs))) (list_versions m t d)"
| "handle ilike diff aware max_int i now m (GetVersion t v) d = shown d version_body (get_version m t v d)"
| "handle ilike diff aware max_int i now m (ManualEdit t v e) d = written version_body (create_manual_edit i now m t v e d)"
| "handle ilike diff aware max_int i now m (CompareVersions t l r) d =
     shown d (\<lambda>c. Some (CompareBody (version_compare_response_of c))) (compare_versions diff m t l r d)"
| "handle ilike diff aware max_int i now m (CreateLock t v l) d =
     written (\<lambda>l. Some (LockBody (locked_fragment_view_of l))) (create_lock i now m t v l d)"
| "handle ilike diff aware max_int i now m (DeleteLock t l) d = written (\<lambda>_. Some NoBody) (delete_lock m t l d)"
| "handle ilike diff aware max_int i now m (GetLocks t) d =
     shown d (\<lambda>ls. Some (LocksBody (map locked_fragment_view_of ls))) (get_locks m t d)"
| "handle ilike diff aware max_int i now m (FinalizeVersion t v) d = written version_body (finalize_version aware now m t v d)"
| "handle ilike diff aware max_int i now m (ExportFinal t f) d = shown d (\<lambda>x. Some (FileBody x)) (export_final_version m t f d)"

text \<open>The status an endpoint declares for its success.\<close>

fun success_status :: "task_request \<Rightarrow> int" where
  "success_status (DeletePreset _) = 204"
| "success_status ClearHistory = 204"
| "success_status (DeleteLock _ _) = 204"
| "success_status (SubmitAi _ _ _ _) = 202"
| "success_status (RetryAi _ _) = 202"
| "success_status _ = 200"

text \<open>The status of the answer; a body the response model refuses is a 500 after the commit.\<close>

definition respond ::
  "(pystr \<Rightarrow> pystr \<Rightarrow> bool) \<Rightarrow> (pystr \<Rightarrow> pystr \<Rightarrow> pystr \<Rightarrow> pystr \<Rightarrow> pystr) \<Rightarrow> bool \<Rightarrow> nat \<Rightarrow> uuid \<Rightarrow> instant \<Rightarrow> uuid \<Rightarrow> task_request \<Rightarrow>
   db \<Rightarrow> int \<times> db" where
  "respond ilike diff aware max_int i now m q d =
     (case handle ilike diff aware max_int i now m q d of
        Inl e \<Rightarrow> (fst (task_exception_response e), d)
      | Inr (None, d') \<Rightarrow> (500, d')
      | Inr (Some _, d') \<Rightarrow> (success_status q, d'))"

text \<open>What the request models, and the limits of the idempotency key's header, guarantee.\<close>

definition request_valid :: "task_request \<Rightarrow> bool" where
  "request_valid q \<longleftrightarrow>
     (case q of
        CreatePreset p \<Rightarrow> length (prc_name p) \<le> 120 \<and> valid_creative_settings (prc_settings p)
      | UpdatePreset _ p \<Rightarrow>
          fits_column 120 (pru_name p) \<and> (\<forall>c. pru_settings p = Some c \<longrightarrow> valid_creative_settings c)
      | CreateTask c \<Rightarrow> length (tc_name c) \<le> 160 \<and> length (tc_source_text c) \<le> 20000 \<and>
          valid_creative_settings (tc_creative_settings c)
      | UpdateTask t u \<Rightarrow>
          (\<forall>n. tu_name u = Some (Some n) \<longrightarrow> length n \<le> 160) \<and>
          (\<forall>s. tu_source_text u = Some (Some s) \<longrightarrow> length s \<le> 20000) \<and>
          (\<forall>c. tu_creative_settings u = Some (Some c) \<longrightarrow> valid_creative_settings c)
      | UpdateAnalysis _ _ c \<Rightarrow> valid_analysis_result (cor_analysis c)
      | SubmitAi _ p key rid \<Rightarrow> valid_submission p \<and> fits_column 200 key \<and> fits_column 80 rid
      | RetryAi _ key \<Rightarrow> fits_column 200 key
      | _ \<Rightarrow> True)"

text \<open>What the request models let through and the handlers crash on: an explicit null for a member of a
  task, a request on a task whose settings were set to null, copying a task whose name leaves no room for
  \<open>" copy"\<close>, an offset the database driver cannot bind, and finalizing where the driver refuses the time.\<close>

definition has_settings :: "uuid \<Rightarrow> uuid \<Rightarrow> db \<Rightarrow> bool" where
  "has_settings t m d \<longleftrightarrow> (case owned_task t m d of Inl _ \<Rightarrow> True | Inr x \<Rightarrow> t_creative_settings x \<noteq> None)"

definition crash_cause :: "bool \<Rightarrow> nat \<Rightarrow> uuid \<Rightarrow> task_request \<Rightarrow> db \<Rightarrow> bool" where
  "crash_cause aware max_int m q d \<longleftrightarrow>
     (case q of
        GetTask t \<Rightarrow> \<not> has_settings t m d
      | ArchiveTask t \<Rightarrow> \<not> has_settings t m d
      | RestoreTask t \<Rightarrow> \<not> has_settings t m d
      | UpdateTask t u \<Rightarrow> \<not> has_settings t m d \<or>
          tu_name u = Some None \<or> tu_source_text u = Some None \<or> tu_creative_settings u = Some None
      | CopyTask t \<Rightarrow> \<not> has_settings t m d \<or>
          (case owned_task t m d of Inl _ \<Rightarrow> False | Inr x \<Rightarrow> 155 < length (t_name x))
      | ListTasks _ _ _ offset _ \<Rightarrow> max_int < offset
      | FinalizeVersion _ _ \<Rightarrow> \<not> aware
      | _ \<Rightarrow> False)"

text \<open>The texts a request hands to the database outside JSON. PostgreSQL refuses U+0000 in them, and the
  models do not; the columns of the model hold every text.\<close>

definition request_texts :: "task_request \<Rightarrow> pystr list" where
  "request_texts q =
     (let given = (\<lambda>x. case x of None \<Rightarrow> [] | Some s \<Rightarrow> [s]) in
      case q of
        CreatePreset p \<Rightarrow> [prc_name p]
      | UpdatePreset _ p \<Rightarrow> given (pru_name p)
      | ListTasks search _ _ _ _ \<Rightarrow> given search
      | CreateTask c \<Rightarrow> [tc_name c, tc_source_text c]
      | UpdateTask _ u \<Rightarrow> concat (map given [Option.bind (tu_name u) id, Option.bind (tu_source_text u) id])
      | SubmitAi _ p key rid \<Rightarrow> given key @ given rid @
          (case payload_decisions p of None \<Rightarrow> [] | Some ds \<Rightarrow> concat (map (given \<circ> sd_member_note) ds))
      | RetryAi _ key \<Rightarrow> given key
      | UpdateAnalysis _ _ c \<Rightarrow> given (cor_member_notes c)
      | UpdateSuggestion _ _ u \<Rightarrow> given (sgu_member_note u)
      | ManualEdit _ _ e \<Rightarrow> me_content e # given (me_instruction e)
      | CreateLock _ _ l \<Rightarrow> given (lk_note l)
      | _ \<Rightarrow> [])"

definition carries_nul :: "task_request \<Rightarrow> bool" where
  "carries_nul q \<longleftrightarrow> list_ex (\<lambda>s. 0 \<in> set s) (request_texts q)"

abbreviation request_fits :: "bool \<Rightarrow> nat \<Rightarrow> uuid \<Rightarrow> task_request \<Rightarrow> db \<Rightarrow> bool" where
  "request_fits aware max_int m q d \<equiv> request_valid q \<and> \<not> crash_cause aware max_int m q d"

lemma case_Inr_ex: "(case r of Inl _ \<Rightarrow> False | Inr x \<Rightarrow> P x) \<longleftrightarrow> (\<exists>x. r = Inr x \<and> P x)"
  by (cases r) auto

lemmas request_fits_def = request_valid_def crash_cause_def case_Inr_ex

definition fresh_id :: "uuid \<Rightarrow> db \<Rightarrow> bool" where
  "fresh_id i d \<longleftrightarrow> i \<notin> cp_id ` set (presets d) \<and> i \<notin> t_id ` set (tasks d) \<and> i \<notin> o_id ` set (operations d) \<and>
     i \<notin> v_id ` set (versions d) \<and> i \<notin> l_id ` set (locks d)"

section \<open>Presets\<close>

text \<open>A repository flushes what the handler commits.\<close>

lemma flush_commit:
  "bind_result (bind_result (flush d) (\<lambda>d'. Inr (x, d'))) (\<lambda>(x, d'). commit x d') = commit x d"
  by (cases "flush d") (simp_all add: commit_def flush_def split: if_splits)

lemma answered_commit_preset:
  assumes "db_ok d" and "\<And>p. p \<in> set ps \<Longrightarrow> length (cp_name p) \<le> 120"
  shows "answered (on_integrity_error preset_name_exists (commit x (d\<lparr>presets := ps\<rparr>)))"
proof -
  have "columns_ok (d\<lparr>presets := ps\<rparr>)" using assms by (simp add: db_ok_def columns_ok_def list_all_iff)
  then show ?thesis
    unfolding on_integrity_error_def
    by (intro answered_map_error) (auto simp: commit_def flush_def split: if_splits)
qed

lemma preset_names: "db_ok d \<Longrightarrow> p \<in> set (presets d) \<Longrightarrow> length (cp_name p) \<le> 120"
  by (simp add: db_ok_def columns_ok_def list_all_iff)

lemma answered_presets:
  assumes ok: "db_ok d"
  shows "length (prc_name p) \<le> 120 \<Longrightarrow> answered (create_preset i now m p d)"
    and "fits_column 120 (pru_name u) \<Longrightarrow> answered (update_preset now m k u d)"
    and "answered (delete_preset m k d)"
proof -
  note names = preset_names [OF ok]
  show "answered (create_preset i now m p d)" if "length (prc_name p) \<le> 120"
    unfolding create_preset_def preset_create_row_def Let_def flush_commit
    by (rule answered_commit_preset [OF ok]) (use that names in auto)
  have get: "answered (map_error (\<lambda>_. preset_not_found) (preset_get_owned k m d))"
    by (rule answered_map_error) simp
  have mem: "preset \<in> set (presets d)" if "preset_get_owned k m d = Inr preset" for preset
    using that by (auto simp: preset_get_owned_def dest!: find_Some_mem)
  show "answered (update_preset now m k u d)" if u: "fits_column 120 (pru_name u)"
    unfolding update_preset_def replace_settings_def Let_def flush_commit
    by (intro answered_bind get answered_commit_preset [OF ok])
      (use u names mem in \<open>auto simp: set_update_where orm_save_def fits_column_def split: option.splits if_splits\<close>)
  have "db_ok (d\<lparr>presets := filter P (presets d)\<rparr>)" for P
    using ok by (intro db_ok_presets) (auto simp: table_constraints list_all_iff distinct_map_filter)
  then show "answered (delete_preset m k d)"
    unfolding delete_preset_def preset_delete_def
    by (intro answered_bind get) (auto simp: answered_commit)
qed

section \<open>Tasks\<close>

lemma answered_create_task:
  assumes "db_ok d" and "m \<in> m_id ` set (members d)" and "fresh_id i d"
    and "length (tc_name c) \<le> 160" and "length (tc_source_text c) \<le> 20000"
  shows "answered (create_task i now m c d)"
  unfolding create_task_def repo_create_def Let_def flush_commit
  by (intro answered_commit db_ok_add_task)
    (use assms in \<open>simp_all add: task_fits_def new_task_def fresh_id_def\<close>)

lemma answered_copy_task:
  assumes ok: "db_ok d" and i: "fresh_id i d"
    and t: "\<forall>x. owned_task t m d = Inr x \<longrightarrow> length (t_name x) \<le> 155" and h: "has_settings t m d"
  shows "answered (copy_task i now m t d)"
  unfolding copy_task_def
proof (rule answered_bind)
  fix x assume x: "owned_task t m d = Inr x"
  with t h obtain c where c: "length (t_name x) \<le> 155" "t_creative_settings x = Some c" by (auto simp: has_settings_def)
  let ?t = "new_task i now m (t_name x @ tx '' copy'') (t_source_text x) c"
  have "task_fits ?t d"
    using owned_task_Inr [OF x] db_ok_references [OF ok, of x] c i
    by (auto simp: task_fits_def new_task_def fresh_id_def)
  from db_ok_add_task [OF ok this]
  show "answered (bind_result (repo_copy i now x m d) (\<lambda>(copied, d'). commit copied d'))"
    by (simp add: repo_copy_def c answered_commit Let_def flush_commit del: flush_Inr_iff)
qed simp

lemma apply_task_update_ok:
  assumes "request_fits aware max_int m (UpdateTask t u) d" and "length (t_name x) \<le> 160" and "length (t_source_text x) \<le> 20000"
  shows "\<exists>y. apply_task_update u x = Inr y \<and> t_id y = t_id x \<and> t_owner_id y = t_owner_id x \<and>
    length (t_name y) \<le> 160 \<and> length (t_source_text y) \<le> 20000"
proof -
  obtain y where y: "(case tu_name u of None \<Rightarrow> Inr x | Some None \<Rightarrow> Inl IntegrityError
      | Some (Some n) \<Rightarrow> Inr (x\<lparr>t_name := n\<rparr>)) = Inr y" "t_id y = t_id x" "t_owner_id y = t_owner_id x"
      "length (t_name y) \<le> 160" "length (t_source_text y) \<le> 20000"
    using assms by (cases "tu_name u"; cases "the (tu_name u)") (auto simp: request_fits_def)
  obtain z where z: "(case tu_source_text u of None \<Rightarrow> Inr y | Some None \<Rightarrow> Inl IntegrityError
      | Some (Some s) \<Rightarrow> Inr (y\<lparr>t_source_text := s\<rparr>)) = Inr z" "t_id z = t_id x" "t_owner_id z = t_owner_id x"
      "length (t_name z) \<le> 160" "length (t_source_text z) \<le> 20000"
    using assms(1) y by (cases "tu_source_text u"; cases "the (tu_source_text u)") (auto simp: request_fits_def)
  show ?thesis
    using z(2-5) by (cases "tu_creative_settings u") (simp_all add: apply_task_update_def y(1) z(1))
qed

lemma answered_update_task:
  assumes ok: "db_ok d" and u: "request_fits aware max_int m (UpdateTask t u) d"
  shows "answered (update_task now m t u d)"
  unfolding update_task_def
proof (intro answered_bind answered_lookups answered_map_error)
  fix x e assume x: "owned_task t m d = Inr x" and e: "repo_update_draft now x u d = Inl e"
  note x = owned_task_Inr [OF x, THEN conjunct1]
  show "documented (case e of PyValueError _ \<Rightarrow> api_exc ''task_not_editable'' (str_of_value_error e) 409 | _ \<Rightarrow> e)"
  proof (cases "t_state x = DRAFT")
    case True
    from u obtain y where y: "apply_task_update u x = Inr y" "t_id y = t_id x" "t_owner_id y = t_owner_id x"
        "length (t_name y) \<le> 160" "length (t_source_text y) \<le> 20000"
      using apply_task_update_ok [OF u db_ok_references(2,3) [OF ok x]] by blast
    let ?y = "orm_save (\<lambda>t. t\<lparr>t_updated_at := now\<rparr>) (\<lambda>_. y) x"
    have "db_ok (d\<lparr>tasks := update_where (\<lambda>r. t_id r = t_id x) (\<lambda>_. ?y) (tasks d)\<rparr>)"
      by (rule db_ok_replace_task [OF ok x]) (use y in \<open>auto simp: orm_save_def\<close>)
    with e True y(1) show ?thesis by (simp add: repo_update_draft_def Let_def del: flush_Inr_iff)
  qed (use e in \<open>auto simp: repo_update_draft_def\<close>)
next
  fix x v
  assume "map_error (\<lambda>e. case e of
      PyValueError _ \<Rightarrow> api_exc ''task_not_editable'' (str_of_value_error e) 409 | _ \<Rightarrow> e)
    (repo_update_draft now x u d) = Inr v"
  then show "answered (case v of (task', d') \<Rightarrow> commit task' d')"
    using repo_update_draft_Inr by (cases v) (auto intro: answered_commit)
qed

lemma answered_store_snapshot: "db_ok d \<Longrightarrow> answered (store_snapshot now t s d)"
  unfolding store_snapshot_def Let_def by (intro answered_commit db_ok_save_task) simp_all

lemma answered_archive: "db_ok d \<Longrightarrow> answered (archive_task now m t d)"
  unfolding archive_task_def by (intro answered_bind answered_lookups answered_store_snapshot)

lemma answered_restore: "db_ok d \<Longrightarrow> answered (restore_task now m t d)"
  unfolding restore_task_def
  by (intro answered_bind answered_lookups answered_store_snapshot answered_map_error) simp_all

section \<open>Analyses and suggestions\<close>

lemma find_update_where:
  "find P xs = Some x \<Longrightarrow> update_where Q (\<lambda>_. y) xs = map (\<lambda>r. if Q r then y else r) xs"
  by (simp add: update_where_def)

lemma answered_update_analysis:
  assumes ok: "db_ok d"
  shows "answered (update_analysis now m t k c d)"
  unfolding update_analysis_def Let_def
proof (intro answered_bind answered_lookups answered_commit)
  fix a assume a: "of_option analysis_not_found (find (\<lambda>a. ar_id a = k \<and> ar_task_id a = t) (analyses d)) = Inr a"
  then have mem: "a \<in> set (analyses d)"
    by (auto simp: of_option_def split: option.splits dest!: find_Some_mem)
  let ?a = "orm_save (\<lambda>a. a\<lparr>ar_updated_at := now\<rparr>)
    (\<lambda>a. a\<lparr>ar_payload := enc_analysis_result (cor_analysis c), ar_member_notes := cor_member_notes c\<rparr>) a"
  have "r = a" if "r \<in> set (analyses d)" "ar_id r = ar_id a" for r
    using distinct_key_eq [OF db_ok_keys(4) [OF ok] that(1) mem that(2)] .
  then show "db_ok (d\<lparr>analyses := update_where (\<lambda>r. ar_id r = ar_id a) (\<lambda>_. ?a) (analyses d)\<rparr>)"
    unfolding update_where_def
    by (intro db_ok_update_analyses [OF ok]) (auto simp: same_analysis_def orm_save_def)
qed simp

lemma answered_update_suggestion:
  assumes ok: "db_ok d"
  shows "answered (update_suggestion now m t k u d)"
  unfolding update_suggestion_def Let_def
proof (intro answered_bind answered_lookups answered_commit)
  fix s
  assume s: "of_option (api_exc ''suggestion_not_found'' (tx ''Suggestion was not found'') 404)
    (find (\<lambda>s. sr_id s = k \<and> sr_task_id s = t) (suggestions d)) = Inr s"
  then have mem: "s \<in> set (suggestions d)"
    by (auto simp: of_option_def split: option.splits dest!: find_Some_mem)
  let ?s = "orm_save (\<lambda>s. s\<lparr>sr_updated_at := now\<rparr>)
    (\<lambda>s. s\<lparr>sr_decision := sgu_decision u, sr_member_note := sgu_member_note u\<rparr>) s"
  have "r = s" if "r \<in> set (suggestions d)" "sr_id r = sr_id s" for r
    using distinct_key_eq [OF db_ok_keys(5) [OF ok] that(1) mem that(2)] .
  then show "db_ok (d\<lparr>suggestions := update_where (\<lambda>r. sr_id r = sr_id s) (\<lambda>_. ?s) (suggestions d)\<rparr>)"
    unfolding update_where_def
    by (intro db_ok_update_suggestions [OF ok]) (auto simp: orm_save_def)
qed simp

section \<open>Versions and locked fragments\<close>

lemma answered_manual_edit:
  assumes ok: "db_ok d" and i: "fresh_id i d"
  shows "answered (create_manual_edit i now m t v e d)"
  unfolding create_manual_edit_def Let_def
proof (intro answered_bind answered_lookups answered_commit db_ok_save_task db_ok_add_version [OF ok])
  fix p task assume "owned_version t v m d = Inr p" "owned_task t m d = Inr task"
  with owned_version_Inr owned_task_Inr i show "version_fits (manual_version i now t p e) d"
    by (fastforce simp: version_fits_def manual_version_def fresh_id_def)
qed simp_all

lemma answered_create_lock:
  assumes ok: "db_ok d" and i: "fresh_id i d"
  shows "answered (create_lock i now m t v p d)"
  unfolding create_lock_def Let_def
proof (intro answered_bind answered_lookups answered_commit db_ok_add_lock [OF ok])
  fix x task sel
  assume x: "owned_version t v m d = Inr x" and task: "owned_task t m d = Inr task"
    and s: "map_error (\<lambda>e. api_exc ''invalid_selection'' (str_of_value_error (PyValueError e)) 400)
      (selected_text (v_content x) (lk_start_offset p) (lk_end_offset p)) = Inr sel"
  let ?n = "max_or (-1) (map l_order_index (locks_of t d)) + 1"
  have "?n \<notin> l_order_index ` set (locks_of t d)"
    using max_or_fresh [of "-1" "map l_order_index (locks_of t d)"] by simp
  then have "(t, ?n) \<notin> (\<lambda>l. (l_task_id l, l_order_index l)) ` set (locks d)"
    by (auto simp: locks_of_def)
  moreover have "0 \<le> lk_start_offset p" "lk_start_offset p < lk_end_offset p"
    using selected_text_ok [of "v_content x" "lk_start_offset p" "lk_end_offset p" sel] s by simp_all
  ultimately show "lock_fits \<lparr>l_id = i, l_task_id = t, l_source_version_id = v, l_text = sel,
      l_start_offset = lk_start_offset p, l_end_offset = lk_end_offset p, l_order_index = ?n, l_note = lk_note p,
      l_created_at = now, l_updated_at = now\<rparr> d"
    using owned_version_Inr [OF x] owned_task_Inr [OF task] i by (auto simp: lock_fits_def fresh_id_def)
qed (simp_all add: answered_map_error)

lemma answered_delete_lock: "db_ok d \<Longrightarrow> answered (delete_lock m t k d)"
  unfolding delete_lock_def
  by (intro answered_bind answered_lookups) (auto intro!: answered_commit db_ok_filter_locks)

lemma answered_finalize:
  assumes ok: "db_ok d"
  shows "answered (finalize_version True now m t v d)"
  unfolding finalize_version_def
proof (intro answered_bind answered_lookups answered_commit db_ok_save_task)
  fix x
  show "db_ok (d\<lparr>versions := set_final now t (v_id x) (versions d)\<rparr>)"
    unfolding set_final_def update_where_def map_map by (rule db_ok_update_versions [OF ok]) simp
qed simp_all

section \<open>The queue\<close>

lemma declined_errors [simp]: "declined key_reused" "declined operation_in_progress" "declined snapshot_stale"
  by (simp_all add: key_reused_def operation_in_progress_def snapshot_stale_def)

lemma declined_existing: "errors_in declined (existing_operation t m k key h d)"
  by (simp add: existing_operation_def split: option.splits)

lemma existing_operation_None:
  "existing_operation t m k key h d = Inr None \<Longrightarrow> key = None \<or> (m, t, k, key) \<notin> op_scope ` set (operations d)"
  by (auto simp: existing_operation_def split: if_splits option.splits dest: find_None_notin)

lemma declined_snapshot: "errors_in declined (apply_suggestion_snapshot now t p d)"
  by (simp add: apply_suggestion_snapshot_def split: option.splits)

lemma declined_submit:
  assumes ok: "db_ok d" and t: "task \<in> set (tasks d)" and i: "fresh_id i d"
    and key: "fits_column 200 key" and rid: "fits_column 80 rid"
  shows "errors_in declined (submit i now task m p key rid d)"
proof (cases "t_owner_id task = m")
  case own: True
  let ?h = "request_hash (submission_kind p) (t_id task) (dump_submission p)"
  have f: "find_task d (t_id task) = Some task" by (rule find_task_mem [OF ok t])
  show ?thesis
  proof (cases "existing_operation (t_id task) m (submission_kind p) key ?h d = Inr None")
    case ex: True
    have fl: "flush (enqueue now task (queued_operation i now m task p key ?h rid) d1) =
        Inr (enqueue now task (queued_operation i now m task p key ?h rid) d1)"
      if idle: "\<not> list_ex (\<lambda>r. o_task_id r = t_id task \<and> active r) (operations d)"
        and d1: "apply_suggestion_snapshot now (t_id task) p d = Inr d1" for d1
    proof -
      obtain ss where ss: "d1 = d\<lparr>suggestions := ss\<rparr>" using apply_suggestion_snapshot_Inr [OF d1] by blast
      have "db_ok (enqueue now task (queued_operation i now m task p key ?h rid) d1)"
        by (rule enqueue_ok [OF apply_suggestion_snapshot_ok [OF d1 ok]])
          (use t own idle i rid key existing_operation_None [OF ex] in \<open>simp_all add: ss fresh_id_def del: active_simps\<close>)
      then show ?thesis by simp
    qed
    show ?thesis
      by (auto simp: submit_def Let_def own f ex fl declined_snapshot simp del: active_simps flush_Inr_iff
          intro!: errors_in_bind)
  next
    case False
    with own declined_existing [of "t_id task" m "submission_kind p" key ?h d] show ?thesis
      by (cases "existing_operation (t_id task) m (submission_kind p) key ?h d") (auto simp: submit_def Let_def)
  qed
qed (simp add: submit_def)

lemma answered_submit:
  assumes "db_ok d" and "fresh_id i d" and "fits_column 200 key" and "fits_column 80 rid"
  shows "answered (submit_operation i now m t p key rid d)"
  unfolding submit_operation_eq
proof (intro answered_bind answered_lookups answered_execute_ai declined_submit)
  fix task assume "owned_task t m d = Inr task"
  then show "task \<in> set (tasks d)" by (simp add: owned_task_Inr)
qed (use assms in \<open>simp_all add: fits_column_def\<close>)

lemma declined_owned: "errors_in declined (owned m k d)" "errors_in declined (get_owned_operation k m d)"
  by (simp_all add: owned_def get_owned_operation_def)

lemma answered_cancel: "db_inv d \<Longrightarrow> answered (cancel_ai_operation now m k d)"
proof -
  assume inv: "db_inv d"
  have "db_ok (release_task now op (d\<lparr>operations := update_where P (cancel_row now) (operations d)\<rparr>))" for P op
    unfolding update_where_def
    by (intro db_ok_release_task db_ok_update_operations db_invD(1) [OF inv])
      (auto simp: same_keys_def cancel_row_def op_columns_ok_def)
  then show ?thesis
    unfolding cancel_ai_operation_def cancel_def
    by (auto intro!: answered_execute_ai errors_in_bind declined_owned simp: Let_def commit_def)
qed

lemma answered_retry:
  assumes inv: "db_inv d" and req: "requests_ok d" and i: "fresh_id i d" and key: "fits_column 200 key"
  shows "answered (retry_ai_operation i now m k key d)"
  unfolding retry_ai_operation_def
proof (rule answered_execute_ai, cases "owned m k d")
  case (Inr op)
  note ok = db_invD(1) [OF inv]
  from Inr have op: "op \<in> set (operations d)" by (auto simp: owned_def dest!: find_Some_mem)
  then obtain p where "stores_request p op" using req unfolding requests_ok_def by blast
  note v = stores_request_read [OF this]
  obtain task where t: "task \<in> set (tasks d)" "t_id task = o_task_id op" using operation_task_exists [OF ok op] by blast
  have "find_task d (o_task_id op) = Some task" using find_task_mem [OF ok t(1)] t(2) by simp
  moreover have "fits_column 80 (o_request_id op)"
    using ok op by (simp add: db_ok_def columns_ok_def list_all_iff op_columns_ok_def)
  ultimately show "errors_in declined (retry i now m k key d)"
    using declined_submit [OF ok t(1) i key] by (simp add: retry_def Inr v)
next
  case (Inl e)
  with declined_owned(1) [of m k d] show "errors_in declined (retry i now m k key d)" by (simp add: retry_def)
qed

section \<open>No request crashes a handler\<close>

lemma answered_reads [simp]:
  "answered (get_task m t d)" "answered (get_analysis m t a d)" "answered (get_analyses m t d)"
  "answered (get_suggestions m t s d)" "answered (get_ai_operation m k d)" "answered (list_versions m t d)"
  "answered (get_version m t v d)" "answered (compare_versions diff m t v w d)" "answered (get_locks m t d)"
  "answered (export_final_version m t f d)"
  by (auto simp: get_task_def get_analysis_def get_analyses_def get_suggestions_def get_ai_operation_def
      list_versions_def get_version_def compare_versions_def get_locks_def export_final_version_def Let_def
      intro!: answered_bind answered_execute_ai declined_owned split: option.splits)

lemma answered_written [simp]: "answered (written f r) \<longleftrightarrow> answered r" "answered (shown d f r') \<longleftrightarrow> answered r'"
  by (simp_all add: written_def shown_def)

lemma answered_handle:
  assumes inv: "db_inv d" and req: "requests_ok d" and m: "m \<in> m_id ` set (members d)" and i: "fresh_id i d"
    and q: "request_fits aware max_int m q d"
  shows "answered (handle ilike diff aware max_int i now m q d)"
proof -
  note ok = db_invD(1) [OF inv]
  have "answered (copy_task i now m t d)" if "q = CopyTask t" for t
    using q that by (intro answered_copy_task [OF ok i]) (auto simp: request_fits_def)
  then show ?thesis
    using q answered_presets [OF ok] answered_create_task [OF ok m i] answered_update_task [OF ok]
      answered_archive [OF ok] answered_restore [OF ok] answered_submit [OF ok i]
      answered_update_analysis [OF ok] answered_update_suggestion [OF ok] answered_cancel [OF inv]
      answered_retry [OF inv req i] answered_manual_edit [OF ok i] answered_create_lock [OF ok i]
      answered_delete_lock [OF ok] answered_finalize [OF ok] db_ok_filter_operations [OF ok]
    by (cases q) (simp_all add: request_fits_def list_tasks_def repo_list_owned_def Let_def clear_ai_operation_history_def clear_completed_def answered_commit)
qed

section \<open>Every body is accepted by its response model\<close>

lemma task_detail_Some: "(\<exists>v. task_detail_of t = Some v) \<longleftrightarrow> (\<exists>c. t_creative_settings t = Some c \<and> valid_creative_settings c)"
  by (auto simp: task_detail_of_def valid_settings_def split: option.splits if_splits)

lemma preset_view_Some: "(\<exists>v. preset_view_of p = Some v) \<longleftrightarrow> valid_creative_settings (cp_settings p)"
  by (simp add: preset_view_of_def valid_settings_def)

lemma analysis_view_Some: "(\<exists>v. analysis_view_of a = Some v) \<longleftrightarrow> (\<exists>ms. ar_payload a = JObj ms)"
  by (simp add: analysis_view_of_def split: json.splits)

lemma stored_task_detail:
  "settings_ok d \<Longrightarrow> has_settings t m d \<Longrightarrow> owned_task t m d = Inr x \<Longrightarrow> t_creative_settings y = t_creative_settings x \<Longrightarrow>
     task_detail_of y \<noteq> None"
  using owned_task_Inr [of t m d x]
  by (auto simp: task_detail_Some has_settings_def settings_ok_def list_all_iff split: option.splits)

lemma shown_analyses:
  assumes "\<And>k. content_ok (content_of k d)" and "a \<in> set (analyses d)"
  shows "analysis_view_of a \<noteq> None"
  using assms(1) [of "ar_task_id a"] assms(2) dec_analysis_result_JObj [of "ar_payload a"]
  by (auto simp: analysis_view_Some content_ok_def content_of_def analyses_ok_def)

lemma store_snapshot_settings:
  "store_snapshot now t s d = Inr (y, d') \<Longrightarrow> t_creative_settings y = t_creative_settings t"
  by (auto simp: store_snapshot_def Let_def orm_save_def)

lemma task_bodies:
  assumes st: "settings_ok d" and h: "has_settings t m d"
  shows "get_task m t d = Inr y \<Longrightarrow> task_detail_of y \<noteq> None"
    and "copy_task i now m t d = Inr (y, d') \<Longrightarrow> task_detail_of y \<noteq> None"
    and "archive_task now m t d = Inr (y, d') \<Longrightarrow> task_detail_of y \<noteq> None"
    and "restore_task now m t d = Inr (y, d') \<Longrightarrow> task_detail_of y \<noteq> None"
    and "update_task now m t u d = Inr (y, d') \<Longrightarrow> tu_creative_settings u \<noteq> Some None \<Longrightarrow>
      (\<forall>c. tu_creative_settings u = Some (Some c) \<longrightarrow> valid_creative_settings c) \<Longrightarrow> task_detail_of y \<noteq> None"
proof -
  note stored = stored_task_detail [OF st h]
  show "get_task m t d = Inr y \<Longrightarrow> task_detail_of y \<noteq> None" using stored by (auto simp: get_task_def)
  show "archive_task now m t d = Inr (y, d') \<Longrightarrow> task_detail_of y \<noteq> None"
    "restore_task now m t d = Inr (y, d') \<Longrightarrow> task_detail_of y \<noteq> None"
    using stored store_snapshot_settings
    by (auto simp: archive_task_def restore_task_def bind_result_eq_Inr_iff)
  show "copy_task i now m t d = Inr (y, d') \<Longrightarrow> task_detail_of y \<noteq> None"
    using stored
    by (auto simp: copy_task_def repo_copy_def new_task_def Let_def bind_result_eq_Inr_iff split: option.splits)
  assume y: "update_task now m t u d = Inr (y, d')" and u: "tu_creative_settings u \<noteq> Some None"
    "\<forall>c. tu_creative_settings u = Some (Some c) \<longrightarrow> valid_creative_settings c"
  from y obtain x z where x: "owned_task t m d = Inr x" and z: "apply_task_update u x = Inr z"
    and y: "y = orm_save (\<lambda>t. t\<lparr>t_updated_at := now\<rparr>) (\<lambda>_. z) x"
    by (auto simp: update_task_def repo_update_draft_def Let_def bind_result_eq_Inr_iff split: if_splits)
  have "t_creative_settings y = t_creative_settings z" by (simp add: y orm_save_def)
  moreover have "t_creative_settings z = (case tu_creative_settings u of None \<Rightarrow> t_creative_settings x | Some c \<Rightarrow> c)"
    using z by (auto simp: apply_task_update_def bind_result_eq_Inr_iff split: option.splits)
  ultimately show "task_detail_of y \<noteq> None"
    using u stored [OF x] by (cases "tu_creative_settings u") (auto simp: task_detail_Some)
qed

lemma preset_bodies:
  assumes st: "settings_ok d"
  shows "create_preset i now m p d = Inr (y, d') \<Longrightarrow> valid_creative_settings (prc_settings p) \<Longrightarrow> preset_view_of y \<noteq> None"
    and "update_preset now m k u d = Inr (y, d') \<Longrightarrow>
      \<forall>c. pru_settings u = Some c \<longrightarrow> valid_creative_settings c \<Longrightarrow> preset_view_of y \<noteq> None"
    and "all_views preset_view_of (list_presets m d) \<noteq> None"
proof -
  show "create_preset i now m p d = Inr (y, d') \<Longrightarrow> valid_creative_settings (prc_settings p) \<Longrightarrow> preset_view_of y \<noteq> None"
    by (auto simp: preset_view_Some frame_defs bind_result_eq_Inr_iff Let_def)
  show "all_views preset_view_of (list_presets m d) \<noteq> None"
    using st by (intro all_views_Some) (auto simp: preset_view_Some list_presets_def preset_list_owned_def settings_ok_def list_all_iff)
  assume y: "update_preset now m k u d = Inr (y, d')" and u: "\<forall>c. pru_settings u = Some c \<longrightarrow> valid_creative_settings c"
  from y obtain p where p: "p \<in> set (presets d)" and r: "replace_settings now p (pru_name u) (pru_settings u) d = Inr (y, d')"
    by (auto simp: update_preset_def on_integrity_error_def bind_result_eq_Inr_iff preset_get_owned_def dest!: find_Some_mem)
  with u st show "preset_view_of y \<noteq> None"
    by (auto simp: preset_view_Some replace_settings_def Let_def bind_result_eq_Inr_iff orm_save_def settings_ok_def
        list_all_iff split: option.splits)
qed

lemma analysis_bodies:
  assumes c: "\<And>k. content_ok (content_of k d)"
  shows "get_analysis m t a d = Inr y \<Longrightarrow> analysis_view_of y \<noteq> None"
    and "get_analyses m t d = Inr ys \<Longrightarrow> all_views analysis_view_of ys \<noteq> None"
    and "update_analysis now m t a cor d = Inr (y, d') \<Longrightarrow> analysis_view_of y \<noteq> None"
proof -
  show "get_analysis m t a d = Inr y \<Longrightarrow> analysis_view_of y \<noteq> None"
    by (intro shown_analyses [OF c])
      (auto simp: get_analysis_def bind_result_eq_Inr_iff of_option_def split: option.splits dest!: find_Some_mem)
  show "get_analyses m t d = Inr ys \<Longrightarrow> all_views analysis_view_of ys \<noteq> None"
    by (intro all_views_Some shown_analyses [OF c]) (auto simp: get_analyses_def bind_result_eq_Inr_iff)
  have "\<exists>ms. enc_analysis_result r = JObj ms" for r
    by (cases r) (simp_all add: enc_analysis_result_def enc_analysis_def)
  then show "update_analysis now m t a cor d = Inr (y, d') \<Longrightarrow> analysis_view_of y \<noteq> None"
    by (auto simp: analysis_view_Some update_analysis_def Let_def bind_result_eq_Inr_iff orm_save_field [where P = ar_payload])
qed

lemma handle_body:
  assumes st: "settings_ok d" and c: "\<And>k. content_ok (content_of k d)" and q: "request_fits aware max_int m q d"
    and h: "handle ilike diff aware max_int i now m q d = Inr (b, d')"
  shows "b \<noteq> None"
  using h q task_bodies [OF st] preset_bodies [OF st] analysis_bodies [OF c]
  by (cases q) (auto simp: written_def shown_def map_ok_Inr request_fits_def create_task_def repo_create_def new_task_def
      Let_def bind_result_eq_Inr_iff task_detail_Some)

section \<open>Every request is answered\<close>

text \<open>A request that commits is a step of the backend.\<close>

lemma handle_http:
  assumes "handle ilike diff aware max_int i now m q d = Inr (b, d')" and "request_valid q" and "fresh i"
  shows "d' = d \<or> http now fresh d d'"
  using assms by (cases q) (auto simp: written_def shown_def map_ok_Inr request_valid_def intro: http.intros)

text \<open>The requests with a cause to crash fail with an answer too, or with an error no handler catches.\<close>

definition rendered :: "task_exc \<Rightarrow> bool" where
  "rendered e \<longleftrightarrow> fst (task_exception_response e) \<in> {400, 404, 409, 500}"

lemma rendered_simps [simp]:
  "documented e \<Longrightarrow> rendered e" "rendered IntegrityError" "rendered DataError" "rendered (PyValueError v)" "rendered TypeError"
  by (auto simp: rendered_def documented_def task_exception_response_def split: task_exc.splits)

lemma rendered_answered: "answered r \<Longrightarrow> errors_in rendered r"
  by (erule errors_in_mono) simp

lemma rendered_commit: "errors_in rendered (commit r d)" "commit x d = Inl e \<Longrightarrow> rendered e"
  by (auto simp: commit_def flush_def split: if_splits)

lemma rendered_update_draft: "repo_update_draft now x u d = Inl e \<Longrightarrow> e = IntegrityError \<or> e = DataError \<or> (\<exists>v. e = PyValueError v)"
  by (auto simp: repo_update_draft_def apply_task_update_def Let_def flush_def bind_result_def split: sum.splits option.splits if_splits)

lemma rendered_crashes:
  assumes ok: "db_ok d"
  shows "errors_in rendered (update_task now m t u d)" and "errors_in rendered (copy_task i now m t d)"
    and "errors_in rendered (list_tasks ilike max_int m search state archived offset limit d)"
    and "errors_in rendered (finalize_version aware now m t v d)"
proof -
  show "errors_in rendered (update_task now m t u d)"
    unfolding update_task_def
    by (intro errors_in_bind rendered_answered [OF answered_lookups(1)] rendered_answered [OF answered_lookups(3)])
      (auto simp: errors_in_def map_error_def dest!: rendered_update_draft rendered_commit(2) split: sum.splits)
  show "errors_in rendered (copy_task i now m t d)"
    unfolding copy_task_def repo_copy_def Let_def
    by (intro errors_in_bind rendered_answered [OF answered_lookups(1)])
      (auto simp: flush_def rendered_commit split: option.splits intro!: errors_in_bind)
  show "errors_in rendered (list_tasks ilike max_int m search state archived offset limit d)"
    by (simp add: list_tasks_def repo_list_owned_def Let_def)
  show "errors_in rendered (finalize_version aware now m t v d)"
    unfolding finalize_version_def
    by (intro errors_in_bind rendered_answered [OF answered_lookups(1)] rendered_answered [OF answered_lookups(2)]
        rendered_answered [OF answered_lookups(3)] rendered_commit) simp_all
qed

lemma rendered_handle:
  assumes "db_ok d" and "crash_cause aware max_int m q d"
  shows "errors_in rendered (handle ilike diff aware max_int i now m q d)"
  using assms(2) rendered_crashes [OF assms(1)] rendered_answered [OF answered_archive [OF assms(1)]]
    rendered_answered [OF answered_restore [OF assms(1)]] rendered_answered [OF answered_reads(1)]
  by (cases q) (simp_all add: crash_cause_def written_def shown_def)

text \<open>C4: in every reachable state every request of a member to the task endpoints, with a validated body
  and an unused new identifier, is answered, as the only request of the moment: with the status its endpoint
  declares, and the backend is in a reachable state again; or with a documented error, 400, 404 or 409, and
  nothing has changed; or with a 500, and then the request has one of the causes \<open>crash_cause\<close> lists, or
  carries U+0000 in a text. No other constraint of the database, missing row or value the response models
  refuse gives a 500.\<close>

theorem every_request_is_answered:
  assumes "init s0" and "presets (sys_db s0) = []" and "(step env)\<^sup>*\<^sup>* s0 s" and "sys_clock s \<le> now"
    and "m \<in> m_id ` set (members (sys_db s))" and "fresh_id i (sys_db s)" and "unused (sys_jobs s) i"
    and "request_valid q" and "respond ilike diff aware max_int i now m q (sys_db s) = (status, d')"
  shows "status = success_status q \<and> (d' = sys_db s \<or> (step env)\<^sup>*\<^sup>* s0 (s\<lparr>sys_db := d', sys_clock := now\<rparr>)) \<or>
    status \<in> {400, 404, 409} \<and> d' = sys_db s \<or>
    status = 500 \<and> (crash_cause aware max_int m q (sys_db s) \<or> carries_nul q) \<and>
      (d' = sys_db s \<or> (step env)\<^sup>*\<^sup>* s0 (s\<lparr>sys_db := d', sys_clock := now\<rparr>))"
proof -
  let ?h = "handle ilike diff aware max_int i now m q (sys_db s)"
  let ?c = "crash_cause aware max_int m q (sys_db s)"
  have "request_inv s" "content_inv s" "settings_inv s"
    using requests.reachable_inv content.reachable_inv settings.reachable_inv assms(1-3) by blast+
  then have inv: "db_inv (sys_db s)" "requests_ok (sys_db s)" and st: "settings_ok (sys_db s)"
    and c: "\<And>k. content_ok (content_of k (sys_db s))"
    by (simp_all add: request_inv_def sys_inv_def content_inv_def settings_inv_def)
  show ?thesis
  proof (cases ?h)
    case (Inl e)
    have "if ?c then rendered e else documented e"
      using answered_handle [OF inv assms(5,6), where aware = aware and max_int = max_int and q = q
          and ilike = ilike and diff = diff and now = now] assms(8) Inl
        rendered_handle [OF db_invD(1) [OF inv(1)], where aware = aware and max_int = max_int and m = m
          and q = q and ilike = ilike and diff = diff and i = i and now = now] by auto
    with Inl assms(9) show ?thesis
      by (cases e) (auto simp: documented_def rendered_def respond_def task_exception_response_def split: if_splits)
  next
    case (Inr x)
    obtain b where h: "?h = Inr (b, d')" and status: "status = (if b = None then 500 else success_status q)"
      using Inr assms(9) by (cases x; cases "fst x") (auto simp: respond_def)
    have "b \<noteq> None \<or> ?c" using handle_body [OF st c _ h] assms(8) by blast
    moreover have "d' = sys_db s \<or> (step env)\<^sup>*\<^sup>* s0 (s\<lparr>sys_db := d', sys_clock := now\<rparr>)"
    proof (cases "d' = sys_db s")
      case False
      with handle_http [OF h assms(8), of "unused (sys_jobs s)"] assms(7)
      have "http now (unused (sys_jobs s)) (sys_db s) d'" by simp
      from step_http [OF this assms(4), of env] have "step env s (s\<lparr>sys_db := d', sys_clock := now\<rparr>)"
        by (cases s) simp
      with assms(3) show ?thesis by (blast intro: rtranclp.rtrancl_into_rtrancl)
    qed simp
    ultimately show ?thesis using status by auto
  qed
qed

theorem every_request_is_answered_witness:
  "fst (respond (\<lambda>_ _. True) (\<lambda>_ _ _ _. []) False (2 ^ 31 - 1) 30 9 1 (ArchiveTask 10) demo_running) \<in> {200, 400, 404, 409}"
proof -
  obtain status d' where r: "respond (\<lambda>_ _. True) (\<lambda>_ _ _ _. []) False (2 ^ 31 - 1) 30 9 1 (ArchiveTask 10) demo_running = (status, d')"
    by (metis prod.exhaust)
  have "unused (sys_jobs demo_sys) 30" by (simp add: unused_def demo_sys_def job_operation_def demo_run_def)
  moreover have "fresh_id 30 (sys_db demo_sys)" "1 \<in> m_id ` set (members (sys_db demo_sys))" "sys_clock demo_sys \<le> 9"
    "presets (sys_db demo_init) = []" "has_settings 10 1 demo_running"
    by (simp_all add: fresh_id_def demo_sys_def claim_row_def demo_init_def has_settings_def owned_task_def
        repo_get_owned_def demo_defs)
  moreover have "sys_db demo_sys = demo_running" by (simp add: demo_sys_def)
  ultimately show ?thesis
    using every_request_is_answered [OF demo_init_ok _ demo_reachable, of 9 1 30 "ArchiveTask 10"] r
    by (fastforce simp: request_fits_def carries_nul_def request_texts_def)
qed

text \<open>The causes \<open>crash_cause\<close> lists do crash the handlers.\<close>

lemma null_name_crashes:
  assumes "owned_task t m d = Inr x" and "assert_no_active_ai t d = Inr ()" and "t_state x = DRAFT"
    and "tu_name u = Some None"
  shows "respond ilike diff aware max_int i now m (UpdateTask t u) d = (500, d)"
  using assms
  by (simp add: respond_def written_def map_ok_def update_task_def repo_update_draft_def apply_task_update_def
      task_exception_response_def)

lemma copy_of_long_name_crashes:
  assumes "owned_task t m d = Inr x" and "t_creative_settings x = Some c" and "155 < length (t_name x)"
  shows "respond ilike diff aware max_int i now m (CopyTask t) d = (500, d)"
  using assms
  by (simp add: respond_def written_def map_ok_def copy_task_def repo_copy_def add_task_def new_task_def Let_def
      flush_def columns_ok_def task_exception_response_def)

lemma null_settings_crash:
  assumes "owned_task t m d = Inr x" and "t_creative_settings x = None"
  shows "respond ilike diff aware max_int i now m (GetTask t) d = (500, d)"
  using assms by (simp add: respond_def shown_def map_ok_def get_task_def task_detail_of_def valid_settings_def)

lemma unbindable_offset_crashes:
  "max_int < offset \<Longrightarrow>
     respond ilike diff aware max_int i now m (ListTasks search state archived offset limit) d = (500, d)"
  by (simp add: respond_def shown_def map_ok_def list_tasks_def repo_list_owned_def Let_def task_exception_response_def)

text \<open>With PostgreSQL's driver no version can be finalized.\<close>

lemma finalize_crashes:
  assumes "owned_version t v m d = Inr x" and "owned_task t m d = Inr task" and "assert_no_active_ai t d = Inr ()"
    and "t_state task \<noteq> ARCHIVED"
  shows "respond ilike diff False max_int i now m (FinalizeVersion t v) d = (500, d)"
  using assms by (simp add: respond_def written_def map_ok_def finalize_version_def task_exception_response_def)

end
