(* ===== verification/Result_Recording.thy ===== *)
theory Result_Recording
  imports Content_Invariant Store_Rows Demo_System
begin

text \<open>
  What becomes of a provider answer that passed every check of the service: \<open>execute_finish\<close> records it
  exactly when it fits the columns and, for suggestions, when enough of them remain beside the fixed
  ones. \<open>result_fits\<close> is that condition, \<open>result_recorded\<close> what the readers see afterwards.
\<close>

section \<open>The model identifier of an execution\<close>

text \<open>It comes from the member's provider setting, so it fits the column of the analyses.\<close>

lemma provider_context_model:
  "provider_context env m d = Inr (config, model) \<Longrightarrow> db_ok d \<Longrightarrow> length model \<le> 150"
  by (auto simp: provider_context_def bind_result_eq_Inr_iff db_ok_def columns_ok_def list_all_iff of_option_def
      split: option.splits dest!: find_Some_mem)

lemma execute_claim_model:
  assumes "execute_claim env lock (Some q) now i m t k None hash prep d = (Claimed r, d')" and "db_ok d"
  shows "length (run_model r) \<le> 150"
  using assms(1) provider_context_model [OF _ assms(2)]
  by (auto simp: execute_claim_def idempotent_operation_def claim_queued_def claim_commit_def
      split: lock_outcome.splits sum.splits option.splits task_exc.splits if_splits prod.splits)

lemma execute_begin_model:
  assumes wf: "jobs_wf d jobs" and m: "jobs m = Some (JobNew i)" and ok: "db_ok d"
    and b: "execute_begin env lock now i d = (JobRunning r, d')"
  shows "length (run_model r) \<le> 150"
proof -
  from b obtain op p where op: "find_operation d i = Some op" and rm: "run_method env lock now op p d = (JobRunning r, d')"
    by (auto simp: execute_begin_def split: option.splits if_splits)
  have free: "\<And>x. x \<in> set (running_ops d) \<Longrightarrow> o_owner_id x \<noteq> o_owner_id op"
    using no_running [OF wf m] jobs_wfD(1) [OF wf m] find_operation_Some [OF op] by simp
  have "\<exists>(task :: rewrite_task) prep hash. execute_claim env lock (Some (o_id op)) now 0 (o_owner_id op) (t_id task) (o_kind op) None
      hash prep d = (Claimed r, d')"
    using rm by (auto simp: run_method_def recover_nothing [OF free] job_after_claim_def
        split: option.splits sum.splits prod.splits claim.splits if_splits)
  then obtain task :: rewrite_task and prep hash where
    "execute_claim env lock (Some (o_id op)) now 0 (o_owner_id op) (t_id task) (o_kind op) None hash prep d = (Claimed r, d')"
    by blast
  from execute_claim_model [OF this ok] show ?thesis .
qed

definition models_fit :: "jobs \<Rightarrow> bool" where
  "models_fit jobs \<longleftrightarrow> (\<forall>m r. jobs m = Some (JobRunning r) \<longrightarrow> length (run_model r) \<le> 150)"

definition model_inv :: "system \<Rightarrow> bool" where
  "model_inv s \<longleftrightarrow> sys_inv s \<and> models_fit (sys_jobs s)"

lemma model_inv_step:
  assumes st: "step env s s'" and inv: "model_inv s"
  shows "model_inv s'"
proof -
  have db: "db_inv (sys_db s)" and wf: "jobs_wf (sys_db s) (sys_jobs s)" and fit: "models_fit (sys_jobs s)"
    using inv by (simp_all add: model_inv_def sys_inv_def)
  have upd: "models_fit (jobs(m \<mapsto> j))" if "models_fit jobs" "\<And>r. j = JobRunning r \<Longrightarrow> length (run_model r) \<le> 150" for jobs m j
    using that unfolding models_fit_def by auto
  have "models_fit (sys_jobs s')"
    using st
  proof cases
    case (step_tick now d jobs d' jobs' clock)
    have "jobs m = Some (JobRunning r)" if "jobs' m = Some (JobRunning r)" for m r
    proof -
      let ?rows = "order_by2 o_created_at o_id (filter active (operations d'))"
      let ?running = "map o_owner_id (filter (\<lambda>row. o_status row = RUNNING) ?rows)"
      have jobs': "jobs' = start_jobs ?running ?rows (drop_done jobs)"
        using tick_db [of d now jobs d' jobs'] db step_tick by simp
      show ?thesis
        using start_jobs_cases [of ?running ?rows "drop_done jobs" m] that
        by (auto simp: jobs' drop_done_def split: if_splits)
    qed
    with fit step_tick show ?thesis unfolding models_fit_def by auto
  next
    case (step_begin jobs m i lock now d j d' clock)
    have "length (run_model r) \<le> 150" if "j = JobRunning r" for r
      using execute_begin_model [of d jobs m i env lock now r d'] step_begin that db wf db_invD(1) by simp
    with upd fit step_begin show ?thesis by simp
  next
    case (step_end jobs m r fresh now d j d' clock)
    have "\<And>r. j \<noteq> JobRunning r"
      using step_end(4) by (auto simp: execute_end_def split: prod.splits finish.splits if_splits)
    with upd [of jobs j m] fit step_end show ?thesis by simp
  next
    case (step_cancel_job jobs m j now d j' d' clock)
    have "\<And>r. j' \<noteq> JobRunning r" using step_cancel_job(4) by (auto simp: cancel_waiting_def split: job.splits)
    with upd [of jobs j' m] fit step_cancel_job show ?thesis by simp
  next
    case (step_cleanup jobs m i e now d d' clock)
    with upd [of jobs JobDone m] fit show ?thesis by simp
  next
    case step_lose_job
    with fit show ?thesis by (simp add: models_fit_def)
  next
    case step_crash
    then show ?thesis by (simp add: models_fit_def)
  qed (use fit in simp_all)
  with sys_inv_step [OF st] inv show ?thesis by (simp add: model_inv_def)
qed

lemma model_inv_init: "init s \<Longrightarrow> model_inv s"
  using sys_inv_init by (simp add: model_inv_def models_fit_def init_def)

interpretation models: transition_system init "step env" model_inv for env
  by unfold_locales (auto intro: model_inv_init model_inv_step)

section \<open>What invoke captures\<close>

text \<open>Results carry the model of the run and the template version of the service.\<close>

lemma svc_metadata:
  "svc_analyze env t c model = Inr a \<Longrightarrow> \<exists>x. asr_metadata a = mk_metadata model x"
  "svc_suggest env t an c model ctx p f = Inr s \<Longrightarrow> \<exists>x. ssr_metadata s = mk_metadata model x"
  by (auto simp: svc_analyze_def svc_suggest_def bind_result_eq_Inr_iff split: if_splits)

lemma invoke_analysis_metadata:
  assumes "invoke env r = Inr (AnalysisResultOf a)"
  shows "pm_model_identifier (asr_metadata a) = run_model r \<and>
    pm_prompt_template_version (asr_metadata a) = PROMPT_TEMPLATE_VERSION"
  using assms
  by (auto simp: invoke_def invoke_analyze_def invoke_suggest_def invoke_first_draft_def invoke_revise_def
      bind_result_eq_Inr_iff map_ok_Inr mk_metadata_def split: prepared.splits revision_scope.splits option.splits
      dest!: svc_metadata)

text \<open>The fixed suggestions could be read, or \<open>invoke\<close> had failed.\<close>

lemma map_result_fixed:
  "map_result fixed_selected fixed = Inr sel \<Longrightarrow> map_result stored_suggestion fixed = Inr (map ss_suggestion sel)"
  by (induction fixed arbitrary: sel) (auto simp: bind_result_eq_Inr_iff fixed_selected_def)

lemma invoke_suggestions_kept:
  assumes "invoke env r = Inr res" and "run_prepared r = PreparedSuggestions b rc an pl previous fixed"
  shows "\<exists>kept. map_result stored_suggestion fixed = Inr kept"
  using assms by (auto simp: invoke_def invoke_suggest_def bind_result_eq_Inr_iff dest: map_result_fixed)

lemma map_result_stored:
  "map_result stored_suggestion rows = Inr xs \<Longrightarrow>
     length xs = length rows \<and> list_all valid_suggestion xs \<and> map su_suggestion_id xs = map sr_suggestion_key rows"
  by (induction rows arbitrary: xs)
    (auto simp: bind_result_eq_Inr_iff stored_suggestion_def mk_suggestion_def split: if_splits)

text \<open>A suggestion written as a row is read back.\<close>

lemma stored_suggestion_row:
  assumes "valid_suggestion x"
  shows "stored_suggestion (suggestion_row i now t a x) = Inr x"
  using assms by (simp add: stored_suggestion_def suggestion_row_def mk_suggestion_def valid_suggestion_def)

lemma map_result_rows:
  "list_all valid_suggestion items \<Longrightarrow> map_result stored_suggestion
     (map (\<lambda>(n, item). suggestion_row (fresh n) now t a item) (enumerate k items)) = Inr items"
  by (induction items arbitrary: k) (simp_all add: stored_suggestion_row)

section \<open>When suggestions can be kept\<close>

lemma set_replacements:
  "set (suggestion_replacements previous fixed items) \<subseteq>
     {x \<in> set items. su_suggestion_id x \<notin> sr_suggestion_key ` set fixed}"
  unfolding suggestion_replacements_def Let_def
  using set_take_int_subset by fastforce

lemma replacements_distinct:
  "distinct (map su_suggestion_id items) \<Longrightarrow>
     distinct (map su_suggestion_id (suggestion_replacements previous fixed items))"
  unfolding suggestion_replacements_def Let_def by (intro distinct_map_take_int distinct_map_filter)

lemma replacements_length:
  assumes "length fixed \<le> length previous" and "length previous \<le> 8"
  shows "length fixed + length (suggestion_replacements previous fixed items) \<le> 8"
proof -
  let ?n = "(if previous \<noteq> [] then max 5 (min 8 (int (length previous))) else 8) - int (length fixed)"
  have "int (length (suggestion_replacements previous fixed items)) \<le> ?n"
    unfolding suggestion_replacements_def Let_def
    by (rule length_take_int_le) (use assms in \<open>auto simp: max_def min_def\<close>)
  then show ?thesis using assms by (auto simp: max_def min_def split: if_splits)
qed

lemma kept_set_valid_iff:
  assumes kept: "map_result stored_suggestion fixed = Inr kept"
    and prev: "length previous \<le> 8" "distinct (map sr_suggestion_key previous)" "fixed = filter P previous"
    and items: "valid_suggestion_set items"
  shows "valid_suggestion_set (kept @ suggestion_replacements previous fixed items) \<longleftrightarrow>
    5 \<le> length fixed + length (suggestion_replacements previous fixed items)"
proof -
  let ?new = "suggestion_replacements previous fixed items"
  note k = map_result_stored [OF kept] and i = items [unfolded valid_suggestion_set_iff] and sub = set_replacements [of previous fixed items]
  have "length fixed \<le> length previous" using prev(3) by simp
  note len = replacements_length [OF this prev(1), of items]
  have "list_all valid_suggestion ?new" using i sub by (auto simp: list_all_iff)
  moreover have "distinct (map su_suggestion_id (kept @ ?new))"
    using replacements_distinct [of items previous fixed] i sub prev k
    by (auto simp: distinct_map_filter simp flip: set_map) (auto simp: image_iff)
  ultimately show ?thesis using k len by (simp add: valid_suggestion_set_iff)
qed

section \<open>What persist does\<close>

text \<open>\<open>uuid4()\<close> is called for at most eight rows; the identifiers differ and are not used yet.\<close>

definition fresh_ids :: "(nat \<Rightarrow> uuid) \<Rightarrow> db \<Rightarrow> bool" where
  "fresh_ids fresh d \<longleftrightarrow> distinct (map fresh [0..<8]) \<and>
     (\<forall>n < 8. fresh n \<notin> ar_id ` set (analyses d) \<union> sr_id ` set (suggestions d) \<union> v_id ` set (versions d))"

lemma fresh_idsD:
  "fresh_ids fresh d \<Longrightarrow> n < 8 \<Longrightarrow> fresh n \<notin> ar_id ` set (analyses d)"
  "fresh_ids fresh d \<Longrightarrow> n < 8 \<Longrightarrow> fresh n \<notin> sr_id ` set (suggestions d)"
  "fresh_ids fresh d \<Longrightarrow> n < 8 \<Longrightarrow> fresh n \<notin> v_id ` set (versions d)"
  unfolding fresh_ids_def by blast+

lemma fresh_ids_distinct: "fresh_ids fresh d \<Longrightarrow> n \<le> 8 \<Longrightarrow> distinct (map fresh [0..<n])"
  unfolding fresh_ids_def distinct_map by (auto intro: inj_on_subset)

lemma persist_version_ok:
  assumes ok: "db_ok d" and t: "t \<in> t_id ` set (tasks d)" and i: "i \<notin> v_id ` set (versions d)"
    and p: "\<And>q. vsr_parent_version_id v = Some q \<Longrightarrow> q \<in> v_id ` set (versions d)"
  shows "persist_version i now t v d =
    Inr ((''version'', i), d\<lparr>versions := versions d @ [version_record i now t v]\<rparr>)"
proof -
  have "version_fits (version_record i now t v) d"
    using t i p by (auto simp: version_fits_def version_record_def split: option.splits)
  from db_ok_add_version [OF ok this] show ?thesis by (simp add: persist_version_def map_ok_def)
qed

lemma persist_analysis_ok:
  assumes ok: "db_ok d" and t: "t \<in> t_id ` set (tasks d)" and i: "i \<notin> ar_id ` set (analyses d)"
    and len: "length (pm_model_identifier (asr_metadata a)) \<le> 160"
      "pm_prompt_template_version (asr_metadata a) = PROMPT_TEMPLATE_VERSION"
    and nonblank: "\<not> blank (asr_analysis a)"
  shows "\<exists>d1. persist_analysis i now t a d = Inr ((''analysis'', i), d1) \<and>
    bind_result (find_analysis t None d1) stored_analysis = Inr (TextAnalysis (asr_analysis a))"
proof -
  define rows where "rows = update_where (\<lambda>a. ar_task_id a = t)
    (\<lambda>a. a\<lparr>ar_is_selected := False, ar_updated_at := now\<rparr>) (analyses d)"
  define n where "n = max_or 0 (map ar_sequence (filter (\<lambda>a. ar_task_id a = t) rows)) + 1"
  define r where "r = \<lparr>ar_id = i, ar_task_id = t, ar_sequence = n,
    ar_payload = enc_analysis_result (TextAnalysis (asr_analysis a)), ar_member_notes = None, ar_is_selected = True,
    ar_prompt_template_version = pm_prompt_template_version (asr_metadata a),
    ar_model_identifier = pm_model_identifier (asr_metadata a), ar_created_at = now, ar_updated_at = now\<rparr>"
  have r: "ar_id r = i" "ar_task_id r = t" "ar_sequence r = n" "ar_is_selected r" by (simp_all add: r_def)
  have ok1: "db_ok (d\<lparr>analyses := rows\<rparr>)"
    unfolding rows_def update_where_def by (rule db_ok_update_analyses [OF ok]) (simp add: same_analysis_def)
  have "n \<notin> set (map ar_sequence (filter (\<lambda>a. ar_task_id a = t) rows))" unfolding n_def by (rule max_or_fresh)
  then have "(t, n) \<notin> (\<lambda>a. (ar_task_id a, ar_sequence a)) ` set rows" by auto
  moreover have "i \<notin> ar_id ` set rows" using i by (auto simp: rows_def update_where_def)
  moreover have "length (ar_prompt_template_version r) \<le> 32" "length (ar_model_identifier r) \<le> 160"
    using len by (simp_all add: r_def PROMPT_TEMPLATE_VERSION_def)
  ultimately have "analysis_fits r (d\<lparr>analyses := rows\<rparr>)" using t r by (simp add: analysis_fits_def)
  from db_ok_add_analysis [OF ok1 this] have "db_ok (d\<lparr>analyses := rows @ [r]\<rparr>)" by simp
  then have p: "persist_analysis i now t a d = Inr ((''analysis'', i), d\<lparr>analyses := rows @ [r]\<rparr>)"
    by (simp only: persist_analysis_def Let_def map_ok_def flush_ok bind_result_simps r_def n_def rows_def)
  have "\<not> (ar_task_id x = t \<and> ar_is_selected x)" if "x \<in> set rows" for x
  proof -
    from that obtain y where x: "x = (if ar_task_id y = t then y\<lparr>ar_is_selected := False, ar_updated_at := now\<rparr> else y)"
      unfolding rows_def set_update_where by blast
    show ?thesis by (cases "ar_task_id y = t") (simp_all add: x)
  qed
  then have "find (\<lambda>a. ar_task_id a = t \<and> ar_is_selected a) rows = None" unfolding find_None_iff by blast
  with r have f: "find_analysis t None (d\<lparr>analyses := rows @ [r]\<rparr>) = Inr r"
    by (simp add: find_analysis_def find_append)
  have "valid_analysis_result (TextAnalysis (asr_analysis a))"
    using nonblank by (auto simp: valid_analysis_result_def blank_iff)
  then have "stored_analysis r = Inr (TextAnalysis (asr_analysis a))"
    by (simp add: stored_analysis_def r_def dec_enc_analysis_result)
  with p f show ?thesis by simp
qed

lemma suggestion_row_ids:
  "map sr_id (map (\<lambda>(n, item). suggestion_row (fresh n) now t a item) (enumerate k items)) =
     map fresh [k..<k + length items]"
proof (induction items arbitrary: k)
  case (Cons x xs)
  have "[k..<k + length (x # xs)] = k # [Suc k..<Suc k + length xs]" by (simp add: upt_conv_Cons del: upt_Suc)
  with Cons show ?case by (simp add: suggestion_row_def)
qed simp

lemma suggestion_row_columns:
  "(\<forall>s \<in> set (map (\<lambda>(n, item). suggestion_row (fresh n) now t a item) (enumerate k items)). suggestion_fits s d) \<longleftrightarrow>
     items = [] \<or> t \<in> t_id ` set (tasks d) \<and> a \<in> ar_id ` set (analyses d) \<and>
     (\<forall>x \<in> set items. length (su_suggestion_id x) \<le> 80 \<and> length (su_title x) \<le> 160)"
  by (induction items arbitrary: k) (auto simp: suggestion_fits_def suggestion_row_def)

definition new_rows ::
  "(nat \<Rightarrow> uuid) \<Rightarrow> instant \<Rightarrow> uuid \<Rightarrow> uuid \<Rightarrow> suggestion list \<Rightarrow> suggestion_record list" where
  "new_rows fresh now t a items = map (\<lambda>(n, item). suggestion_row (fresh n) now t a item) (enumerate 0 items)"

definition kept_rows :: "uuid \<Rightarrow> uuid \<Rightarrow> suggestion_record list \<Rightarrow> db \<Rightarrow> suggestion_record list" where
  "kept_rows t a fixed d =
     filter (\<lambda>s. \<not> (sr_task_id s = t \<and> sr_analysis_id s = a \<and> sr_id s \<notin> sr_id ` set fixed)) (suggestions d)"

definition within_columns :: "suggestion list \<Rightarrow> bool" where
  "within_columns items \<longleftrightarrow> list_all (\<lambda>x. length (su_suggestion_id x) \<le> 80 \<and> length (su_title x) \<le> 160) items"

lemma db_ok_new_rows:
  assumes ok: "db_ok d" and t: "t \<in> t_id ` set (tasks d)" and a: "a \<in> ar_id ` set (analyses d)"
    and fresh: "fresh_ids fresh d" and len: "length items \<le> 8"
  shows "db_ok (d\<lparr>suggestions := kept_rows t a fixed d @ new_rows fresh now t a items\<rparr>) \<longleftrightarrow> within_columns items"
proof -
  let ?rest = "kept_rows t a fixed d" and ?rows = "new_rows fresh now t a items"
  have ids: "map sr_id ?rows = map fresh [0..<length items]"
    using suggestion_row_ids [of fresh now t a 0 items] by (simp add: new_rows_def)
  have "distinct (map sr_id (?rest @ ?rows))"
    unfolding map_append distinct_append ids
  proof (intro conjI)
    show "distinct (map sr_id ?rest)" using db_ok_keys(5) [OF ok] by (simp add: kept_rows_def distinct_map_filter)
    show "distinct (map fresh [0..<length items])" using fresh_ids_distinct [OF fresh len] .
    show "set (map sr_id ?rest) \<inter> set (map fresh [0..<length items]) = {}"
    proof -
      have "fresh n \<noteq> sr_id s" if "n < length items" "s \<in> set ?rest" for n s
        using fresh_idsD(2) [OF fresh, of n] that len by (auto simp: kept_rows_def)
      then show ?thesis by fastforce
    qed
  qed
  moreover have "\<forall>s \<in> set ?rest. suggestion_fits s d" using suggestion_fits_mem [OF ok] by (simp add: kept_rows_def)
  moreover have "(\<forall>s \<in> set ?rows. suggestion_fits s d) \<longleftrightarrow> within_columns items"
    unfolding new_rows_def suggestion_row_columns within_columns_def list_all_iff using t a by auto
  ultimately show ?thesis unfolding db_ok_suggestions [OF ok] by auto
qed

lemma persist_suggestions_iff:
  assumes ok: "db_ok d" and t: "t \<in> t_id ` set (tasks d)" and an: "ar_id an \<in> ar_id ` set (analyses d)"
    and fresh: "fresh_ids fresh d" and kept: "map_result stored_suggestion fixed = Inr kept"
    and new: "new = suggestion_replacements previous fixed (ssr_suggestions result)" and len: "length new \<le> 8"
  shows "persist_suggestions fresh now t an previous fixed result d = Inr x \<longleftrightarrow>
    valid_suggestion_set (kept @ new) \<and> within_columns new \<and>
    x = ((''suggestions'', ar_id an),
         d\<lparr>suggestions := kept_rows t (ar_id an) fixed d @ new_rows fresh now t (ar_id an) new\<rparr>)"
proof -
  have "persist_suggestions fresh now t an previous fixed result d =
      bind_result (map_error PyValueError (mk_suggestion_set (kept @ new))) (\<lambda>_.
        map_ok (Pair (''suggestions'', ar_id an)) (flush
          (d\<lparr>suggestions := kept_rows t (ar_id an) fixed d @ new_rows fresh now t (ar_id an) new\<rparr>)))"
    by (simp add: persist_suggestions_def Let_def kept new new_rows_def kept_rows_def)
  then show ?thesis using db_ok_new_rows [OF ok t an fresh len, of fixed now]
    by (auto simp: bind_result_eq_Inr_iff map_ok_Inr mk_suggestion_set_def)
qed

section \<open>Results that are recorded\<close>

definition content_fits :: "run \<Rightarrow> service_result \<Rightarrow> bool" where
  "content_fits r res \<longleftrightarrow>
     (case (res, run_prepared r) of
        (SuggestionsResultOf s, PreparedSuggestions _ _ _ _ previous fixed) \<Rightarrow>
          (let new = suggestion_replacements previous fixed (ssr_suggestions s)
           in 5 \<le> length fixed + length new \<and> within_columns new)
      | _ \<Rightarrow> True)"

definition result_fits :: "run \<Rightarrow> service_result \<Rightarrow> bool" where
  "result_fits r res \<longleftrightarrow>
     content_fits r res \<and> fits_column 200 (pm_provider_request_id (result_metadata res))"

text \<open>The new analysis is the selected one and reads back as the answer; the suggestions of the analysis are
  the fixed ones and undecided new ones that read back as the replacements; the new version is stored.\<close>

definition result_recorded :: "(nat \<Rightarrow> uuid) \<Rightarrow> instant \<Rightarrow> run \<Rightarrow> service_result \<Rightarrow> db \<Rightarrow> db \<Rightarrow> bool" where
  "result_recorded fresh now r res d d' \<longleftrightarrow>
     (case (res, run_prepared r) of
        (AnalysisResultOf a, _) \<Rightarrow>
          bind_result (find_analysis (t_id (run_task r)) None d') stored_analysis = Inr (TextAnalysis (asr_analysis a))
      | (SuggestionsResultOf s, PreparedSuggestions _ record _ _ previous fixed) \<Rightarrow>
          (\<exists>rows. mset (suggestions_of (t_id (run_task r)) (ar_id record) d') = mset (fixed @ rows) \<and>
             map_result stored_suggestion rows = Inr (suggestion_replacements previous fixed (ssr_suggestions s)) \<and>
             list_all (\<lambda>s. sr_decision s = PENDING) rows)
      | (VersionResultOf v, _) \<Rightarrow>
          versions d' = versions d @ [version_record (fresh 0) now (t_id (run_task r)) v]
      | _ \<Rightarrow> False)"

lemma result_recorded_same: "same_content d1 d' \<Longrightarrow> result_recorded fresh now r res d d1 \<Longrightarrow> result_recorded fresh now r res d d'"
  by (simp add: result_recorded_def same_content_def find_analysis_def suggestions_of_def
      split: service_result.splits prepared.splits)

lemma suggestions_of_new_rows:
  assumes ok: "db_ok d"
    and prev: "previous = order_by2 sr_created_at sr_id (suggestions_of t a d)" "fixed = filter P previous"
  shows "mset (suggestions_of t a (d\<lparr>suggestions := kept_rows t a fixed d @ new_rows fresh now t a items\<rparr>)) =
    mset (fixed @ new_rows fresh now t a items)"
proof -
  have "\<forall>s \<in> set (new_rows fresh now t a items). sr_task_id s = t \<and> sr_analysis_id s = a"
    using rows_fields by (simp add: new_rows_def)
  then have "filter (\<lambda>s. sr_task_id s = t \<and> sr_analysis_id s = a) (new_rows fresh now t a items) =
      new_rows fresh now t a items" by (intro filter_True) blast
  moreover have "filter (\<lambda>s. sr_task_id s = t \<and> sr_analysis_id s = a) (kept_rows t a fixed d) =
      filter (\<lambda>s. sr_id s \<in> sr_id ` set fixed) (suggestions_of t a d)"
    by (auto simp: kept_rows_def suggestions_of_def intro: filter_cong)
  moreover have "mset (filter (\<lambda>s. sr_id s \<in> sr_id ` set fixed) (suggestions_of t a d)) = mset fixed"
  proof (rule fixed_rows)
    show "distinct (map sr_id (suggestions_of t a d))"
      using db_ok_keys(5) [OF ok] by (simp add: suggestions_of_def distinct_map_filter)
  qed (use prev in simp_all)
  ultimately show ?thesis by (simp add: suggestions_of_def [of _ _ "d\<lparr>suggestions := _\<rparr>"])
qed

lemma persist_suggestions_recorded:
  assumes ok: "db_ok d" and t: "t_id (run_task r) \<in> t_id ` set (tasks d)"
    and c: "content_ok (content_of (t_id (run_task r)) d)"
    and mat: "material_ok (content_of (t_id (run_task r)) d) (run_prepared r)" and i: "invoke env r = Inr res"
    and fresh: "fresh_ids fresh d" and prep: "run_prepared r = PreparedSuggestions b an x pl previous fixed"
    and res: "res = SuggestionsResultOf s"
  shows "if content_fits r res then \<exists>d1. persist fresh now r res d = Inr ((''suggestions'', ar_id an), d1) \<and>
      result_recorded fresh now r res d d1
    else \<exists>e. persist fresh now r res d = Inl e"
proof -
  let ?t = "t_id (run_task r)" and ?a = "ar_id an" and ?new = "suggestion_replacements previous fixed (ssr_suggestions s)"
  let ?d1 = "d\<lparr>suggestions := kept_rows ?t ?a fixed d @ new_rows fresh now ?t ?a ?new\<rparr>"
  obtain kept where kept: "map_result stored_suggestion fixed = Inr kept" using invoke_suggestions_kept [OF i prep] by blast
  from mat prep obtain P where an: "an \<in> set (analyses d)" and prev: "previous = order_by2 sr_created_at sr_id (suggestions_of ?t ?a d)"
    and fixed: "fixed = filter P previous"
    by (auto simp: material_ok_def suggestions_of_content) (auto simp: content_of_def)
  have set: "valid_suggestion_set (ssr_suggestions s)" using invoke_Inr [OF i] prep res by (simp add: result_well_def)
  have "suggestions_of ?t ?a d = [] \<or> length (suggestions_of ?t ?a d) \<le> 8 \<and>
      distinct (map sr_suggestion_key (suggestions_of ?t ?a d))"
    using c unfolding content_ok_def suggestions_ok_def suggestions_of_content by blast
  moreover have m: "mset previous = mset (suggestions_of ?t ?a d)" by (simp add: prev)
  ultimately have "length previous \<le> 8" "distinct (map sr_suggestion_key previous)"
    using mset_eq_length [OF m] mset_eq_imp_distinct_iff [of "map sr_suggestion_key previous"
        "map sr_suggestion_key (suggestions_of ?t ?a d)"] by auto
  note valid = kept_set_valid_iff [OF kept this fixed set]
  have "length ?new \<le> 8" using replacements_length [of fixed previous "ssr_suggestions s"] \<open>length previous \<le> 8\<close> fixed by simp
  note iff = persist_suggestions_iff [OF ok t _ fresh kept refl this, of an now]
  have an': "?a \<in> ar_id ` set (analyses d)" using an by simp
  have p: "persist fresh now r res d = persist_suggestions fresh now ?t an previous fixed s d"
    by (simp add: persist_def res prep)
  show ?thesis
  proof (cases "content_fits r res")
    case True
    then have "valid_suggestion_set (kept @ ?new)" "within_columns ?new"
      using valid by (simp_all add: content_fits_def res prep Let_def)
    then have "persist fresh now r res d = Inr ((''suggestions'', ?a), ?d1)" unfolding p iff [OF an'] by simp
    moreover have "result_recorded fresh now r res d ?d1"
    proof -
      have "list_all valid_suggestion ?new" using \<open>valid_suggestion_set (kept @ ?new)\<close> by (simp add: valid_suggestion_set_iff)
      then have "map_result stored_suggestion (new_rows fresh now ?t ?a ?new) = Inr ?new"
        unfolding new_rows_def by (rule map_result_rows)
      moreover have "list_all (\<lambda>s. sr_decision s = PENDING) (new_rows fresh now ?t ?a ?new)"
        by (auto simp: new_rows_def list_all_iff suggestion_row_def)
      ultimately show ?thesis
        using suggestions_of_new_rows [OF ok prev fixed, of fresh now ?new]
        by (auto simp: result_recorded_def res prep)
    qed
    ultimately show ?thesis using True by auto
  next
    case False
    then have "\<not> (valid_suggestion_set (kept @ ?new) \<and> within_columns ?new)"
      using valid by (simp add: content_fits_def res prep Let_def)
    with iff [OF an'] show ?thesis using False unfolding p
      by (cases "persist_suggestions fresh now ?t an previous fixed s d") auto
  qed
qed

lemma persist_recorded:
  assumes inv: "db_inv d" and run: "run_ok d m r" and c: "content_ok (content_of (t_id (run_task r)) d)"
    and mat: "material_ok (content_of (t_id (run_task r)) d) (run_prepared r)" and model: "length (run_model r) \<le> 150"
    and i: "invoke env r = Inr res" and fresh: "fresh_ids fresh d"
  shows "if content_fits r res
    then \<exists>rt rid d1. persist fresh now r res d = Inr ((rt, rid), d1) \<and> result_recorded fresh now r res d d1 \<and> length rt \<le> 32
    else \<exists>e. persist fresh now r res d = Inl e"
proof -
  note ok = db_invD(1) [OF inv] and well = invoke_Inr [OF i]
  let ?t = "t_id (run_task r)"
  obtain t0 where "find_task d ?t = Some t0" using run_ok_op [OF inv run] by metis
  then have t: "?t \<in> t_id ` set (tasks d)" by (auto dest!: find_task_Some intro: rev_image_eqI)
  have version: ?thesis if "res = VersionResultOf v" "\<And>q. vsr_parent_version_id v = Some q \<Longrightarrow> q \<in> v_id ` set (versions d)" for v
    using persist_version_ok [OF ok t, of "fresh 0" v now] that fresh_idsD(3) [OF fresh, of 0]
    by (auto simp: persist_def content_fits_def result_recorded_def split: prepared.splits)
  show ?thesis
  proof (cases "run_prepared r")
    case (PreparedAnalysis b)
    with well obtain a where a: "res = AnalysisResultOf a" "\<not> blank (asr_analysis a)"
      by (auto simp: result_well_def split: service_result.splits)
    with invoke_analysis_metadata i model have "length (pm_model_identifier (asr_metadata a)) \<le> 160"
      "pm_prompt_template_version (asr_metadata a) = PROMPT_TEMPLATE_VERSION" by fastforce+
    from persist_analysis_ok [OF ok t _ this a(2), of "fresh 0" now] a fresh_idsD(1) [OF fresh, of 0] show ?thesis
      by (auto simp: persist_def content_fits_def result_recorded_def)
  next
    case (PreparedSuggestions b an x pl previous fixed)
    with well obtain s where "res = SuggestionsResultOf s" by (auto simp: result_well_def split: service_result.splits)
    from persist_suggestions_recorded [OF ok t c mat i fresh PreparedSuggestions this, of now] show ?thesis
      by (fastforce split: if_splits)
  next
    case (PreparedFirstDraft b an sel pl)
    with well obtain v where "res = VersionResultOf v" "vsr_parent_version_id v = None"
      by (auto simp: result_well_def split: service_result.splits)
    then show ?thesis using version [of v] by simp
  next
    case (PreparedRevision b parent ls an sel pl)
    with well obtain v where "res = VersionResultOf v" "vsr_parent_version_id v = Some (vas_id parent)"
      by (auto simp: result_well_def revised_well_def split: service_result.splits)
    moreover from mat PreparedRevision have "vas_id parent \<in> v_id ` set (versions d)"
      by (auto simp: material_ok_def content_of_def intro: rev_image_eqI)
    ultimately show ?thesis using version [of v] by simp
  qed
qed

section \<open>The outcome of a valid result\<close>

lemma orm_save_outcome [simp]:
  "o_error_code (orm_save (touch_operation now) f op) = o_error_code (f op)"
  "o_provider_request_id (orm_save (touch_operation now) f op) = o_provider_request_id (f op)"
  by (rule orm_save_field; simp)+

lemma succeeded_ok_iff:
  assumes ok: "db_ok d1" and op: "op \<in> set (operations d1)" and rt: "length rt \<le> 32"
  shows "db_ok (succeeded_db now op res rt rid d1) \<longleftrightarrow> fits_column 200 (pm_provider_request_id (result_metadata res))"
    (is "_ \<longleftrightarrow> ?fits")
proof
  assume "db_ok (succeeded_db now op res rt rid d1)"
  moreover have "orm_save (touch_operation now) (complete_operation now res rt rid) op \<in>
      set (operations (succeeded_db now op res rt rid d1))"
    using op by (auto simp: succeeded_db_def operations_save_operation)
  ultimately have "op_columns_ok (orm_save (touch_operation now) (complete_operation now res rt rid) op)"
    unfolding db_ok_def columns_ok_def list_all_iff by blast
  then have "op_columns_ok (complete_operation now res rt rid op)" by simp
  then show ?fits by (simp add: op_columns_ok_def complete_operation_def)
next
  assume ?fits
  then show "db_ok (succeeded_db now op res rt rid d1)"
    unfolding succeeded_db_def
    by (intro db_ok_save_operation db_ok_save_task ok)
      (use rt in \<open>simp_all add: complete_operation_def same_keys_def op_columns_ok_def fits_column_def\<close>)
qed

text \<open>A result that is not recorded fails the operation with one of two codes.\<close>

lemma finish_refused:
  assumes inv: "db_inv d" and op: "op \<in> set (running_ops d)" "find_operation d (run_operation_id r) = Some op"
    "o_id op = run_operation_id r" "o_task_id op = t_id (run_task r)" and t: "find_task d (t_id (run_task r)) = Some t"
  shows "\<exists>ex. finish_invalid now r d = (FinishRaised ex, failed_db now op invalid_error FAILED d)"
    and "\<exists>ex. finish_crash now r d = (FinishRaised ex, failed_db now op internal_error FAILED d)"
proof -
  have e: "error_fits invalid_error" "error_fits internal_error" by simp_all
  have tid: "t_id t = o_task_id op" using t op find_task_Some by auto
  show "\<exists>ex. finish_invalid now r d = (FinishRaised ex, failed_db now op invalid_error FAILED d)"
    using record_failure_Inr [OF inv op(1) e(1), of FAILED now] op by (simp add: finish_invalid_def fail_and_raise_def)
  have "o_status op \<noteq> SUCCEEDED" using op(1) by (simp add: in_running_ops)
  then show "\<exists>ex. finish_crash now r d = (FinishRaised ex, failed_db now op internal_error FAILED d)"
    using record_failure_Inr [OF inv op(1) e(2), of FAILED now] op t by (simp add: finish_crash_def tid)
qed

definition refused :: "ai_operation \<Rightarrow> bool" where
  "refused op \<longleftrightarrow> o_status op = FAILED \<and>
     o_error_code op \<in> {Some (tx ''invalid_ai_operation''), Some (tx ''ai_operation_internal_error'')}"

lemma failed_db_refused:
  assumes "op \<in> set (operations d)" and "e = invalid_error \<or> e = internal_error"
  shows "\<exists>x \<in> set (operations (failed_db now op e FAILED d)). o_id x = o_id op \<and> refused x"
proof -
  let ?x = "orm_save (touch_operation now) (fail_operation now e FAILED) op"
  have "?x \<in> set (operations (failed_db now op e FAILED d))"
    using assms(1) by (auto simp: failed_db_def operations_save_operation)
  moreover have "refused ?x" "o_id ?x = o_id op"
    using assms(2) by (auto simp: refused_def fail_operation_def invalid_error_def internal_error_def)
  ultimately show ?thesis by blast
qed

text \<open>C3: when the provider's answer has passed every check, the claimed execution records it exactly when
  it fits: the request identifier is within its column and, for suggestions, enough new ones are left beside the
  fixed ones and they fit their columns. Then the operation succeeds and readers see the new analysis as the
  selected one, the fixed suggestions with the new ones, or the new version; otherwise the operation fails
  with a recorded code and no content changes.\<close>

theorem valid_results_are_recorded:
  assumes "init s0" and "(step env)\<^sup>*\<^sup>* s0 s" and "d = sys_db s" and "sys_jobs s m = Some (JobRunning r)"
    and "invoke env' r = Inr res" and "fresh_ids fresh d" and "execute_end env' fresh now r d = (j, d')"
  shows "\<exists>op \<in> set (operations d'). o_id op = run_operation_id r \<and>
    (if result_fits r res
     then o_status op = SUCCEEDED \<and> o_provider_request_id op = pm_provider_request_id (result_metadata res) \<and>
       result_recorded fresh now r res d d'
     else refused op \<and> same_content d d')"
proof -
  have "content_inv s" "model_inv s" using content.reachable_inv models.reachable_inv assms(1,2) by blast+
  then have inv: "db_inv d" and wf: "jobs_wf d (sys_jobs s)" and c: "content_ok (content_of (t_id (run_task r)) d)"
    and mat: "material_ok (content_of (t_id (run_task r)) d) (run_prepared r)" and model: "length (run_model r) \<le> 150"
    using assms(3,4) by (simp_all add: content_inv_def model_inv_def sys_inv_def runs_ok_def models_fit_def)
  note run = jobs_wfD(2) [OF wf assms(4)]
  obtain op t where op: "op \<in> set (running_ops d)" "find_operation d (run_operation_id r) = Some op"
    "o_id op = run_operation_id r" "o_task_id op = t_id (run_task r)" and t: "find_task d (t_id (run_task r)) = Some t"
    using run_ok_op [OF inv run] by metis
  have mem: "op \<in> set (operations d)" using op(1) by (simp add: in_running_ops)
  have d': "d' = snd (execute_finish env' fresh now r d)"
    using assms(7) by (auto simp: execute_end_def split: prod.splits finish.splits if_splits)
  note fails = finish_refused [OF inv op t, of now]
  have refuse: ?thesis if "d' = failed_db now op e FAILED d" "e = invalid_error \<or> e = internal_error" "\<not> result_fits r res" for e
    using failed_db_refused [OF mem that(2), of now] failed_db_same_content that(1,3) op(3) by auto
  show ?thesis
  proof (cases "persist fresh now r res d")
    case (Inl e)
    have "d' = failed_db now op invalid_error FAILED d \<or> d' = failed_db now op internal_error FAILED d"
      using fails by (cases e) (auto simp: d' execute_finish_def assms(5) Inl)
    moreover have "\<not> result_fits r res"
      using persist_recorded [OF inv run c mat model assms(5,6), of now] Inl by (auto simp: result_fits_def)
    ultimately show ?thesis using refuse by blast
  next
    case (Inr p)
    obtain rt rid d1 where p: "p = ((rt, rid), d1)" by (metis prod.exhaust)
    note frame = persist_frame [OF Inr [unfolded p]]
    have rec: "content_fits r res" "result_recorded fresh now r res d d1" "length rt \<le> 32"
      using persist_recorded [OF inv run c mat model assms(5,6), of now] Inr p by (auto split: if_splits)
    have mem1: "op \<in> set (operations d1)" using mem frame by simp
    note ok = succeeded_ok_iff [OF _ mem1 rec(3), of now res rid]
    have x: "finish_success now r res rt rid d1 = bind_result (flush (succeeded_db now op res rt rid d1)) (\<lambda>d'.
        bind_result (of_option AttributeError (find_operation d' (run_operation_id r))) (\<lambda>op. Inr (op, d')))"
      by (simp add: finish_success_def succeeded_db_def op)
    show ?thesis
    proof (cases "result_fits r res")
      case True
      let ?op = "orm_save (touch_operation now) (complete_operation now res rt rid) op"
      have dbs: "db_ok (succeeded_db now op res rt rid d1)" using True ok frame by (simp add: result_fits_def)
      have memop: "?op \<in> set (operations (succeeded_db now op res rt rid d1))"
        using mem1 by (auto simp: succeeded_db_def operations_save_operation)
      then obtain y where "find_operation (succeeded_db now op res rt rid d1) (run_operation_id r) = Some y"
        using find_operation_mem [OF dbs memop] op(3) by (simp add: complete_operation_def)
      then have "d' = succeeded_db now op res rt rid d1"
        by (simp add: d' execute_finish_def assms(5) Inr p x dbs)
      moreover have "same_content d1 (succeeded_db now op res rt rid d1)" by (simp add: same_content_def succeeded_db_def)
      ultimately show ?thesis
        using True memop result_recorded_same [OF _ rec(2)] op(3)
        by (intro bexI [of _ ?op]) (auto simp: complete_operation_def)
    next
      case False
      then have "\<not> db_ok (succeeded_db now op res rt rid d1)" using ok rec(1) frame by (simp add: result_fits_def)
      then obtain e where "flush (succeeded_db now op res rt rid d1) = Inl e"
        by (cases "flush (succeeded_db now op res rt rid d1)") auto
      then have "d' = failed_db now op internal_error FAILED d"
        using fails(2) by (auto simp: d' execute_finish_def assms(5) Inr p x)
      then show ?thesis using refuse False by blast
    qed
  qed
qed

definition demo_reply :: op_env where
  "demo_reply = demo_env\<lparr>oe_ai := (oe_ai demo_env)\<lparr>env_post := (\<lambda>_. HttpResponse
     \<lparr>hr_status = 200, hr_headers = [], hr_body = Some (JObj [(tx ''choices'', JArr
       [JObj [(tx ''message'', JObj [(tx ''content'', JStr (tx ''plot''))])]])])\<rparr>)\<rparr>\<rparr>"

lemma demo_invoke: "\<exists>a. invoke demo_reply demo_run = Inr (AnalysisResultOf a) \<and> asr_analysis a = tx ''plot'' \<and>
    pm_provider_request_id (asr_metadata a) = None"
proof -
  have "valid_creative_settings demo_settings" by (simp add: demo_settings_def valid_creative_settings_def level_ok_def)
  moreover have "valid_source_text (tx ''hello'')" by (simp add: valid_source_text_def tx_def)
  ultimately show ?thesis
    by (simp add: invoke_def demo_run_def demo_reply_def demo_env_def invoke_analyze_def task_snapshot_of_def demo_task_def
        new_task_def svc_analyze_def mk_state_plan_def assert_transition_def analysis_request_def text_request_def
        mk_completion_request_def complete_call_def complete_def is_error_def content_type_html_def contains_def
        ascii_lower_def parse_response_def first_choice_def choice_content_def usage_members_def dec_request_id_def
        dec_tokens_def jget_def require_nonempty_text_def blank_iff is_space_def map_ok_def mk_metadata_def
        find_from.simps [of "[]"] tx_def)
qed

lemma demo_fresh: "fresh_ids (\<lambda>n. 90 + of_nat n) demo_running"
  by (simp add: fresh_ids_def demo_defs upt_rec)

theorem valid_results_are_recorded_witness:
  "\<exists>op \<in> set (operations (snd (execute_end demo_reply (\<lambda>n. 90 + of_nat n) 9 demo_run demo_running))).
     o_id op = 20 \<and> o_status op = SUCCEEDED"
proof -
  obtain j d' where e: "execute_end demo_reply (\<lambda>n. 90 + of_nat n) 9 demo_run demo_running = (j, d')"
    by (metis prod.exhaust)
  obtain a where a: "invoke demo_reply demo_run = Inr (AnalysisResultOf a)" "pm_provider_request_id (asr_metadata a) = None"
    using demo_invoke by blast
  have "result_fits demo_run (AnalysisResultOf a)"
    by (simp add: result_fits_def content_fits_def result_metadata_def a(2) fits_column_def)
  then show ?thesis
    using valid_results_are_recorded [OF demo_init_ok demo_reachable refl _ a(1), of 1 "\<lambda>n. 90 + of_nat n" 9 j d'] demo_fresh e
    by (auto simp: demo_sys_def demo_run_def [THEN arg_cong [where f = run_operation_id]])
qed

end
