(* ===== verification/Ai_Lock.thy ===== *)
theory Ai_Lock
  imports Task_Store
begin

text \<open>
  The per-member lease on AI calls: src/backend/app/modules/tasks/ai_lock.py. Two implementations,
  the Redis one with an expiry and the process-local one, behind the interface \<open>member_lock\<close>.
\<close>

section \<open>Redis\<close>

text \<open>A store maps a key to its value and the instant it expires. \<open>SET key value NX EX s\<close> and the
  compare-and-delete script are the two commands used; \<open>up\<close> says whether Redis answers.\<close>

type_synonym redis = "pystr \<rightharpoonup> pystr \<times> instant"

definition redis_get :: "instant \<Rightarrow> pystr \<Rightarrow> redis \<Rightarrow> pystr option" where
  "redis_get now key store =
     (case store key of None \<Rightarrow> None | Some (v, expires) \<Rightarrow> if now < expires then Some v else None)"

definition redis_set_nx :: "instant \<Rightarrow> pystr \<Rightarrow> pystr \<Rightarrow> int \<Rightarrow> redis \<Rightarrow> bool \<times> redis" where
  "redis_set_nx now key v ex store =
     (if redis_get now key store \<noteq> None then (False, store)
      else (True, store(key \<mapsto> (v, now + seconds ex))))"

definition release_script :: "instant \<Rightarrow> pystr \<Rightarrow> pystr \<Rightarrow> redis \<Rightarrow> redis" where
  "release_script now key token store =
     (if redis_get now key store = Some token then store(key := None) else store)"

definition lease_token :: "uuid \<Rightarrow> pystr" where
  "lease_token u = hex_fixed 32 (unat u)"

definition lock_key :: "uuid \<Rightarrow> pystr" where
  "lock_key member_id = tx ''douyin-caption:member-ai-call:'' @ uuid_str member_id"

record member_ai_call_lock =
  lock_lease_seconds :: int

definition mk_member_ai_call_lock :: "int \<Rightarrow> value_error + member_ai_call_lock" where
  "mk_member_ai_call_lock lease_seconds =
     (if lease_seconds < 1 then Inl (ValueError ''AI lock lease must be positive'')
      else Inr \<lparr>lock_lease_seconds = lease_seconds\<rparr>)"

definition redis_acquire ::
  "int \<Rightarrow> bool \<Rightarrow> instant \<Rightarrow> uuid \<Rightarrow> uuid \<Rightarrow> redis \<Rightarrow> task_exc + pystr \<times> redis" where
  "redis_acquire lease_seconds up now u member_id store =
     (if \<not> up then Inl AiLockUnavailableError
      else let (acquired, store') =
             redis_set_nx now (lock_key member_id) (lease_token u) lease_seconds store
           in if \<not> acquired then Inl MemberAiCallBusyError else Inr (lease_token u, store'))"

text \<open>\<open>MemberAiLease.__aexit__\<close>: a Redis error is swallowed and the lease is left to expire.\<close>

definition redis_release :: "bool \<Rightarrow> instant \<Rightarrow> uuid \<Rightarrow> pystr \<Rightarrow> redis \<Rightarrow> redis" where
  "redis_release up now member_id token store =
     (if up then release_script now (lock_key member_id) token store else store)"

section \<open>Process-local fallback\<close>

type_synonym tokens = "uuid \<rightharpoonup> pystr"

definition mem_acquire :: "uuid \<Rightarrow> uuid \<Rightarrow> tokens \<Rightarrow> task_exc + pystr \<times> tokens" where
  "mem_acquire u member_id tokens =
     (if tokens member_id \<noteq> None then Inl MemberAiCallBusyError
      else Inr (lease_token u, tokens(member_id \<mapsto> lease_token u)))"

definition mem_release :: "uuid \<Rightarrow> pystr \<Rightarrow> tokens \<Rightarrow> tokens" where
  "mem_release member_id token tokens =
     (if tokens member_id = Some token then tokens(member_id := None) else tokens)"

section \<open>The interface\<close>

text \<open>
  \<open>holder s now m\<close> is the token that holds the lease of member \<open>m\<close>. A lease is good from its
  acquisition until \<open>until\<close>.
\<close>

locale member_lock =
  fixes holder :: "'s \<Rightarrow> instant \<Rightarrow> uuid \<Rightarrow> pystr option"
    and acquire :: "instant \<Rightarrow> uuid \<Rightarrow> uuid \<Rightarrow> 's \<Rightarrow> task_exc + pystr \<times> 's"
    and release :: "instant \<Rightarrow> uuid \<Rightarrow> pystr \<Rightarrow> 's \<Rightarrow> 's"
    and until :: "instant \<Rightarrow> instant \<Rightarrow> bool"
  assumes acquire_busy: "holder s now m = Some t \<Longrightarrow> acquire now u m s = Inl MemberAiCallBusyError"
    and acquire_free: "holder s now m = None \<Longrightarrow> \<exists>s'. acquire now u m s = Inr (lease_token u, s')"
    and acquire_holds: "acquire now u m s = Inr (t, s') \<Longrightarrow> until now later \<Longrightarrow>
          holder s' later m' = (if m' = m then Some t else holder s later m')"
    and release_foreign: "holder s now m \<noteq> Some t \<Longrightarrow> release now m t s = s"
    and release_own: "holder s now m = Some t \<Longrightarrow>
          holder (release now m t s) later m' = (if m' = m then None else holder s later m')"
begin

lemma second_call_is_busy:
  assumes "acquire now u m s = Inr (t, s')" and "until now later"
  shows "acquire later v m s' = Inl MemberAiCallBusyError"
  using acquire_busy [of s' later m t v] acquire_holds [OF assms, of m] by simp

lemma other_member_is_free:
  assumes "acquire now u m s = Inr (t, s')" and "until now later" and "m' \<noteq> m"
    and "holder s later m' = None"
  shows "\<exists>s''. acquire later v m' s' = Inr (lease_token v, s'')"
  using acquire_free [of s' later m' v] acquire_holds [OF assms(1,2), of m'] assms(3,4) by simp

lemma release_then_free:
  assumes "acquire now u m s = Inr (t, s')" and "until now later"
  shows "\<exists>s''. acquire later v m (release later m t s') = Inr (lease_token v, s'')"
  using acquire_free [of "release later m t s'" later m v] release_own [of s' later m t later m]
    acquire_holds [OF assms, of m] by simp

lemma late_release_keeps_new_lease:
  assumes "acquire now u m s = Inr (t, s')" and "until now later" and "t' \<noteq> t"
  shows "release later m t' s' = s'"
  using release_foreign [of s' later m t'] acquire_holds [OF assms(1,2), of m] assms(3) by simp

end

lemma lock_key_inject [simp]: "lock_key m = lock_key m' \<longleftrightarrow> m = m'"
  by (simp add: lock_key_def)

lemma lease_token_inject [simp]: "lease_token u = lease_token v \<longleftrightarrow> u = v"
proof
  assume "lease_token u = lease_token v"
  then have "parse_hex 0 (hex_fixed 32 (unat u)) = parse_hex 0 (hex_fixed 32 (unat v))"
    by (simp add: lease_token_def)
  moreover have "unat w < 16 ^ 32" for w :: uuid using unsigned_less [of w, where ?'a = nat] by simp
  ultimately show "u = v" by (simp add: parse_hex_fixed word_unat_eq_iff)
qed simp

lemmas redis_defs = redis_acquire_def redis_release_def redis_set_nx_def release_script_def redis_get_def
  Let_def

lemma redis_member_lock:
  assumes "0 < ls"
  shows "member_lock (\<lambda>s now m. redis_get now (lock_key m) s) (redis_acquire ls True)
    (redis_release True) (\<lambda>now later. now \<le> later \<and> later < now + seconds ls)"
proof
  fix s :: redis and now m t u
  show "redis_get now (lock_key m) s = Some t \<Longrightarrow> redis_acquire ls True now u m s = Inl MemberAiCallBusyError"
    by (simp add: redis_acquire_def redis_set_nx_def)
  show "redis_get now (lock_key m) s = None \<Longrightarrow>
      \<exists>s'. redis_acquire ls True now u m s = Inr (lease_token u, s')"
    by (simp add: redis_acquire_def redis_set_nx_def)
next
  fix s s' :: redis and now later m m' t u
  assume "redis_acquire ls True now u m s = Inr (t, s')"
    and l: "now \<le> later \<and> later < now + seconds ls"
  then have "t = lease_token u" "s' = s(lock_key m \<mapsto> (lease_token u, now + seconds ls))"
    by (auto simp: redis_acquire_def redis_set_nx_def split: if_splits)
  with l show "redis_get later (lock_key m') s' =
      (if m' = m then Some t else redis_get later (lock_key m') s)"
    by (simp add: redis_get_def)
next
  fix s :: redis and now m t
  show "redis_get now (lock_key m) s \<noteq> Some t \<Longrightarrow> redis_release True now m t s = s"
    by (simp add: redis_release_def release_script_def)
next
  fix s :: redis and now later m m' t
  show "redis_get now (lock_key m) s = Some t \<Longrightarrow>
      redis_get later (lock_key m') (redis_release True now m t s) =
      (if m' = m then None else redis_get later (lock_key m') s)"
    by (simp add: redis_release_def release_script_def) (simp add: redis_get_def)
qed

interpretation redis_lock: member_lock "\<lambda>s now m. redis_get now (lock_key m) s"
  "redis_acquire AI_LOCK_LEASE_SECONDS True" "redis_release True"
  "\<lambda>now later. now \<le> later \<and> later < now + seconds AI_LOCK_LEASE_SECONDS"
  by (rule redis_member_lock) (simp add: AI_LOCK_LEASE_SECONDS_def MAX_RESPONSE_TIMEOUT_SECONDS_def)

interpretation mem_lock: member_lock "\<lambda>s now m. s m" "\<lambda>now. mem_acquire" "\<lambda>now. mem_release" "\<lambda>_ _. True"
  by unfold_locales (auto simp: mem_acquire_def mem_release_def split: if_splits)

section \<open>Mutual exclusion\<close>

text \<open>C21: while a member's Redis lease runs, from its acquisition for \<open>AI_LOCK_LEASE_SECONDS\<close>, every
  further acquisition for that member is refused as busy and a release with any other token changes
  nothing.\<close>

theorem redis_lease_is_exclusive:
  assumes "redis_acquire AI_LOCK_LEASE_SECONDS True now u m store = Inr (t, store')"
    and "now \<le> later" and "later < now + seconds AI_LOCK_LEASE_SECONDS"
  shows "redis_acquire AI_LOCK_LEASE_SECONDS True later v m store' = Inl MemberAiCallBusyError \<and>
    (t' \<noteq> t \<longrightarrow> redis_release True later m t' store' = store')"
  using redis_lock.second_call_is_busy [OF assms(1)] redis_lock.late_release_keeps_new_lease [OF assms(1)]
    assms(2,3) by blast

theorem redis_lease_is_exclusive_witness:
  "redis_acquire AI_LOCK_LEASE_SECONDS True (seconds 659) 2 7
     (Map.empty(lock_key 7 \<mapsto> (lease_token 1, seconds 660))) = Inl MemberAiCallBusyError"
proof -
  have "redis_acquire AI_LOCK_LEASE_SECONDS True 0 1 7 Map.empty =
      Inr (lease_token 1, Map.empty(lock_key 7 \<mapsto> (lease_token 1, seconds 660)))"
    by (simp add: redis_defs AI_LOCK_LEASE_SECONDS_def MAX_RESPONSE_TIMEOUT_SECONDS_def)
  moreover have "0 \<le> seconds 659" "seconds 659 < 0 + seconds AI_LOCK_LEASE_SECONDS"
    by (simp_all add: seconds_def AI_LOCK_LEASE_SECONDS_def MAX_RESPONSE_TIMEOUT_SECONDS_def)
  ultimately show ?thesis using redis_lease_is_exclusive by blast
qed

text \<open>C22: the process-local lease is held from its acquisition until the holder releases it, releasing
  it lets the next caller in, and no other member is affected.\<close>

theorem in_memory_lease_is_exclusive:
  assumes "mem_acquire u m tokens = Inr (t, tokens')"
  shows "mem_acquire v m tokens' = Inl MemberAiCallBusyError \<and>
    (\<exists>tokens''. mem_acquire v m (mem_release m t tokens') = Inr (lease_token v, tokens'')) \<and>
    (t' \<noteq> t \<longrightarrow> mem_release m t' tokens' = tokens') \<and>
    (m' \<noteq> m \<longrightarrow> tokens' m' = tokens m')"
  using mem_lock.second_call_is_busy [OF assms] mem_lock.release_then_free [OF assms]
    mem_lock.late_release_keeps_new_lease [OF assms] mem_lock.acquire_holds [OF assms]
  by (metis (full_types))

theorem in_memory_lease_is_exclusive_witness:
  "mem_acquire 2 7 [7 \<mapsto> lease_token 1] = Inl MemberAiCallBusyError"
proof -
  have "mem_acquire 1 7 Map.empty = Inr (lease_token 1, [7 \<mapsto> lease_token 1])"
    by (simp add: mem_acquire_def)
  then show ?thesis using in_memory_lease_is_exclusive by blast
qed

end
