(* ===== verification/Worker_Progress.thy ===== *)
theory Worker_Progress
  imports Ai_System
begin

text \<open>
  Progress of the queue: a member's job executed without interruption ends its operation, so rounds of a
  tick and the job it starts drain the member's queue, whatever the provider answers.
\<close>

section \<open>Errors the clean-up can store\<close>

text \<open>Code and message of an exception fit the columns of the operation; the two exceptions that leave
  the operation queued are excluded.\<close>

definition exc_fits :: "task_exc \<Rightarrow> bool" where
  "exc_fits e \<longleftrightarrow> length (fst (failure_code e)) \<le> 80 \<and> length (snd (failure_code e)) \<le> 500 \<and>
     e \<notin> {MemberAiCallBusyError, AiLockUnavailableError}"

definition raises_fit :: "task_exc + 'a \<Rightarrow> bool" where
  "raises_fit r \<longleftrightarrow> (\<forall>e. r = Inl e \<longrightarrow> exc_fits e)"

lemma exc_fits_simps [simp]:
  "exc_fits (PyValueError v)" "exc_fits AttributeError" "exc_fits KeyError" "exc_fits AssertionError"
  "exc_fits IntegrityError" "exc_fits DataError"
  "exc_fits (TaskAiExecutionError code message status details) \<longleftrightarrow> length code \<le> 80 \<and> length message \<le> 500"
  "exc_fits (ai_exc code message status) \<longleftrightarrow> length code \<le> 80 \<and> length message \<le> 500"
  by (simp_all add: exc_fits_def failure_code_def ai_exc_def)

lemma raises_fit_simps [simp]:
  "raises_fit (Inr x)" "raises_fit (Inl e) \<longleftrightarrow> exc_fits e"
  by (simp_all add: raises_fit_def)

lemma raises_fit_map [simp]: "raises_fit (map_error PyValueError r)"
  by (cases r) simp_all

lemma raises_fit_option [simp]: "raises_fit (of_option e x) \<longleftrightarrow> exc_fits e \<or> x \<noteq> None"
  by (cases x) simp_all

lemma raises_fit_bind:
  "raises_fit r \<Longrightarrow> (\<And>x. r = Inr x \<Longrightarrow> raises_fit (k x)) \<Longrightarrow> raises_fit (bind_result r k)"
  by (cases r) (auto simp: raises_fit_def)

lemma raises_fit_fixed [simp]: "raises_fit (fixed_suggestions ds items)"
  by (induction items) (auto split: option.splits intro!: raises_fit_bind)

lemma raises_fit_selected [simp]: "raises_fit (selected_suggestions ds items)"
  by (induction items) (auto split: option.splits intro!: raises_fit_bind)

lemma raises_fit_lookups [simp]:
  "raises_fit (find_analysis i a d)" "raises_fit (stored_analysis rec)" "raises_fit (stored_suggestion_set recs)"
  "raises_fit (get_owned_operation q m d)" "raises_fit (provider_context env m d)"
  by (auto simp: find_analysis_def stored_analysis_def stored_suggestion_set_def get_owned_operation_def
      provider_context_def intro!: raises_fit_bind)

lemma raises_fit_prepare: "raises_fit (prepare task p d)"
  by (cases p) (auto simp: prepare_def prepare_analyze_def prepare_suggest_def prepare_first_draft_def
      prepare_revise_def revision_material_def Let_def split: prod.splits intro!: raises_fit_bind)

section \<open>Counting a member's active operations\<close>

definition queue_length :: "uuid \<Rightarrow> db \<Rightarrow> nat" where
  "queue_length m d = length (filter (\<lambda>op. o_owner_id op = m \<and> active op) (operations d))"

text \<open>\<open>shrinks d d'\<close>: no operation becomes active, none changes its owner or identifier.\<close>

definition shrinks :: "db \<Rightarrow> db \<Rightarrow> bool" where
  "shrinks d d' \<longleftrightarrow> (\<exists>h. operations d' = map h (operations d) \<and>
     (\<forall>op \<in> set (operations d). o_id (h op) = o_id op \<and> o_owner_id (h op) = o_owner_id op \<and> (active (h op) \<longrightarrow> active op)))"

lemma shrinks_refl [simp]: "shrinks d d"
  unfolding shrinks_def by (rule exI [of _ id]) simp

lemma shrinks_trans: "shrinks d1 d2 \<Longrightarrow> shrinks d2 d3 \<Longrightarrow> shrinks d1 d3"
  unfolding shrinks_def
proof (elim exE conjE)
  fix h k assume "operations d2 = map h (operations d1)" "operations d3 = map k (operations d2)"
    "\<forall>op\<in>set (operations d1). o_id (h op) = o_id op \<and> o_owner_id (h op) = o_owner_id op \<and> (active (h op) \<longrightarrow> active op)"
    "\<forall>op\<in>set (operations d2). o_id (k op) = o_id op \<and> o_owner_id (k op) = o_owner_id op \<and> (active (k op) \<longrightarrow> active op)"
  then show "\<exists>h. operations d3 = map h (operations d1) \<and>
    (\<forall>op\<in>set (operations d1). o_id (h op) = o_id op \<and> o_owner_id (h op) = o_owner_id op \<and> (active (h op) \<longrightarrow> active op))"
    by (intro exI [of _ "k \<circ> h"]) (simp del: active_simps)
qed

lemma length_filter_map_le:
  assumes "\<And>x. x \<in> set xs \<Longrightarrow> P (h x) \<Longrightarrow> P x"
  shows "length (filter P (map h xs)) \<le> length (filter P xs)"
  using assms by (induction xs) (auto split: if_splits intro: le_SucI)

lemma length_filter_map_less:
  assumes "\<And>x. x \<in> set xs \<Longrightarrow> P (h x) \<Longrightarrow> P x" and "x \<in> set xs" and "P x" and "\<not> P (h x)"
  shows "length (filter P (map h xs)) < length (filter P xs)"
  using assms
proof (induction xs)
  case (Cons y ys)
  then show ?case using length_filter_map_le [of ys P h] by (cases "y = x") (auto split: if_splits simp: less_Suc_eq_le)
qed simp

lemma shrinks_length: "shrinks d d' \<Longrightarrow> queue_length m d' \<le> queue_length m d"
  unfolding shrinks_def queue_length_def by (elim exE conjE) (simp only:, rule length_filter_map_le, simp del: active_simps)

text \<open>The queue gets shorter when an active operation of the member ends.\<close>

lemma shrinks_ended:
  assumes s: "shrinks d d'" and ok: "db_ok d" and op: "op \<in> set (operations d)" "o_owner_id op = m" "active op"
    and gone: "\<And>x. x \<in> set (operations d') \<Longrightarrow> o_id x = o_id op \<Longrightarrow> \<not> active x"
  shows "queue_length m d' < queue_length m d"
proof -
  from s obtain h where h: "operations d' = map h (operations d)"
    "\<And>x. x \<in> set (operations d) \<Longrightarrow> o_id (h x) = o_id x \<and> o_owner_id (h x) = o_owner_id x \<and> (active (h x) \<longrightarrow> active x)"
    unfolding shrinks_def by blast
  have "\<not> active (h op)" using gone [of "h op"] h op(1) by auto
  then show ?thesis
    unfolding queue_length_def h(1) by (intro length_filter_map_less [of _ _ _ op]) (use h(2) op in \<open>auto simp del: active_simps\<close>)
qed

lemma shrinks_owner:
  assumes s: "shrinks d d'" and ok: "db_ok d" and op: "op \<in> set (operations d)"
    and y: "y \<in> set (operations d')" "o_id y = o_id op"
  shows "o_owner_id y = o_owner_id op"
proof -
  from s y(1) obtain x where x: "x \<in> set (operations d)" "o_id y = o_id x" "o_owner_id y = o_owner_id x"
    unfolding shrinks_def by auto
  with operation_eq [OF ok x(1) op] y(2) show ?thesis by simp
qed

lemma shrinks_save_operation:
  assumes "operations d1 = operations d" and "\<And>x. o_id (f x) = o_id x \<and> o_owner_id (f x) = o_owner_id x \<and> \<not> active (f x)"
  shows "shrinks d (save_operation now i f d1)"
  unfolding shrinks_def
  by (rule exI [of _ "\<lambda>r. if o_id r = i then orm_save (touch_operation now) f r else r"])
    (use assms in \<open>auto simp: operations_save_operation orm_save_def\<close>)

lemma shrinks_recover_one: "shrinks d (recover_one now op d)"
  unfolding recover_one_release
  by (rule shrinks_save_operation) (auto simp: release_task_def mark_stale_def split: option.splits)

lemma shrinks_fold: "(\<And>x d. shrinks d (f x d)) \<Longrightarrow> shrinks d (fold f xs d)"
  by (induction xs arbitrary: d) (auto intro: shrinks_trans)

lemma shrinks_recover:
  "recover_stale_operations m now d = Inr (n, d') \<Longrightarrow> shrinks d d'"
  by (auto simp: recover_stale_operations_def Let_def shrinks_fold shrinks_recover_one split: if_splits)

lemma shrinks_recover_owners: "shrinks d (snd (recover_owners now jobs owners d))"
  by (induction now jobs owners d rule: recover_owners.induct)
    (auto split: sum.splits intro: shrinks_trans [OF shrinks_recover])


section \<open>The phases of a job\<close>

lemma shrinks_finish:
  assumes inv: "db_inv d" and ok: "run_ok d m r" and e: "execute_end env fresh now r d = (j, d')"
  shows "shrinks d d'"
proof -
  obtain op where op: "op \<in> set (running_ops d)" "o_id op = run_operation_id r" "o_task_id op = t_id (run_task r)"
    using run_ok_op [OF inv ok] by metis
  have s: "shrinks d (succeeded_db now op res rt rid d1)"
    if "persist fresh now r res d = Inr ((rt, rid), d1)" for res rt rid d1
    unfolding succeeded_db_def
    by (rule shrinks_save_operation) (use persist_frame [OF that] in \<open>auto simp: complete_operation_def\<close>)
  have f: "shrinks d (failed_db now op err st d)" if "st \<in> {FAILED, CANCELLED}" for err st
    unfolding failed_db_def
    by (rule shrinks_save_operation) (use that in \<open>auto simp: fail_operation_def split: prod.splits\<close>)
  have "d' = snd (execute_finish env fresh now r d)" using e by (auto simp: execute_end_def split: prod.splits finish.splits)
  with s f execute_finish_cases [OF inv op, of env fresh now] show ?thesis
    unfolding finish_fails_def by fastforce
qed

lemma operations_cleanup:
  "operations (cleanup_changes now i e d) =
     map (\<lambda>op. if o_id op = i \<and> o_status op = QUEUED then fail_queued now e op else op) (operations d)"
  by (simp add: cleanup_changes_def reset_task_def Let_def update_where_def split: option.splits)

lemma shrinks_cleanup: "shrinks d (execute_cleanup now i e d)"
proof -
  have "shrinks d (cleanup_changes now i e d)" unfolding shrinks_def operations_cleanup
    by (rule exI [of _ "\<lambda>op. if o_id op = i \<and> o_status op = QUEUED then fail_queued now e op else op"])
      (simp add: fail_queued_def)
  then show ?thesis by (cases "flush (cleanup_changes now i e d)") (simp_all add: execute_cleanup_def flush_def split: if_splits)
qed

text \<open>The clean-up of a failure whose error fits ends the queued operation.\<close>

lemma db_ok_cleanup:
  assumes "db_ok d" and "exc_fits e"
  shows "db_ok (cleanup_changes now i e d)"
proof -
  let ?h = "\<lambda>op. if o_id op = i \<and> o_status op = QUEUED then fail_queued now e op else op"
  have upd: "db_ok (d1\<lparr>operations := map ?h (operations d1)\<rparr>)" if "db_ok d1" for d1
    by (rule db_ok_update_operations [OF that])
      (use assms(2) in \<open>auto simp: fail_queued_def same_keys_def exc_fits_def op_columns_ok_def fits_column_def\<close>)
  have "db_ok (reset_task now op d)" for op
    unfolding reset_task_def update_where_def by (rule db_ok_update_tasks [OF assms(1)]) auto
  with upd assms(1) show ?thesis
    by (auto simp: cleanup_changes_def update_where_def Let_def split: option.splits)
qed

lemma cleanup_ends:
  assumes "db_ok d" and "exc_fits e" and "x \<in> set (operations (execute_cleanup now i e d))" and "o_id x = i"
  shows "o_status x \<noteq> QUEUED"
proof -
  have "flush (cleanup_changes now i e d) = Inr (cleanup_changes now i e d)"
    using db_ok_cleanup [OF assms(1,2)] by simp
  then have "execute_cleanup now i e d = cleanup_changes now i e d" by (simp only: execute_cleanup_def sum.case)
  with assms(3) have "x \<in> (\<lambda>y. if o_id y = i \<and> o_status y = QUEUED then fail_queued now e y else y) ` set (operations d)"
    by (simp only: operations_cleanup set_map)
  then obtain y where x: "x = (if o_id y = i \<and> o_status y = QUEUED then fail_queued now e y else y)" by blast
  show ?thesis
  proof (cases "o_id y = i \<and> o_status y = QUEUED")
    case True
    with x show ?thesis by (simp add: fail_queued_def)
  next
    case False
    with x assms(4) show ?thesis by auto
  qed
qed

text \<open>With the lease granted, the claim of a queued operation runs it or fails with an error that fits.\<close>

lemma claim_granted:
  assumes "execute_claim env LockGranted (Some (o_id op)) now 0 (o_owner_id op) task_id kind None hash prep d = (c, d')"
    and "db_ok d" and "op \<in> set (operations d)" and "o_status op = QUEUED"
  shows "(\<exists>r. c = Claimed r) \<or> (\<exists>e. c = ClaimRaised e \<and> exc_fits e)"
proof -
  have "distinct (map o_id (operations d))" by (rule db_ok_keys(2) [OF assms(2)])
  then have "find (\<lambda>x. o_id x = o_id op \<and> o_owner_id x = o_owner_id op) (operations d) = Some op"
    using assms(3) distinct_key_eq [of o_id "operations d"]
    by (cases "find (\<lambda>x. o_id x = o_id op \<and> o_owner_id x = o_owner_id op) (operations d)")
      (auto dest!: find_Some_mem find_None_notin)
  then have own: "get_owned_operation (o_id op) (o_owner_id op) d = Inr op" by (simp add: get_owned_operation_def)
  have ctx: "exc_fits e" if "provider_context env (o_owner_id op) d = Inl e" for e
    using that raises_fit_lookups(5) [of env "o_owner_id op" d] by (simp add: raises_fit_def)
  show ?thesis
    using assms(1,4) ctx
    by (auto simp: execute_claim_def idempotent_operation_def claim_queued_def own claim_commit_def flush_def ai_exc_def
        split: option.splits sum.splits prod.splits if_splits)
qed


section \<open>Rounds\<close>

text \<open>The next phase of the member's job; \<open>lock\<close> is how it fares with the lease.\<close>

definition advance :: "op_env \<Rightarrow> (nat \<Rightarrow> uuid) \<Rightarrow> lock_outcome \<Rightarrow> instant \<Rightarrow> uuid \<Rightarrow> db \<times> jobs \<Rightarrow> db \<times> jobs" where
  "advance env fresh lock now m st =
     (case st of (d, jobs) \<Rightarrow>
        (case jobs m of
           Some (JobNew i) \<Rightarrow> (case execute_begin env lock now i d of (j, d') \<Rightarrow> (d', jobs(m \<mapsto> j)))
         | Some (JobRunning r) \<Rightarrow> (case execute_end env fresh now r d of (j, d') \<Rightarrow> (d', jobs(m \<mapsto> j)))
         | Some (JobFailed i e) \<Rightarrow> (execute_cleanup now i e d, jobs(m \<mapsto> JobDone))
         | _ \<Rightarrow> (d, jobs)))"

text \<open>A tick, then the member's job to its end: begin, end and clean-up are at most three phases. The
  environment, the fresh identifiers, the outcome of the lease and the time are those of the round.\<close>

type_synonym round = "op_env \<times> (nat \<Rightarrow> uuid) \<times> lock_outcome \<times> instant"

definition serve :: "uuid \<Rightarrow> round \<Rightarrow> db \<times> jobs \<Rightarrow> db \<times> jobs" where
  "serve m x st =
     (case x of (env, fresh, lock, now) \<Rightarrow>
        let next = advance env fresh lock now m in next (next (next (tick now st))))"

text \<open>The running operations of the member that a crash or a cancelled job left behind. A round can serve
  the member once the lease is granted and the stale limit of these operations has passed.\<close>

definition orphans :: "uuid \<Rightarrow> db \<times> jobs \<Rightarrow> ai_operation list" where
  "orphans m st =
     (if snd st m = None then filter (\<lambda>op. o_owner_id op = m \<and> o_status op = RUNNING) (operations (fst st)) else [])"

definition can_serve :: "uuid \<Rightarrow> db \<times> jobs \<Rightarrow> round \<Rightarrow> bool" where
  "can_serve m st x =
     (case x of (env, fresh, lock, now) \<Rightarrow> lock = LockGranted \<and> list_all (is_stale now) (orphans m st))"

definition st_inv :: "db \<times> jobs \<Rightarrow> bool" where
  "st_inv st \<longleftrightarrow> db_inv (fst st) \<and> jobs_wf (fst st) (snd st)"

lemma st_inv_tick: "st_inv st \<Longrightarrow> st_inv (tick now st)"
  using tick_inv [of "fst st" "snd st" now] by (cases "tick now st") (simp add: st_inv_def)

lemma st_inv_advance:
  assumes "st_inv st" shows "st_inv (advance env fresh lock now m st)"
proof -
  obtain d jobs where st: "st = (d, jobs)" by (cases st)
  have inv: "db_inv d" "jobs_wf d jobs" using assms by (simp_all add: st st_inv_def)
  show ?thesis
  proof (cases "jobs m")
    case (Some j)
    then show ?thesis
    proof (cases j)
      case (JobNew i)
      with Some execute_begin_inv [OF inv, of m i env lock now] show ?thesis
        by (simp add: st advance_def st_inv_def split: prod.splits)
    next
      case (JobRunning r)
      with Some execute_end_inv [OF inv, of m r env fresh now] show ?thesis
        by (simp add: st advance_def st_inv_def split: prod.splits)
    next
      case (JobFailed i e)
      with Some execute_cleanup_inv [OF inv, of m i e now] show ?thesis by (simp add: st advance_def st_inv_def)
    qed (use assms Some in \<open>simp add: st advance_def\<close>)
  qed (use assms in \<open>simp add: st advance_def\<close>)
qed

lemma shrinks_begin:
  assumes "st_inv (d, jobs)" and "jobs m = Some (JobNew i)" and "execute_begin env lock now i d = (j, d')"
  shows "shrinks d d'"
proof -
  have inv: "db_inv d" and wf: "jobs_wf d jobs" using assms(1) by (simp_all add: st_inv_def)
  have free: "\<And>x. x \<in> set (running_ops d) \<Longrightarrow> o_owner_id x \<noteq> m" using no_running [OF wf assms(2)] by simp
  show ?thesis
  proof (cases "find_operation d i")
    case None
    with assms(3) show ?thesis by (simp add: execute_begin_def)
  next
    case (Some op)
    note op = find_operation_Some [OF Some]
    have own: "o_owner_id op = m" using jobs_wfD(1) [OF wf assms(2)] op by simp
    have "shrinks d d'" if "run_method env lock now op p d = (j, d')" "submission_kind p = o_kind op" for p
    proof -
      have "shrinks d (save_task now k f (claim_update now q d))" for k f q
        unfolding shrinks_def
        by (rule exI [of _ "\<lambda>x. if o_id x = q \<and> o_status x = QUEUED then claim_row now x else x"])
          (auto simp: claim_update_def update_where_def claim_row_def save_task_def)
      with run_method_cases [OF that(1) _ that(2)] free own show ?thesis
        unfolding claimed_from_def by fastforce
    qed
    with assms(3) Some show ?thesis
      by (auto simp: execute_begin_def split: if_splits option.splits dest: validate_submission_kind)
  qed
qed

lemma shrinks_advance:
  assumes "st_inv st" shows "shrinks (fst st) (fst (advance env fresh lock now m st))"
proof -
  obtain d jobs where st: "st = (d, jobs)" by (cases st)
  show ?thesis
  proof (cases "jobs m")
    case (Some j)
    then show ?thesis
    proof (cases j)
      case (JobNew i)
      with Some shrinks_begin [of d jobs m i env lock now] assms show ?thesis
        by (auto simp: st advance_def split: prod.splits)
    next
      case (JobRunning r)
      with Some jobs_wfD(2) [of d jobs m r] shrinks_finish [of d m r env fresh now] assms show ?thesis
        by (auto simp: st advance_def st_inv_def split: prod.splits)
    qed (simp_all add: st Some advance_def shrinks_cleanup)
  qed (simp add: st advance_def)
qed

lemma shrinks_tick:
  assumes "st_inv st" shows "shrinks (fst st) (fst (tick now st))"
proof -
  obtain d jobs where st: "st = (d, jobs)" by (cases st)
  obtain d' jobs' where t: "tick now (d, jobs) = (d', jobs')" by (cases "tick now (d, jobs)")
  have "db_inv d" using assms by (simp add: st st_inv_def)
  from tick_db [OF this t] shrinks_recover_owners show ?thesis by (auto simp: st t)
qed

lemma serve_shrinks:
  assumes "st_inv st"
  shows "st_inv (serve m x st) \<and> shrinks (fst st) (fst (serve m x st))"
proof -
  obtain env fresh lock now where x: "x = (env, fresh, lock, now)" by (cases x)
  let ?a = "advance env fresh lock now m"
  have i: "st_inv (tick now st)" "st_inv (?a (tick now st))" "st_inv (?a (?a (tick now st)))"
    using assms by (simp_all add: st_inv_tick st_inv_advance)
  with st_inv_advance [OF i(3)] shrinks_tick [OF assms, of now] shrinks_advance [OF i(1)] shrinks_advance [OF i(2)]
    shrinks_advance [OF i(3)]
  show ?thesis unfolding serve_def x prod.case Let_def by (meson shrinks_trans)
qed

section \<open>A round ends at rest\<close>

text \<open>The phases left to a job.\<close>

definition phases :: "uuid \<Rightarrow> db \<times> jobs \<Rightarrow> nat" where
  "phases m st =
     (case snd st m of Some (JobNew _) \<Rightarrow> 3 | Some (JobRunning _) \<Rightarrow> 2 | Some (JobFailed _ _) \<Rightarrow> 1 | _ \<Rightarrow> 0)"

lemma begin_phases: "execute_begin env lock now i d = (j, d') \<Longrightarrow> \<not> (\<exists>k. j = JobNew k)"
  by (auto simp: execute_begin_def run_method_def job_after_claim_def
      split: option.splits if_splits sum.splits prod.splits claim.splits)

lemma end_phases: "execute_end env fresh now r d = (j, d') \<Longrightarrow> j = JobDone \<or> (\<exists>e. j = JobFailed (run_operation_id r) e)"
  by (auto simp: execute_end_def split: finish.splits prod.splits if_splits)

lemma phases_advance: "phases m (advance env fresh lock now m st) \<le> phases m st - 1"
proof -
  obtain d jobs where st: "st = (d, jobs)" by (cases st)
  show ?thesis
  proof (cases "jobs m")
    case (Some j)
    then show ?thesis
    proof (cases j)
      case (JobNew i)
      obtain j' d' where "execute_begin env lock now i d = (j', d')" by (metis prod.exhaust)
      with Some JobNew begin_phases [OF this] show ?thesis by (cases j') (simp_all add: st advance_def phases_def)
    next
      case (JobRunning r)
      obtain j' d' where "execute_end env fresh now r d = (j', d')" by (metis prod.exhaust)
      with Some JobRunning end_phases [OF this] show ?thesis by (auto simp: st advance_def phases_def)
    qed (simp_all add: st Some advance_def phases_def)
  qed (simp add: st advance_def phases_def)
qed

lemma in_orphans: "op \<in> set (orphans m (d, jobs)) \<longleftrightarrow> jobs m = None \<and> op \<in> set (running_ops d) \<and> o_owner_id op = m"
  by (auto simp: orphans_def in_running_ops)

lemma orphans_advance: "set (orphans m (advance env fresh lock now m st)) \<subseteq> set (orphans m st)"
  by (cases st) (auto simp: orphans_def advance_def split: option.splits job.splits prod.splits if_splits)

lemma orphans_tick:
  assumes "st_inv st" shows "set (orphans m (tick now st)) \<subseteq> set (orphans m st)"
proof -
  obtain d jobs where st: "st = (d, jobs)" by (cases st)
  obtain d' jobs' where t: "tick now (d, jobs) = (d', jobs')" by (cases "tick now (d, jobs)")
  have inv: "db_inv d" "jobs_wf d jobs" using assms(1) by (simp_all add: st st_inv_def)
  have run: "op \<in> set (running_ops d') \<Longrightarrow> op \<in> set (running_ops d)" for op
    using tick_db [OF inv(1) t] recover_owners_clears [OF inv(1)] by blast
  have "jobs m = None" if "jobs' m = None" "op \<in> set (running_ops d)" "o_owner_id op = m" for op
  proof -
    obtain running rows where "jobs' = start_jobs running rows (drop_done jobs)"
      using tick_db [OF inv(1) t] by blast
    with start_jobs_cases [of running rows "drop_done jobs" m] that(1) have "drop_done jobs m = None" by auto
    then have "jobs m = None \<or> jobs m = Some JobDone" by (auto simp: drop_done_def split: if_splits)
    then show ?thesis using that no_running [OF inv(2), of m JobDone op] by auto
  qed
  with run show ?thesis unfolding st t by (auto simp: in_orphans) blast
qed

lemma serve_rests:
  assumes "st_inv st"
  shows "phases m (serve m x st) = 0 \<and> set (orphans m (serve m x st)) \<subseteq> set (orphans m st)"
proof -
  obtain env fresh lock now where x: "x = (env, fresh, lock, now)" by (cases x)
  let ?a = "advance env fresh lock now m"
  have "phases m (tick now st) \<le> 3" by (simp add: phases_def split: option.splits job.splits)
  then have "phases m (?a (?a (?a (tick now st)))) = 0"
    using phases_advance [of m env fresh lock now "tick now st"] phases_advance [of m env fresh lock now "?a (tick now st)"]
      phases_advance [of m env fresh lock now "?a (?a (tick now st))"] by linarith
  moreover have "set (orphans m (?a (?a (?a (tick now st))))) \<subseteq> set (orphans m st)"
    using orphans_advance orphans_tick [OF assms, of m now] by (meson subset_trans)
  ultimately show ?thesis by (simp add: serve_def x Let_def)
qed

section \<open>A round from rest serves one operation\<close>

lemma finish_ends:
  assumes inv: "db_inv d" and ok: "run_ok d m r" and e: "execute_end env fresh now r d = (j, d')"
    and x: "x \<in> set (operations d')" "o_id x = run_operation_id r"
  shows "\<not> active x"
proof -
  obtain op where op: "op \<in> set (running_ops d)" "o_id op = run_operation_id r" "o_task_id op = t_id (run_task r)"
    using run_ok_op [OF inv ok] by metis
  have sv: "\<not> active x" if "d' = save_operation now (o_id op) f d1" "\<And>y. \<not> active (f y)"
      "\<And>y. o_id (f y) = o_id y" for f d1
  proof -
    have "x \<in> (\<lambda>y. if o_id y = o_id op then orm_save (touch_operation now) f y else y) ` set (operations d1)"
      using x(1) unfolding that(1) by (simp only: operations_save_operation set_map)
    then obtain y where y: "x = (if o_id y = o_id op then orm_save (touch_operation now) f y else y)" by blast
    have "o_id y = o_id op" using y x(2) op(2) that(3) by (cases "o_id y = o_id op") simp_all
    with y that(2) [of y] show ?thesis by (simp add: orm_save_def split: if_splits)
  qed
  have "d' = snd (execute_finish env fresh now r d)" using e by (auto simp: execute_end_def split: prod.splits finish.splits)
  with execute_finish_cases [OF inv op, of env fresh now] consider
      res rt rid d1 where "d' = save_operation now (o_id op) (complete_operation now res rt rid) d1"
    | err st d1 where "d' = save_operation now (o_id op) (fail_operation now err st) d1" "st \<in> {FAILED, CANCELLED}"
    unfolding finish_fails_def succeeded_db_def failed_db_def by fastforce
  then show ?thesis
  proof cases
    case 1
    then show ?thesis by (rule sv) (simp_all add: complete_operation_def)
  next
    case (2 err st d1)
    have "\<not> active (fail_operation now err st y)" "o_id (fail_operation now err st y) = o_id y" for y
      using fail_operation_keys [OF 2(2), of y now err] by (simp_all add: same_keys_def)
    with 2(1) show ?thesis by (intro sv)
  qed
qed

text \<open>With the lease granted a job for a queued operation is claimed or fails with an error that fits.\<close>

lemma begin_granted:
  assumes "st_inv (d, jobs)" and "jobs m = Some (JobNew (o_id op))" and "op \<in> set (operations d)"
    and "o_status op = QUEUED" and "execute_begin env LockGranted now (o_id op) d = (j, d')"
  shows "(\<exists>r. j = JobRunning r \<and> run_operation_id r = o_id op) \<or> d' = d \<and> (\<exists>e. j = JobFailed (o_id op) e \<and> exc_fits e)"
proof -
  have inv: "db_inv d" and wf: "jobs_wf d jobs" using assms(1) by (simp_all add: st_inv_def)
  have own: "o_owner_id op = m" using jobs_wfD(1) [OF wf assms(2) _ assms(3)] by simp
  have free: "x \<in> set (running_ops d) \<Longrightarrow> o_owner_id x \<noteq> o_owner_id op" for x
    using no_running [OF wf assms(2)] own by simp
  have find: "find_operation d (o_id op) = Some op" using find_operation_mem [OF db_invD(1) [OF inv] assms(3)] .
  have "?thesis" if rm: "run_method env LockGranted now op p d = (j, d')" for p
  proof (cases "find_task d (o_task_id op)")
    case None
    with rm show ?thesis by (auto simp: run_method_def recover_nothing [OF free])
  next
    case (Some task)
    note t = find_task_Some [OF Some]
    show ?thesis
    proof (cases "prepare task p d")
      case (Inl e)
      with raises_fit_prepare [of task p d] rm Some show ?thesis
        by (auto simp: run_method_def recover_nothing [OF free] raises_fit_def)
    next
      case (Inr pr)
      obtain prep hash where pr: "pr = (prep, hash)" by (cases pr)
      obtain c d2 where c: "execute_claim env LockGranted (Some (o_id op)) now 0 (o_owner_id op) (t_id task)
          (o_kind op) None hash prep d = (c, d2)" by (metis prod.exhaust)
      with rm Some Inr pr have j: "j = job_after_claim (o_id op) c" "d' = d2"
        by (simp_all add: run_method_def recover_nothing [OF free])
      from claim_granted [OF c db_invD(1) [OF inv] assms(3,4)] execute_claim_queued [OF c] show ?thesis
        by (auto simp: j job_after_claim_def exc_fits_def claimed_from_def)
    qed
  qed
  then show ?thesis using assms(4,5) find
    by (auto simp: execute_begin_def member_disabled_def split: if_splits option.splits)
qed


text \<open>A tick recovers what was left behind and picks the member's oldest operation.\<close>

lemma tick_clears:
  assumes st: "st_inv (d, jobs)" and rest: "phases m (d, jobs) = 0" and stale: "list_all (is_stale now) (orphans m (d, jobs))"
    and t: "tick now (d, jobs) = (d', jobs')" and op: "op \<in> set (running_ops d')"
  shows "o_owner_id op \<noteq> m"
proof
  assume own: "o_owner_id op = m"
  have inv: "db_inv d" "jobs_wf d jobs" using st by (simp_all add: st_inv_def)
  let ?owners = "remdups (map o_owner_id (filter (\<lambda>op. o_status op = RUNNING) (operations d)))"
  have none: "drop_done jobs m = None" using rest by (auto simp: phases_def drop_done_def split: option.splits job.splits)
  have d': "op \<in> set (running_ops d)" "m \<in> set ?owners \<longrightarrow> \<not> is_stale now op"
    using tick_db [OF inv(1) t] recover_owners_clears [OF inv(1), of now "drop_done jobs" ?owners] op own none by auto
  then have "\<not> is_stale now op" using own by (auto simp: in_running_ops)
  moreover have "jobs m = None"
    using rest no_running [OF inv(2), of m JobDone op] d'(1) own by (auto simp: phases_def split: option.splits job.splits)
  ultimately show False using stale d'(1) own by (auto simp: list_all_iff in_orphans)
qed

lemma tick_picks:
  assumes "st_inv (d, jobs)" and rest: "phases m (d, jobs) = 0" and t: "tick now (d, jobs) = (d', jobs')"
    and run: "\<And>op. op \<in> set (running_ops d') \<Longrightarrow> o_owner_id op \<noteq> m" and "0 < queue_length m d'"
  obtains first where "first \<in> set (operations d')" and "o_owner_id first = m" and "o_status first = QUEUED"
    and "jobs' m = Some (JobNew (o_id first))"
proof -
  let ?rows = "order_by2 o_created_at o_id (filter active (operations d'))"
  let ?running = "map o_owner_id (filter (\<lambda>row. o_status row = RUNNING) ?rows)"
  have inv: "db_inv d" using assms(1) by (simp add: st_inv_def)
  have jobs': "jobs' = start_jobs ?running ?rows (drop_done jobs)" using tick_db [OF inv t] by blast
  have none: "drop_done jobs m = None" using rest by (auto simp: phases_def drop_done_def split: option.splits job.splits)
  have not: "m \<notin> set ?running" using run by (auto simp: in_running_ops)
  have "filter (\<lambda>op. o_owner_id op = m \<and> active op) (operations d') \<noteq> []"
    using assms(5) by (simp add: queue_length_def)
  then obtain x where "x \<in> set ?rows" "o_owner_id x = m"
    by (auto simp: filter_empty_conv)
  then obtain first where first: "find (\<lambda>r. o_owner_id r = m) ?rows = Some first"
    using find_None_notin [of "\<lambda>r. o_owner_id r = m" ?rows x] by (cases "find (\<lambda>r. o_owner_id r = m) ?rows") auto
  have f: "first \<in> set (operations d')" "active first" "o_owner_id first = m"
    using find_Some_mem [OF first] by auto
  moreover have "o_status first = QUEUED" using f run [of first] by (auto simp: in_running_ops)
  moreover have "jobs' m = Some (JobNew (o_id first))"
    using start_jobs_first [of "drop_done jobs" m ?running ?rows] none not first jobs' by simp
  ultimately show ?thesis using that by blast
qed

lemma serve_decreases:
  assumes st: "st_inv st" and rest: "phases m st = 0" and can: "can_serve m st x" and pos: "0 < queue_length m (fst st)"
  shows "queue_length m (fst (serve m x st)) < queue_length m (fst st)"
proof -
  obtain env fresh now where x: "x = (env, fresh, LockGranted, now)" using can by (cases x) (auto simp: can_serve_def)
  let ?a = "advance env fresh LockGranted now m"
  obtain d jobs where d: "st = (d, jobs)" by (cases st)
  obtain d1 jobs1 where t: "tick now (d, jobs) = (d1, jobs1)" by (cases "tick now (d, jobs)")
  have i1: "st_inv (d1, jobs1)" using st_inv_tick [OF st, of now] by (simp add: d t)
  have s1: "queue_length m d1 \<le> queue_length m d" using shrinks_length [OF shrinks_tick [OF st, of now]] by (simp add: d t)
  note i2 = st_inv_advance [OF i1, of env fresh LockGranted now m] and s2 = shrinks_advance [OF i1, of env fresh LockGranted now m]
  note i3 = st_inv_advance [OF i2, of env fresh LockGranted now m] and s3 = shrinks_advance [OF i2, of env fresh LockGranted now m]
  note s4 = shrinks_advance [OF i3, of env fresh LockGranted now m]
  have last: "queue_length m (fst (?a (?a (?a (d1, jobs1))))) \<le> queue_length m (fst (?a (?a (d1, jobs1))))"
    by (rule shrinks_length [OF s4])
  show ?thesis
  proof (cases "queue_length m d1 = 0")
    case True
    have "queue_length m (fst (?a (?a (?a (d1, jobs1))))) \<le> queue_length m d1"
      using last shrinks_length [OF s3, of m] shrinks_length [OF s2, of m] by simp
    with True pos show ?thesis by (simp add: serve_def x d t Let_def)
  next
    case False
    then obtain first where f: "first \<in> set (operations d1)" "o_owner_id first = m" "o_status first = QUEUED"
      "jobs1 m = Some (JobNew (o_id first))"
      using tick_picks [OF st [unfolded d] rest [unfolded d] t tick_clears [OF st [unfolded d] rest [unfolded d] _ t]] can
      by (auto simp: can_serve_def x d)
    obtain j d2 where b: "execute_begin env LockGranted now (o_id first) d1 = (j, d2)" by (metis prod.exhaust)
    have a1: "?a (d1, jobs1) = (d2, jobs1(m \<mapsto> j))" using f(4) b by (simp add: advance_def)
    have inv2: "db_inv d2" "jobs_wf d2 (jobs1(m \<mapsto> j))" using i2 by (simp_all add: a1 st_inv_def)
    have gone: "\<not> active y" if "y \<in> set (operations (fst (?a (?a (d1, jobs1)))))" "o_id y = o_id first" for y
      using begin_granted [OF i1 f(4,1,3) b]
    proof (elim disjE exE conjE)
      fix r assume r: "j = JobRunning r" "run_operation_id r = o_id first"
      obtain j' d3 where e: "execute_end env fresh now r d2 = (j', d3)" by (metis prod.exhaust)
      have "?a (?a (d1, jobs1)) = (d3, jobs1(m \<mapsto> j'))" unfolding a1 using r e by (simp add: advance_def)
      with finish_ends [OF inv2(1) jobs_wfD(2) [OF inv2(2), of m r] e] that r show ?thesis
        by (simp del: active_simps)
    next
      fix e assume e: "d2 = d1" "j = JobFailed (o_id first) e" "exc_fits e"
      have d3: "?a (?a (d1, jobs1)) = (execute_cleanup now (o_id first) e d1, jobs1(m \<mapsto> JobDone))"
        using a1 e by (simp add: advance_def)
      have "o_status y \<noteq> QUEUED"
        using cleanup_ends [OF db_invD(1) e(3), of d1 y now "o_id first"] that i1 by (simp add: d3 st_inv_def)
      moreover have "o_owner_id y = m"
        using shrinks_owner [OF shrinks_trans [OF s2 s3] _ _ that(1)] i1 f(1,2) that(2)
        by (simp add: st_inv_def db_invD(1))
      then have "o_status y \<noteq> RUNNING"
        using no_running [of "execute_cleanup now (o_id first) e d1" "jobs1(m \<mapsto> JobDone)" m JobDone y] i3 that(1)
        unfolding d3 st_inv_def by (auto simp: in_running_ops)
      ultimately show ?thesis by simp
    qed
    have "queue_length m (fst (?a (?a (d1, jobs1)))) < queue_length m d1"
      by (rule shrinks_ended [OF shrinks_trans [OF s2 s3], unfolded fst_conv, OF _ f(1,2) _ gone])
        (use i1 f(3) in \<open>simp_all add: st_inv_def db_invD(1)\<close>)
    with last s1 show ?thesis by (simp add: serve_def x d t Let_def)
  qed
qed


text \<open>Rounds drain the queue: those that can serve the member suffice, the others do no harm.\<close>

lemma can_serve_mono: "set (orphans m st') \<subseteq> set (orphans m st) \<Longrightarrow> can_serve m st x \<Longrightarrow> can_serve m st' x"
  by (cases x) (auto simp: can_serve_def list_all_iff)

lemma fold_serve_drains:
  assumes "st_inv st" and "phases m st = 0" and "set (orphans m st) \<subseteq> set (orphans m st0)"
    and "queue_length m (fst st) \<le> length (filter (can_serve m st0) xs)"
  shows "queue_length m (fst (fold (serve m) xs st)) = 0"
  using assms
proof (induction xs arbitrary: st)
  case (Cons x xs)
  note s = serve_shrinks [OF Cons.prems(1), of m x] and r = serve_rests [OF Cons.prems(1), of m x]
  have le: "queue_length m (fst (serve m x st)) \<le> queue_length m (fst st)" using shrinks_length s by blast
  have "queue_length m (fst (serve m x st)) \<le> length (filter (can_serve m st0) xs)"
  proof (cases "can_serve m st0 x \<and> 0 < queue_length m (fst st)")
    case True
    with serve_decreases [OF Cons.prems(1,2) can_serve_mono [OF Cons.prems(3)]] Cons.prems(4) show ?thesis by fastforce
  qed (use le Cons.prems(4) in auto)
  with Cons.IH [of "serve m x st"] s r subset_trans [OF _ Cons.prems(3)] show ?case by simp
qed simp

lemma fold_serve_shrinks:
  "st_inv st \<Longrightarrow> shrinks (fst st) (fst (fold (serve m) xs st))"
proof (induction xs arbitrary: st)
  case (Cons x xs)
  note s = serve_shrinks [OF Cons.prems, of m x]
  with Cons.IH [of "serve m x st"] show ?case by (auto intro: shrinks_trans)
qed simp

lemma drained:
  assumes "st_inv st" and "queue_length m (fst st) < length (filter (can_serve m st) xs)"
  shows "queue_length m (fst (fold (serve m) xs st)) = 0"
proof -
  obtain x ys where xs: "xs = x # ys" using assms(2) by (cases xs) auto
  note s = serve_shrinks [OF assms(1), of m x] and r = serve_rests [OF assms(1), of m x]
  have "queue_length m (fst (serve m x st)) \<le> queue_length m (fst st)" using shrinks_length s by blast
  also have "\<dots> \<le> length (filter (can_serve m st) ys)" using assms(2) by (simp add: xs split: if_splits)
  finally show ?thesis using fold_serve_drains [of "serve m x st" m st ys] s r by (simp add: xs)
qed

lemma drained_ended:
  assumes "queue_length m d = 0"
  shows "list_all (\<lambda>op. o_owner_id op = m \<longrightarrow> o_status op \<in> {SUCCEEDED, FAILED, CANCELLED}) (operations d)"
proof -
  have "o_status op \<in> {SUCCEEDED, FAILED, CANCELLED}" if "op \<in> set (operations d)" "o_owner_id op = m" for op
    using that assms by (cases "o_status op") (auto simp: queue_length_def filter_empty_conv)
  then show ?thesis by (simp add: list_all_iff)
qed

end
