(* ===== verification/Py_Url.thy ===== *)
theory Py_Url
  imports Ai_Errors
begin

text \<open>
  What src/backend/app uses of Python's standard library for addresses: \<open>urllib.parse.urlsplit\<close> with
  the derived attributes of its result, and \<open>ipaddress.ip_address\<close> with \<open>is_global\<close>, as in CPython
  3.12. Addresses are machine words. The Unicode tables behind \<open>lower\<close>, \<open>casefold\<close> and NFKC
  normalization are the fields of a record; on ASCII text the library fixes them to the ASCII
  functions (\<open>ascii_unicode\<close>).
\<close>

unbundle bit_operations_syntax

record unicode =
  u_lower :: "pystr \<Rightarrow> pystr"
  u_casefold :: "pystr \<Rightarrow> pystr"
  u_nfkc :: "pystr \<Rightarrow> pystr"

definition ascii_unicode :: unicode where
  "ascii_unicode = \<lparr>u_lower = ascii_lower, u_casefold = ascii_lower, u_nfkc = (\<lambda>s. s)\<rparr>"

section \<open>Splitting strings\<close>

text \<open>\<open>s.partition(c)\<close>: the text before the first \<open>c\<close>, whether there is one, the text after it;
  \<open>s.rpartition(c)\<close> splits at the last \<open>c\<close>.\<close>

definition str_partition :: "nat \<Rightarrow> pystr \<Rightarrow> pystr \<times> bool \<times> pystr" where
  "str_partition c s = (takeWhile (\<lambda>x. x \<noteq> c) s, c \<in> set s, drop 1 (dropWhile (\<lambda>x. x \<noteq> c) s))"

definition str_rpartition :: "nat \<Rightarrow> pystr \<Rightarrow> pystr \<times> bool \<times> pystr" where
  "str_rpartition c s =
     (if c \<in> set s
      then (rev (drop 1 (dropWhile (\<lambda>x. x \<noteq> c) (rev s))), True, rev (takeWhile (\<lambda>x. x \<noteq> c) (rev s)))
      else ([], False, s))"

fun split_on :: "nat \<Rightarrow> pystr \<Rightarrow> pystr list" where
  "split_on c [] = [[]]"
| "split_on c (x # xs) =
     (if x = c then [] # split_on c xs
      else case split_on c xs of [] \<Rightarrow> [[x]] | p # ps \<Rightarrow> (x # p) # ps)"

definition join_char :: "nat \<Rightarrow> pystr list \<Rightarrow> pystr" where
  "join_char c parts = (case parts of [] \<Rightarrow> [] | p # ps \<Rightarrow> p @ concat (map (\<lambda>q. c # q) ps))"

lemma split_on_not_Nil [simp]: "split_on c s \<noteq> []"
  by (induction s) (auto split: list.splits)

lemma join_split [simp]: "join_char c (split_on c s) = s"
proof (induction s)
  case (Cons x xs)
  then show ?case by (cases "split_on c xs") (auto simp: join_char_def)
qed (simp add: join_char_def)

lemma split_on_prefix: "c \<notin> set p \<Longrightarrow> split_on c (p @ c # s) = p # split_on c s"
  by (induction p) auto

lemma split_on_single: "c \<notin> set p \<Longrightarrow> split_on c p = [p]"
  by (induction p) auto

lemma split_join:
  assumes "parts \<noteq> []" and "list_all (\<lambda>p. c \<notin> set p) parts"
  shows "split_on c (join_char c parts) = parts"
  using assms
proof (induction parts)
  case (Cons p ps)
  show ?case
  proof (cases ps)
    case Nil
    with Cons show ?thesis by (simp add: join_char_def split_on_single)
  next
    case (Cons q qs)
    with Cons.IH Cons.prems have "split_on c (join_char c ps) = ps" by simp
    moreover have "join_char c (p # ps) = p @ c # join_char c ps" by (simp add: join_char_def Cons)
    ultimately show ?thesis using Cons.prems by (simp add: split_on_prefix)
  qed
qed simp

section \<open>Character classes\<close>

definition is_ascii_digit :: "nat \<Rightarrow> bool" where
  "is_ascii_digit c \<longleftrightarrow> 48 \<le> c \<and> c \<le> 57"

definition is_ascii_alpha :: "nat \<Rightarrow> bool" where
  "is_ascii_alpha c \<longleftrightarrow> 65 \<le> c \<and> c \<le> 90 \<or> 97 \<le> c \<and> c \<le> 122"

definition is_ascii :: "pystr \<Rightarrow> bool" where
  "is_ascii s \<longleftrightarrow> list_all (\<lambda>c. c < 128) s"

definition dec_value :: "pystr \<Rightarrow> nat" where
  "dec_value s = foldl (\<lambda>a c. a * 10 + (c - 48)) 0 s"

section \<open>ipaddress\<close>

datatype ip_addr = IPv4Address "32 word" | IPv6Address "128 word" "pystr option"

text \<open>\<open>_BaseV4._parse_octet\<close>: no sign, no leading zero, at most 255.\<close>

definition parse_octet :: "pystr \<Rightarrow> nat option" where
  "parse_octet s =
     (if s = [] \<or> \<not> list_all is_ascii_digit s \<or> 3 < length s \<or> (s \<noteq> [48] \<and> hd s = 48) \<or> 255 < dec_value s
      then None else Some (dec_value s))"

definition ipv4_int :: "pystr \<Rightarrow> 32 word option" where
  "ipv4_int s =
     (case map parse_octet (split_on 46 s) of
        [Some a, Some b, Some c, Some d] \<Rightarrow> Some (of_nat (((a * 256 + b) * 256 + c) * 256 + d))
      | _ \<Rightarrow> None)"

definition parse_hextet :: "pystr \<Rightarrow> nat option" where
  "parse_hextet s = (if s = [] \<or> 4 < length s then None else parse_hex 0 s)"

text \<open>An IPv4 suffix becomes two hextets.\<close>

definition ipv6_parts :: "pystr \<Rightarrow> pystr list option" where
  "ipv6_parts s =
     (let parts = split_on 58 s in
      if length parts < 3 then None
      else if 46 \<in> set (last parts)
      then (case ipv4_int (last parts) of
              None \<Rightarrow> None
            | Some w \<Rightarrow> Some (butlast parts @ [hex_fixed 4 (unat w div 65536), hex_fixed 4 (unat w mod 65536)]))
      else Some parts)"

fun all_some :: "'a option list \<Rightarrow> 'a list option" where
  "all_some [] = Some []"
| "all_some (None # xs) = None"
| "all_some (Some x # xs) = map_option ((#) x) (all_some xs)"

definition hextets_value :: "nat \<Rightarrow> nat list \<Rightarrow> nat" where
  "hextets_value ip_int hs = foldl (\<lambda>a h. a * 65536 + h) ip_int hs"

text \<open>The hextets before the \<open>::\<close>, those after it, and the number of zero hextets it stands for.\<close>

definition ipv6_layout :: "pystr list \<Rightarrow> (pystr list \<times> nat \<times> pystr list) option" where
  "ipv6_layout parts =
     (if 9 < length parts then None
      else case filter (\<lambda>i. parts ! i = []) [1..<length parts - 1] of
        [] \<Rightarrow> if length parts \<noteq> 8 \<or> hd parts = [] \<or> last parts = [] then None else Some (parts, 0, [])
      | [k] \<Rightarrow>
          (let hi = (if hd parts = [] then k - 1 else k);
               lo0 = length parts - k - 1;
               lo = (if last parts = [] then lo0 - 1 else lo0)
           in if (hd parts = [] \<and> hi \<noteq> 0) \<or> (last parts = [] \<and> lo \<noteq> 0) \<or> 8 < hi + lo + 1 then None
              else Some (take hi parts, 8 - (hi + lo), drop (length parts - lo) parts))
      | _ \<Rightarrow> None)"

definition ipv6_int :: "pystr \<Rightarrow> 128 word option" where
  "ipv6_int s =
     (case Option.bind (ipv6_parts s) ipv6_layout of
        None \<Rightarrow> None
      | Some (hi, skipped, lo) \<Rightarrow>
          (case (all_some (map parse_hextet hi), all_some (map parse_hextet lo)) of
             (Some h, Some l) \<Rightarrow> Some (of_nat (hextets_value (hextets_value 0 h * 65536 ^ skipped) l))
           | _ \<Rightarrow> None))"

definition ip_address :: "pystr \<Rightarrow> ip_addr option" where
  "ip_address s =
     (if 47 \<in> set s then None
      else case ipv4_int s of
        Some w \<Rightarrow> Some (IPv4Address w)
      | None \<Rightarrow>
          (case str_partition 37 s of
             (addr, sep, scope) \<Rightarrow>
               if sep \<and> (scope = [] \<or> 37 \<in> set scope) then None
               else map_option (\<lambda>w. IPv6Address w (if sep then Some scope else None)) (ipv6_int addr)))"

text \<open>Networks as (address, prefix length).\<close>

definition in_net4 :: "32 word \<Rightarrow> 32 word \<times> nat \<Rightarrow> bool" where
  "in_net4 a n = (case n of (net, len) \<Rightarrow> drop_bit (32 - len) a = drop_bit (32 - len) net)"

definition in_net6 :: "128 word \<Rightarrow> 128 word \<times> nat \<Rightarrow> bool" where
  "in_net6 a n = (case n of (net, len) \<Rightarrow> drop_bit (128 - len) a = drop_bit (128 - len) net)"

definition private_networks4 :: "(32 word \<times> nat) list" where
  "private_networks4 =
     [(0, 8), (0x0A000000, 8), (0x7F000000, 8), (0xA9FE0000, 16), (0xAC100000, 12), (0xC0000000, 24),
      (0xC00000AA, 31), (0xC0000200, 24), (0xC0A80000, 16), (0xC6120000, 15), (0xC6336400, 24),
      (0xCB007100, 24), (0xF0000000, 4), (0xFFFFFFFF, 32)]"

definition private_exceptions4 :: "(32 word \<times> nat) list" where
  "private_exceptions4 = [(0xC0000009, 32), (0xC000000A, 32)]"

definition is_private4 :: "32 word \<Rightarrow> bool" where
  "is_private4 a \<longleftrightarrow> list_ex (in_net4 a) private_networks4 \<and> \<not> list_ex (in_net4 a) private_exceptions4"

definition private_networks6 :: "(128 word \<times> nat) list" where
  "private_networks6 =
     [(1, 128), (0, 128), (0xFFFF00000000, 96), (0x0064FF9B000100000000000000000000, 48),
      (0x01000000000000000000000000000000, 64), (0x20010000000000000000000000000000, 23),
      (0x20010DB8000000000000000000000000, 32), (0x20020000000000000000000000000000, 16),
      (0xFC000000000000000000000000000000, 7), (0xFE800000000000000000000000000000, 10)]"

definition private_exceptions6 :: "(128 word \<times> nat) list" where
  "private_exceptions6 =
     [(0x20010001000000000000000000000001, 128), (0x20010001000000000000000000000002, 128),
      (0x20010003000000000000000000000000, 32), (0x20010004011200000000000000000000, 48),
      (0x20010020000000000000000000000000, 28), (0x20010030000000000000000000000000, 28)]"

definition is_private6 :: "128 word \<Rightarrow> bool" where
  "is_private6 a \<longleftrightarrow>
     (if drop_bit 32 a = 0xFFFF then is_private4 (ucast a)
      else list_ex (in_net6 a) private_networks6 \<and> \<not> list_ex (in_net6 a) private_exceptions6)"

fun is_global :: "ip_addr \<Rightarrow> bool" where
  "is_global (IPv4Address a) \<longleftrightarrow> \<not> in_net4 a (0x64400000, 10) \<and> \<not> is_private4 a"
| "is_global (IPv6Address a scope) \<longleftrightarrow> \<not> is_private6 a"

section \<open>urlsplit\<close>

record split_result =
  us_scheme :: pystr
  us_netloc :: pystr
  us_path :: pystr
  us_query :: pystr
  us_fragment :: pystr

definition is_scheme_char :: "nat \<Rightarrow> bool" where
  "is_scheme_char c \<longleftrightarrow> is_ascii_alpha c \<or> is_ascii_digit c \<or> c = 43 \<or> c = 45 \<or> c = 46"

definition split_scheme :: "pystr \<Rightarrow> pystr \<times> pystr" where
  "split_scheme url =
     (case str_partition 58 url of
        (name, found, rest) \<Rightarrow>
          if found \<and> name \<noteq> [] \<and> is_ascii_alpha (hd name) \<and> list_all is_scheme_char name
          then (ascii_lower name, rest) else ([], url))"

definition split_netloc :: "pystr \<Rightarrow> pystr \<times> pystr" where
  "split_netloc url =
     (if take 2 url = [47, 47]
      then (takeWhile (\<lambda>c. c \<notin> {47, 63, 35}) (drop 2 url), dropWhile (\<lambda>c. c \<notin> {47, 63, 35}) (drop 2 url))
      else ([], url))"

text \<open>\<open>_check_bracketed_host\<close>: \<open>v[hex]+\..+\<close> (\<open>.\<close> matches no line feed) or an IPv6 address.\<close>

definition bracketed_host_ok :: "pystr \<Rightarrow> bool" where
  "bracketed_host_ok h =
     (if h \<noteq> [] \<and> hd h = 118
      then (let rest = dropWhile (\<lambda>c. hex_value c \<noteq> None) (tl h) in
            hex_value (if tl h = [] then 0 else hd (tl h)) \<noteq> None \<and>
            2 \<le> length rest \<and> hd rest = 46 \<and> 10 \<notin> set (tl rest))
      else (case ip_address h of Some (IPv6Address _ _) \<Rightarrow> True | _ \<Rightarrow> False))"

definition brackets_ok :: "pystr \<Rightarrow> bool" where
  "brackets_ok netloc \<longleftrightarrow>
     (91 \<in> set netloc \<longleftrightarrow> 93 \<in> set netloc) \<and>
     (91 \<in> set netloc \<longrightarrow>
        bracketed_host_ok (fst (str_partition 93 (snd (snd (str_partition 91 netloc))))))"

definition netloc_ok :: "unicode \<Rightarrow> pystr \<Rightarrow> bool" where
  "netloc_ok un netloc \<longleftrightarrow>
     is_ascii netloc \<or>
     (let n = filter (\<lambda>c. c \<notin> {64, 58, 35, 63}) netloc; n2 = u_nfkc un n
      in n = n2 \<or> \<not> list_ex (\<lambda>c. c \<in> set n2) [47, 63, 35, 64, 58])"

definition urlsplit :: "unicode \<Rightarrow> pystr \<Rightarrow> split_result option" where
  "urlsplit un url =
     (let url0 = filter (\<lambda>c. c \<notin> {9, 13, 10}) (dropWhile (\<lambda>c. c \<le> 32) url);
          (scheme, url1) = split_scheme url0;
          (netloc, url2) = split_netloc url1;
          (url3, _, fragment) = str_partition 35 url2;
          (path, _, query) = str_partition 63 url3
      in if brackets_ok netloc \<and> netloc_ok un netloc
         then Some \<lparr>us_scheme = scheme, us_netloc = netloc, us_path = path, us_query = query,
                    us_fragment = fragment\<rparr>
         else None)"

definition us_userinfo :: "split_result \<Rightarrow> pystr option \<times> pystr option" where
  "us_userinfo u =
     (case str_rpartition 64 (us_netloc u) of
        (userinfo, have_info, hostinfo) \<Rightarrow>
          if have_info
          then (case str_partition 58 userinfo of
                  (username, have_password, password) \<Rightarrow>
                    (Some username, if have_password then Some password else None))
          else (None, None))"

definition us_hostinfo :: "split_result \<Rightarrow> pystr \<times> pystr" where
  "us_hostinfo u =
     (let hostinfo = snd (snd (str_rpartition 64 (us_netloc u))) in
      case str_partition 91 hostinfo of
        (_, True, bracketed) \<Rightarrow>
          (case str_partition 93 bracketed of
             (hostname, _, port) \<Rightarrow> (hostname, snd (snd (str_partition 58 port))))
      | _ \<Rightarrow> (case str_partition 58 hostinfo of (hostname, _, port) \<Rightarrow> (hostname, port)))"

definition us_hostname :: "unicode \<Rightarrow> split_result \<Rightarrow> pystr option" where
  "us_hostname un u =
     (let hostname = fst (us_hostinfo u) in
      if hostname = [] then None
      else (case str_partition 37 hostname of
              (h, percent, zone) \<Rightarrow> Some (u_lower un h @ (if percent then 37 # zone else []))))"

text \<open>\<open>Inl ()\<close> is the \<open>ValueError\<close> of the attribute \<open>port\<close>; \<open>int\<close> refuses more than 4300 digits.\<close>

definition us_port :: "split_result \<Rightarrow> unit + nat option" where
  "us_port u =
     (let port = snd (us_hostinfo u) in
      if port = [] then Inr None
      else if list_all is_ascii_digit port \<and> length port \<le> 4300 \<and> dec_value port \<le> 65535
      then Inr (Some (dec_value port)) else Inl ())"


section \<open>Evaluation\<close>

lemmas url_eval = tx_def urlsplit_def split_scheme_def str_partition_def str_rpartition_def is_ascii_alpha_def
  is_scheme_char_def ascii_lower_def split_netloc_def brackets_ok_def netloc_ok_def is_ascii_def
  us_userinfo_def us_hostinfo_def us_hostname_def us_port_def ascii_unicode_def

lemmas ip_eval = tx_def ip_address_def ipv4_int_def parse_octet_def is_ascii_digit_def dec_value_def
  str_partition_def ipv6_int_def ipv6_parts_def ipv6_layout_def parse_hextet_def hex_value_def upt_rec
  hextets_value_def

lemma in_net4_iff: "in_net4 a (net, len) \<longleftrightarrow> unat a div 2 ^ (32 - len) = unat net div 2 ^ (32 - len)"
  by (simp only: in_net4_def prod.case word_unat_eq_iff unat_drop_bit_eq) (simp add: drop_bit_eq_div)

lemma in_net6_iff: "in_net6 a (net, len) \<longleftrightarrow> unat a div 2 ^ (128 - len) = unat net div 2 ^ (128 - len)"
  by (simp only: in_net6_def prod.case word_unat_eq_iff unat_drop_bit_eq) (simp add: drop_bit_eq_div)

lemmas global_eval = is_private4_def private_networks4_def private_exceptions4_def in_net4_iff
  is_private6_def private_networks6_def private_exceptions6_def in_net6_iff

end
