(* ===== verification/Provider_Url.thy ===== *)
theory Provider_Url
  imports Py_Url Ai_Provider
begin

text \<open>
  The policy on provider destinations: src/backend/app/core/provider_url.py. It is applied when a
  member saves or tests a connection (identity/services.py) and again before an AI operation uses it
  (tasks/ai_operations.py). The name service is the parameter \<open>getaddrinfo\<close>.
\<close>

datatype url_exc =
    ProviderUrlPolicyError string string
  | UrlUnicodeError                  \<comment> \<open>of the host encoding in \<open>getaddrinfo\<close>\<close>
  | UrlValueError                    \<comment> \<open>of \<open>ip_address\<close> on a record that is no address\<close>

definition url_invalid :: url_exc where
  "url_invalid = ProviderUrlPolicyError ''provider_url_invalid'' ''Provider URL is invalid''"

definition require_public :: "ip_addr list \<Rightarrow> url_exc + unit" where
  "require_public addresses =
     (if addresses = [] \<or> list_ex (\<lambda>a. \<not> is_global a) addresses
      then Inl (ProviderUrlPolicyError ''provider_url_private_address''
        ''Provider URL must resolve only to public addresses'')
      else Inr ())"

definition ends_with :: "pystr \<Rightarrow> pystr \<Rightarrow> bool" where
  "ends_with suff s \<longleftrightarrow> length suff \<le> length s \<and> drop (length s - length suff) s = suff"

definition normalize_url :: "pystr \<Rightarrow> pystr" where
  "normalize_url v = rstrip_char 47 (strip v)"

definition validate_provider_base_url_structure :: "unicode \<Rightarrow> bool \<Rightarrow> pystr \<Rightarrow> url_exc + pystr" where
  "validate_provider_base_url_structure un production v =
     (let normalized = normalize_url v in
      bind_result (require (normalized \<noteq> [] \<and> \<not> list_ex is_space normalized) url_invalid) (\<lambda>_.
      bind_result (of_option url_invalid (urlsplit un normalized)) (\<lambda>parsed.
      bind_result (map_error (\<lambda>_. url_invalid) (us_port parsed)) (\<lambda>port.
      bind_result
        (of_option (ProviderUrlPolicyError ''provider_url_invalid'' ''Provider URL must be an absolute HTTP(S) URL'')
          (if us_scheme parsed \<in> {tx ''http'', tx ''https''} then us_hostname un parsed else None)) (\<lambda>host.
      bind_result (require (\<not> (production \<and> us_scheme parsed \<noteq> tx ''https''))
        (ProviderUrlPolicyError ''provider_url_https_required'' ''Provider URL must use HTTPS in production'')) (\<lambda>_.
      bind_result (require (us_userinfo parsed = (None, None))
        (ProviderUrlPolicyError ''provider_url_credentials_forbidden''
          ''Provider URL cannot contain credentials'')) (\<lambda>_.
      bind_result (require (us_query parsed = [] \<and> us_fragment parsed = [])
        (ProviderUrlPolicyError ''provider_url_components_forbidden''
          ''Provider URL cannot contain a query or fragment'')) (\<lambda>_.
      let hostname = u_casefold un (rstrip_char 46 host) in
      bind_result (require (\<not> (hostname = tx ''localhost'' \<or> ends_with (tx ''.localhost'') hostname))
        (ProviderUrlPolicyError ''provider_url_private_address''
          ''Provider URL must resolve to a public address'')) (\<lambda>_.
      bind_result (require (\<not> (port \<noteq> None \<and> \<not> (1 \<le> the port \<and> the port \<le> 65535)))
        (ProviderUrlPolicyError ''provider_url_invalid'' ''Provider URL port is invalid'')) (\<lambda>_.
      case ip_address hostname of
        None \<Rightarrow> Inr normalized
      | Some literal \<Rightarrow> bind_result (require_public [literal]) (\<lambda>_. Inr normalized)))))))))))"

text \<open>\<open>getaddrinfo\<close> gives the address strings of its records, or raises.\<close>

datatype addrinfo = Records "pystr list" | AddrOSError | AddrUnicodeError

definition resolve_addresses ::
  "(pystr \<Rightarrow> nat \<Rightarrow> addrinfo) \<Rightarrow> pystr \<Rightarrow> nat \<Rightarrow> url_exc + ip_addr list option" where
  "resolve_addresses getaddrinfo hostname port =
     (case getaddrinfo hostname port of
        AddrOSError \<Rightarrow> Inr None
      | AddrUnicodeError \<Rightarrow> Inl UrlUnicodeError
      | Records rs \<Rightarrow>
          (case all_some (map ip_address rs) of None \<Rightarrow> Inl UrlValueError | Some as \<Rightarrow> Inr (Some as)))"

definition default_port :: "split_result \<Rightarrow> nat" where
  "default_port parsed =
     (case us_port parsed of
        Inr (Some p) \<Rightarrow> if p = 0 then (if us_scheme parsed = tx ''https'' then 443 else 80) else p
      | _ \<Rightarrow> if us_scheme parsed = tx ''https'' then 443 else 80)"

definition validate_provider_url ::
  "unicode \<Rightarrow> (pystr \<Rightarrow> nat \<Rightarrow> addrinfo) \<Rightarrow> bool \<Rightarrow> pystr \<Rightarrow> url_exc + pystr" where
  "validate_provider_url un getaddrinfo production v =
     bind_result (validate_provider_base_url_structure un production v) (\<lambda>normalized.
     case urlsplit un normalized of
       None \<Rightarrow> Inl UrlValueError
     | Some parsed \<Rightarrow>
         (case us_hostname un parsed of
            None \<Rightarrow> Inl url_invalid
          | Some hostname \<Rightarrow>
              bind_result
                (case ip_address (rstrip_char 46 hostname) of
                   Some literal \<Rightarrow> Inr [literal]
                 | None \<Rightarrow>
                     bind_result (resolve_addresses getaddrinfo (rstrip_char 46 hostname) (default_port parsed))
                       (\<lambda>r. of_option (ProviderUrlPolicyError ''provider_url_unresolvable''
                         ''Provider URL hostname cannot be resolved'') r))
                (\<lambda>addresses.
                 bind_result (require_public addresses) (\<lambda>_. Inr normalized))))"

text \<open>The check of \<open>ProviderConfig.base_url\<close> (ai/provider.py): \<open>urlparse\<close> splits like \<open>urlsplit\<close>.\<close>

definition absolute_http_url :: "unicode \<Rightarrow> pystr \<Rightarrow> bool" where
  "absolute_http_url un url =
     (case urlsplit un url of
        None \<Rightarrow> False
      | Some p \<Rightarrow> us_scheme p \<in> {tx ''http'', tx ''https''} \<and> us_netloc p \<noteq> [])"


section \<open>Accepted URLs\<close>

lemma rstrip_char_idem [simp]: "rstrip_char c (rstrip_char c s) = rstrip_char c s"
  by (simp add: rstrip_char_def)

lemma no_space_strip: "\<not> list_ex is_space s \<Longrightarrow> strip s = s"
proof -
  assume "\<not> list_ex is_space s"
  then have "dropWhile is_space s = s" "dropWhile is_space (rev s) = rev s"
    by (auto simp: dropWhile_eq_self_iff list_ex_iff last_rev hd_rev)
  then show ?thesis by (simp add: strip_def lstrip_def rstrip_def)
qed

lemma require_public_ok: "require_public addresses = Inr u \<longleftrightarrow> addresses \<noteq> [] \<and> list_all is_global addresses"
  by (auto simp: require_public_def list_ex_iff list_all_iff)

lemmas structure_defs = validate_provider_base_url_structure_def bind_result_eq_Inr_iff Let_def

lemma structure_normal:
  assumes "validate_provider_base_url_structure un production v = Inr u"
  shows "u = normalize_url v \<and> normalize_url u = u"
proof -
  have u: "u = normalize_url v" "\<not> list_ex is_space u"
    using assms by (auto simp: structure_defs split: option.splits)
  from no_space_strip [OF u(2)] u(1) show ?thesis by (simp add: normalize_url_def)
qed

lemma structure_again:
  assumes "validate_provider_base_url_structure un production v = Inr u"
  shows "validate_provider_base_url_structure un production u = Inr u"
proof -
  have "normalize_url u = normalize_url v" using structure_normal [OF assms] by metis
  with assms show ?thesis by (simp only: validate_provider_base_url_structure_def)
qed

lemma structure_parsed:
  assumes "validate_provider_base_url_structure un production v = Inr u"
  obtains parsed host where "urlsplit un u = Some parsed" and "us_hostname un parsed = Some host"
    and "us_scheme parsed \<in> {tx ''http'', tx ''https''}" and "production \<Longrightarrow> us_scheme parsed = tx ''https''"
    and "us_userinfo parsed = (None, None)" and "us_query parsed = []" and "us_fragment parsed = []"
    and "u_casefold un (rstrip_char 46 host) \<noteq> tx ''localhost''"
    and "\<And>a. ip_address (u_casefold un (rstrip_char 46 host)) = Some a \<Longrightarrow> is_global a"
  using assms
  by (auto simp: structure_defs require_public_ok split: option.splits if_splits)


lemma all_some_map: "all_some (map f xs) = Some ys \<longleftrightarrow> map f xs = map Some ys"
proof (induction xs arbitrary: ys)
  case (Cons x xs)
  then show ?case by (cases "f x"; cases ys) auto
qed auto

text \<open>The addresses behind a URL at the time of the check.\<close>

definition url_addresses ::
  "unicode \<Rightarrow> (pystr \<Rightarrow> nat \<Rightarrow> addrinfo) \<Rightarrow> split_result \<Rightarrow> pystr \<Rightarrow> ip_addr list \<Rightarrow> bool" where
  "url_addresses un getaddrinfo parsed host addresses \<longleftrightarrow>
     (case ip_address (rstrip_char 46 host) of
        Some a \<Rightarrow> addresses = [a]
      | None \<Rightarrow> \<exists>rs. getaddrinfo (rstrip_char 46 host) (default_port parsed) = Records rs \<and>
                  map ip_address rs = map Some addresses)"

lemma validate_accepts:
  assumes "validate_provider_url un getaddrinfo production v = Inr u"
  obtains parsed host addresses where
    "validate_provider_base_url_structure un production v = Inr u"
    and "urlsplit un u = Some parsed" and "us_hostname un parsed = Some host"
    and "url_addresses un getaddrinfo parsed host addresses"
    and "addresses \<noteq> []" and "list_all is_global addresses"
proof -
  from assms obtain n where st: "validate_provider_base_url_structure un production v = Inr n"
    and rest: "validate_provider_url un getaddrinfo production v = Inr u"
    by (auto simp: validate_provider_url_def bind_result_eq_Inr_iff)
  obtain parsed host where p: "urlsplit un n = Some parsed" "us_hostname un parsed = Some host"
    using structure_parsed [OF st] by metis
  obtain as where "n = u" "as \<noteq> []" "list_all is_global as" "url_addresses un getaddrinfo parsed host as"
  proof (cases "ip_address (rstrip_char 46 host)")
    case None
    with rest st p that show ?thesis
      by (auto simp: validate_provider_url_def bind_result_eq_Inr_iff require_public_ok resolve_addresses_def
          url_addresses_def all_some_map split: option.splits addrinfo.splits)
  next
    case (Some a)
    with rest st p that [of "[a]"] show ?thesis
      by (auto simp: validate_provider_url_def bind_result_eq_Inr_iff require_public_ok url_addresses_def)
  qed
  with st p that show ?thesis by metis
qed

lemma accepted_by:
  assumes "validate_provider_base_url_structure un production v = Inr u"
    and "urlsplit un u = Some parsed" and "us_hostname un parsed = Some host"
    and "url_addresses un getaddrinfo parsed host addresses"
    and "addresses \<noteq> []" and "list_all is_global addresses"
  shows "validate_provider_url un getaddrinfo production v = Inr u"
proof -
  have r: "require_public addresses = Inr ()" using assms(5,6) by (simp add: require_public_ok)
  show ?thesis
  proof (cases "ip_address (rstrip_char 46 host)")
    case None
    then obtain rs where "getaddrinfo (rstrip_char 46 host) (default_port parsed) = Records rs"
      "all_some (map ip_address rs) = Some addresses"
      using assms(4) by (auto simp: url_addresses_def all_some_map)
    with None assms r show ?thesis by (simp add: validate_provider_url_def resolve_addresses_def)
  next
    case (Some a)
    with assms r show ?thesis by (simp add: validate_provider_url_def url_addresses_def)
  qed
qed

section \<open>Addresses inside the network\<close>

definition octet :: "nat \<Rightarrow> 32 word \<Rightarrow> nat" where
  "octet k a = unat a div 2 ^ (8 * (4 - k)) mod 256"

text \<open>This host, private networks, loopback and link-local addresses, in octets.\<close>

definition internal4 :: "32 word \<Rightarrow> bool" where
  "internal4 a \<longleftrightarrow>
     octet 1 a \<in> {0, 10, 127} \<or>
     octet 1 a = 169 \<and> octet 2 a = 254 \<or>
     octet 1 a = 172 \<and> 16 \<le> octet 2 a \<and> octet 2 a \<le> 31 \<or>
     octet 1 a = 192 \<and> octet 2 a = 168"

text \<open>The same for IPv6: unspecified, loopback, unique local and link-local addresses, and IPv4-mapped
  internal addresses.\<close>

definition internal6 :: "128 word \<Rightarrow> bool" where
  "internal6 a \<longleftrightarrow>
     unat a \<le> 1 \<or> unat a div 2 ^ 121 = 126 \<or> unat a div 2 ^ 118 = 1018 \<or>
     unat a div 2 ^ 32 = 65535 \<and> internal4 (of_nat (unat a))"

fun internal_address :: "ip_addr \<Rightarrow> bool" where
  "internal_address (IPv4Address a) = internal4 a"
| "internal_address (IPv6Address a scope) = internal6 a"

lemma private4I:
  assumes "(net, len) \<in> set private_networks4" and "unat a div 2 ^ (32 - len) = unat net div 2 ^ (32 - len)"
    and "unat a div 65536 \<noteq> 49152"
  shows "is_private4 a"
proof -
  have "\<not> in_net4 a x" if "x \<in> set private_exceptions4" for x
    using that assms(3) by (auto simp: private_exceptions4_def in_net4_iff)
  moreover have "in_net4 a (net, len)" using assms(2) by (simp add: in_net4_iff)
  ultimately show ?thesis using assms(1) by (auto simp: is_private4_def list_ex_iff)
qed

lemma private6I:
  assumes "(net, len) \<in> set private_networks6" and "unat a div 2 ^ (128 - len) = unat net div 2 ^ (128 - len)"
    and "unat a div 2 ^ 112 \<noteq> 8193" and "drop_bit 32 a \<noteq> 0xFFFF"
  shows "is_private6 a"
proof -
  have "\<not> in_net6 a x" if "x \<in> set private_exceptions6" for x
  proof
    assume "in_net6 a x"
    moreover obtain net len where x: "x = (net, len)" by (cases x)
    ultimately have e: "unat a div 2 ^ (128 - len) = unat net div 2 ^ (128 - len)" by (simp add: in_net6_iff)
    have l: "len \<in> {128, 32, 48, 28}" "unat net div 2 ^ 112 = 8193"
      using that unfolding x private_exceptions6_def by auto
    have "unat a div 2 ^ 112 = unat a div 2 ^ (128 - len) div 2 ^ (len - 16)" for a :: "128 word"
      using l(1) by (auto simp flip: div_mult2_eq power_add)
    from this [of a] this [of net] e l(2) assms(3) show False by metis
  qed
  moreover have "in_net6 a (net, len)" using assms(2) by (simp add: in_net6_iff)
  ultimately show ?thesis using assms(1,4) by (auto simp: is_private6_def list_ex_iff)
qed

lemma internal_octets:
  fixes n :: nat
  assumes "n div 256 \<in> {0, 10, 127} \<or> n div 256 = 169 \<and> n mod 256 = 254 \<or>
     n div 256 = 172 \<and> 16 \<le> n mod 256 \<and> n mod 256 \<le> 31 \<or> n div 256 = 192 \<and> n mod 256 = 168"
  shows "(n div 256 = 0 \<or> n div 256 = 10 \<or> n div 256 = 127 \<or> n = 43518 \<or> n div 16 = 2753 \<or> n = 49320) \<and>
    n \<noteq> 49152"
proof -
  have n: "n = 256 * (n div 256) + n mod 256" by simp
  from assms show ?thesis
  proof (elim disjE conjE)
    assume h: "n div 256 = 172" "16 \<le> n mod 256" "n mod 256 \<le> 31"
    with n have "16 * 2753 \<le> n" "n < 16 * Suc 2753" by simp_all
    then show ?thesis using h by (auto intro: div_nat_eqI)
  qed (use n in auto)
qed

lemma internal4_private:
  assumes "internal4 a" shows "is_private4 a"
proof -
  let ?n = "unat a div 65536"
  have b: "unat a < 4294967296" using unsigned_less [of a, where ?'a = nat] by simp
  have o1: "octet 1 a = ?n div 256" using b by (simp add: octet_def div_mult2_eq [symmetric])
  have o2: "octet 2 a = ?n mod 256" by (simp add: octet_def)
  have d: "unat a div 16777216 = ?n div 256" "unat a div 1048576 = ?n div 16"
    by (simp_all add: div_mult2_eq [symmetric])
  have n: "?n div 256 = 0 \<or> ?n div 256 = 10 \<or> ?n div 256 = 127 \<or> ?n = 43518 \<or> ?n div 16 = 2753 \<or> ?n = 49320" "?n \<noteq> 49152"
    using internal_octets [of ?n] assms unfolding internal4_def o1 o2 by blast+
  note m = private4I [OF _ _ n(2)] private_networks4_def
  from n(1) show ?thesis
  proof (elim disjE)
    assume "?n div 256 = 0"
    then show ?thesis by (intro m(1) [of "0" 8]) (simp_all add: m(2) d)
  next
    assume "?n div 256 = 10"
    then show ?thesis by (intro m(1) [of "0x0A000000" 8]) (simp_all add: m(2) d)
  next
    assume "?n div 256 = 127"
    then show ?thesis by (intro m(1) [of "0x7F000000" 8]) (simp_all add: m(2) d)
  next
    assume "?n = 43518"
    then show ?thesis by (intro m(1) [of "0xA9FE0000" 16]) (simp_all add: m(2) d)
  next
    assume "?n div 16 = 2753"
    then show ?thesis by (intro m(1) [of "0xAC100000" 12]) (simp_all add: m(2) d)
  next
    assume "?n = 49320"
    then show ?thesis by (intro m(1) [of "0xC0A80000" 16]) (simp_all add: m(2) d)
  qed
qed

lemma ucast_eq_of_nat: "ucast (a :: 128 word) = (of_nat (unat a) :: 32 word)"
  by transfer simp

lemma internal6_private:
  assumes "internal6 a" shows "is_private6 a"
proof -
  have q: "drop_bit 32 a = 0xFFFF \<longleftrightarrow> unat a div 2 ^ 32 = 65535"
    by (simp only: word_unat_eq_iff unat_drop_bit_eq) (simp add: drop_bit_eq_div)
  have big: "unat a div 2 ^ 112 = unat a div 2 ^ 32 div 2 ^ 80"
    "unat a div 2 ^ 121 = unat a div 2 ^ 112 div 512" "unat a div 2 ^ 118 = unat a div 2 ^ 112 div 64"
    by (simp_all flip: div_mult2_eq)
  consider "unat a div 2 ^ 32 = 65535" "internal4 (of_nat (unat a))"
    | "unat a div 2 ^ 32 \<noteq> 65535" "unat a = 0 \<or> unat a = 1 \<or> unat a div 2 ^ 121 = 126 \<or> unat a div 2 ^ 118 = 1018"
    using assms big unfolding internal6_def by fastforce
  then show ?thesis
  proof cases
    case 1
    have "is_private4 (ucast a)" using internal4_private [OF 1(2)] by (simp only: ucast_eq_of_nat)
    with 1 q show ?thesis by (simp add: is_private6_def)
  next
    case 2
    have nm: "drop_bit 32 a \<noteq> 0xFFFF" using 2 q by simp
    have ne: "unat a div 2 ^ 112 \<noteq> 8193" using 2 big(2,3) by fastforce
    note m = private6I [OF _ _ ne nm] private_networks6_def
    from 2(2) show ?thesis
    proof (elim disjE)
      assume "unat a = 0" then show ?thesis by (intro m(1) [of 0 128]) (simp_all add: m(2))
    next
      assume "unat a = 1" then show ?thesis by (intro m(1) [of 1 128]) (simp_all add: m(2))
    next
      assume "unat a div 2 ^ 121 = 126"
      then show ?thesis by (intro m(1) [of "0xFC000000000000000000000000000000" 7]) (simp_all add: m(2))
    next
      assume "unat a div 2 ^ 118 = 1018"
      then show ?thesis by (intro m(1) [of "0xFE800000000000000000000000000000" 10]) (simp_all add: m(2))
    qed
  qed
qed

lemma global_not_internal: "is_global a \<Longrightarrow> \<not> internal_address a"
  by (cases a) (auto dest: internal4_private internal6_private)



lemma accepted_again:
  assumes "validate_provider_url un getaddrinfo production v = Inr u"
  shows "validate_provider_url un getaddrinfo production u = Inr u \<and> rstrip_char 47 u = u \<and> absolute_http_url un u"
proof -
  obtain parsed host addresses where a: "validate_provider_base_url_structure un production v = Inr u"
    "urlsplit un u = Some parsed" "us_hostname un parsed = Some host"
    "url_addresses un getaddrinfo parsed host addresses" "addresses \<noteq> []" "list_all is_global addresses"
    using validate_accepts [OF assms] by metis
  have "us_scheme parsed \<in> {tx ''http'', tx ''https''}" by (rule structure_parsed [OF a(1)]) (use a(2) in auto)
  moreover have "us_netloc parsed \<noteq> []"
    using a(3) by (auto simp: us_hostname_def us_hostinfo_def str_rpartition_def str_partition_def Let_def)
  ultimately have "absolute_http_url un u" using a(2) by (auto simp: absolute_http_url_def)
  moreover have "rstrip_char 47 u = u" using structure_normal [OF a(1)] by (metis normalize_url_def rstrip_char_idem)
  ultimately show ?thesis using accepted_by [OF structure_again [OF a(1)] a(2-6)] by simp
qed

section \<open>What the policy guarantees\<close>

text \<open>C31: an accepted URL is absolute with scheme http or https (https in production), carries no
  credentials, query or fragment, and at the time of the check its host stands for at least one address,
  all of them public: none is unspecified, loopback, private, link-local, or such an address in
  IPv4-mapped form.\<close>

theorem accepted_provider_url_is_public:
  assumes "validate_provider_url un getaddrinfo production v = Inr u"
  shows "\<exists>parsed host addresses. urlsplit un u = Some parsed \<and> us_hostname un parsed = Some host \<and>
    us_scheme parsed \<in> {tx ''http'', tx ''https''} \<and> (production \<longrightarrow> us_scheme parsed = tx ''https'') \<and>
    us_userinfo parsed = (None, None) \<and> us_query parsed = [] \<and> us_fragment parsed = [] \<and>
    url_addresses un getaddrinfo parsed host addresses \<and> addresses \<noteq> [] \<and>
    list_all (\<lambda>a. is_global a \<and> \<not> internal_address a) addresses"
proof -
  obtain parsed host addresses where a: "validate_provider_base_url_structure un production v = Inr u"
    "urlsplit un u = Some parsed" "us_hostname un parsed = Some host"
    "url_addresses un getaddrinfo parsed host addresses" "addresses \<noteq> []" "list_all is_global addresses"
    using validate_accepts [OF assms] by metis
  moreover have "list_all (\<lambda>a. is_global a \<and> \<not> internal_address a) addresses"
    using a(6) global_not_internal by (auto simp: list_all_iff)
  ultimately show ?thesis by (rule_tac structure_parsed [OF a(1)]) auto
qed

lemma demo_literals:
  "ip_address (tx ''172.66.0.243'') = Some (IPv4Address 0xAC4200F3)"
  "ip_address (tx ''2606:4700::1'') = Some (IPv6Address 0x26064700000000000000000000000001 None)"
  "ip_address (tx ''api.openai.com'') = None"
  by (simp_all add: ip_eval)

lemma demo_global:
  "is_global (IPv4Address 0xAC4200F3)" "is_global (IPv6Address 0x26064700000000000000000000000001 None)"
  by (simp_all add: global_eval)

definition demo_names :: "pystr \<Rightarrow> nat \<Rightarrow> addrinfo" where
  "demo_names host port =
     (if host = tx ''api.openai.com'' \<and> port = 443 then Records [tx ''172.66.0.243'', tx ''2606:4700::1'']
      else if host = tx ''internal.example'' then Records [tx ''8.8.8.8'', tx ''10.0.0.7'']
      else if host = tx ''a..b'' then AddrUnicodeError else AddrOSError)"

lemma demo_accepted:
  "validate_provider_url ascii_unicode demo_names True (tx '' https://API.openai.com/v1/ '') =
     Inr (tx ''https://API.openai.com/v1'')"
proof -
  let ?u = "tx ''https://API.openai.com/v1''"
  let ?p = "\<lparr>us_scheme = tx ''https'', us_netloc = tx ''API.openai.com'', us_path = tx ''/v1'', us_query = [],
    us_fragment = []\<rparr>"
  have n: "normalize_url (tx '' https://API.openai.com/v1/ '') = ?u" "\<not> list_ex is_space ?u" "?u \<noteq> []"
    by (simp_all add: normalize_url_def rstrip_char_def strip_def lstrip_def rstrip_def tx_def is_space_def)
  have p: "urlsplit ascii_unicode ?u = Some ?p" "us_hostname ascii_unicode ?p = Some (tx ''api.openai.com'')"
    "us_port ?p = Inr None" "us_userinfo ?p = (None, None)"
    by (simp_all add: url_eval)
  have h: "rstrip_char 46 (tx ''api.openai.com'') = tx ''api.openai.com''"
    "u_casefold ascii_unicode (tx ''api.openai.com'') = tx ''api.openai.com''"
    "\<not> ends_with (tx ''.localhost'') (tx ''api.openai.com'')"
    by (simp_all add: rstrip_char_def tx_def ascii_unicode_def ascii_lower_def ends_with_def)
  have "validate_provider_base_url_structure ascii_unicode True (tx '' https://API.openai.com/v1/ '') = Inr ?u"
    by (simp add: validate_provider_base_url_structure_def n p h demo_literals)
  then show ?thesis
    by (rule accepted_by [OF _ p(1,2), where addresses = "[IPv4Address 0xAC4200F3, IPv6Address 0x26064700000000000000000000000001 None]"])
      (simp_all add: url_addresses_def h demo_literals demo_names_def default_port_def p demo_global del: is_global.simps)
qed

theorem accepted_provider_url_is_public_witness:
  "\<exists>parsed. urlsplit ascii_unicode (tx ''https://API.openai.com/v1'') = Some parsed \<and>
    us_scheme parsed = tx ''https''"
  using accepted_provider_url_is_public [OF demo_accepted] by blast

text \<open>An accepted URL is in normal form. While the name service gives the same answers it is accepted
  again and unchanged, as the check before every AI operation repeats it, and the provider
  configuration accepts it.\<close>

theorem accepted_provider_url_stays_accepted:
  assumes "validate_provider_url un getaddrinfo production v = Inr u"
  shows "validate_provider_url un getaddrinfo production u = Inr u \<and> rstrip_char 47 u = u \<and> absolute_http_url un u"
  using accepted_again [OF assms] .

theorem accepted_provider_url_stays_accepted_witness:
  "validate_provider_url ascii_unicode demo_names True (tx ''https://API.openai.com/v1'') =
     Inr (tx ''https://API.openai.com/v1'')"
  using accepted_provider_url_stays_accepted [OF demo_accepted] by blast


section \<open>IPv4 literals\<close>

definition dotted :: "32 word \<Rightarrow> pystr" where
  "dotted w = join_char 46 (map (\<lambda>k. show_nat (octet k w)) [1, 2, 3, 4])"

lemma show_octet:
  assumes "n < 256"
  shows "parse_octet (show_nat n) = Some n \<and> list_all is_ascii_digit (show_nat n) \<and> show_nat n \<noteq> []"
proof -
  have s: "show_nat n = [48 + n]" if "n < 10" using that by (simp add: show_nat.simps [of n])
  have t: "show_nat n = [48 + n div 10, 48 + n mod 10]" if "10 \<le> n" "n < 100"
    using that by (simp add: show_nat.simps [of n] show_nat.simps [of "n div 10"] div_less_iff_less_mult)
  have u: "show_nat n = [48 + n div 100, 48 + n div 10 mod 10, 48 + n mod 10]" if "100 \<le> n" 
    using that assms by (simp add: show_nat.simps [of n] show_nat.simps [of "n div 10"] show_nat.simps [of "n div 100"]
        div_less_iff_less_mult div_mult2_eq [symmetric])
  consider "n < 10" | "10 \<le> n" "n < 100" | "100 \<le> n" by linarith
  then show ?thesis
  proof cases
    case 1 then show ?thesis by (auto simp add: s parse_octet_def is_ascii_digit_def dec_value_def)
  next
    case 2
    then have q: "0 < n div 10" "n div 10 \<le> 9" "n mod 10 \<le> 9" by linarith+
    with 2 show ?thesis by (simp add: t parse_octet_def is_ascii_digit_def dec_value_def q)
  next
    case 3
    then have q: "0 < n div 100" "n div 100 \<le> 2" "n div 10 mod 10 \<le> 9" "n mod 10 \<le> 9" using assms by linarith+
    have "n div 100 = n div 10 div 10" by (simp flip: div_mult2_eq)
    then have "(n div 100 * 10 + n div 10 mod 10) * 10 + n mod 10 = n" by simp
    with 3 assms show ?thesis by (simp add: u parse_octet_def is_ascii_digit_def dec_value_def q)
  qed
qed

lemma octet_less: "octet k w < 256"
  by (simp add: octet_def)

lemma octet_parse [simp]: "parse_octet (show_nat (octet k w)) = Some (octet k w)"
  using show_octet [OF octet_less] by blast

lemma octet_digit: "c \<in> set (show_nat (octet k w)) \<Longrightarrow> 48 \<le> c \<and> c \<le> 57"
  using show_octet [OF octet_less] by (fastforce simp: list_all_iff is_ascii_digit_def)

lemma octets_value: "((octet 1 w * 256 + octet 2 w) * 256 + octet 3 w) * 256 + octet 4 w = unat w"
proof -
  have "unat w < 4294967296" using unsigned_less [of w, where ?'a = nat] by simp
  then have o1: "octet 1 w = unat w div 16777216" by (simp add: octet_def)
  have d: "unat w div 65536 = unat w div 256 div 256" "unat w div 16777216 = unat w div 256 div 256 div 256"
    by (simp_all flip: div_mult2_eq)
  show ?thesis unfolding o1 by (simp add: octet_def d mult.commute [of _ 256])
qed

lemma dotted_chars: "c \<in> set (dotted w) \<Longrightarrow> 46 \<le> c \<and> c \<le> 57 \<and> c \<noteq> 47"
  by (auto simp: dotted_def join_char_def dest: octet_digit)

lemma dotted_last: "dotted w \<noteq> [] \<and> 48 \<le> last (dotted w) \<and> last (dotted w) \<le> 57"
  using show_octet [OF octet_less, of 4 w] octet_digit [of "last (show_nat (octet 4 w))" 4 w]
  by (auto simp: dotted_def join_char_def)

lemma dotted_neq: "c \<in> set (dotted w) \<Longrightarrow> k < 46 \<or> 57 < k \<or> k = 47 \<Longrightarrow> c \<noteq> k"
  using dotted_chars [of c w] by auto

lemma dotted_avoids [simp]:
  "c < 46 \<or> 57 < c \<or> c = 47 \<Longrightarrow> c \<notin> set (dotted w)"
  using dotted_chars [of c w] by auto

lemma ip_address_dotted: "ip_address (dotted w) = Some (IPv4Address w)"
proof -
  have ne: "list_all (\<lambda>p. 46 \<notin> set p) (map (\<lambda>k. show_nat (octet k w)) [1, 2, 3, 4])"
    by (auto simp: list_all_iff dest: octet_digit)
  have sp: "split_on 46 (dotted w) = map (\<lambda>k. show_nat (octet k w)) [1, 2, 3, 4]"
    unfolding dotted_def by (rule split_join [OF _ ne]) simp
  have "ipv4_int (dotted w) = Some (of_nat (unat w))"
    by (simp only: ipv4_int_def sp list.map octet_parse option.case list.case octets_value)
  then show ?thesis by (simp add: ip_address_def)
qed

lemma rstrip_char_last: "s = [] \<or> last s \<noteq> c \<Longrightarrow> rstrip_char c s = s"
  by (cases s rule: rev_cases) (auto simp: rstrip_char_def)

lemma ends_with_last: "ends_with suff s \<Longrightarrow> suff \<noteq> [] \<Longrightarrow> last s = last suff"
  unfolding ends_with_def by (metis append_take_drop_id last_appendR)

lemma whole_dotted:
  assumes "\<And>c. c \<in> set (dotted w) \<Longrightarrow> P c"
  shows "takeWhile P (dotted w) = dotted w" "dropWhile P (dotted w) = []" "filter P (dotted w) = dotted w"
  using assms by simp_all

lemma ascii_lower_dotted: "ascii_lower (dotted w) = dotted w"
  by (auto simp: ascii_lower_def intro!: map_idI dest!: dotted_chars)

text \<open>A URL whose host is a dotted IPv4 address is accepted exactly when the address is public, for all
  of the 32-bit addresses and whatever the name service says; otherwise the answer is the
  private-address error.\<close>

theorem ipv4_literal_url_accepted_iff_public:
  assumes "\<And>s. is_ascii s \<Longrightarrow> u_lower un s = ascii_lower s \<and> u_casefold un s = ascii_lower s"
  shows "validate_provider_url un getaddrinfo production (tx ''https://'' @ dotted w) =
    (if is_global (IPv4Address w) then Inr (tx ''https://'' @ dotted w)
     else Inl (ProviderUrlPolicyError ''provider_url_private_address''
       ''Provider URL must resolve only to public addresses''))"
proof -
  let ?u = "tx ''https://'' @ dotted w"
  let ?p = "\<lparr>us_scheme = tx ''https'', us_netloc = dotted w, us_path = [], us_query = [], us_fragment = []\<rparr>"
  have tx: "tx ''https://'' = [104, 116, 116, 112, 115, 58, 47, 47]" "tx ''https'' = [104, 116, 116, 112, 115]"
    by (simp_all add: tx_def)
  have sp: "\<not> list_ex is_space ?u"
    by (auto simp: list_ex_iff tx is_space_def dest!: dotted_chars)
  have n: "normalize_url ?u = ?u"
    using rstrip_char_last [of ?u 47] dotted_last [of w] by (simp add: normalize_url_def no_space_strip [OF sp])
  have asc: "is_ascii (dotted w)" by (auto simp: is_ascii_def list_all_iff dest!: dotted_chars)
  have p: "urlsplit un ?u = Some ?p"
    by (simp add: urlsplit_def tx split_scheme_def str_partition_def is_ascii_alpha_def is_scheme_char_def ascii_lower_def
        split_netloc_def brackets_ok_def netloc_ok_def asc whole_dotted dotted_neq [of _ w])
  have hi: "us_hostinfo ?p = (dotted w, [])"
    by (simp add: us_hostinfo_def str_rpartition_def str_partition_def whole_dotted dotted_neq [of _ w])
  have h: "us_hostname un ?p = Some (dotted w)"
    using assms [OF asc] dotted_last [of w]
    by (simp add: us_hostname_def hi str_partition_def whole_dotted dotted_neq [of _ w] ascii_lower_dotted)
  have d: "rstrip_char 46 (dotted w) = dotted w" "u_casefold un (dotted w) = dotted w"
    using rstrip_char_last [of "dotted w" 46] dotted_last [of w] assms [OF asc] by (simp_all add: ascii_lower_dotted)
  have "last (dotted w) \<noteq> 116" using dotted_last [of w] by simp
  then have l: "dotted w \<noteq> tx ''localhost''" "\<not> ends_with (tx ''.localhost'') (dotted w)"
    using ends_with_last [of "tx ''.localhost''" "dotted w"] by (auto simp: tx_def)
  have "us_port ?p = Inr None" "us_userinfo ?p = (None, None)"
    by (simp_all add: us_port_def hi us_userinfo_def str_rpartition_def)
  then show ?thesis using dotted_last [of w]
    by (simp add: validate_provider_url_def validate_provider_base_url_structure_def n sp p h d l
        ip_address_dotted require_public_def Let_def sp [simplified] del: is_global.simps)
qed

theorem ipv4_literal_url_accepted_iff_public_witness:
  "validate_provider_url ascii_unicode demo_names False (tx ''https://'' @ dotted 0xA9FEA9FE) =
     Inl (ProviderUrlPolicyError ''provider_url_private_address''
       ''Provider URL must resolve only to public addresses'')"
  using ipv4_literal_url_accepted_iff_public [of ascii_unicode demo_names False "0xA9FEA9FE"]
  by (simp add: ascii_unicode_def global_eval)


section \<open>Limits of the policy\<close>

text \<open>A host with an empty label passes the structural check; the encoding error \<open>getaddrinfo\<close> raises
  for it is not a \<open>ProviderUrlPolicyError\<close>, so the callers do not turn it into a 400 answer.\<close>

lemma host_encoding_error_escapes:
  "validate_provider_url ascii_unicode demo_names False (tx ''https://a..b'') = Inl UrlUnicodeError"
proof -
  let ?p = "\<lparr>us_scheme = tx ''https'', us_netloc = tx ''a..b'', us_path = [], us_query = [], us_fragment = []\<rparr>"
  have n: "normalize_url (tx ''https://a..b'') = tx ''https://a..b''" "\<not> list_ex is_space (tx ''https://a..b'')"
    by (simp_all add: normalize_url_def rstrip_char_def strip_def lstrip_def rstrip_def tx_def is_space_def)
  have p: "urlsplit ascii_unicode (tx ''https://a..b'') = Some ?p" "us_hostname ascii_unicode ?p = Some (tx ''a..b'')"
    "us_port ?p = Inr None" "us_userinfo ?p = (None, None)"
    by (simp_all add: url_eval)
  have h: "rstrip_char 46 (tx ''a..b'') = tx ''a..b''" "u_casefold ascii_unicode (tx ''a..b'') = tx ''a..b''"
    "\<not> ends_with (tx ''.localhost'') (tx ''a..b'')" "ip_address (tx ''a..b'') = None"
    by (simp_all add: rstrip_char_def ip_eval ascii_unicode_def ascii_lower_def ends_with_def)
  have "tx ''https://a..b'' \<noteq> []" by (simp add: tx_def)
  with n show ?thesis
    by (simp add: validate_provider_url_def validate_provider_base_url_structure_def Let_def p h
        resolve_addresses_def demo_names_def)
qed

text \<open>Multicast addresses count as global; an IPv4-mapped shared address does, the plain one does not.\<close>

lemma public_exceptions:
  "is_global (IPv4Address 0xE0000001)" "is_global (IPv6Address 0xFF020000000000000000000000000001 None)"
  "is_global (IPv6Address 0xFFFF64400001 None)" "\<not> is_global (IPv4Address 0x64400001)"
  by (simp_all add: global_eval drop_bit_eq_div)

end
