(* ===== verification/Identity_Schemas.thy ===== *)
theory Identity_Schemas
  imports Task_Store Provider_Url
begin

text \<open>
  The identity module's data: errors (identity/errors.py), request and response models
  (identity/schemas.py), password hashing, API key encryption and access tokens
  (identity/security.py) and the connection test (identity/provider.py). The cryptographic libraries
  are the fields of \<open>identity_env\<close>; what the program relies on of them is stated where it is used.
\<close>

section \<open>errors.py\<close>

datatype identity_exc =
    IdentityError string pystr int "(pystr \<times> json) list"
  | IdentityDbError task_exc                  \<comment> \<open>\<open>IntegrityError\<close>, \<open>DataError\<close>\<close>
  | InvalidEncryptedValueError
  | IdentityUrlCrash url_exc                  \<comment> \<open>an exception of the URL policy that is not a \<open>ProviderUrlPolicyError\<close>\<close>
  | IdentityTypeError

definition identity_error :: "string \<Rightarrow> string \<Rightarrow> int \<Rightarrow> identity_exc" where
  "identity_error code message status = IdentityError code (tx message) status []"

definition not_found_member :: identity_exc where
  "not_found_member = identity_error ''member_not_found'' ''Member not found'' 404"

definition not_found_provider_setting :: identity_exc where
  "not_found_provider_setting =
     identity_error ''provider_setting_not_found'' ''Provider Setting not found'' 404"

text \<open>The answer of \<open>identity_exception_handler\<close>; an exception of any other kind becomes a 500.\<close>

definition identity_response :: "identity_exc \<Rightarrow> int \<times> json" where
  "identity_response e =
     (case e of
        IdentityError code message status details \<Rightarrow>
          (status, JObj [(tx ''error'', JObj [(tx ''code'', JStr (tx code)), (tx ''message'', JStr message),
             (tx ''details'', JObj details)])])
      | _ \<Rightarrow> (500, JStr (tx ''Internal Server Error'')))"

section \<open>security.py\<close>

text \<open>Salts and initialization vectors are drawn by the libraries: a number in the model.\<close>

record identity_env =
  ie_hash :: "nat \<Rightarrow> pystr \<Rightarrow> pystr"
  ie_verify :: "pystr \<Rightarrow> pystr \<Rightarrow> bool"                       \<comment> \<open>password, hash\<close>
  ie_encrypt :: "nat \<Rightarrow> pystr \<Rightarrow> nat list"
  ie_decrypt :: "nat list \<Rightarrow> pystr option"
  ie_jwt_encode :: "(pystr \<times> json) list \<Rightarrow> pystr"
  ie_jwt_decode :: "instant \<Rightarrow> pystr \<Rightarrow> (pystr \<times> json) list option"
  ie_unicode :: unicode
  ie_getaddrinfo :: "pystr \<Rightarrow> nat \<Rightarrow> addrinfo"
  ie_production :: bool

definition password_hash :: "identity_env \<Rightarrow> nat \<Rightarrow> pystr \<Rightarrow> pystr" where
  "password_hash env salt password = ie_hash env salt password"

definition password_verify :: "identity_env \<Rightarrow> pystr \<Rightarrow> pystr \<Rightarrow> bool" where
  "password_verify env password hash = ie_verify env password hash"

definition cipher_encrypt :: "identity_env \<Rightarrow> nat \<Rightarrow> pystr \<Rightarrow> nat list" where
  "cipher_encrypt env iv v = ie_encrypt env iv v"

definition cipher_decrypt :: "identity_env \<Rightarrow> nat list \<Rightarrow> identity_exc + pystr" where
  "cipher_decrypt env encrypted = of_option InvalidEncryptedValueError (ie_decrypt env encrypted)"

definition mask :: "pystr \<Rightarrow> pystr" where
  "mask v =
     (if length v \<le> 8 then replicate (length v) 42
      else take 3 v @ replicate 8 42 @ drop (length v - 4) v)"

text \<open>Times in a token are whole seconds: \<open>iat\<close> and \<open>exp\<close> are \<open>datetime\<close>s cut to seconds.\<close>

definition token_lifetime :: instant where
  "token_lifetime = seconds (12 * 3600)"

definition token_issue :: "identity_env \<Rightarrow> instant \<Rightarrow> uuid \<Rightarrow> pystr" where
  "token_issue env now member_id =
     ie_jwt_encode env
       [(tx ''sub'', JStr (uuid_str member_id)), (tx ''iat'', JInt (now div 1000000)),
        (tx ''exp'', JInt ((now + token_lifetime) div 1000000))]"

definition token_decode :: "identity_env \<Rightarrow> instant \<Rightarrow> pystr \<Rightarrow> uuid option" where
  "token_decode env now token =
     Option.bind (ie_jwt_decode env now token) (\<lambda>payload.
     case jget (tx ''sub'') payload of Some (JStr s) \<Rightarrow> uuid_of_str s | _ \<Rightarrow> None)"

section \<open>schemas.py\<close>

definition length_in :: "nat \<Rightarrow> nat \<Rightarrow> pystr \<Rightarrow> bool" where
  "length_in lo hi s \<longleftrightarrow> lo \<le> length s \<and> length s \<le> hi"

record login_request =
  lr_username :: pystr
  lr_password :: pystr

definition mk_login_request :: "pystr \<Rightarrow> pystr \<Rightarrow> value_error + login_request" where
  "mk_login_request username password =
     (if length_in 1 64 username \<and> length_in 1 256 password
      then Inr \<lparr>lr_username = username, lr_password = password\<rparr> else Inl (ValidationError ''LoginRequest''))"

record change_password_request =
  cpr_current_password :: pystr
  cpr_new_password :: pystr

definition mk_change_password_request :: "pystr \<Rightarrow> pystr \<Rightarrow> value_error + change_password_request" where
  "mk_change_password_request current new =
     (if length_in 1 256 current \<and> length_in 8 256 new
      then Inr \<lparr>cpr_current_password = current, cpr_new_password = new\<rparr>
      else Inl (ValidationError ''ChangePasswordRequest''))"

record member_create =
  mc_username :: pystr
  mc_display_name :: pystr
  mc_password :: pystr
  mc_role :: member_role

text \<open>\<open>^[A-Za-z0-9_.-]+$\<close>\<close>

definition is_username_char :: "nat \<Rightarrow> bool" where
  "is_username_char c \<longleftrightarrow> is_ascii_alpha c \<or> is_ascii_digit c \<or> c = 95 \<or> c = 46 \<or> c = 45"

definition mk_member_create :: "pystr \<Rightarrow> pystr \<Rightarrow> pystr \<Rightarrow> member_role \<Rightarrow> value_error + member_create" where
  "mk_member_create username display_name password role =
     (if length_in 1 64 username \<and> list_all is_username_char username \<and> length_in 1 100 display_name \<and>
         length_in 8 256 password
      then Inr \<lparr>mc_username = username, mc_display_name = display_name, mc_password = password, mc_role = role\<rparr>
      else Inl (ValidationError ''MemberCreate''))"

text \<open>A field of an update is unset, explicitly null, or given.\<close>

record member_update =
  mu_display_name :: "pystr option option"
  mu_is_active :: "bool option option"

definition mk_member_update :: "member_update \<Rightarrow> value_error + member_update" where
  "mk_member_update u =
     (case mu_display_name u of
        Some (Some n) \<Rightarrow> if length_in 1 100 n then Inr u else Inl (ValidationError ''display_name'')
      | _ \<Rightarrow> Inr u)"

definition timeout_ok :: "int \<Rightarrow> bool" where
  "timeout_ok t \<longleftrightarrow> MIN_RESPONSE_TIMEOUT_SECONDS \<le> t \<and> t \<le> MAX_RESPONSE_TIMEOUT_SECONDS"

definition mk_provider_timeout_write :: "int \<Rightarrow> value_error + int" where
  "mk_provider_timeout_write t = (if timeout_ok t then Inr t else Inl (ValidationError ''timeout_seconds''))"

record provider_setting_write =
  psw_api_key :: pystr
  psw_base_url :: pystr
  psw_model_id :: pystr
  psw_timeout_seconds :: int

definition mk_provider_setting_write ::
  "unicode \<Rightarrow> pystr \<Rightarrow> pystr \<Rightarrow> pystr \<Rightarrow> int option \<Rightarrow> value_error + provider_setting_write" where
  "mk_provider_setting_write un api_key base_url model_id timeout_seconds =
     (let t = (case timeout_seconds of None \<Rightarrow> DEFAULT_RESPONSE_TIMEOUT_SECONDS | Some t \<Rightarrow> t) in
      bind_result (require (length_in 1 1000 api_key \<and> strip api_key \<noteq> []) (ValidationError ''api_key'')) (\<lambda>_.
      bind_result (require (length_in 1 500 base_url) (ValidationError ''base_url'')) (\<lambda>_.
      bind_result (map_error (\<lambda>_. ValidationError ''base_url'')
        (validate_provider_base_url_structure un False base_url)) (\<lambda>url.
      bind_result (stripped_str 150 model_id) (\<lambda>model.
      bind_result (require (timeout_ok t) (ValidationError ''timeout_seconds'')) (\<lambda>_.
      Inr \<lparr>psw_api_key = strip api_key, psw_base_url = url, psw_model_id = model, psw_timeout_seconds = t\<rparr>))))))"

record provider_setting_public =
  pp_id :: uuid
  pp_base_url :: pystr
  pp_model_id :: pystr
  pp_timeout_seconds :: int
  pp_api_key_masked :: pystr
  pp_created_at :: instant
  pp_updated_at :: instant

record provider_test_request =
  ptr_api_key :: "pystr option"
  ptr_base_url :: "pystr option"
  ptr_model_id :: "pystr option"
  ptr_timeout_seconds :: "int option"

definition mk_provider_test_request :: "unicode \<Rightarrow> provider_test_request \<Rightarrow> value_error + provider_test_request" where
  "mk_provider_test_request un r =
     bind_result (require (case ptr_api_key r of None \<Rightarrow> True | Some k \<Rightarrow> length_in 1 1000 k)
       (ValidationError ''api_key'')) (\<lambda>_.
     bind_result
       (case ptr_base_url r of
          None \<Rightarrow> Inr None
        | Some u \<Rightarrow>
            if length_in 1 500 u
            then map_error (\<lambda>_. ValidationError ''base_url'')
              (bind_result (validate_provider_base_url_structure un False u) (\<lambda>v. Inr (Some v)))
            else Inl (ValidationError ''base_url'')) (\<lambda>url.
     bind_result
       (case ptr_model_id r of
          None \<Rightarrow> Inr None
        | Some m \<Rightarrow> bind_result (stripped_str 150 m) (\<lambda>m'. Inr (Some m'))) (\<lambda>model.
     bind_result (require (case ptr_timeout_seconds r of None \<Rightarrow> True | Some t \<Rightarrow> timeout_ok t)
       (ValidationError ''timeout_seconds'')) (\<lambda>_.
     Inr (r\<lparr>ptr_base_url := url, ptr_model_id := model\<rparr>)))))"

record provider_test_outcome =
  pto_success :: bool
  pto_code :: string
  pto_message :: pystr

record member_public =
  mp_id :: uuid
  mp_username :: pystr
  mp_display_name :: pystr
  mp_role :: member_role
  mp_is_active :: bool
  mp_created_at :: instant
  mp_updated_at :: instant

definition member_public_of :: "member \<Rightarrow> member_public" where
  "member_public_of m =
     \<lparr>mp_id = m_id m, mp_username = m_username m, mp_display_name = m_display_name m, mp_role = m_role m,
      mp_is_active = m_is_active m, mp_created_at = m_created_at m, mp_updated_at = m_updated_at m\<rparr>"

record login_response =
  lrs_access_token :: pystr
  lrs_token_type :: pystr
  lrs_member :: member_public

section \<open>provider.py: the connection test\<close>

text \<open>The GET of \<open>/models\<close>: a timeout, another \<open>httpx.HTTPError\<close>, or a response; \<open>hr_body = None\<close> is a
  body that is not JSON.\<close>

datatype models_get = GetTimeout | GetHttpError | GetResponse http_response

record models_request =
  mg_url :: pystr
  mg_authorization :: pystr
  mg_timeout :: int

text \<open>\<open>item.get("id")\<close> for each item of a JSON value; iterating a dictionary gives its keys. \<open>Inl True\<close> is
  the \<open>AttributeError\<close> of an item without \<open>get\<close>, \<open>Inl False\<close> the \<open>TypeError\<close> of a value that cannot be
  iterated or an identifier that cannot be hashed.\<close>

fun item_id :: "json \<Rightarrow> bool + json" where
  "item_id (JObj ms) =
     (case jget (tx ''id'') ms of
        None \<Rightarrow> Inr JNull
      | Some (JArr _) \<Rightarrow> Inl False
      | Some (JObj _) \<Rightarrow> Inl False
      | Some v \<Rightarrow> Inr v)"
| "item_id _ = Inl True"

fun item_ids :: "json list \<Rightarrow> bool + json list" where
  "item_ids [] = Inr []"
| "item_ids (x # xs) = bind_result (item_id x) (\<lambda>i. bind_result (item_ids xs) (\<lambda>is. Inr (i # is)))"

definition model_ids :: "json \<Rightarrow> bool + json list" where
  "model_ids body =
     (case body of
        JObj ms \<Rightarrow>
          (case jget (tx ''data'') ms of
             None \<Rightarrow> Inr []
           | Some (JArr items) \<Rightarrow> item_ids items
           | Some (JObj items) \<Rightarrow> if items = [] then Inr [] else Inl True
           | Some (JStr s) \<Rightarrow> if s = [] then Inr [] else Inl True
           | Some _ \<Rightarrow> Inl False)
      | _ \<Rightarrow> Inl True)"

definition test_outcome :: "bool \<Rightarrow> string \<Rightarrow> pystr \<Rightarrow> provider_test_outcome" where
  "test_outcome success code message = \<lparr>pto_success = success, pto_code = code, pto_message = message\<rparr>"

definition connection_test ::
  "(models_request \<Rightarrow> models_get) \<Rightarrow> pystr \<Rightarrow> pystr \<Rightarrow> pystr \<Rightarrow> int \<Rightarrow> identity_exc + provider_test_outcome" where
  "connection_test get api_key base_url model_identifier timeout_seconds =
     (case get \<lparr>mg_url = rstrip_char 47 base_url @ tx ''/models'', mg_authorization = tx ''Bearer '' @ api_key,
                mg_timeout = timeout_seconds\<rparr> of
        GetTimeout \<Rightarrow> Inr (test_outcome False ''provider_timeout'' (tx ''Provider request timed out''))
      | GetHttpError \<Rightarrow> Inr (test_outcome False ''provider_network_error'' (tx ''Provider is unreachable''))
      | GetResponse r \<Rightarrow>
          if hr_status r \<in> {401, 403}
          then Inr (test_outcome False ''provider_auth_failed'' (tx ''Provider rejected the API key''))
          else if hr_status r = 429
          then Inr (test_outcome False ''provider_rate_limited'' (tx ''Provider rate limit reached''))
          else if 400 \<le> hr_status r \<and> hr_status r \<le> 599
          then Inr (test_outcome False ''provider_error'' (tx ''Provider connection test failed''))
          else if content_type_html r
          then Inr (test_outcome False ''provider_invalid_endpoint''
            [35831, 27714, 22320, 22336, 36820, 22238, 20102, 32593, 39029, 65292, 35831, 26816,
      26597, 32, 65, 80, 73, 32, 22320, 22336, 26159, 21542, 21253, 21547, 27491, 30830,
      36335, 24452, 65288, 36890, 24120, 20026, 32, 47, 118, 49, 65289, 12290])
          else
            (case hr_body r of
               None \<Rightarrow> Inr (test_outcome False ''provider_invalid_response'' (tx ''Provider returned invalid data''))
             | Some body \<Rightarrow>
                 (case model_ids body of
                    Inl True \<Rightarrow>
                      Inr (test_outcome False ''provider_invalid_response'' (tx ''Provider returned invalid data''))
                  | Inl False \<Rightarrow> Inl IdentityTypeError
                  | Inr ids \<Rightarrow>
                      if JStr model_identifier \<in> set ids then Inr (test_outcome True ''ok'' (tx ''Connection succeeded''))
                      else Inr (test_outcome False ''model_unavailable'' (tx ''Selected model is unavailable'')))))"

end
