(* ===== verification/Rate_Limit.thy ===== *)
theory Rate_Limit
  imports Py_Url Sha256
begin

text \<open>
  The login rate limiters: src/backend/app/modules/identity/rate_limit.py. The Redis limiter runs a
  script on the server (INCR, EXPIRE on the first hit, TTL for three keys); the process-local fallback
  keeps buckets in a dictionary. Both count the hits of a key in fixed windows: the locale
  \<open>window_counter\<close> states what one hit does to the counters, \<open>window_limiter\<close> what an attempt (three
  hits) does, and the bounds on accepted attempts are proved there once.

  Times are \<open>instant\<close>s (microseconds). Redis reads its clock once per script, in whole milliseconds, and
  a key is there until that clock is past its expiry; the fallback forgets a bucket when its expiry has
  come. \<open>time.monotonic\<close> is taken without the rounding of floating point numbers.
\<close>

datatype rate_exc = LoginRateLimitExceeded int | LoginRateLimitUnavailable

definition mk_exceeded :: "int \<Rightarrow> rate_exc" where
  "mk_exceeded retry_after = LoginRateLimitExceeded (max retry_after 1)"

record login_rate_limits =
  window_seconds :: int
  per_ip_username :: int
  per_ip :: int
  per_username :: int

definition default_rate_limits :: login_rate_limits where
  "default_rate_limits = \<lparr>window_seconds = 60, per_ip_username = 5, per_ip = 30, per_username = 15\<rparr>"

definition thresholds :: "login_rate_limits \<Rightarrow> int list" where
  "thresholds limits = [per_ip_username limits, per_ip limits, per_username limits]"

definition any_above :: "int list \<Rightarrow> int list \<Rightarrow> bool" where
  "any_above counts limits = list_ex (\<lambda>(count, threshold). count > threshold) (zip counts limits)"

section \<open>Keys\<close>

definition digest24 :: "pystr \<Rightarrow> pystr" where
  "digest24 v = take 24 (sha256_hex (utf8 v))"

definition rate_keys :: "(pystr \<Rightarrow> pystr) \<Rightarrow> pystr \<Rightarrow> pystr \<Rightarrow> pystr list" where
  "rate_keys casefold client_ip username =
     (let normalized_username = casefold (strip username);
          ip_digest = digest24 (strip client_ip);
          username_digest = digest24 normalized_username
      in [tx ''douyin-caption:login:pair:'' @ ip_digest @ tx '':'' @ username_digest,
          tx ''douyin-caption:login:ip:'' @ ip_digest,
          tx ''douyin-caption:login:username:'' @ username_digest])"

section \<open>Redis\<close>

text \<open>A counter with its expiry; an expired key does not exist. Expiry is decided in whole milliseconds.\<close>

type_synonym counters = "pystr \<rightharpoonup> int \<times> instant option"

definition redis_alive :: "instant \<Rightarrow> instant \<Rightarrow> bool" where
  "redis_alive now e \<longleftrightarrow> now div 1000 \<le> e div 1000"

definition redis_live :: "instant \<Rightarrow> counters \<Rightarrow> pystr \<Rightarrow> (int \<times> instant option) option" where
  "redis_live now store key =
     (case store key of
        Some (n, Some e) \<Rightarrow> if redis_alive now e then Some (n, Some e) else None
      | x \<Rightarrow> x)"

definition redis_incr :: "instant \<Rightarrow> pystr \<Rightarrow> counters \<Rightarrow> int \<times> counters" where
  "redis_incr now key store =
     (case redis_live now store key of
        None \<Rightarrow> (1, store(key \<mapsto> (1, None)))
      | Some (n, e) \<Rightarrow> (n + 1, store(key \<mapsto> (n + 1, e))))"

definition redis_expire :: "instant \<Rightarrow> pystr \<Rightarrow> int \<Rightarrow> counters \<Rightarrow> counters" where
  "redis_expire now key secs store =
     (case redis_live now store key of
        None \<Rightarrow> store
      | Some (n, _) \<Rightarrow> store(key \<mapsto> (n, Some (now + seconds secs))))"

definition redis_ttl :: "instant \<Rightarrow> pystr \<Rightarrow> counters \<Rightarrow> int" where
  "redis_ttl now key store =
     (case redis_live now store key of
        None \<Rightarrow> -2
      | Some (_, None) \<Rightarrow> -1
      | Some (_, Some e) \<Rightarrow> (e div 1000 - now div 1000 + 500) div 1000)"

definition script_hit :: "int \<Rightarrow> instant \<Rightarrow> pystr \<Rightarrow> counters \<Rightarrow> int \<times> counters" where
  "script_hit window now key store =
     (case redis_incr now key store of
        (count, s1) \<Rightarrow> (count, if count = 1 then redis_expire now key window s1 else s1))"

fun rate_limit_script :: "int \<Rightarrow> instant \<Rightarrow> pystr list \<Rightarrow> counters \<Rightarrow> int list \<times> counters" where
  "rate_limit_script window now [] store = ([], store)"
| "rate_limit_script window now (key # keys) store =
     (let (count, s1) = script_hit window now key store;
          ttl = redis_ttl now key s1;
          (results, s2) = rate_limit_script window now keys s1
      in (count # ttl # results, s2))"

text \<open>How \<open>client.eval\<close> ends: with the reply, or with a \<open>RedisError\<close> before or after the server ran the
  script.\<close>

datatype eval_outcome = EvalReply | EvalReplyLost | EvalRefused

definition redis_login_check ::
  "login_rate_limits \<Rightarrow> (pystr \<Rightarrow> pystr) \<Rightarrow> eval_outcome \<Rightarrow> instant \<Rightarrow> pystr \<Rightarrow> pystr \<Rightarrow> counters \<Rightarrow>
   (rate_exc + unit) \<times> counters" where
  "redis_login_check limits casefold outcome now client_ip username store =
     (let (values, store') = rate_limit_script (window_seconds limits) now
            (rate_keys casefold client_ip username) store
      in case outcome of
           EvalRefused \<Rightarrow> (Inl LoginRateLimitUnavailable, store)
         | EvalReplyLost \<Rightarrow> (Inl LoginRateLimitUnavailable, store')
         | EvalReply \<Rightarrow>
             (if length values \<noteq> 6 then Inl LoginRateLimitUnavailable
              else if any_above [values ! 0, values ! 2, values ! 4] (thresholds limits)
              then Inl (mk_exceeded (max (max (max (values ! 1) (values ! 3)) (values ! 5)) 1))
              else Inr (), store'))"

section \<open>Process-local fallback\<close>

type_synonym buckets = "pystr \<rightharpoonup> int \<times> instant"

record mem_limiter =
  ml_buckets :: buckets
  ml_checks :: int

definition bucket_hit :: "int \<Rightarrow> instant \<Rightarrow> pystr \<Rightarrow> buckets \<Rightarrow> int \<times> instant \<times> buckets" where
  "bucket_hit window now key bs =
     (let (count, expires_at) = (case bs key of None \<Rightarrow> (0, now + seconds window) | Some b \<Rightarrow> b);
          (count, expires_at) =
            (if expires_at \<le> now then (0, now + seconds window) else (count, expires_at));
          count = count + 1
      in (count, expires_at, bs(key \<mapsto> (count, expires_at))))"

fun bucket_loop :: "int \<Rightarrow> instant \<Rightarrow> pystr list \<Rightarrow> buckets \<Rightarrow> int list \<times> int list \<times> buckets" where
  "bucket_loop window now [] bs = ([], [], bs)"
| "bucket_loop window now (key # keys) bs =
     (let (count, expires_at, bs1) = bucket_hit window now key bs;
          (counts, retries, bs2) = bucket_loop window now keys bs1
      in (count # counts, max ((expires_at - now + 999000) div 1000000) 1 # retries, bs2))"

definition purge :: "instant \<Rightarrow> int \<Rightarrow> buckets \<Rightarrow> buckets" where
  "purge now checks bs =
     (if checks mod 1000 = 0
      then (\<lambda>key. case bs key of None \<Rightarrow> None | Some (n, e) \<Rightarrow> if e > now then Some (n, e) else None)
      else bs)"

definition mem_login_check ::
  "login_rate_limits \<Rightarrow> (pystr \<Rightarrow> pystr) \<Rightarrow> instant \<Rightarrow> pystr \<Rightarrow> pystr \<Rightarrow> mem_limiter \<Rightarrow>
   (rate_exc + unit) \<times> mem_limiter" where
  "mem_login_check limits casefold now client_ip username l =
     (let checks = ml_checks l + 1;
          (counts, retry_values, bs) = bucket_loop (window_seconds limits) now
            (rate_keys casefold client_ip username) (purge now checks (ml_buckets l))
      in (if any_above counts (thresholds limits)
          then Inl (mk_exceeded (fold max (tl retry_values) (hd retry_values)))
          else Inr (),
          l\<lparr>ml_buckets := bs, ml_checks := checks\<rparr>))"

section \<open>Counting in fixed windows\<close>

text \<open>A window is its number of hits and its end; \<open>until\<close> forgets it once it is not alive, \<open>bump\<close> is a
  hit. A window is alive before its end, and may be for a while after it.\<close>

type_synonym window = "(int \<times> instant) option"

definition until :: "(instant \<Rightarrow> instant \<Rightarrow> bool) \<Rightarrow> instant \<Rightarrow> int \<times> instant \<Rightarrow> window" where
  "until alive later b = (if alive later (snd b) then Some b else None)"

definition bump :: "int \<Rightarrow> instant \<Rightarrow> window \<Rightarrow> int \<times> instant" where
  "bump width now w = (case w of None \<Rightarrow> (1, now + width) | Some (n, e) \<Rightarrow> (n + 1, e))"

locale expiry =
  fixes alive :: "instant \<Rightarrow> instant \<Rightarrow> bool"
  assumes alive_before: "t < e \<Longrightarrow> alive t e" and alive_earlier: "alive t' e \<Longrightarrow> t \<le> t' \<Longrightarrow> alive t e"

locale window_counter = expiry alive for alive :: "instant \<Rightarrow> instant \<Rightarrow> bool" +
  fixes width :: int and ok :: "'s \<Rightarrow> bool"
    and hit :: "instant \<Rightarrow> pystr \<Rightarrow> 's \<Rightarrow> int \<times> 's"
    and view :: "instant \<Rightarrow> 's \<Rightarrow> pystr \<Rightarrow> window"
  assumes width: "0 < width"
    and hit_ok: "ok s \<Longrightarrow> ok (snd (hit now k s))"
    and hit_count: "ok s \<Longrightarrow> fst (hit now k s) = fst (bump width now (view now s k))"
    and hit_view: "ok s \<Longrightarrow> now \<le> later \<Longrightarrow> view later (snd (hit now k s)) k' =
      (if k' = k then until alive later (bump width now (view now s k)) else view later s k')"
begin

fun hits :: "instant \<Rightarrow> pystr list \<Rightarrow> 's \<Rightarrow> int list \<times> 's" where
  "hits now [] s = ([], s)"
| "hits now (k # ks) s =
     (case hit now k s of (n, s1) \<Rightarrow> case hits now ks s1 of (ns, s2) \<Rightarrow> (n # ns, s2))"

lemma hits_ok: "ok s \<Longrightarrow> ok (snd (hits now ks s))"
proof (induction ks arbitrary: s)
  case (Cons k ks)
  then show ?case using hit_ok [of s now k] by (auto split: prod.splits) (metis snd_conv)
qed simp

lemma hits_view:
  assumes "ok s" and "distinct ks" and "now \<le> later"
  shows "view later (snd (hits now ks s)) k =
    (if k \<in> set ks then until alive later (bump width now (view now s k)) else view later s k)"
  using assms(1,2)
proof (induction ks arbitrary: s)
  case (Cons k' ks)
  obtain n s1 where h: "hit now k' s = (n, s1)" by fastforce
  with hit_ok [OF Cons.prems(1), of now k'] have "ok s1" by simp
  from Cons.IH [OF this] Cons.prems(2) h hit_view [OF Cons.prems(1) assms(3), of k']
    hit_view [OF Cons.prems(1) order.refl, of now k'] show ?case
    by (auto split: prod.splits)
qed simp

lemma hits_counts:
  assumes "ok s" and "distinct ks"
  shows "fst (hits now ks s) = map (\<lambda>k. fst (bump width now (view now s k))) ks"
  using assms
proof (induction ks arbitrary: s)
  case (Cons k' ks)
  obtain n s1 where h: "hit now k' s = (n, s1)" by fastforce
  with hit_ok [OF Cons.prems(1), of now k'] have "ok s1" by simp
  moreover have "map (\<lambda>k. fst (bump width now (view now s1 k))) ks = map (\<lambda>k. fst (bump width now (view now s k))) ks"
    using Cons.prems(2) h hit_view [OF Cons.prems(1) order.refl, of now k'] by (intro map_cong) auto
  ultimately show ?case
    using Cons.IH [of s1] Cons.prems h hit_count [OF Cons.prems(1), of now k'] by (cases "hits now ks s1") simp
qed simp

end

text \<open>How many more attempts of the interval from \<open>a\<close> on, one window long, can be within the limit when
  the counter shows \<open>w\<close> at time \<open>t\<close>: at most two windows meet the interval.\<close>

definition quota :: "(instant \<Rightarrow> instant \<Rightarrow> bool) \<Rightarrow> int \<Rightarrow> int \<Rightarrow> instant \<Rightarrow> instant \<Rightarrow> window \<Rightarrow> int" where
  "quota alive width L a t w =
     (if a + width \<le> t then 0
      else case w of
        None \<Rightarrow> if a \<le> t then L else 2 * L
      | Some (n, e) \<Rightarrow>
          if a + width \<le> e then max 0 (L - n) else if alive a e then max 0 (L - n) + L else 2 * L)"

context expiry
begin

lemma quota_mono:
  assumes "t \<le> now" and "0 < L"
  shows "quota alive width L a now (Option.bind w (until alive now)) \<le> quota alive width L a t w"
proof (cases w)
  case (Some b)
  obtain n e where b: "b = (n, e)" by fastforce
  show ?thesis
  proof (cases "alive now e")
    case False
    then have "e \<le> now" "\<not> (alive a e \<and> now \<le> a)"
      using alive_before [of now e] alive_earlier [of a e now] by (meson leI, blast)
    with False Some b assms show ?thesis by (auto simp: quota_def until_def)
  qed (use Some b assms in \<open>auto simp: quota_def until_def\<close>)
qed (use assms in \<open>auto simp: quota_def\<close>)

lemma quota_bump:
  assumes "0 < width" and "0 < L" and "w = Option.bind w (until alive now)"
  shows "(if fst (bump width now w) \<le> L \<and> a \<le> now \<and> now < a + width then 1 else 0) +
    quota alive width L a now (until alive now (bump width now w)) \<le> quota alive width L a now w"
proof (cases w)
  case None
  have "alive now (now + width)" using alive_before assms(1) by simp
  with None assms(1,2) alive_before [of a "now + width"] show ?thesis
    by (auto simp: quota_def until_def bump_def)
next
  case (Some b)
  obtain n e where b: "b = (n, e)" by fastforce
  with Some assms(3) have "alive now e" by (auto simp: until_def split: if_splits)
  with Some b assms(1,2) alive_earlier [of now e a] show ?thesis
    by (auto simp: quota_def until_def bump_def)
qed

end

locale window_limiter = expiry alive for alive :: "instant \<Rightarrow> instant \<Rightarrow> bool" +
  fixes width :: int and ok :: "'s \<Rightarrow> bool"
    and attempt :: "instant \<Rightarrow> pystr list \<Rightarrow> 's \<Rightarrow> int list \<times> 's"
    and view :: "instant \<Rightarrow> 's \<Rightarrow> pystr \<Rightarrow> window"
  assumes width: "0 < width"
    and attempt_ok: "ok s \<Longrightarrow> ok (snd (attempt now ks s))"
    and attempt_counts: "ok s \<Longrightarrow> distinct ks \<Longrightarrow>
      fst (attempt now ks s) = map (\<lambda>k. fst (bump width now (view now s k))) ks"
    and attempt_view: "ok s \<Longrightarrow> distinct ks \<Longrightarrow> now \<le> later \<Longrightarrow> view later (snd (attempt now ks s)) k =
      (if k \<in> set ks then until alive later (bump width now (view now s k)) else view later s k)"
    and view_later: "ok s \<Longrightarrow> now \<le> later \<Longrightarrow> view later s k = Option.bind (view now s k) (until alive later)"
begin

text \<open>The attempts that were within the limit \<open>L\<close> of the key \<open>k\<close>, with their times.\<close>

fun passed :: "int \<Rightarrow> pystr \<Rightarrow> (instant \<times> pystr list) list \<Rightarrow> 's \<Rightarrow> instant list" where
  "passed L k [] s = []"
| "passed L k ((now, ks) # as) s =
     (if k \<in> set ks \<and> fst (bump width now (view now s k)) \<le> L then [now] else []) @
     passed L k as (snd (attempt now ks s))"

lemma passed_quota:
  assumes "ok s" and "0 < L" and "sorted (map fst as)" and "list_all (\<lambda>x. t \<le> fst x \<and> distinct (snd x)) as"
  shows "int (length (filter (\<lambda>now. a \<le> now \<and> now < a + width) (passed L k as s))) \<le> quota alive width L a t (view t s k)"
  using assms
proof (induction L k as s arbitrary: t rule: passed.induct)
  case (1 L k s)
  then show ?case by (cases "view t s k") (auto simp: quota_def)
next
  case (2 L k now ks as s)
  let ?s = "snd (attempt now ks s)" and ?w = "view now s k"
  have d: "distinct ks" "t \<le> now" using "2.prems"(4) by auto
  have w: "?w = Option.bind (view t s k) (until alive now)" "?w = Option.bind ?w (until alive now)"
    using view_later [OF "2.prems"(1) d(2)] view_later [OF "2.prems"(1) order.refl] by blast+
  have "int (length (filter (\<lambda>now. a \<le> now \<and> now < a + width) (passed L k as ?s))) \<le> quota alive width L a now (view now ?s k)"
    using "2.IH" [of now] attempt_ok [OF "2.prems"(1)] "2.prems"(2-4) by (auto simp: list_all_iff)
  moreover have "view now ?s k = (if k \<in> set ks then until alive now (bump width now ?w) else ?w)"
    using attempt_view [OF "2.prems"(1) d(1)] by simp
  moreover have "quota alive width L a now ?w \<le> quota alive width L a t (view t s k)"
    unfolding w(1) by (rule quota_mono [OF d(2) "2.prems"(2)])
  ultimately show ?case using quota_bump [OF width "2.prems"(2) w(2), of a] by (auto split: if_splits)
qed

lemma passed_bound:
  assumes "ok s" and "\<And>t. view t s k = None" and "0 < L" and "sorted (map fst as)"
    and "list_all (\<lambda>x. distinct (snd x)) as"
  shows "int (length (filter (\<lambda>now. a \<le> now \<and> now < a + width) (passed L k as s))) \<le> 2 * L"
proof (cases as)
  case (Cons x xs)
  have "int (length (filter (\<lambda>now. a \<le> now \<and> now < a + width) (passed L k as s))) \<le> quota alive width L a (fst x) None"
    using passed_quota [OF assms(1,3,4), of "fst x" a k] assms(2,4,5) Cons
    by (auto simp: list_all_iff simp del: passed.simps)
  also have "\<dots> \<le> 2 * L" using assms(3) by (simp add: quota_def)
  finally show ?thesis .
qed (use assms(3) in simp)

text \<open>The attempts accepted under the limits \<open>Ls\<close> of their keys.\<close>

fun accepted :: "int list \<Rightarrow> (instant \<times> pystr list) list \<Rightarrow> 's \<Rightarrow> (instant \<times> pystr list) list" where
  "accepted Ls [] s = []"
| "accepted Ls ((now, ks) # as) s =
     (case attempt now ks s of
        (counts, s') \<Rightarrow> (if any_above counts Ls then [] else [(now, ks)]) @ accepted Ls as s')"

lemma accepted_passed:
  assumes "ok s" and "j < length Ls" and "list_all (\<lambda>x. distinct (snd x) \<and> length (snd x) = length Ls) as"
  shows "length (filter (\<lambda>x. snd x ! j = k \<and> P (fst x)) (accepted Ls as s)) \<le>
    length (filter P (passed (Ls ! j) k as s))"
  using assms
proof (induction Ls as s rule: accepted.induct)
  case (2 Ls now ks as s)
  obtain cs s' where a: "attempt now ks s = (cs, s')" by fastforce
  have d: "distinct ks" "length ks = length Ls" using "2.prems"(3) by auto
  have "ok s'" using attempt_ok [OF "2.prems"(1), of now ks] a by simp
  with "2.IH" [OF a [symmetric]] "2.prems" have
    "length (filter (\<lambda>x. snd x ! j = k \<and> P (fst x)) (accepted Ls as s')) \<le> length (filter P (passed (Ls ! j) k as s'))"
    by simp
  moreover have "k \<in> set ks \<and> fst (bump width now (view now s k)) \<le> Ls ! j" if "\<not> any_above cs Ls" "ks ! j = k"
  proof -
    have "cs = map (\<lambda>k. fst (bump width now (view now s k))) ks"
      using attempt_counts [OF "2.prems"(1) d(1), of now] a by simp
    then have "(fst (bump width now (view now s k)), Ls ! j) \<in> set (zip cs Ls)"
      using d(2) "2.prems"(2) that(2) by (auto simp: set_zip intro!: exI [of _ j])
    with that(1) d(2) that(2) "2.prems"(2) show ?thesis by (force simp: any_above_def list_ex_iff)
  qed
  ultimately show ?case using a by auto
qed simp

lemma accepted_bound:
  assumes "ok s" and "\<And>t. view t s k = None" and "sorted (map fst as)" and "j < length Ls" and "0 < Ls ! j"
    and "list_all (\<lambda>x. distinct (snd x) \<and> length (snd x) = length Ls) as"
  shows "int (length (filter (\<lambda>x. snd x ! j = k \<and> a \<le> fst x \<and> fst x < a + width) (accepted Ls as s))) \<le> 2 * Ls ! j"
proof -
  have "list_all (\<lambda>x. distinct (snd x)) as" using assms(6) by (auto simp: list_all_iff)
  from passed_bound [OF assms(1,2,5,3) this, of a]
    accepted_passed [OF assms(1,4,6), of k "\<lambda>t. a \<le> t \<and> t < a + width"] show ?thesis by linarith
qed

end

section \<open>Both limiters count in windows\<close>

lemma redis_expiry: "expiry redis_alive"
proof
  fix t t' e :: int
  show "t < e \<Longrightarrow> redis_alive t e" unfolding redis_alive_def by (intro zdiv_mono1) simp_all
  show "redis_alive t' e \<Longrightarrow> t \<le> t' \<Longrightarrow> redis_alive t e"
    unfolding redis_alive_def using zdiv_mono1 [of t t' 1000] by simp
qed

definition redis_ok :: "counters \<Rightarrow> bool" where
  "redis_ok store \<longleftrightarrow> (\<forall>k n e. store k = Some (n, e) \<longrightarrow> 1 \<le> n \<and> e \<noteq> None)"

definition redis_view :: "instant \<Rightarrow> counters \<Rightarrow> pystr \<Rightarrow> window" where
  "redis_view now store k = (case store k of Some (n, Some e) \<Rightarrow> until redis_alive now (n, e) | _ \<Rightarrow> None)"

lemma script_hit_eq:
  assumes "redis_ok store" and "0 < w"
  shows "script_hit w now k store =
    (case bump (seconds w) now (redis_view now store k) of (n, e) \<Rightarrow> (n, store(k \<mapsto> (n, Some e))))"
proof (cases "redis_view now store k")
  case None
  then have "redis_live now store k = None"
    using assms(1) by (auto simp: redis_view_def redis_live_def until_def redis_ok_def split: option.splits if_splits)
  with None show ?thesis by (simp add: script_hit_def redis_incr_def bump_def redis_expire_def redis_live_def)
next
  case (Some b)
  obtain n e where b: "b = (n, e)" by fastforce
  with Some have "store k = Some (n, Some e)" "redis_alive now e"
    by (auto simp: redis_view_def until_def split: option.splits if_splits)
  moreover from this(1) assms(1) have "1 \<le> n" unfolding redis_ok_def by blast
  ultimately show ?thesis using Some b by (simp add: script_hit_def redis_incr_def bump_def redis_live_def)
qed

lemma redis_window_counter:
  assumes "0 < w"
  shows "window_counter redis_alive (seconds w) redis_ok (script_hit w) redis_view"
proof (intro window_counter.intro window_counter_axioms.intro)
  show "expiry redis_alive" by (rule redis_expiry)
  show "0 < seconds w" using assms by (simp add: seconds_def)
next
  fix s :: counters and now k assume s: "redis_ok s"
  have "1 \<le> fst (bump (seconds w) now (redis_view now s k))"
    using s by (fastforce simp: bump_def redis_view_def until_def redis_ok_def split: option.splits if_splits)
  then show "redis_ok (snd (script_hit w now k s))"
    using s by (auto simp: script_hit_eq [OF s assms] redis_ok_def split: prod.splits)
  show "fst (script_hit w now k s) = fst (bump (seconds w) now (redis_view now s k))"
    by (simp add: script_hit_eq [OF s assms] split: prod.splits)
  fix later k' show "redis_view later (snd (script_hit w now k s)) k' =
      (if k' = k then until redis_alive later (bump (seconds w) now (redis_view now s k)) else redis_view later s k')"
    by (auto simp: script_hit_eq [OF s assms] redis_view_def split: prod.splits)
qed

definition bucket_count_hit :: "int \<Rightarrow> instant \<Rightarrow> pystr \<Rightarrow> buckets \<Rightarrow> int \<times> buckets" where
  "bucket_count_hit w now k bs = (case bucket_hit w now k bs of (n, _, bs') \<Rightarrow> (n, bs'))"

definition bucket_view :: "instant \<Rightarrow> buckets \<Rightarrow> pystr \<Rightarrow> window" where
  "bucket_view now bs k = Option.bind (bs k) (until (<) now)"

lemma bucket_hit_eq:
  "bucket_hit w now k bs = (case bump (seconds w) now (bucket_view now bs k) of (n, e) \<Rightarrow> (n, e, bs(k \<mapsto> (n, e))))"
  by (cases "bs k") (auto simp: bucket_hit_def bucket_view_def until_def bump_def Let_def)

lemma bucket_window_counter:
  assumes "0 < w"
  shows "window_counter (<) (seconds w) (\<lambda>_. True) (bucket_count_hit w) bucket_view"
  using assms
  by unfold_locales
    (auto simp: seconds_def bucket_count_hit_def bucket_hit_eq bucket_view_def split: prod.splits)

interpretation redis_counter: window_counter redis_alive "seconds 60" redis_ok "script_hit 60" redis_view
  by (rule redis_window_counter) simp

interpretation bucket_counter: window_counter "(<)" "seconds 60" "\<lambda>_. True" "bucket_count_hit 60" bucket_view
  by (rule bucket_window_counter) simp

interpretation redis_limiter: window_limiter redis_alive "seconds 60" redis_ok redis_counter.hits redis_view
proof
  fix s :: counters and now later :: instant and k assume "redis_ok s" "now \<le> later"
  then show "redis_view later s k = Option.bind (redis_view now s k) (until redis_alive later)"
    using redis_counter.alive_earlier by (auto simp: redis_view_def until_def split: option.splits)
qed (simp_all add: redis_counter.width redis_counter.hits_ok redis_counter.hits_counts redis_counter.hits_view)

definition mem_attempt :: "instant \<Rightarrow> pystr list \<Rightarrow> mem_limiter \<Rightarrow> int list \<times> mem_limiter" where
  "mem_attempt now ks l =
     (case bucket_counter.hits now ks (purge now (ml_checks l + 1) (ml_buckets l)) of
        (counts, bs) \<Rightarrow> (counts, l\<lparr>ml_buckets := bs, ml_checks := ml_checks l + 1\<rparr>))"

definition mem_view :: "instant \<Rightarrow> mem_limiter \<Rightarrow> pystr \<Rightarrow> window" where
  "mem_view now l k = bucket_view now (ml_buckets l) k"

lemma purge_view: "now \<le> later \<Longrightarrow> bucket_view later (purge now checks bs) k = bucket_view later bs k"
  by (cases "bs k") (auto simp: bucket_view_def purge_def until_def)

interpretation mem_limiter: window_limiter "(<)" "seconds 60" "\<lambda>_. True" mem_attempt mem_view
proof
  fix l :: mem_limiter and now later :: instant and k and ks :: "pystr list"
  show "0 < seconds 60" by (rule bucket_counter.width)
  show "now \<le> later \<Longrightarrow> mem_view later l k = Option.bind (mem_view now l k) (until (<) later)"
    by (cases "ml_buckets l k") (auto simp: mem_view_def bucket_view_def until_def)
  let ?b = "purge now (ml_checks l + 1) (ml_buckets l)"
  assume d: "distinct ks"
  show "fst (mem_attempt now ks l) = map (\<lambda>k. fst (bump (seconds 60) now (mem_view now l k))) ks"
    using bucket_counter.hits_counts [OF _ d, where s = ?b and now = now]
    by (auto simp: mem_attempt_def mem_view_def purge_view split: prod.splits)
  show "now \<le> later \<Longrightarrow> mem_view later (snd (mem_attempt now ks l)) k =
      (if k \<in> set ks then until (<) later (bump (seconds 60) now (mem_view now l k)) else mem_view later l k)"
    using bucket_counter.hits_view [OF _ d, where s = ?b and now = now and later = later and k = k]
    by (auto simp: mem_attempt_def mem_view_def purge_view split: prod.splits)
qed simp

section \<open>Sequences of attempts\<close>

lemma length_rate_keys [simp]: "length (rate_keys cf ip u) = 3"
  by (simp add: rate_keys_def Let_def)

lemma distinct_rate_keys [simp]: "distinct (rate_keys cf ip u)"
  by (simp add: rate_keys_def Let_def tx_def)

lemma script_three:
  assumes "length ks = 3" and "rate_limit_script 60 now ks s = (vs, s')"
  shows "redis_counter.hits now ks s = ([vs ! 0, vs ! 2, vs ! 4], s') \<and> length vs = 6"
  using assms by (auto simp: numeral_3_eq_3 length_Suc_conv Let_def split: prod.splits)

lemma redis_check_replied:
  "fst (redis_login_check default_rate_limits cf EvalReply now ip u s) = Inr () \<longleftrightarrow>
     \<not> any_above (fst (redis_counter.hits now (rate_keys cf ip u) s)) (thresholds default_rate_limits)"
  using script_three [OF length_rate_keys, of now cf ip u s]
  by (auto simp: redis_login_check_def Let_def default_rate_limits_def split: prod.splits)

lemma redis_check_state:
  "snd (redis_login_check default_rate_limits cf outcome now ip u s) =
     (if outcome = EvalRefused then s else snd (redis_counter.hits now (rate_keys cf ip u) s))"
  using script_three [OF length_rate_keys, of now cf ip u s]
  by (cases outcome) (auto simp: redis_login_check_def Let_def default_rate_limits_def split: prod.splits)

lemma bucket_loop_hits:
  "bucket_loop 60 now ks bs = (fst (bucket_counter.hits now ks bs), fst (snd (bucket_loop 60 now ks bs)),
     snd (bucket_counter.hits now ks bs))"
proof (induction ks arbitrary: bs)
  case (Cons k ks)
  obtain n e bs1 where b: "bucket_hit 60 now k bs = (n, e, bs1)" by (metis prod.exhaust)
  then have "bucket_count_hit 60 now k bs = (n, bs1)" by (simp add: bucket_count_hit_def)
  with b Cons [of bs1] show ?case
    by (cases "bucket_loop 60 now ks bs1"; cases "bucket_counter.hits now ks bs1") (auto simp: Let_def)
qed simp

lemma mem_check_attempt:
  "snd (mem_login_check default_rate_limits cf now ip u l) = snd (mem_attempt now (rate_keys cf ip u) l)"
  "fst (mem_login_check default_rate_limits cf now ip u l) = Inr () \<longleftrightarrow>
     \<not> any_above (fst (mem_attempt now (rate_keys cf ip u) l)) (thresholds default_rate_limits)"
proof -
  let ?b = "purge now (ml_checks l + 1) (ml_buckets l)" and ?ks = "rate_keys cf ip u"
  obtain cs rs bs where b: "bucket_loop 60 now ?ks ?b = (cs, rs, bs)" by (metis prod.exhaust)
  with bucket_loop_hits [of now ?ks ?b] have h: "bucket_counter.hits now ?ks ?b = (cs, bs)"
    by (metis fst_conv prod.collapse snd_conv)
  have w: "window_seconds default_rate_limits = 60" by (simp add: default_rate_limits_def)
  show "snd (mem_login_check default_rate_limits cf now ip u l) = snd (mem_attempt now ?ks l)"
    "fst (mem_login_check default_rate_limits cf now ip u l) = Inr () \<longleftrightarrow>
     \<not> any_above (fst (mem_attempt now ?ks l)) (thresholds default_rate_limits)"
    by (simp_all add: mem_login_check_def mem_attempt_def Let_def w b h)
qed

text \<open>A login attempt: how the evaluation ends, when, from which address, for which name. The result lists
  the accepted ones.\<close>

type_synonym login_attempt = "eval_outcome \<times> instant \<times> pystr \<times> pystr"

fun redis_logins :: "(pystr \<Rightarrow> pystr) \<Rightarrow> login_attempt list \<Rightarrow> counters \<Rightarrow> login_attempt list" where
  "redis_logins cf [] s = []"
| "redis_logins cf ((outcome, now, ip, u) # as) s =
     (case redis_login_check default_rate_limits cf outcome now ip u s of
        (r, s') \<Rightarrow> (if r = Inr () then [(outcome, now, ip, u)] else []) @ redis_logins cf as s')"

fun mem_logins :: "(pystr \<Rightarrow> pystr) \<Rightarrow> login_attempt list \<Rightarrow> mem_limiter \<Rightarrow> login_attempt list" where
  "mem_logins cf [] l = []"
| "mem_logins cf ((outcome, now, ip, u) # as) l =
     (case mem_login_check default_rate_limits cf now ip u l of
        (r, l') \<Rightarrow> (if r = Inr () then [(outcome, now, ip, u)] else []) @ mem_logins cf as l')"

definition keyed :: "(pystr \<Rightarrow> pystr) \<Rightarrow> login_attempt \<Rightarrow> instant \<times> pystr list" where
  "keyed cf x = (case x of (_, now, ip, u) \<Rightarrow> (now, rate_keys cf ip u))"

definition at_time :: "login_attempt \<Rightarrow> instant" where
  "at_time x = fst (snd x)"

lemma redis_logins_accepted:
  "length (filter (\<lambda>x. P (keyed cf x)) (redis_logins cf as s)) \<le>
     length (filter P (redis_limiter.accepted (thresholds default_rate_limits)
       (map (keyed cf) (filter (\<lambda>x. fst x \<noteq> EvalRefused) as)) s))"
proof (induction cf as s rule: redis_logins.induct)
  case (2 cf outcome now ip u as s)
  obtain r s' where c: "redis_login_check default_rate_limits cf outcome now ip u s = (r, s')" by fastforce
  obtain ns t where h: "redis_counter.hits now (rate_keys cf ip u) s = (ns, t)" by fastforce
  note IH = "2.IH" [OF c [symmetric]]
  show ?case
  proof (cases outcome)
    case EvalReply
    with redis_check_replied [of cf now ip u s] redis_check_state [of cf outcome now ip u s] c h IH
    show ?thesis by (auto simp: keyed_def)
  next
    case EvalReplyLost
    with redis_check_state [of cf outcome now ip u s] c h have s': "s' = t" by simp
    have "r \<noteq> Inr ()" using c EvalReplyLost by (auto simp: redis_login_check_def Let_def split: prod.splits)
    with EvalReplyLost s' c h IH show ?thesis by (auto simp: keyed_def intro: le_trans)
  next
    case EvalRefused
    with c have "r \<noteq> Inr ()" "s' = s" by (auto simp: redis_login_check_def Let_def split: prod.splits)
    with EvalRefused c IH show ?thesis by simp
  qed
qed simp

lemma mem_logins_accepted:
  "map (keyed cf) (mem_logins cf as l) = mem_limiter.accepted (thresholds default_rate_limits) (map (keyed cf) as) l"
proof (induction cf as l rule: mem_logins.induct)
  case (2 cf outcome now ip u as l)
  obtain r l' where c: "mem_login_check default_rate_limits cf now ip u l = (r, l')" by fastforce
  obtain ns t where h: "mem_attempt now (rate_keys cf ip u) l = (ns, t)" by fastforce
  from "2.IH" [OF c [symmetric]] mem_check_attempt [of cf now ip u l] c h show ?case by (auto simp: keyed_def)
qed simp

lemma keyed_ok:
  "list_all (\<lambda>x. distinct (snd x) \<and> length (snd x) = length (thresholds default_rate_limits)) (map (keyed cf) as)"
  by (auto simp: list_all_iff keyed_def thresholds_def split: prod.splits)

lemma keyed_time: "fst (keyed cf x) = at_time x"
  by (simp add: keyed_def at_time_def split: prod.splits)

lemma redis_key_bound:
  assumes "sorted (map at_time as)" and "j < 3"
  shows "int (length (filter (\<lambda>x. snd (keyed cf x) ! j = k \<and> a \<le> at_time x \<and> at_time x < a + seconds 60)
    (redis_logins cf as Map.empty))) \<le> 2 * thresholds default_rate_limits ! j"
proof -
  let ?as = "filter (\<lambda>x. fst x \<noteq> EvalRefused) as" and ?Ls = "thresholds default_rate_limits"
  have "sorted (map at_time ?as)" using assms(1) by (rule sorted_filter)
  then have "sorted (map fst (map (keyed cf) ?as))" by (simp add: comp_def keyed_time)
  moreover have "j < length ?Ls" "0 < ?Ls ! j"
    using assms(2) by (auto simp: thresholds_def default_rate_limits_def less_Suc_eq numeral_3_eq_3)
  ultimately have "int (length (filter (\<lambda>x. snd x ! j = k \<and> a \<le> fst x \<and> fst x < a + seconds 60)
    (redis_limiter.accepted ?Ls (map (keyed cf) ?as) Map.empty))) \<le> 2 * ?Ls ! j"
    by (intro redis_limiter.accepted_bound) (simp_all add: redis_ok_def redis_view_def keyed_ok)
  with redis_logins_accepted [of "\<lambda>x. snd x ! j = k \<and> a \<le> fst x \<and> fst x < a + seconds 60" cf as Map.empty]
  show ?thesis by (simp add: keyed_time)
qed

definition new_mem_limiter :: mem_limiter where
  "new_mem_limiter = \<lparr>ml_buckets = Map.empty, ml_checks = 0\<rparr>"

lemma mem_key_bound:
  assumes "sorted (map at_time as)" and "j < 3"
  shows "int (length (filter (\<lambda>x. snd (keyed cf x) ! j = k \<and> a \<le> at_time x \<and> at_time x < a + seconds 60)
    (mem_logins cf as new_mem_limiter))) \<le> 2 * thresholds default_rate_limits ! j"
proof -
  let ?Ls = "thresholds default_rate_limits" and ?P = "\<lambda>x. snd x ! j = k \<and> a \<le> fst x \<and> fst x < a + seconds 60"
  have "sorted (map fst (map (keyed cf) as))" using assms(1) by (simp add: comp_def keyed_time)
  moreover have "j < length ?Ls" "0 < ?Ls ! j"
    using assms(2) by (auto simp: thresholds_def default_rate_limits_def less_Suc_eq numeral_3_eq_3)
  ultimately have "int (length (filter ?P (mem_limiter.accepted ?Ls (map (keyed cf) as) new_mem_limiter))) \<le> 2 * ?Ls ! j"
    by (intro mem_limiter.accepted_bound)
      (simp_all add: new_mem_limiter_def mem_view_def bucket_view_def keyed_ok)
  moreover have "filter ?P (map (keyed cf) (mem_logins cf as new_mem_limiter)) =
      map (keyed cf) (filter (\<lambda>x. ?P (keyed cf x)) (mem_logins cf as new_mem_limiter))"
    by (simp add: filter_map comp_def)
  ultimately show ?thesis by (metis (no_types, lifting) keyed_time filter_cong length_map mem_logins_accepted)
qed

text \<open>Both limiters hold the same windows, started at the times \<open>past\<close>; they differ only in when they
  forget them.\<close>

definition same_windows :: "instant set \<Rightarrow> instant \<Rightarrow> counters \<Rightarrow> mem_limiter \<Rightarrow> bool" where
  "same_windows past now s l \<longleftrightarrow> (\<exists>w. \<forall>k.
     (\<forall>n e. w k = Some (n, e) \<longrightarrow> (\<exists>t \<in> past. e = t + seconds 60)) \<and>
     (\<forall>t. now \<le> t \<longrightarrow> redis_view t s k = Option.bind (w k) (until redis_alive t) \<and>
        mem_view t l k = Option.bind (w k) (until (<) t)))"

text \<open>No time in \<open>past\<close> lies a window, and at most a millisecond more, before \<open>now\<close>.\<close>

definition clear_of_ends :: "instant \<Rightarrow> instant \<Rightarrow> bool" where
  "clear_of_ends earlier now \<longleftrightarrow> \<not> (earlier + seconds 60 \<le> now \<and> now \<le> earlier + seconds 60 + 1000)"

lemma redis_alive_clear:
  assumes "clear_of_ends t now" and "e = t + seconds 60"
  shows "redis_alive now e \<longleftrightarrow> now < e"
proof
  assume "redis_alive now e"
  then have "now div 1000 \<le> e div 1000" by (simp add: redis_alive_def)
  then have "now \<le> e + 1000"
    using div_mult_mod_eq [of now 1000] pos_mod_bound [of 1000 now] div_mult_mod_eq [of e 1000] pos_mod_sign [of 1000 e]
    by linarith
  with assms show "now < e" by (simp add: clear_of_ends_def)
qed (use redis_counter.alive_before in blast)

lemma same_windows_now:
  assumes "same_windows past now s l" and "\<And>t. t \<in> past \<Longrightarrow> clear_of_ends t now"
  shows "redis_view now s k = mem_view now l k"
    and "redis_view now s k = Some (n, e) \<Longrightarrow> \<exists>t \<in> past. e = t + seconds 60"
proof -
  obtain w where w: "\<And>n e. w k = Some (n, e) \<Longrightarrow> \<exists>t \<in> past. e = t + seconds 60"
      "redis_view now s k = Option.bind (w k) (until redis_alive now)" "mem_view now l k = Option.bind (w k) (until (<) now)"
    using assms(1) unfolding same_windows_def by blast
  show "redis_view now s k = mem_view now l k"
  proof (cases "w k")
    case (Some b)
    obtain n e where b: "b = (n, e)" by fastforce
    with w(1) Some obtain t where "t \<in> past" "e = t + seconds 60" by blast
    with redis_alive_clear assms(2) have "redis_alive now e \<longleftrightarrow> now < e" by blast
    with Some b w(2,3) show ?thesis by (simp add: until_def)
  qed (use w(2,3) in simp)
  show "redis_view now s k = Some (n, e) \<Longrightarrow> \<exists>t \<in> past. e = t + seconds 60"
    using w(1,2) by (cases "w k") (auto simp: until_def split: if_splits)
qed

lemma limiters_step:
  assumes ok: "redis_ok s" and same: "same_windows past now s l" and clear: "\<And>t. t \<in> past \<Longrightarrow> clear_of_ends t now"
    and r: "redis_login_check default_rate_limits cf EvalReply now ip u s = (r, s')"
    and m: "mem_login_check default_rate_limits cf now ip u l = (r', l')"
  shows "(r = Inr () \<longleftrightarrow> r' = Inr ()) \<and> redis_ok s' \<and> same_windows (insert now past) now s' l'"
proof -
  let ?ks = "rate_keys cf ip u"
  note view = same_windows_now [OF same clear]
  have s': "s' = snd (redis_counter.hits now ?ks s)" and l': "l' = snd (mem_attempt now ?ks l)"
    using redis_check_state [of cf EvalReply now ip u s] mem_check_attempt(1) [of cf now ip u l] r m by simp_all
  have "fst (redis_counter.hits now ?ks s) = fst (mem_attempt now ?ks l)"
    using redis_counter.hits_counts [OF ok distinct_rate_keys] mem_limiter.attempt_counts [OF TrueI distinct_rate_keys]
    by (simp add: view(1))
  with redis_check_replied [of cf now ip u s] mem_check_attempt(2) [of cf now ip u l] r m
  have "r = Inr () \<longleftrightarrow> r' = Inr ()" by simp
  moreover have "redis_ok s'" using redis_counter.hits_ok [OF ok] by (simp add: s')
  moreover have "same_windows (insert now past) now s' l'"
  proof -
    obtain w where w: "\<And>k n e. w k = Some (n, e) \<Longrightarrow> \<exists>t \<in> past. e = t + seconds 60"
        "\<And>k t. now \<le> t \<Longrightarrow> redis_view t s k = Option.bind (w k) (until redis_alive t)"
        "\<And>k t. now \<le> t \<Longrightarrow> mem_view t l k = Option.bind (w k) (until (<) t)"
      using same unfolding same_windows_def by blast
    let ?b = "\<lambda>k. bump (seconds 60) now (redis_view now s k)"
    let ?w = "\<lambda>k. if k \<in> set ?ks then Some (?b k) else w k"
    have "\<exists>t \<in> insert now past. e = t + seconds 60" if "?w k = Some (n, e)" for k n e
    proof (cases "k \<in> set ?ks")
      case True
      with that have "?b k = (n, e)" by simp
      with view(2) [of k] show ?thesis by (cases "redis_view now s k") (auto simp: bump_def)
    qed (use w(1) that in auto)
    moreover have "redis_view t s' k = Option.bind (?w k) (until redis_alive t)" if "now \<le> t" for t k
      using redis_counter.hits_view [OF ok distinct_rate_keys that] w(2) [OF that] by (simp add: s')
    moreover have "mem_view t l' k = Option.bind (?w k) (until (<) t)" if "now \<le> t" for t k
      using mem_limiter.attempt_view [OF TrueI distinct_rate_keys that] w(3) [OF that] by (simp add: l' view(1))
    ultimately show ?thesis unfolding same_windows_def by (intro exI [of _ ?w]) blast
  qed
  ultimately show ?thesis by blast
qed

lemma limiters_agree:
  assumes "redis_ok s" and "same_windows past t s l" and "list_all (\<lambda>x. fst x = EvalReply \<and> t \<le> at_time x) as"
    and "sorted (map at_time as)" and "sorted_wrt clear_of_ends (map at_time as)"
    and "\<And>p x. p \<in> past \<Longrightarrow> x \<in> set as \<Longrightarrow> clear_of_ends p (at_time x)"
  shows "redis_logins cf as s = mem_logins cf as l"
  using assms
proof (induction cf as s arbitrary: l t past rule: redis_logins.induct)
  case (2 cf outcome now ip u as s)
  obtain r s' where c: "redis_login_check default_rate_limits cf outcome now ip u s = (r, s')" by fastforce
  obtain r' l' where m: "mem_login_check default_rate_limits cf now ip u l = (r', l')" by fastforce
  have o: "outcome = EvalReply" "t \<le> now" using "2.prems"(3) by (simp_all add: at_time_def)
  have "same_windows past now s l"
    using "2.prems"(2) o(2) unfolding same_windows_def by (meson order_trans)
  from limiters_step [OF "2.prems"(1) this _ c [unfolded o(1)] m] "2.prems"(6) [of _ "(outcome, now, ip, u)"]
  have st: "(r = Inr () \<longleftrightarrow> r' = Inr ())" "redis_ok s'" "same_windows (insert now past) now s' l'"
    by (auto simp: at_time_def)
  have "clear_of_ends p (at_time x)" if "p \<in> insert now past" "x \<in> set as" for p x
    using that "2.prems"(5) "2.prems"(6) [of p x] by (auto simp: at_time_def)
  then have "redis_logins cf as s' = mem_logins cf as l'"
    by (intro "2.IH" [OF c [symmetric] st(2,3)]) (use "2.prems"(3-5) in \<open>auto simp: at_time_def list_all_iff\<close>)
  with c m st(1) show ?case by simp
qed simp

section \<open>Guarantees\<close>

lemma same_key:
  "strip ip = strip ip' \<Longrightarrow> cf (strip u) = cf (strip u') \<Longrightarrow> rate_keys cf ip u ! 0 = rate_keys cf ip' u' ! 0"
  "strip ip = strip ip' \<Longrightarrow> rate_keys cf ip u ! Suc 0 = rate_keys cf ip' u' ! Suc 0"
  "cf (strip u) = cf (strip u') \<Longrightarrow> rate_keys cf ip u ! 2 = rate_keys cf ip' u' ! 2"
  by (simp_all add: rate_keys_def Let_def)

lemma length_filter_mono: "(\<And>x. P x \<Longrightarrow> Q x) \<Longrightarrow> length (filter P xs) \<le> length (filter Q xs)"
  by (induction xs) auto

definition within :: "instant \<Rightarrow> login_attempt \<Rightarrow> bool" where
  "within a x \<longleftrightarrow> a \<le> at_time x \<and> at_time x < a + seconds 60"

lemma key_bounds:
  assumes "\<And>j k. j < 3 \<Longrightarrow> int (length (filter (\<lambda>x. snd (keyed cf x) ! j = k \<and> a \<le> at_time x \<and> at_time x < a + seconds 60)
    logins)) \<le> 2 * thresholds default_rate_limits ! j"
  shows "length (filter (\<lambda>(r, t, i, u). within a (r, t, i, u) \<and> strip i = strip ip \<and> cf (strip u) = cf (strip user)) logins) \<le> 10"
    and "length (filter (\<lambda>(r, t, i, u). within a (r, t, i, u) \<and> strip i = strip ip) logins) \<le> 60"
    and "length (filter (\<lambda>(r, t, i, u). within a (r, t, i, u) \<and> cf (strip u) = cf (strip user)) logins) \<le> 30"
proof -
  let ?ks = "rate_keys cf ip user"
  let ?n = "\<lambda>j. length (filter (\<lambda>x. snd (keyed cf x) ! j = ?ks ! j \<and> a \<le> at_time x \<and> at_time x < a + seconds 60) logins)"
  have "int (?n 0) \<le> 2 * 5" "int (?n 1) \<le> 2 * 30" "int (?n 2) \<le> 2 * 15"
    using assms [of 0 "?ks ! 0"] assms [of 1 "?ks ! 1"] assms [of 2 "?ks ! 2"]
    by (simp_all add: thresholds_def default_rate_limits_def)
  then have n: "?n 0 \<le> 10" "?n 1 \<le> 60" "?n 2 \<le> 30" by simp_all
  have "length (filter (\<lambda>(r, t, i, u). within a (r, t, i, u) \<and> strip i = strip ip \<and> cf (strip u) = cf (strip user)) logins) \<le> ?n 0"
    "length (filter (\<lambda>(r, t, i, u). within a (r, t, i, u) \<and> strip i = strip ip) logins) \<le> ?n 1"
    "length (filter (\<lambda>(r, t, i, u). within a (r, t, i, u) \<and> cf (strip u) = cf (strip user)) logins) \<le> ?n 2"
    by (rule length_filter_mono; auto simp: keyed_def within_def intro!: same_key)+
  with n show "length (filter (\<lambda>(r, t, i, u). within a (r, t, i, u) \<and> strip i = strip ip \<and> cf (strip u) = cf (strip user)) logins) \<le> 10"
    "length (filter (\<lambda>(r, t, i, u). within a (r, t, i, u) \<and> strip i = strip ip) logins) \<le> 60"
    "length (filter (\<lambda>(r, t, i, u). within a (r, t, i, u) \<and> cf (strip u) = cf (strip user)) logins) \<le> 30"
    by linarith+
qed

text \<open>C32: however login attempts are spread, either limiter lets through, in any 60 seconds, at most 10
  attempts from one address for one user name, 60 from one address and 30 for one user name; spellings
  of a name that differ in case or surrounding space count as one. For Redis this holds whichever
  evaluations fail.\<close>

theorem accepted_logins_bounded:
  assumes "sorted (map at_time as)"
    and "logins = redis_logins cf as Map.empty \<or> logins = mem_logins cf as new_mem_limiter"
  shows "length (filter (\<lambda>(r, t, i, u). within a (r, t, i, u) \<and> strip i = strip ip \<and> cf (strip u) = cf (strip user)) logins) \<le> 10 \<and>
    length (filter (\<lambda>(r, t, i, u). within a (r, t, i, u) \<and> strip i = strip ip) logins) \<le> 60 \<and>
    length (filter (\<lambda>(r, t, i, u). within a (r, t, i, u) \<and> cf (strip u) = cf (strip user)) logins) \<le> 30"
proof -
  have b: "int (length (filter (\<lambda>x. snd (keyed cf x) ! j = k \<and> a \<le> at_time x \<and> at_time x < a + seconds 60) logins)) \<le>
      2 * thresholds default_rate_limits ! j" if "j < 3" for j k
    using assms(2) redis_key_bound [OF assms(1) that] mem_key_bound [OF assms(1) that] by (elim disjE) simp_all
  show ?thesis using key_bounds(1) [OF b] key_bounds(2) [OF b] key_bounds(3) [OF b] by blast
qed

theorem accepted_logins_bounded_witness:
  "length (filter (\<lambda>(r, t, i, u). within 0 (r, t, i, u) \<and> strip i = strip (tx ''10.1.1.1'') \<and> ascii_lower (strip u) = ascii_lower (strip (tx ''bob'')))
    (redis_logins ascii_lower (replicate 40 (EvalReply, 5, tx ''10.1.1.1'', tx ''Bob'')) Map.empty)) \<le> 10"
  using accepted_logins_bounded [of "replicate 40 (EvalReply, 5, tx ''10.1.1.1'', tx ''Bob'')", OF _ disjI1 [OF refl],
      where cf = ascii_lower and a = 0 and ip = "tx ''10.1.1.1''" and user = "tx ''bob''"]
  by (simp add: map_replicate at_time_def)

text \<open>C33: while Redis answers, the process-local fallback accepts exactly the attempts the Redis limiter
  accepts, provided no attempt comes 60 seconds, or up to a millisecond more, after an earlier one: that is
  when a window of one limiter may have ended and that of the other not.\<close>

theorem login_limiters_agree:
  assumes "sorted (map at_time as)" and "list_all (\<lambda>x. fst x = EvalReply) as"
    and "sorted_wrt (\<lambda>s t. \<not> (s + seconds 60 \<le> t \<and> t \<le> s + seconds 60 + 1000)) (map at_time as)"
  shows "redis_logins cf as Map.empty = mem_logins cf as new_mem_limiter"
proof (cases as)
  case (Cons x xs)
  have "same_windows {} (at_time x) Map.empty new_mem_limiter"
    unfolding same_windows_def
    by (rule exI [of _ Map.empty]) (simp add: redis_view_def mem_view_def bucket_view_def new_mem_limiter_def)
  moreover have "sorted_wrt clear_of_ends (map at_time as)"
    using assms(3) by (rule sorted_wrt_mono_rel [rotated]) (simp add: clear_of_ends_def)
  ultimately show ?thesis using assms(1,2) Cons
    by (intro limiters_agree [where t = "at_time x" and past = "{}"]) (auto simp: redis_ok_def list_all_iff)
qed simp

theorem login_limiters_agree_witness:
  "redis_logins ascii_lower [(EvalReply, 5, tx ''10.1.1.1'', tx ''Bob''), (EvalReply, 7, tx ''10.1.1.2'', tx ''bob''),
       (EvalReply, 60002000, tx ''10.1.1.1'', tx ''bob'')] Map.empty =
     mem_logins ascii_lower [(EvalReply, 5, tx ''10.1.1.1'', tx ''Bob''), (EvalReply, 7, tx ''10.1.1.2'', tx ''bob''),
       (EvalReply, 60002000, tx ''10.1.1.1'', tx ''bob'')] new_mem_limiter"
  using login_limiters_agree [of "[(EvalReply, 5, tx ''10.1.1.1'', tx ''Bob''), (EvalReply, 7, tx ''10.1.1.2'', tx ''bob''),
       (EvalReply, 60002000, tx ''10.1.1.1'', tx ''bob'')]" ascii_lower]
  by (simp add: at_time_def seconds_def del: redis_logins.simps mem_logins.simps)

text \<open>At the end of a window they do differ: Redis still counts, the fallback starts a new window.\<close>

lemma limiters_differ_at_the_end:
  assumes "1 \<le> n" and "s k = Some (n, Some e)" and "b k = Some (n, e)"
  shows "fst (script_hit 60 e k s) = n + 1" and "fst (bucket_hit 60 e k b) = 1"
  using assms by (simp_all add: script_hit_def redis_incr_def redis_live_def redis_alive_def bucket_hit_def)

end
