(* ===== verification/Identity_Service.thy ===== *)
theory Identity_Service
  imports Identity_Schemas Rate_Limit Ai_Operations
begin

text \<open>
  The identity module's operations: identity/repositories.py, identity/services.py,
  identity/bootstrap.py, the endpoints of identity/router.py and cli/bootstrap_admin.py. Each is a unit
  of work on the database. Requests arrive validated by the models of Identity\_Schemas.
\<close>

section \<open>repositories.py\<close>

definition get_member :: "uuid \<Rightarrow> db \<Rightarrow> member option" where
  "get_member i d = find (\<lambda>m. m_id m = i) (members d)"

definition get_member_by_username :: "pystr \<Rightarrow> db \<Rightarrow> member option" where
  "get_member_by_username name d = find (\<lambda>m. m_username m = name) (members d)"

definition repo_list_members :: "db \<Rightarrow> member list" where
  "repo_list_members d = sort_key m_created_at (members d)"

definition add_member :: "member \<Rightarrow> db \<Rightarrow> task_exc + db" where
  "add_member m d = flush (d\<lparr>members := members d @ [m]\<rparr>)"

definition find_provider_setting :: "uuid \<Rightarrow> db \<Rightarrow> provider_setting option" where
  "find_provider_setting i d = find (\<lambda>s. ps_member_id s = i) (provider_settings d)"

definition insert_provider_setting :: "provider_setting \<Rightarrow> db \<Rightarrow> db" where
  "insert_provider_setting s d = d\<lparr>provider_settings := provider_settings d @ [s]\<rparr>"

definition save_provider_setting :: "instant \<Rightarrow> uuid \<Rightarrow> (provider_setting \<Rightarrow> provider_setting) \<Rightarrow> db \<Rightarrow> db" where
  "save_provider_setting now i f d =
     d\<lparr>provider_settings :=
         update_where (\<lambda>s. ps_id s = i) (orm_save (\<lambda>s. s\<lparr>ps_updated_at := now\<rparr>) f) (provider_settings d)\<rparr>"

definition remove_provider_setting :: "provider_setting \<Rightarrow> db \<Rightarrow> db" where
  "remove_provider_setting s d = d\<lparr>provider_settings := filter (\<lambda>r. ps_id r \<noteq> ps_id s) (provider_settings d)\<rparr>"

definition active_admin :: "member \<Rightarrow> bool" where
  "active_admin m \<longleftrightarrow> m_role m = ADMIN \<and> m_is_active m"

definition lock_active_admins :: "db \<Rightarrow> member list" where
  "lock_active_admins d = filter active_admin (members d)"

section \<open>services.py: sessions\<close>

definition dummy_password_hash :: pystr where
  "dummy_password_hash =
     tx ''$argon2id$v=19$m=65536,t=3,p=4$uOneBxs4NNG0Ziy+u4jhkA$CZQp9FnU2Chi0kgjBkqEVbfpP+t/ecPnM8outgmOMzo''"

definition invalid_credentials :: identity_exc where
  "invalid_credentials = identity_error ''invalid_credentials'' ''Invalid username or password'' 401"

definition authenticate ::
  "identity_env \<Rightarrow> instant \<Rightarrow> pystr \<Rightarrow> pystr \<Rightarrow> db \<Rightarrow> identity_exc + pystr \<times> member" where
  "authenticate env now username password d =
     (let member = get_member_by_username (strip username) d;
          hash = (case member of None \<Rightarrow> dummy_password_hash | Some m \<Rightarrow> m_password_hash m);
          password_valid = password_verify env password hash
      in case member of
           None \<Rightarrow> Inl invalid_credentials
         | Some m \<Rightarrow>
             if \<not> password_valid \<or> \<not> m_is_active m then Inl invalid_credentials
             else Inr (token_issue env now (m_id m), m))"

definition authenticated_member :: "identity_env \<Rightarrow> instant \<Rightarrow> pystr \<Rightarrow> db \<Rightarrow> identity_exc + member" where
  "authenticated_member env now token d =
     bind_result (of_option (identity_error ''invalid_token'' ''Invalid or expired access token'' 401)
       (token_decode env now token)) (\<lambda>member_id.
     bind_result (of_option (identity_error ''invalid_token'' ''Access token member no longer exists'' 401)
       (get_member member_id d)) (\<lambda>m.
     if m_is_active m then Inr m
     else Inl (identity_error ''member_disabled'' ''Member account is disabled'' 403)))"

definition require_admin :: "member \<Rightarrow> identity_exc + unit" where
  "require_admin m =
     require (m_role m = ADMIN) (identity_error ''admin_required'' ''Administrator access is required'' 403)"

definition save_member :: "instant \<Rightarrow> uuid \<Rightarrow> (member \<Rightarrow> member) \<Rightarrow> db \<Rightarrow> db" where
  "save_member now i f d =
     d\<lparr>members := update_where (\<lambda>m. m_id m = i) (orm_save (\<lambda>m. m\<lparr>m_updated_at := now\<rparr>) f) (members d)\<rparr>"

definition change_password ::
  "identity_env \<Rightarrow> instant \<Rightarrow> nat \<Rightarrow> member \<Rightarrow> pystr \<Rightarrow> pystr \<Rightarrow> db \<Rightarrow> identity_exc + unit \<times> db" where
  "change_password env now salt member current new d =
     (if \<not> password_verify env current (m_password_hash member)
      then Inl (identity_error ''invalid_current_password'' ''Current password is incorrect'' 400)
      else map_error IdentityDbError
        (commit () (save_member now (m_id member) (\<lambda>m. m\<lparr>m_password_hash := password_hash env salt new\<rparr>) d)))"

section \<open>services.py: members\<close>

definition username_exists :: identity_exc where
  "username_exists = identity_error ''username_exists'' ''Username already exists'' 409"

definition new_member :: "uuid \<Rightarrow> instant \<Rightarrow> pystr \<Rightarrow> member_create \<Rightarrow> member" where
  "new_member i now hash data =
     \<lparr>m_id = i, m_username = mc_username data, m_display_name = mc_display_name data, m_password_hash = hash,
      m_role = mc_role data, m_is_active = True, m_created_at = now, m_updated_at = now\<rparr>"

definition create_member ::
  "identity_env \<Rightarrow> uuid \<Rightarrow> instant \<Rightarrow> nat \<Rightarrow> member \<Rightarrow> member_create \<Rightarrow> db \<Rightarrow> identity_exc + member \<times> db" where
  "create_member env i now salt actor data d =
     bind_result (require_admin actor) (\<lambda>_.
     if get_member_by_username (mc_username data) d \<noteq> None then Inl username_exists
     else
       let m = new_member i now (password_hash env salt (mc_password data)) data in
       map_error (\<lambda>e. if e = IntegrityError then username_exists else IdentityDbError e)
         (bind_result (add_member m d) (\<lambda>d'. commit m d')))"

text \<open>
  \<open>update_member\<close> reads the member, then may lock the rows of the active administrators, then writes.
  Other commits can come between the read and the lock, so the second half works on the member as
  loaded and on the current database. The mapper writes an attribute only if its value differs from
  the loaded one.
\<close>

definition changed :: "'v option option \<Rightarrow> 'v \<Rightarrow> 'v option" where
  "changed u loaded = (case u of Some (Some v) \<Rightarrow> if v = loaded then None else Some v | _ \<Rightarrow> None)"

definition write_member :: "instant \<Rightarrow> member \<Rightarrow> member_update \<Rightarrow> member \<Rightarrow> member" where
  "write_member now loaded u row =
     (case (changed (mu_display_name u) (m_display_name loaded), changed (mu_is_active u) (m_is_active loaded)) of
        (None, None) \<Rightarrow> row
      | (n, a) \<Rightarrow>
          row\<lparr>m_display_name := (case n of None \<Rightarrow> m_display_name row | Some v \<Rightarrow> v),
              m_is_active := (case a of None \<Rightarrow> m_is_active row | Some v \<Rightarrow> v), m_updated_at := now\<rparr>)"

definition has_null :: "member_update \<Rightarrow> bool" where
  "has_null u \<longleftrightarrow> mu_display_name u = Some None \<or> mu_is_active u = Some None"

definition disabling_active_admin :: "member \<Rightarrow> member_update \<Rightarrow> bool" where
  "disabling_active_admin loaded u \<longleftrightarrow> mu_is_active u = Some (Some False) \<and> active_admin loaded"

definition update_member_write ::
  "instant \<Rightarrow> member \<Rightarrow> member \<Rightarrow> member_update \<Rightarrow> db \<Rightarrow> identity_exc + member \<times> db" where
  "update_member_write now actor loaded u d =
     bind_result
       (if disabling_active_admin loaded u
        then if m_id loaded = m_id actor
             then Inl (identity_error ''cannot_disable_self'' ''Administrators cannot disable their own account'' 409)
             else if length (lock_active_admins d) \<le> 1
             then Inl (identity_error ''last_admin_required'' ''The last active administrator cannot be disabled'' 409)
             else Inr ()
        else Inr ()) (\<lambda>_.
     if has_null u then Inl (IdentityDbError IntegrityError)
     else
       bind_result (map_error IdentityDbError
         (flush (d\<lparr>members := update_where (\<lambda>m. m_id m = m_id loaded) (write_member now loaded u) (members d)\<rparr>))) (\<lambda>d'.
       bind_result (of_option (IdentityDbError AttributeError) (get_member (m_id loaded) d')) (\<lambda>m. Inr (m, d'))))"

definition update_member_load :: "member \<Rightarrow> uuid \<Rightarrow> db \<Rightarrow> identity_exc + member" where
  "update_member_load actor member_id d =
     bind_result (require_admin actor) (\<lambda>_. of_option not_found_member (get_member member_id d))"

definition update_member ::
  "instant \<Rightarrow> member \<Rightarrow> uuid \<Rightarrow> member_update \<Rightarrow> db \<Rightarrow> identity_exc + member \<times> db" where
  "update_member now actor member_id u d =
     bind_result (update_member_load actor member_id d) (\<lambda>loaded. update_member_write now actor loaded u d)"

section \<open>services.py: provider settings\<close>

definition validated_provider_url :: "identity_env \<Rightarrow> pystr \<Rightarrow> identity_exc + pystr" where
  "validated_provider_url env v =
     map_error (\<lambda>e. case e of ProviderUrlPolicyError code message \<Rightarrow> identity_error code message 400
                              | _ \<Rightarrow> IdentityUrlCrash e)
       (validate_provider_url (ie_unicode env) (ie_getaddrinfo env) (ie_production env) v)"

definition provider_public :: "provider_setting \<Rightarrow> pystr \<Rightarrow> provider_setting_public" where
  "provider_public s api_key =
     \<lparr>pp_id = ps_id s, pp_base_url = ps_base_url s, pp_model_id = ps_model_id s,
      pp_timeout_seconds = ps_timeout_seconds s, pp_api_key_masked = mask api_key,
      pp_created_at = ps_created_at s, pp_updated_at = ps_updated_at s\<rparr>"

text \<open>The answer after \<open>refresh\<close>: the row as the database has it.\<close>

definition stored_public :: "uuid \<Rightarrow> pystr \<Rightarrow> db \<Rightarrow> identity_exc + provider_setting_public" where
  "stored_public member_id api_key d =
     of_option (IdentityDbError AttributeError)
       (map_option (\<lambda>s. provider_public s api_key) (find_provider_setting member_id d))"

definition put_provider_setting ::
  "identity_env \<Rightarrow> uuid \<Rightarrow> instant \<Rightarrow> nat \<Rightarrow> uuid \<Rightarrow> provider_setting_write \<Rightarrow> db \<Rightarrow>
   identity_exc + provider_setting_public \<times> db" where
  "put_provider_setting env i now iv member_id data d =
     bind_result (validated_provider_url env (psw_base_url data)) (\<lambda>base_url.
     let key = cipher_encrypt env iv (psw_api_key data);
         d1 = (case find_provider_setting member_id d of
                 None \<Rightarrow> insert_provider_setting
                   \<lparr>ps_id = i, ps_member_id = member_id, ps_encrypted_api_key = key, ps_base_url = base_url,
                    ps_model_id = psw_model_id data, ps_timeout_seconds = psw_timeout_seconds data,
                    ps_created_at = now, ps_updated_at = now\<rparr> d
               | Some s \<Rightarrow> save_provider_setting now (ps_id s)
                   (\<lambda>s. s\<lparr>ps_encrypted_api_key := key, ps_base_url := base_url, ps_model_id := psw_model_id data,
                           ps_timeout_seconds := psw_timeout_seconds data\<rparr>) d)
     in bind_result (map_error IdentityDbError (flush d1)) (\<lambda>d2.
        bind_result (stored_public member_id (psw_api_key data) d2) (\<lambda>p. Inr (p, d2))))"

text \<open>The change is committed before the stored key is decrypted for the answer: the inner sum is the
  answer or the exception raised after the commit.\<close>

definition patch_provider_timeout ::
  "identity_env \<Rightarrow> instant \<Rightarrow> uuid \<Rightarrow> int \<Rightarrow> db \<Rightarrow>
   identity_exc + (identity_exc + provider_setting_public) \<times> db" where
  "patch_provider_timeout env now member_id timeout d =
     bind_result (of_option not_found_provider_setting (find_provider_setting member_id d)) (\<lambda>s.
     bind_result (map_error IdentityDbError
       (flush (save_provider_setting now (ps_id s) (\<lambda>s. s\<lparr>ps_timeout_seconds := timeout\<rparr>) d))) (\<lambda>d1.
     Inr (bind_result (cipher_decrypt env (ps_encrypted_api_key s)) (\<lambda>key. stored_public member_id key d1), d1)))"

definition get_provider_setting :: "identity_env \<Rightarrow> uuid \<Rightarrow> db \<Rightarrow> identity_exc + provider_setting_public" where
  "get_provider_setting env member_id d =
     bind_result (of_option not_found_provider_setting (find_provider_setting member_id d)) (\<lambda>s.
     bind_result (cipher_decrypt env (ps_encrypted_api_key s)) (\<lambda>key. Inr (provider_public s key)))"

definition delete_provider_setting :: "uuid \<Rightarrow> db \<Rightarrow> identity_exc + unit \<times> db" where
  "delete_provider_setting member_id d =
     bind_result (of_option not_found_provider_setting (find_provider_setting member_id d)) (\<lambda>s.
     map_error IdentityDbError (commit () (remove_provider_setting s d)))"

text \<open>\<open>x or y\<close> on optional strings.\<close>

definition str_or :: "pystr option \<Rightarrow> pystr option \<Rightarrow> pystr option" where
  "str_or x y = (case x of Some (c # s) \<Rightarrow> x | _ \<Rightarrow> y)"

definition test_provider ::
  "identity_env \<Rightarrow> (models_request \<Rightarrow> models_get) \<Rightarrow> uuid \<Rightarrow> provider_test_request \<Rightarrow> db \<Rightarrow>
   identity_exc + provider_test_outcome" where
  "test_provider env get member_id data d =
     (let saved = find_provider_setting member_id d;
          url0 = (case ptr_base_url data of Some (c # u) \<Rightarrow> Some (rstrip_char 47 (c # u)) | _ \<Rightarrow> None)
      in
      bind_result
        (case (str_or (ptr_api_key data) None, saved) of
           (None, Some s) \<Rightarrow> bind_result (cipher_decrypt env (ps_encrypted_api_key s)) (\<lambda>k. Inr (Some k))
         | _ \<Rightarrow> Inr (ptr_api_key data)) (\<lambda>api_key.
      let base_url = (case saved of None \<Rightarrow> url0 | Some s \<Rightarrow> str_or url0 (Some (ps_base_url s)));
          model_id = (case saved of None \<Rightarrow> ptr_model_id data | Some s \<Rightarrow> str_or (ptr_model_id data) (Some (ps_model_id s)));
          timeout = (case (ptr_timeout_seconds data, saved) of
                       (None, Some s) \<Rightarrow> Some (ps_timeout_seconds s) | (t, _) \<Rightarrow> t)
      in case (str_or api_key None, str_or base_url None, str_or model_id None) of
           (Some key, Some url, Some model) \<Rightarrow>
             bind_result (validated_provider_url env url) (\<lambda>url'.
             connection_test get key url' model
               (case timeout of None \<Rightarrow> DEFAULT_RESPONSE_TIMEOUT_SECONDS
                | Some t \<Rightarrow> if t = 0 then DEFAULT_RESPONSE_TIMEOUT_SECONDS else t))
         | _ \<Rightarrow> Inl (identity_error ''provider_settings_incomplete''
                  ''API key, base URL, and model are required'' 400)))"

section \<open>bootstrap.py\<close>

datatype bootstrap_status = BOOTSTRAP_CREATED | BOOTSTRAP_ALREADY_EXISTS

record bootstrap_result =
  br_status :: bootstrap_status
  br_username :: pystr
  br_is_active :: bool

datatype bootstrap_exc = BootstrapConflictError string | BootstrapValidationError | BootstrapDbError task_exc

definition bootstrap_first_admin ::
  "identity_env \<Rightarrow> uuid \<Rightarrow> instant \<Rightarrow> nat \<Rightarrow> pystr \<Rightarrow> pystr \<Rightarrow> pystr \<Rightarrow> db \<Rightarrow>
   bootstrap_exc + bootstrap_result \<times> db" where
  "bootstrap_first_admin env i now salt username display_name password d =
     bind_result (map_error (\<lambda>_. BootstrapValidationError)
       (mk_member_create username display_name password ADMIN)) (\<lambda>payload.
     case get_member_by_username (mc_username payload) d of
       Some m \<Rightarrow>
         if m_role m \<noteq> ADMIN
         then Inl (BootstrapConflictError ''The bootstrap username already belongs to a non-administrator account'')
         else Inr (\<lparr>br_status = BOOTSTRAP_ALREADY_EXISTS, br_username = m_username m, br_is_active = m_is_active m\<rparr>, d)
     | None \<Rightarrow>
         if list_ex (\<lambda>m. m_role m = ADMIN) (members d)
         then Inl (BootstrapConflictError
           ''An administrator already exists; use the administration API to add accounts'')
         else
           map_error (\<lambda>e. if e = IntegrityError
               then BootstrapConflictError ''Administrator bootstrap conflicted with another account creation''
               else BootstrapDbError e)
             (commit \<lparr>br_status = BOOTSTRAP_CREATED, br_username = mc_username payload, br_is_active = True\<rparr>
               (d\<lparr>members := members d @ [new_member i now (password_hash env salt password) payload]\<rparr>)))"

section \<open>cli/bootstrap\_admin.py\<close>

text \<open>\<open>password_env\<close> is BOOTSTRAP\_ADMIN\_PASSWORD; without it the password is typed twice on a terminal.\<close>

definition read_password :: "pystr option \<Rightarrow> bool \<Rightarrow> pystr \<Rightarrow> pystr \<Rightarrow> string + pystr" where
  "read_password password_env isatty typed confirmation =
     (case password_env of
        Some p \<Rightarrow> Inr p
      | None \<Rightarrow>
          if \<not> isatty then Inl ''BOOTSTRAP_ADMIN_PASSWORD is required when input is not interactive''
          else if typed \<noteq> confirmation then Inl ''Password confirmation does not match''
          else Inr typed)"

definition bootstrap_run ::
  "identity_env \<Rightarrow> uuid \<Rightarrow> instant \<Rightarrow> nat \<Rightarrow> pystr \<Rightarrow> pystr \<Rightarrow> pystr \<Rightarrow> db \<Rightarrow>
   (bootstrap_exc + bootstrap_status) \<times> db" where
  "bootstrap_run env i now salt username display_name password d =
     (case bootstrap_first_admin env i now salt username display_name password d of
        Inl e \<Rightarrow> (Inl e, d)
      | Inr (r, d') \<Rightarrow>
          (if br_status r = BOOTSTRAP_ALREADY_EXISTS \<and> \<not> br_is_active r
           then Inl (BootstrapConflictError
             ''The administrator already exists but is disabled; bootstrap will not reactivate it'')
           else Inr (br_status r), d'))"

text \<open>The exit code; a database error other than a conflict ends the process with a traceback (code 1).\<close>

definition bootstrap_main ::
  "identity_env \<Rightarrow> uuid \<Rightarrow> instant \<Rightarrow> nat \<Rightarrow> pystr option \<Rightarrow> pystr option \<Rightarrow> string + pystr \<Rightarrow> db \<Rightarrow> int \<times> db" where
  "bootstrap_main env i now salt username display_name password d =
     (case str_or username None of
        None \<Rightarrow> (2, d)
      | Some name \<Rightarrow>
          (case password of
             Inl _ \<Rightarrow> (1, d)
           | Inr p \<Rightarrow>
               (case bootstrap_run env i now salt name
                  (case str_or display_name None of None \<Rightarrow> name | Some x \<Rightarrow> x) p d of
                  (Inl _, d') \<Rightarrow> (1, d')
                | (Inr _, d') \<Rightarrow> (0, d'))))"

section \<open>router.py\<close>

definition get_current_member :: "identity_env \<Rightarrow> instant \<Rightarrow> pystr \<Rightarrow> db \<Rightarrow> identity_exc + member" where
  "get_current_member env now token d = authenticated_member env now token d"

definition get_current_admin :: "identity_env \<Rightarrow> instant \<Rightarrow> pystr \<Rightarrow> db \<Rightarrow> identity_exc + member" where
  "get_current_admin env now token d =
     bind_result (get_current_member env now token d) (\<lambda>m. bind_result (require_admin m) (\<lambda>_. Inr m))"

record limiter_state =
  ls_redis :: counters
  ls_memory :: mem_limiter

text \<open>\<open>get_login_rate_limiter\<close> takes the process-local limiter when the settings allow it.\<close>

definition login_rate_check ::
  "identity_env \<Rightarrow> bool \<Rightarrow> eval_outcome \<Rightarrow> instant \<Rightarrow> pystr \<Rightarrow> pystr \<Rightarrow> limiter_state \<Rightarrow>
   (rate_exc + unit) \<times> limiter_state" where
  "login_rate_check env allow_in_memory outcome clock client_ip username l =
     (if allow_in_memory
      then (case mem_login_check default_rate_limits (u_casefold (ie_unicode env)) clock client_ip username (ls_memory l) of
              (r, m) \<Rightarrow> (r, l\<lparr>ls_memory := m\<rparr>))
      else (case redis_login_check default_rate_limits (u_casefold (ie_unicode env)) outcome clock client_ip username
                  (ls_redis l) of
              (r, s) \<Rightarrow> (r, l\<lparr>ls_redis := s\<rparr>)))"

definition rate_error :: "rate_exc \<Rightarrow> identity_exc" where
  "rate_error e =
     (case e of
        LoginRateLimitExceeded retry_after \<Rightarrow>
          IdentityError ''login_rate_limited'' (tx ''Too many login attempts; try again later'') 429
            [(tx ''retry_after'', JInt retry_after)]
      | LoginRateLimitUnavailable \<Rightarrow>
          identity_error ''login_rate_limit_unavailable'' ''Login is temporarily unavailable'' 503)"

definition login ::
  "identity_env \<Rightarrow> bool \<Rightarrow> eval_outcome \<Rightarrow> instant \<Rightarrow> instant \<Rightarrow> pystr option \<Rightarrow> login_request \<Rightarrow> db \<Rightarrow> limiter_state \<Rightarrow>
   (identity_exc + login_response) \<times> limiter_state" where
  "login env allow_in_memory outcome clock now client data d l =
     (let client_ip = (case client of None \<Rightarrow> tx ''unknown'' | Some host \<Rightarrow> host);
          (checked, l') = login_rate_check env allow_in_memory outcome clock client_ip (lr_username data) l
      in (bind_result (map_error rate_error checked) (\<lambda>_.
          bind_result (authenticate env now (strip (lr_username data)) (lr_password data) d) (\<lambda>(token, m).
          Inr \<lparr>lrs_access_token = token, lrs_token_type = tx ''bearer'', lrs_member = member_public_of m\<rparr>)), l'))"

definition me_endpoint :: "identity_env \<Rightarrow> instant \<Rightarrow> pystr \<Rightarrow> db \<Rightarrow> identity_exc + member_public" where
  "me_endpoint env now token d = bind_result (get_current_member env now token d) (\<lambda>m. Inr (member_public_of m))"

definition change_password_endpoint ::
  "identity_env \<Rightarrow> instant \<Rightarrow> nat \<Rightarrow> pystr \<Rightarrow> change_password_request \<Rightarrow> db \<Rightarrow> identity_exc + unit \<times> db" where
  "change_password_endpoint env now salt token data d =
     bind_result (get_current_member env now token d) (\<lambda>m.
     change_password env now salt m (cpr_current_password data) (cpr_new_password data) d)"

definition list_members_endpoint :: "identity_env \<Rightarrow> instant \<Rightarrow> pystr \<Rightarrow> db \<Rightarrow> identity_exc + member_public list" where
  "list_members_endpoint env now token d =
     bind_result (get_current_admin env now token d) (\<lambda>_. Inr (map member_public_of (repo_list_members d)))"

definition create_member_endpoint ::
  "identity_env \<Rightarrow> uuid \<Rightarrow> instant \<Rightarrow> nat \<Rightarrow> pystr \<Rightarrow> member_create \<Rightarrow> db \<Rightarrow> identity_exc + member_public \<times> db" where
  "create_member_endpoint env i now salt token data d =
     bind_result (get_current_admin env now token d) (\<lambda>admin.
     bind_result (create_member env i now salt admin data d) (\<lambda>(m, d'). Inr (member_public_of m, d')))"

definition update_member_endpoint ::
  "identity_env \<Rightarrow> instant \<Rightarrow> pystr \<Rightarrow> uuid \<Rightarrow> member_update \<Rightarrow> db \<Rightarrow> identity_exc + member_public \<times> db" where
  "update_member_endpoint env now token member_id u d =
     bind_result (get_current_admin env now token d) (\<lambda>admin.
     bind_result (update_member now admin member_id u d) (\<lambda>(m, d'). Inr (member_public_of m, d')))"

definition get_provider_setting_endpoint ::
  "identity_env \<Rightarrow> instant \<Rightarrow> pystr \<Rightarrow> db \<Rightarrow> identity_exc + provider_setting_public" where
  "get_provider_setting_endpoint env now token d =
     bind_result (get_current_member env now token d) (\<lambda>m. get_provider_setting env (m_id m) d)"

definition put_provider_setting_endpoint ::
  "identity_env \<Rightarrow> uuid \<Rightarrow> instant \<Rightarrow> nat \<Rightarrow> pystr \<Rightarrow> provider_setting_write \<Rightarrow> db \<Rightarrow>
   identity_exc + provider_setting_public \<times> db" where
  "put_provider_setting_endpoint env i now iv token data d =
     bind_result (get_current_member env now token d) (\<lambda>m. put_provider_setting env i now iv (m_id m) data d)"

definition patch_provider_timeout_endpoint ::
  "identity_env \<Rightarrow> instant \<Rightarrow> pystr \<Rightarrow> int \<Rightarrow> db \<Rightarrow> identity_exc + (identity_exc + provider_setting_public) \<times> db" where
  "patch_provider_timeout_endpoint env now token timeout d =
     bind_result (get_current_member env now token d) (\<lambda>m. patch_provider_timeout env now (m_id m) timeout d)"

definition delete_provider_setting_endpoint :: "identity_env \<Rightarrow> instant \<Rightarrow> pystr \<Rightarrow> db \<Rightarrow> identity_exc + unit \<times> db" where
  "delete_provider_setting_endpoint env now token d =
     bind_result (get_current_member env now token d) (\<lambda>m. delete_provider_setting (m_id m) d)"

definition test_provider_setting_endpoint ::
  "identity_env \<Rightarrow> (models_request \<Rightarrow> models_get) \<Rightarrow> instant \<Rightarrow> pystr \<Rightarrow> provider_test_request \<Rightarrow> db \<Rightarrow>
   identity_exc + provider_test_outcome" where
  "test_provider_setting_endpoint env get now token data d =
     bind_result (get_current_member env now token d) (\<lambda>m. test_provider env get (m_id m) data d)"

end
