(* ===== verification/Service_Edge.thy ===== *)
theory Service_Edge
  imports Identity_Service
begin

text \<open>
  The edge of the service: settings (core/config.py), the request tracing middleware
  (core/request\_trace.py) and the client event endpoint (telemetry/router.py) with its sliding window
  of 120 events a minute per member. Python's \<open>int\<close> on a header is the parameter \<open>int_of\<close>.
\<close>

section \<open>core/config.py\<close>

record settings =
  st_app_env :: pystr
  st_app_secret_key :: pystr
  st_allow_legacy_weak_key :: bool
  st_key_encryption_secret :: pystr
  st_allow_in_memory_coordination :: bool

definition key_secret_ok :: "unicode \<Rightarrow> bool \<Rightarrow> pystr \<Rightarrow> bool" where
  "key_secret_ok un legacy_allowed v \<longleftrightarrow>
     \<not> (\<not> legacy_allowed \<and> (length v < 32 \<or> contains (tx ''replace-with'') (u_casefold un v)))"

definition is_production :: "unicode \<Rightarrow> settings \<Rightarrow> bool" where
  "is_production un s \<longleftrightarrow> u_casefold un (st_app_env s) = tx ''production''"

definition mk_settings :: "unicode \<Rightarrow> settings \<Rightarrow> value_error + settings" where
  "mk_settings un s =
     bind_result (require (32 \<le> length (st_app_secret_key s)) (ValidationError ''app_secret_key'')) (\<lambda>_.
     bind_result (require (key_secret_ok un (st_allow_legacy_weak_key s) (st_key_encryption_secret s))
       (ValidationError ''KEY_ENCRYPTION_SECRET must be at least 32 random characters and not a placeholder'')) (\<lambda>_.
     bind_result (require (\<not> (is_production un s \<and> st_allow_in_memory_coordination s))
       (ValidationError ''In-memory coordination cannot be enabled in production'')) (\<lambda>_.
     Inr s)))"

section \<open>core/request\_trace.py\<close>

text \<open>\<open>[A-Za-z0-9._:-]{1,80}\<close>\<close>

definition is_request_id_char :: "nat \<Rightarrow> bool" where
  "is_request_id_char c \<longleftrightarrow> is_ascii_alpha c \<or> is_ascii_digit c \<or> c \<in> {46, 95, 58, 45}"

definition request_id_ok :: "pystr \<Rightarrow> bool" where
  "request_id_ok s \<longleftrightarrow> length_in 1 80 s \<and> list_all is_request_id_char s"

definition trace_request_id :: "uuid \<Rightarrow> pystr option \<Rightarrow> pystr" where
  "trace_request_id fresh supplied =
     (let s = (case supplied of None \<Rightarrow> [] | Some x \<Rightarrow> x) in if request_id_ok s then s else uuid_str fresh)"

text \<open>\<open>int(request.headers.get("content-length", "0") or 0)\<close>; \<open>None\<close> is the \<open>ValueError\<close> of \<open>int\<close>.\<close>

definition content_length :: "(pystr \<Rightarrow> int option) \<Rightarrow> pystr option \<Rightarrow> int option" where
  "content_length int_of header =
     (case header of None \<Rightarrow> int_of (tx ''0'') | Some [] \<Rightarrow> Some 0 | Some s \<Rightarrow> int_of s)"

datatype 'r traced = TraceCrash | TraceRejected int pystr | TracePassed pystr 'r

text \<open>The middleware around the rest of the application: too long client events are answered 413 with the
  request identifier, everything else is passed on with it.\<close>

definition request_trace_middleware ::
  "(pystr \<Rightarrow> int option) \<Rightarrow> uuid \<Rightarrow> pystr option \<Rightarrow> pystr \<Rightarrow> pystr option \<Rightarrow> (pystr \<Rightarrow> 'r) \<Rightarrow> 'r traced" where
  "request_trace_middleware int_of fresh supplied path length_header call_next =
     (let request_id = trace_request_id fresh supplied in
      if ends_with (tx ''/client-events'') path
      then (case content_length int_of length_header of
              None \<Rightarrow> TraceCrash
            | Some n \<Rightarrow> if n > 8192 then TraceRejected 413 request_id else TracePassed request_id (call_next request_id))
      else TracePassed request_id (call_next request_id))"

lemma trace_request_id_ok: "request_id_ok (trace_request_id fresh supplied)"
proof -
  have "length (uuid_str fresh) = 36" by (simp add: uuid_str_def Let_def)
  moreover have "is_request_id_char c" if "c \<in> set (uuid_str fresh)" for c
  proof -
    have "is_request_id_char c" if "c \<in> set (hex_fixed w n)" for w n
      using that
    proof (induction w arbitrary: n)
      case (Suc w)
      have "n mod 16 < 16" by simp
      then have "is_request_id_char (hex_char (n mod 16))"
        by (auto simp: is_request_id_char_def hex_char_def is_ascii_alpha_def is_ascii_digit_def)
      with Suc show ?case by auto
    qed simp
    moreover have "c = 45 \<or> c \<in> set (hex_fixed 32 (unat fresh))"
      using that by (auto simp: uuid_str_def Let_def dest!: in_set_takeD in_set_dropD)
    moreover have "is_request_id_char 45" by (simp add: is_request_id_char_def)
    ultimately show ?thesis by blast
  qed
  ultimately show ?thesis
    by (auto simp: trace_request_id_def request_id_ok_def length_in_def list_all_iff Let_def)
qed

section \<open>telemetry/router.py\<close>

text \<open>\<open>re.compile(r"(?i)(bearer|api[_ -]?key|password)\s*[:=]?\s*\S+")\<close>: \<open>(?i)\<close> also lets the long s and the
  Kelvin sign match.\<close>

definition matches_ci :: "nat \<Rightarrow> nat \<Rightarrow> bool" where
  "matches_ci p c \<longleftrightarrow> c = p \<or> (97 \<le> p \<and> p \<le> 122 \<and> c + 32 = p) \<or> (p = 115 \<and> c = 383) \<or> (p = 107 \<and> c = 8490)"

fun match_word :: "pystr \<Rightarrow> pystr \<Rightarrow> pystr option" where
  "match_word [] s = Some s"
| "match_word (p # ps) [] = None"
| "match_word (p # ps) (c # s) = (if matches_ci p c then match_word ps s else None)"

text \<open>The rest of the text after one of the words.\<close>

definition match_keyword :: "pystr \<Rightarrow> pystr option" where
  "match_keyword s =
     (case match_word (tx ''bearer'') s of
        Some r \<Rightarrow> Some r
      | None \<Rightarrow>
          (case match_word (tx ''api'') s of
             Some r \<Rightarrow>
               (case (if r \<noteq> [] \<and> hd r \<in> {95, 32, 45} then match_word (tx ''key'') (tl r) else None) of
                  Some r' \<Rightarrow> Some r'
                | None \<Rightarrow> match_word (tx ''key'') r)
           | None \<Rightarrow> match_word (tx ''password'') s))"

definition match_value :: "pystr \<Rightarrow> pystr option" where
  "match_value r =
     (let r1 = dropWhile is_space r in
      if r1 = [] then None
      else
        let r2 = dropWhile is_space (tl r1) in
        if hd r1 \<in> {58, 61} \<and> r2 \<noteq> [] then Some (dropWhile (\<lambda>c. \<not> is_space c) r2)
        else Some (dropWhile (\<lambda>c. \<not> is_space c) r1))"

definition match_secret :: "pystr \<Rightarrow> (pystr \<times> pystr) option" where
  "match_secret s =
     Option.bind (match_keyword s) (\<lambda>r.
     map_option (\<lambda>rest. (take (length s - length r) s, rest)) (match_value r))"

lemma match_word_length: "match_word ps s = Some r \<Longrightarrow> length r + length ps = length s"
  by (induction ps s rule: match_word.induct) (auto split: if_splits)

lemma match_keyword_length:
  assumes "match_keyword s = Some r" shows "length r < length s"
  using assms match_word_length [of "tx ''bearer''" s r] match_word_length [of "tx ''password''" s r]
  by (auto simp: match_keyword_def tx_def dest!: match_word_length split: option.splits if_splits)

lemma match_value_length: "match_value r = Some t \<Longrightarrow> length t \<le> length r"
  unfolding match_value_def Let_def
  by (auto split: if_splits intro!: order.trans [OF length_dropWhile_le] simp: diff_le_mono)
    (metis diff_le_self le_trans length_dropWhile_le length_tl)+

lemma match_secret_length: "match_secret s = Some (w, t) \<Longrightarrow> length t < length s"
  by (auto simp: match_secret_def dest!: match_value_length match_keyword_length split: Option.bind_splits)

function redact_text :: "pystr \<Rightarrow> pystr" where
  "redact_text s =
     (case s of
        [] \<Rightarrow> []
      | c # s' \<Rightarrow>
          (case match_secret s of
             Some (word, rest) \<Rightarrow> word @ tx '' [redacted]'' @ redact_text rest
           | None \<Rightarrow> c # redact_text s'))"
  by pat_completeness auto
termination
  by (relation "measure length") (auto dest: match_secret_length)

declare redact_text.simps [simp del]

definition redact :: "pystr option \<Rightarrow> pystr option" where
  "redact v = (case v of Some (c # s) \<Rightarrow> Some (redact_text (c # s)) | x \<Rightarrow> x)"

record client_event =
  ce_event_type :: pystr
  ce_stage :: pystr
  ce_request_id :: "pystr option"
  ce_attempt :: "int option"
  ce_method :: "pystr option"
  ce_path :: "pystr option"
  ce_duration_ms :: "int option"
  ce_status :: "int option"
  ce_code :: "pystr option"
  ce_message :: "pystr option"
  ce_script :: "pystr option"
  ce_line :: "int option"
  ce_route :: pystr
  ce_browser :: pystr
  ce_platform :: pystr
  ce_viewport :: pystr
  ce_online :: bool
  ce_visibility :: pystr

definition opt_max :: "nat \<Rightarrow> pystr option \<Rightarrow> bool" where
  "opt_max n s = (case s of None \<Rightarrow> True | Some x \<Rightarrow> length x \<le> n)"

definition opt_between :: "int \<Rightarrow> int option \<Rightarrow> int option \<Rightarrow> bool" where
  "opt_between lo hi v =
     (case v of None \<Rightarrow> True | Some x \<Rightarrow> lo \<le> x \<and> (case hi of None \<Rightarrow> True | Some h \<Rightarrow> x \<le> h))"

text \<open>\<open>^\d{1,5}x\d{1,5}$\<close>; \<open>is_digit\<close> is the class \<open>\d\<close>, the decimal digits of Unicode.\<close>

definition viewport_ok :: "(nat \<Rightarrow> bool) \<Rightarrow> pystr \<Rightarrow> bool" where
  "viewport_ok is_digit s \<longleftrightarrow>
     (let (w, found, h) = str_partition 120 s in
      found \<and> length_in 1 5 w \<and> length_in 1 5 h \<and> list_all is_digit w \<and> list_all is_digit h)"

definition client_event_ok :: "(nat \<Rightarrow> bool) \<Rightarrow> client_event \<Rightarrow> bool" where
  "client_event_ok is_digit e \<longleftrightarrow>
     ce_event_type e \<in> set (map tx [''api_start'', ''api_success'', ''api_timeout'', ''api_network_error'',
       ''api_http_error'', ''auth_expired'', ''window_error'', ''unhandled_rejection'']) \<and>
     length (ce_stage e) \<le> 60 \<and> opt_max 80 (ce_request_id e) \<and> opt_between 1 (Some 3) (ce_attempt e) \<and>
     opt_max 10 (ce_method e) \<and> opt_max 200 (ce_path e) \<and> opt_between 0 (Some 300000) (ce_duration_ms e) \<and>
     opt_between 0 (Some 599) (ce_status e) \<and> opt_max 80 (ce_code e) \<and> opt_max 200 (ce_message e) \<and>
     opt_max 120 (ce_script e) \<and> opt_between 0 None (ce_line e) \<and> length (ce_route e) \<le> 200 \<and>
     ce_browser e \<in> set (map tx [''chromium'', ''edge'', ''firefox'', ''safari'', ''other'']) \<and>
     ce_platform e \<in> set (map tx [''windows'', ''macos'', ''linux'', ''android'', ''ios'', ''other'']) \<and>
     viewport_ok is_digit (ce_viewport e) \<and>
     ce_visibility e \<in> set (map tx [''hidden'', ''visible'', ''prerender'', ''unloaded''])"

text \<open>\<open>_events\<close>: the times of a member's events of the last minute, oldest first.\<close>

type_synonym event_log = "uuid \<Rightarrow> instant list"

fun pop_old :: "instant \<Rightarrow> instant list \<Rightarrow> instant list" where
  "pop_old cutoff [] = []"
| "pop_old cutoff (t # ts) = (if t < cutoff then pop_old cutoff ts else t # ts)"

datatype event_answer = EventCrash | EventStatus int "pystr option"

text \<open>The second component of an accepted event is the message as logged.\<close>

definition receive_client_event ::
  "(pystr \<Rightarrow> int option) \<Rightarrow> pystr option \<Rightarrow> instant \<Rightarrow> uuid \<Rightarrow> client_event \<Rightarrow> event_log \<Rightarrow> event_answer \<times> event_log" where
  "receive_client_event int_of length_header now member_id payload log =
     (case content_length int_of length_header of
        None \<Rightarrow> (EventCrash, log)
      | Some n \<Rightarrow>
          if n > 8192 then (EventStatus 413 None, log)
          else
            let bucket = pop_old (now - seconds 60) (log member_id) in
            if 120 \<le> length bucket then (EventStatus 429 None, log(member_id := bucket))
            else (EventStatus 204 (redact (ce_message payload)), log(member_id := bucket @ [now])))"

section \<open>The sliding window\<close>

lemma pop_old_sorted: "sorted ts \<Longrightarrow> pop_old cutoff ts = filter (\<lambda>t. cutoff \<le> t) ts"
proof (induction ts)
  case (Cons t ts)
  then show ?case by (cases "t < cutoff") (auto simp: filter_id_conv intro!: filter_True [symmetric])
qed simp

lemma sorted_filter_id: "sorted xs \<Longrightarrow> sorted (filter P xs)"
  using sorted_filter [of "\<lambda>x. x" xs P] by simp

text \<open>The times of a member's accepted events in a sequence of (header, time, member, event).\<close>

fun accepted_events ::
  "(pystr \<Rightarrow> int option) \<Rightarrow> uuid \<Rightarrow> (pystr option \<times> instant \<times> uuid \<times> client_event) list \<Rightarrow> event_log \<Rightarrow> instant list" where
  "accepted_events int_of m [] log = []"
| "accepted_events int_of m ((header, now, member_id, payload) # es) log =
     (case receive_client_event int_of header now member_id payload log of
        (EventStatus s _, log') \<Rightarrow> (if member_id = m \<and> s = 204 then [now] else []) @ accepted_events int_of m es log'
      | (EventCrash, log') \<Rightarrow> accepted_events int_of m es log')"

definition event_time :: "pystr option \<times> instant \<times> uuid \<times> client_event \<Rightarrow> instant" where
  "event_time e = fst (snd e)"

lemma event_time_simp [simp]: "event_time (h, t, m, p) = t"
  by (simp add: event_time_def)

definition in_minute :: "instant \<Rightarrow> instant \<Rightarrow> bool" where
  "in_minute a t \<longleftrightarrow> a \<le> t \<and> t \<le> a + seconds 60"

text \<open>The log of a member holds at least the accepted events from \<open>now - 60 s\<close> on, in order.\<close>

lemma accepted_event_times: "x \<in> set (accepted_events int_of m es log) \<Longrightarrow> x \<in> event_time ` set es"
proof (induction int_of m es log rule: accepted_events.induct)
  case (2 int_of m header now member_id payload es log)
  obtain ans log' where r: "receive_client_event int_of header now member_id payload log = (ans, log')" by fastforce
  with 2(1,2) [OF r [symmetric]] 2(3) show ?case by (cases ans) (auto split: if_splits)
qed simp

text \<open>One event: the log of \<open>m\<close> stays, loses old entries, or loses them and gains an accepted event.\<close>

lemma receive_cases:
  assumes "receive_client_event int_of header now member_id payload log = (ans, log')" and "sorted (log m)"
  obtains (same) "log' m = log m" and "\<not> (member_id = m \<and> (\<exists>x. ans = EventStatus 204 x))"
  | (full) "log' m = filter (\<lambda>x. now - seconds 60 \<le> x) (log m)" and "\<not> (member_id = m \<and> (\<exists>x. ans = EventStatus 204 x))"
  | (accepted) x where "member_id = m" and "ans = EventStatus 204 x"
      and "log' m = filter (\<lambda>x. now - seconds 60 \<le> x) (log m) @ [now]"
      and "length (filter (\<lambda>x. now - seconds 60 \<le> x) (log m)) < 120"
proof (cases "member_id = m")
  case True
  with assms pop_old_sorted [OF assms(2), of "now - seconds 60"] same full accepted show ?thesis
    by (auto simp: receive_client_event_def Let_def split: option.splits if_splits)
next
  case False
  with assms(1) same show ?thesis
    by (auto simp: receive_client_event_def Let_def split: option.splits if_splits)
qed

lemma accepted_events_bound:
  assumes "sorted (map event_time es)" and "list_all (\<lambda>e. t \<le> event_time e) es"
    and "sorted (log m)" and "list_all (\<lambda>x. x \<le> t) (log m)"
    and "length (filter (in_minute a) (log m)) \<le> 120"
  shows "length (filter (in_minute a) (log m)) + length (filter (in_minute a) (accepted_events int_of m es log)) \<le> 120"
  using assms
proof (induction int_of m es log arbitrary: t rule: accepted_events.induct)
  case (2 int_of m header now member_id payload es log)
  have t: "t \<le> now" "sorted (map event_time es)" "list_all (\<lambda>e. now \<le> event_time e) es"
    using "2.prems"(1,2) by (auto simp: list_all_iff)
  have old: "list_all (\<lambda>x. x \<le> now) (log m)" using "2.prems"(4) t(1) by (auto simp: list_all_iff)
  let ?b = "filter (\<lambda>x. now - seconds 60 \<le> x) (log m)"
  obtain ans log' where r: "receive_client_event int_of header now member_id payload log = (ans, log')" by fastforce
  let ?rest = "accepted_events int_of m es log'"
  have head: "accepted_events int_of m ((header, now, member_id, payload) # es) log =
      (if member_id = m \<and> (\<exists>x. ans = EventStatus 204 x) then [now] else []) @ ?rest"
    using r by (auto split: event_answer.splits)
  note IH = "2.IH" [OF r [symmetric]]
  show ?case
  proof (cases "a + seconds 60 < now")
    case True
    have "\<not> in_minute a x" if "x \<in> set (accepted_events int_of m ((header, now, member_id, payload) # es) log)" for x
      using accepted_event_times [OF that] t(3) True by (auto simp: in_minute_def list_all_iff)
    then have "filter (in_minute a) (accepted_events int_of m ((header, now, member_id, payload) # es) log) = []"
      by (simp only: filter_empty_conv) blast
    with "2.prems"(5) show ?thesis by (simp only:) simp
  next
    case False
    have b: "filter (in_minute a) ?b = filter (in_minute a) (log m)"
      using False by (auto simp: in_minute_def intro!: filter_cong)
    have rest: "length (filter (in_minute a) (log' m)) + length (filter (in_minute a) ?rest) \<le> 120"
      if "sorted (log' m)" "list_all (\<lambda>x. x \<le> now) (log' m)" "length (filter (in_minute a) (log' m)) \<le> 120"
      using IH that t(2,3) by (cases ans) auto
    from r "2.prems"(3) show ?thesis
    proof (cases rule: receive_cases)
      case same
      with rest "2.prems"(3,5) old head show ?thesis by simp
    next
      case full
      then have "sorted (log' m)" "list_all (\<lambda>x. x \<le> now) (log' m)"
        using "2.prems"(3) old by (auto simp: sorted_filter_id list_all_iff)
      with rest "2.prems"(5) b full show ?thesis unfolding head by auto
    next
      case (accepted x)
      have s: "sorted (log' m)" "list_all (\<lambda>x. x \<le> now) (log' m)"
        using "2.prems"(3) old accepted(3) by (auto simp: sorted_append sorted_filter_id list_all_iff)
      have "length (filter (in_minute a) ?b) \<le> length ?b" by (rule length_filter_le)
      with accepted(4) have n: "length (filter (in_minute a) (log' m)) \<le> 120" by (simp add: accepted(3))
      from rest [OF s n] b accepted(1-3) show ?thesis unfolding head by (auto split: if_splits)
    qed
  qed
qed simp

text \<open>C40: a member can log at most 120 client events in any minute, whatever is sent and by whom.\<close>

theorem client_events_bounded:
  assumes "sorted (map event_time es)"
  shows "length (filter (in_minute a) (accepted_events int_of m es (\<lambda>_. []))) \<le> 120"
proof (cases es)
  case (Cons e es')
  have "list_all (\<lambda>x. event_time e \<le> event_time x) es" using assms Cons by (auto simp: list_all_iff)
  from accepted_events_bound [OF assms this, of "\<lambda>_. []" m a int_of] show ?thesis by simp
qed simp

theorem client_events_bounded_witness:
  "\<forall>e. length (filter (in_minute 0)
     (accepted_events (\<lambda>s. None) 3 [(None, 5, 3, e), (Some [], 6, 3, e)] (\<lambda>_. []))) \<le> 120"
  by (intro allI client_events_bounded) simp

text \<open>In production the settings leave only the Redis limiter and the Redis lease.\<close>

lemma production_uses_redis:
  "mk_settings un s = Inr s' \<Longrightarrow> is_production un s' \<Longrightarrow> s' = s \<and> \<not> st_allow_in_memory_coordination s'"
  by (auto simp: mk_settings_def bind_result_eq_Inr_iff)

text \<open>\<open>get_member_ai_call_lock\<close> of tasks/router.py asks for both settings, \<open>get_login_rate_limiter\<close> of
  identity/router.py for one. With settings that were accepted the two make the same choice.\<close>

datatype call_lock = InMemoryMemberAiCallLock | MemberAiCallLock

definition get_member_ai_call_lock :: "unicode \<Rightarrow> settings \<Rightarrow> call_lock" where
  "get_member_ai_call_lock un s =
     (if \<not> is_production un s \<and> st_allow_in_memory_coordination s then InMemoryMemberAiCallLock else MemberAiCallLock)"

lemma coordination_is_uniform:
  "mk_settings un s = Inr s' \<Longrightarrow>
   get_member_ai_call_lock un s' = InMemoryMemberAiCallLock \<longleftrightarrow> st_allow_in_memory_coordination s'"
  using production_uses_redis [of un s s'] by (auto simp: get_member_ai_call_lock_def)

end
