(* ===== verification/App_Lifespan.thy ===== *)
theory App_Lifespan
  imports Worker_Progress Service_Edge Demo_System
begin

text \<open>
  The life span of the application (main.py): at the start the lease is chosen and the worker begins
  without jobs; at the end the worker is cancelled, which cancels its jobs (\<open>AiQueueWorker.run\<close>) and waits
  for them. A cancellation reaches a job at any of its awaits. The theory shows what a stop loses: nothing
  but, where a cancellation arrives in a commit no handler covers, the record that an operation ended.
\<close>

section \<open>main.py\<close>




section \<open>Cancelled jobs\<close>













text \<open>A cancellation that arrives after the commit of a success, in the \<open>refresh\<close> that follows it, is not a
  step of the backend. The handler then overwrites the success: the operation counts as cancelled and the
  task goes back, while what the operation stored stays.\<close>

lemma mem_map_if: "x \<in> set xs \<Longrightarrow> P x \<Longrightarrow> g x \<in> set (map (\<lambda>y. if P y then g y else y) xs)"
  by (auto intro: rev_image_eqI)

lemma cancellation_overwrites_success:
  assumes ok: "db_ok d" and op: "find_operation d (run_operation_id r) = Some op" and "o_status op = SUCCEEDED"
    and t: "find_task d (t_id (run_task r)) = Some t"
  shows "fst (finish_cancelled now r d) = FinishRaised CancelledError \<and>
    (\<exists>op' \<in> set (operations (snd (finish_cancelled now r d))). o_id op' = o_id op \<and> o_status op' = CANCELLED) \<and>
    (\<exists>t' \<in> set (tasks (snd (finish_cancelled now r d))). t_id t' = t_id t \<and> t_state t' = o_initial_task_state op) \<and>
    versions (snd (finish_cancelled now r d)) = versions d"
proof -
  let ?f = "fail_operation now cancelled_error CANCELLED" and ?g = "\<lambda>t. t\<lparr>t_state := o_initial_task_state op\<rparr>"
  let ?op = "orm_save (touch_operation now) ?f op" and ?t = "orm_save (touch_task now) ?g t"
  let ?d1 = "save_task now (t_id t) ?g d"
  let ?d = "save_operation now (o_id op) ?f ?d1"
  have "db_ok ?d1" by (rule db_ok_save_task [OF ok]) simp
  then have "db_ok ?d"
    by (rule db_ok_save_operation)
      (auto simp: same_keys_def fail_operation_def cancelled_error_def op_columns_ok_def fits_column_def)
  then have "flush ?d = Inr ?d" by simp
  then have "finish_cancelled now r d = (FinishRaised CancelledError, ?d)"
    using op t by (simp add: finish_cancelled_def record_cancellation_def record_failure_def commit_def del: flush_Inr_iff)
  moreover have "?op \<in> set (operations ?d)" "?t \<in> set (tasks ?d)"
    using find_operation_Some [OF op] find_task_Some [OF t] mem_map_if [of op _ "\<lambda>x. o_id x = o_id op" "orm_save (touch_operation now) ?f"]
      mem_map_if [of t _ "\<lambda>x. t_id x = t_id t" "orm_save (touch_task now) ?g"]
    by (simp_all add: operations_save_operation save_operation_def save_task_def update_where_def)
  moreover have "o_id ?op = o_id op" "o_status ?op = CANCELLED" "t_id ?t = t_id t" "t_state ?t = o_initial_task_state op"
    by (subst orm_save_field; simp add: fail_operation_def cancelled_error_def)+
  moreover have "versions ?d = versions d" by (simp add: save_operation_def save_task_def)
  ultimately show ?thesis unfolding fst_conv snd_conv by (metis fst_conv snd_conv)
qed

section \<open>Stopping\<close>




section \<open>A graceful stop\<close>



end
