(* ===== verification/Task_Lifecycle.thy ===== *)
theory Task_Lifecycle
  imports Demo_System
begin

text \<open>
  The life cycle of a task as the members see it, an abstract state machine over task states, and the
  proof that every step of the backend refines it: a handler, a tick of the worker, a claim, the end of an
  execution, its clean-up and its cancellation move each task along the life cycle or leave it alone. The
  proof carries the invariant that a task has versions exactly from \<open>EDITING\<close> on.
\<close>

section \<open>The life cycle\<close>

text \<open>
  The transitions of \<open>_ALLOWED_TRANSITIONS\<close> and what the other code adds to them: an execution that fails
  puts the task back, a manual edit reopens a finalized task, archiving is left by restoring.
\<close>

fun life_cycle :: "task_state \<Rightarrow> task_state list" where
  "life_cycle DRAFT = [ANALYZING, ARCHIVED]"
| "life_cycle ANALYZING = [DRAFT, ANALYSIS_READY]"
| "life_cycle ANALYSIS_READY = [ANALYZING, SUGGESTING, ARCHIVED]"
| "life_cycle SUGGESTING = [ANALYSIS_READY, SUGGESTIONS_READY]"
| "life_cycle SUGGESTIONS_READY = [SUGGESTING, GENERATING, ARCHIVED]"
| "life_cycle GENERATING = [SUGGESTIONS_READY, EDITING]"
| "life_cycle EDITING = [REVISING, FINALIZED, ARCHIVED]"
| "life_cycle REVISING = [EDITING, FINALIZED]"
| "life_cycle FINALIZED = [REVISING, EDITING, ARCHIVED]"
| "life_cycle ARCHIVED = [DRAFT, ANALYSIS_READY, SUGGESTIONS_READY, EDITING, FINALIZED]"

text \<open>The abstract state: the owner and the state of each task. Tasks are not deleted and keep their
  owner, new ones are drafts.\<close>

type_synonym life = "uuid \<rightharpoonup> uuid \<times> task_state"

definition life_of :: "db \<Rightarrow> life" where
  "life_of d i = map_option (\<lambda>t. (t_owner_id t, t_state t)) (find_task d i)"

definition life_move :: "(uuid \<times> task_state) option \<Rightarrow> (uuid \<times> task_state) option \<Rightarrow> bool" where
  "life_move a b =
     (case a of
        None \<Rightarrow> (case b of None \<Rightarrow> True | Some (m, s) \<Rightarrow> s = DRAFT)
      | Some (m, s) \<Rightarrow>
          (case b of None \<Rightarrow> False | Some (m', s') \<Rightarrow> m' = m \<and> (s' = s \<or> s' \<in> set (life_cycle s))))"

definition life_step :: "life \<Rightarrow> life \<Rightarrow> bool" where
  "life_step a b \<longleftrightarrow> (\<forall>i. life_move (a i) (b i))"

section \<open>Stages\<close>

text \<open>The stage of an archived task is the one it was archived in. From \<open>EDITING\<close> on a task has versions.\<close>

definition late :: "task_state \<Rightarrow> bool" where
  "late s \<longleftrightarrow> s \<in> {EDITING, REVISING, FINALIZED}"

definition stage :: "rewrite_task \<Rightarrow> task_state" where
  "stage t = (if t_state t = ARCHIVED then (case t_archived_from_state t of Some s \<Rightarrow> s | None \<Rightarrow> ARCHIVED)
              else t_state t)"

definition archived_ok :: "rewrite_task \<Rightarrow> bool" where
  "archived_ok t \<longleftrightarrow> (t_state t = ARCHIVED \<longrightarrow>
     (case t_archived_from_state t of None \<Rightarrow> False | Some s \<Rightarrow> resting s \<and> s \<noteq> ARCHIVED))"

abbreviation versioned :: "db \<Rightarrow> uuid set" where
  "versioned d \<equiv> v_task_id ` set (versions d)"

definition stages_ok :: "db \<Rightarrow> bool" where
  "stages_ok d \<longleftrightarrow> list_all (\<lambda>t. archived_ok t \<and> (late (stage t) \<longleftrightarrow> t_id t \<in> versioned d)) (tasks d)"

text \<open>What happens to one task in one step: it walks along the life cycle, it moves with its versions
  unchanged, or a failing execution settles it. Only the last relation is transitive.\<close>

definition walked :: "rewrite_task \<Rightarrow> rewrite_task \<Rightarrow> bool" where
  "walked t t' \<longleftrightarrow> t_id t' = t_id t \<and> t_owner_id t' = t_owner_id t \<and>
     (t_state t' = t_state t \<or> t_state t' \<in> set (life_cycle (t_state t)))"

definition moved :: "rewrite_task \<Rightarrow> rewrite_task \<Rightarrow> bool" where
  "moved t t' \<longleftrightarrow> walked t t' \<and>
     (archived_ok t \<longrightarrow> archived_ok t') \<and> late (stage t') = late (stage t)"

definition settled :: "rewrite_task \<Rightarrow> rewrite_task \<Rightarrow> bool" where
  "settled t t' \<longleftrightarrow> t_id t' = t_id t \<and> t_owner_id t' = t_owner_id t \<and>
     t_archived_from_state t' = t_archived_from_state t \<and>
     (t_state t' = t_state t \<or>
      t_state t \<in> set running_states \<and> t_state t' \<notin> set running_states \<and>
      t_state t' \<in> set (life_cycle (t_state t)) \<and> late (t_state t') = late (t_state t))"

definition tasks_rel :: "(rewrite_task \<Rightarrow> rewrite_task \<Rightarrow> bool) \<Rightarrow> db \<Rightarrow> db \<Rightarrow> bool" where
  "tasks_rel R d d' \<longleftrightarrow> (\<exists>g. tasks d' = map g (tasks d) \<and> (\<forall>t \<in> set (tasks d). R t (g t)))"

lemma running_not_archived: "s \<in> set running_states \<Longrightarrow> s \<noteq> ARCHIVED \<and> ARCHIVED \<notin> set (life_cycle s)"
  by (cases s) (simp_all add: running_states_def)

lemma moved_refl [simp]: "moved t t" and settled_refl [simp]: "settled t t"
  by (simp_all add: walked_def moved_def settled_def)

lemma settled_trans: "settled t t' \<Longrightarrow> settled t' t'' \<Longrightarrow> settled t t''"
  by (auto simp: settled_def)

lemma settled_moved: "settled t t' \<Longrightarrow> moved t t'"
  using running_not_archived [of "t_state t"]
  by (auto simp: settled_def walked_def moved_def archived_ok_def stage_def)

lemma tasks_rel_same: "tasks d' = tasks d \<Longrightarrow> (\<And>t. R t t) \<Longrightarrow> tasks_rel R d d'"
  unfolding tasks_rel_def by (intro exI [of _ id]) simp

lemma tasks_rel_mono: "tasks_rel R d d' \<Longrightarrow> (\<And>t t'. R t t' \<Longrightarrow> S t t') \<Longrightarrow> tasks_rel S d d'"
  unfolding tasks_rel_def by blast

lemma tasks_rel_settled_trans:
  assumes "tasks_rel settled d d'" and "tasks_rel settled d' d''"
  shows "tasks_rel settled d d''"
proof -
  obtain g h where g: "tasks d' = map g (tasks d)" "\<forall>t \<in> set (tasks d). settled t (g t)"
    and h: "tasks d'' = map h (tasks d')" "\<forall>t \<in> set (tasks d'). settled t (h t)"
    using assms unfolding tasks_rel_def by blast
  then show ?thesis unfolding tasks_rel_def by (intro exI [of _ "h \<circ> g"]) (auto intro: settled_trans)
qed

lemma tasks_rel_save:
  assumes "\<And>t. R t t" and "\<And>t. t \<in> set (tasks d) \<Longrightarrow> t_id t = i \<Longrightarrow> R t (orm_save (touch_task now) f t)"
    and "tasks d' = tasks (save_task now i f d)"
  shows "tasks_rel R d d'"
  unfolding tasks_rel_def assms(3) tasks_save_task by (rule exI, rule conjI [OF refl]) (use assms in auto)

lemma find_task_map:
  assumes "tasks d' = map g (tasks d)" and "\<And>t. t \<in> set (tasks d) \<Longrightarrow> t_id (g t) = t_id t"
  shows "find_task d' i = map_option g (find_task d i)"
proof -
  have "find (\<lambda>t. t_id t = i) (map g ts) = map_option g (find (\<lambda>t. t_id t = i) ts)"
    if "\<And>t. t \<in> set ts \<Longrightarrow> t_id (g t) = t_id t" for ts
    using that by (induction ts) auto
  with assms show ?thesis by (simp add: find_task_def)
qed

lemma life_step_walked: "tasks_rel walked d d' \<Longrightarrow> life_step (life_of d) (life_of d')"
  unfolding tasks_rel_def
proof (elim exE conjE)
  fix g assume g: "tasks d' = map g (tasks d)" "\<forall>t \<in> set (tasks d). walked t (g t)"
  have "life_move (life_of d i) (life_of d' i)" for i
    using find_task_map [OF g(1), of i] g(2) find_task_Some [of d i]
    by (cases "find_task d i") (auto simp: life_of_def life_move_def walked_def)
  then show ?thesis by (simp add: life_step_def)
qed

lemma life_step_moved: "tasks_rel moved d d' \<Longrightarrow> life_step (life_of d) (life_of d')"
  by (rule life_step_walked, erule tasks_rel_mono) (simp add: moved_def)

lemma stages_ok_moved:
  assumes "tasks_rel moved d d'" and "versioned d' = versioned d" and "stages_ok d"
  shows "stages_ok d'"
  using assms by (auto simp: tasks_rel_def stages_ok_def list_all_iff walked_def moved_def)

section \<open>Steps that evolve the tasks\<close>

definition evolves :: "db \<Rightarrow> db \<Rightarrow> bool" where
  "evolves d d' \<longleftrightarrow> (stages_ok d \<longrightarrow> life_step (life_of d) (life_of d') \<and> stages_ok d')"

lemma evolves_moved:
  assumes "stages_ok d \<Longrightarrow> tasks_rel moved d d'" and "stages_ok d \<Longrightarrow> versioned d' = versioned d"
  shows "evolves d d'"
  using assms life_step_moved stages_ok_moved unfolding evolves_def by blast

lemma evolves_settled: "tasks_rel settled d d' \<Longrightarrow> versions d' = versions d \<Longrightarrow> evolves d d'"
  by (rule evolves_moved) (auto intro: tasks_rel_mono settled_moved)

lemma evolves_same: "tasks d' = tasks d \<Longrightarrow> versions d' = versions d \<Longrightarrow> evolves d d'"
  by (rule evolves_settled) (auto intro: tasks_rel_same)

lemma evolves_new_task:
  assumes "db_ok d" and "db_ok d'" and tasks: "tasks d' = tasks d @ [t]" and t: "t_state t = DRAFT"
    and versions: "versions d' = versions d"
  shows "evolves d d'"
proof -
  have new: "t_id t \<notin> t_id ` set (tasks d)"
    using db_ok_keys(1) [OF assms(2)] by (simp add: tasks)
  then have unversioned: "t_id t \<notin> versioned d"
    using assms(1) by (fastforce simp: db_ok_def integrity_ok_def references_hold_def list_all_iff list_ex_iff)
  have "stages_ok d'" if "stages_ok d"
    using that t unversioned
    by (auto simp: stages_ok_def tasks versions list_all_iff archived_ok_def stage_def late_def)
  moreover have "find_task d' i = (case find_task d i of None \<Rightarrow> if t_id t = i then Some t else None | Some x \<Rightarrow> Some x)" for i
  proof -
    have "find P (ts @ [t]) = (case find P ts of None \<Rightarrow> if P t then Some t else None | Some x \<Rightarrow> Some x)" for P ts
      by (induction ts) auto
    then show ?thesis by (simp add: find_task_def tasks)
  qed
  then have "life_move (life_of d i) (life_of d' i)" for i
    using t by (simp add: life_of_def life_move_def split: option.splits)
  ultimately show ?thesis by (simp add: evolves_def life_step_def)
qed

lemma op_wf_settles:
  assumes "op_wf op"
  shows "o_initial_task_state op \<in> set (life_cycle (o_running_task_state op)) \<and>
    o_running_task_state op \<in> set (life_cycle (o_initial_task_state op)) \<and>
    late (o_initial_task_state op) = late (o_running_task_state op) \<and>
    o_running_task_state op \<in> set running_states \<and> o_initial_task_state op \<notin> set running_states \<and>
    o_initial_task_state op \<noteq> ARCHIVED"
  using assms
  by (cases "o_kind op"; cases "o_initial_task_state op")
    (auto simp: op_wf_def running_states_def assert_transition_ok_iff late_def)

lemma settled_back:
  assumes "op_wf op" and "t_state t = o_running_task_state op \<or> t_state t' = t_state t"
    and "t_state t' = t_state t \<or> t_state t' = o_initial_task_state op"
    and "t_id t' = t_id t" "t_owner_id t' = t_owner_id t" "t_archived_from_state t' = t_archived_from_state t"
  shows "settled t t'"
  using assms op_wf_settles [OF assms(1)] by (auto simp: settled_def)

lemma release_settles:
  assumes "db_ok d" and "op_wf op"
  shows "tasks_rel settled d (release_task now op d)"
proof -
  obtain g where g: "tasks (release_task now op d) = map g (tasks d)"
    "\<forall>t \<in> set (tasks d). t_id (g t) = t_id t \<and> t_owner_id (g t) = t_owner_id t \<and> t_name (g t) = t_name t \<and>
       t_source_text (g t) = t_source_text t \<and>
       t_archived_from_state (g t) = t_archived_from_state t \<and> t_state (g t) = put_back op t"
    using tasks_release_task [OF assms(1)] by blast
  moreover have "settled t (g t)" if "t \<in> set (tasks d)" for t
    by (rule settled_back [OF assms(2)]) (use g(2) that in \<open>auto simp: put_back_def\<close>)
  ultimately show ?thesis unfolding tasks_rel_def by blast
qed

lemma recover_fold_settles:
  assumes "db_inv d" and "distinct (map o_id ops)" and "\<And>op. op \<in> set ops \<Longrightarrow> op \<in> set (operations d) \<and> active op"
  shows "tasks_rel settled d (fold (recover_one now) ops d)"
  using assms
proof (induction ops arbitrary: d)
  case (Cons op ops)
  have op: "op \<in> set (operations d)" "active op" using Cons.prems(3) by simp_all
  have "r \<in> set (operations (recover_one now op d)) \<and> active r" if "r \<in> set ops" for r
  proof -
    have "o_id r \<noteq> o_id op" using Cons.prems(2) that by (auto simp: rev_image_eqI)
    with Cons.prems(3) that show ?thesis by (simp add: operations_recover_one)
  qed
  with Cons.IH [of "recover_one now op d"] recover_one_inv [OF Cons.prems(1) op] Cons.prems(2)
  have "tasks_rel settled (recover_one now op d) (fold (recover_one now) ops (recover_one now op d))" by simp
  moreover have "tasks_rel settled d (recover_one now op d)"
    using release_settles [of d op now] db_invD(1,2) [OF Cons.prems(1)] op by (simp add: recover_one_release tasks_rel_def)
  ultimately show ?case using tasks_rel_settled_trans by simp
qed (simp add: tasks_rel_same)

lemma recover_settles:
  assumes inv: "db_inv d" and r: "recover_stale_operations m now d = Inr (n, d')"
  shows "tasks_rel settled d d'"
proof -
  let ?stale = "filter (\<lambda>op. o_owner_id op = m \<and> is_stale now op) (operations d)"
  have dist: "distinct (map o_id ?stale)"
    using db_ok_keys(2) [OF db_invD(1) [OF inv]] by (rule distinct_map_filter)
  have "tasks_rel settled d (fold (recover_one now) ?stale d)"
    by (rule recover_fold_settles [OF inv dist]) (simp add: is_stale_def)
  with r show ?thesis
    by (auto simp: recover_stale_operations_def Let_def tasks_rel_same split: if_splits)
qed

lemma recover_owners_settles:
  assumes "db_inv d"
  shows "tasks_rel settled d (snd (recover_owners now jobs owners d))"
  using assms
proof (induction now jobs owners d rule: recover_owners.induct)
  case (2 now jobs owner owners d)
  show ?case
  proof (cases "jobs owner")
    case None
    obtain n d' where d': "recover_stale_operations owner now d = Inr (n, d')" "db_inv d'"
      using recover_stale_inv [OF 2(3), of owner now] by blast
    with 2(2) None recover_settles [OF 2(3) d'(1)] show ?thesis by (auto intro: tasks_rel_settled_trans)
  qed (use 2(1,3) in simp)
qed (simp add: tasks_rel_same)

section \<open>The worker\<close>

lemma versions_recover: "recover_stale_operations m now d = Inr (n, d') \<Longrightarrow> versions d' = versions d"
proof -
  have "versions (fold (recover_one now) ops d) = versions d" for ops d
    by (induction ops arbitrary: d) (simp_all add: recover_one_release)
  then show "recover_stale_operations m now d = Inr (n, d') \<Longrightarrow> versions d' = versions d"
    by (auto simp: recover_stale_operations_def Let_def split: if_splits)
qed

lemma versions_recover_owners: "versions (snd (recover_owners now jobs owners d)) = versions d"
  by (induction now jobs owners d rule: recover_owners.induct) (auto split: sum.splits dest: versions_recover)

lemma tick_evolves: "db_inv d \<Longrightarrow> tick now (d, jobs) = (d', jobs') \<Longrightarrow> evolves d d'"
  using tick_db [of d now jobs d' jobs'] recover_owners_settles versions_recover_owners
  by (auto intro: evolves_settled)

lemma begin_evolves:
  assumes inv: "db_inv d" and wf: "jobs_wf d jobs" and m: "jobs m = Some (JobNew i)"
    and b: "execute_begin env lock now i d = (j, d')"
  shows "evolves d d'"
proof (cases "find_operation d i")
  case (Some op)
  note op = find_operation_Some [OF Some]
  have free: "\<And>x. x \<in> set (running_ops d) \<Longrightarrow> o_owner_id x \<noteq> o_owner_id op"
    using no_running [OF wf m] jobs_wfD(1) [OF wf m] op by simp
  have "evolves d d'" if rm: "run_method env lock now op p d = (j, d')" "submission_kind p = o_kind op" for p
    using run_method_cases [OF rm(1) free rm(2), simplified]
  proof (elim disjE exE conjE)
    fix r assume "claimed_from now (o_id op) (o_owner_id op) (o_task_id op) (o_kind op) r d d'"
    then obtain x t where x: "x \<in> set (operations d)" "o_id x = o_id op" and t: "t \<in> set (tasks d)"
      "t_id t = o_task_id op" "t_state t = o_running_task_state x"
      and d': "d' = save_task now (o_task_id op) (\<lambda>t. t\<lparr>t_state := running_state (o_kind op)\<rparr>) (claim_update now (o_id op) d)"
      unfolding claimed_from_def by blast
    have "x = op" using operation_eq [OF db_invD(1) [OF inv] x(1) _ x(2)] op by simp
    then have "t_state t = running_state (o_kind op)" using t(3) db_invD(2) [OF inv] op by (simp add: op_wf_def)
    moreover have "y = t" if "y \<in> set (tasks d)" "t_id y = o_task_id op" for y
      using task_eq [OF db_invD(1) [OF inv] that(1) t(1)] that(2) t(2) by simp
    ultimately have "tasks_rel settled d d'"
      by (intro tasks_rel_save [where i = "o_task_id op" and now = now and f = "\<lambda>t. t\<lparr>t_state := running_state (o_kind op)\<rparr>"])
        (auto simp: settled_def d' tasks_save_task claim_update_def)
    then show ?thesis by (rule evolves_settled) (simp add: d' claim_update_def save_task_def)
  qed (auto intro: evolves_same)
  with b Some show ?thesis
    by (auto simp: execute_begin_def evolves_same split: if_splits option.splits dest: validate_submission_kind)
qed (use b in \<open>auto simp: execute_begin_def evolves_same\<close>)

lemma running_task_state:
  assumes inv: "db_inv d" and op: "op \<in> set (running_ops d)" and t: "t \<in> set (tasks d)" "t_id t = o_task_id op"
  shows "t_state t = o_running_task_state op"
  using db_invD(6) [OF inv] op t unfolding running_wf_def by blast

lemma failed_evolves:
  assumes inv: "db_inv d" and op: "op \<in> set (running_ops d)"
  shows "evolves d (failed_db now op e st d)"
proof (rule evolves_settled)
  have "op_wf op" using db_invD(2) [OF inv] op by (simp add: in_running_ops)
  then show "tasks_rel settled d (failed_db now op e st d)"
    using running_task_state [OF inv op]
    by (intro tasks_rel_save [where i = "o_task_id op" and now = now and f = "\<lambda>t. t\<lparr>t_state := o_initial_task_state op\<rparr>"])
      (auto simp: failed_db_def intro!: settled_back)
qed (simp add: failed_db_def save_task_def save_operation_def)

lemma persist_versions:
  assumes "persist fresh now r res d = Inr (x, d1)" and "result_well (run_prepared r) res"
  shows "versioned d1 = (if prepared_kind (run_prepared r) \<in> {FIRST_DRAFT, REVISION}
    then insert (t_id (run_task r)) (versioned d) else versioned d)"
  using assms
  by (auto simp: persist_def persist_analysis_def persist_suggestions_def persist_version_def Let_def result_well_def
      bind_result_eq_Inr_iff map_ok_Inr version_record_def prepared_kind_def split: service_result.splits prepared.splits)

lemma succeeded_evolves:
  assumes inv: "db_inv d" and op: "op \<in> set (running_ops d)" "o_task_id op = t_id (run_task r)"
    "o_kind op = prepared_kind (run_prepared r)"
    and res: "result_well (run_prepared r) res" and d1: "persist fresh now r res d = Inr (x, d1)"
  shows "evolves d (succeeded_db now op res rt rid d1)"
proof -
  let ?k = "o_kind op" and ?d = "succeeded_db now op res rt rid d1"
  let ?g = "\<lambda>t. if t_id t = o_task_id op then orm_save (touch_task now) (\<lambda>t. t\<lparr>t_state := completed_state ?k\<rparr>) t else t"
  have tasks: "tasks ?d = map ?g (tasks d)"
    using res persist_frame [OF d1] op(3) by (simp add: succeeded_db_def tasks_save_task result_well_def)
  have vs: "versioned ?d = (if ?k \<in> {FIRST_DRAFT, REVISION} then insert (o_task_id op) (versioned d) else versioned d)"
    using persist_versions [OF d1 res] op(2,3) by (simp add: succeeded_db_def save_task_def save_operation_def)
  have run: "t_state t = running_state ?k" if "t \<in> set (tasks d)" "t_id t = o_task_id op" for t
    using running_task_state [OF inv op(1) that] db_invD(2) [OF inv, of op] op(1) by (simp add: in_running_ops op_wf_def)
  have k: "completed_state ?k \<in> set (life_cycle (running_state ?k))" "completed_state ?k \<noteq> ARCHIVED"
    "running_state ?k \<noteq> ARCHIVED" "late (completed_state ?k) \<longleftrightarrow> ?k \<in> {FIRST_DRAFT, REVISION}"
    "late (running_state ?k) \<longrightarrow> ?k \<in> {FIRST_DRAFT, REVISION}"
    by (cases ?k; simp add: late_def)+
  have "tasks_rel walked d ?d"
    unfolding tasks_rel_def by (rule exI [of _ ?g]) (use tasks run k in \<open>auto simp: walked_def\<close>)
  moreover have "archived_ok (?g t) \<and> (late (stage (?g t)) \<longleftrightarrow> t_id (?g t) \<in> versioned ?d)"
    if "stages_ok d" "t \<in> set (tasks d)" for t
    using that run [of t] k unfolding vs
    by (auto simp: stages_ok_def list_all_iff archived_ok_def stage_def)
  then have "stages_ok ?d" if "stages_ok d"
    using that unfolding stages_ok_def [of ?d] tasks list_all_iff set_map
    by (intro ballI, elim imageE) (simp only: simp_thms)
  ultimately show ?thesis using life_step_walked by (simp add: evolves_def)
qed

lemma end_evolves:
  assumes inv: "db_inv d" and ok: "run_ok d m r" and e: "execute_end env fresh now r d = (j, d')"
  shows "evolves d d'"
proof -
  obtain op where op: "op \<in> set (running_ops d)" "o_id op = run_operation_id r" "o_task_id op = t_id (run_task r)"
    "o_kind op = prepared_kind (run_prepared r)"
    using run_ok_op [OF inv ok] by metis
  have d': "d' = snd (execute_finish env fresh now r d)"
    using e by (auto simp: execute_end_def split: prod.splits finish.splits)
  from execute_finish_cases [OF inv op(1-3), of env fresh now] show ?thesis
  proof (elim disjE exE conjE)
    fix op' res rt rid d1
    assume "invoke env r = Inr res" "persist fresh now r res d = Inr ((rt, rid), d1)"
      "execute_finish env fresh now r d = (FinishReturned op', succeeded_db now op res rt rid d1)"
    then show ?thesis using succeeded_evolves [OF inv op(1,3,4) invoke_Inr] d' by simp
  next
    assume "finish_fails now op d (execute_finish env fresh now r d)"
    then show ?thesis using failed_evolves [OF inv op(1)] d' by (auto simp: finish_fails_def)
  qed
qed

lemma cleanup_evolves:
  assumes "db_inv d"
  shows "evolves d (execute_cleanup now i e d)"
proof -
  have one: "tasks_rel settled d (reset_task now op d)" if "op \<in> set (operations d)" for op
    unfolding tasks_rel_def tasks_reset_task
    by (rule exI, rule conjI [OF refl]) (auto intro!: settled_back [OF db_invD(2) [OF assms that]])
  have "tasks_rel settled d (cleanup_changes now i e d)"
    using one find_operation_Some [of d i]
    by (auto simp: cleanup_changes_def Let_def tasks_rel_def split: option.splits intro: exI [of _ id])
  then have "evolves d (cleanup_changes now i e d)"
    by (rule evolves_settled) (auto simp: cleanup_changes_def reset_task_def Let_def split: option.splits)
  then show ?thesis
    by (auto simp: execute_cleanup_def flush_def evolves_same)
qed

lemma cancel_waiting_evolves:
  assumes inv: "db_inv d" and wf: "jobs_wf d jobs" and m: "jobs m = Some j" and c: "cancel_waiting now j d = (j', d')"
  shows "evolves d d'"
proof (cases "\<exists>r. j = JobRunning r")
  case True
  then obtain r where r: "j = JobRunning r" by blast
  obtain op t where op: "op \<in> set (running_ops d)" "find_operation d (run_operation_id r) = Some op"
    "o_id op = run_operation_id r" "o_task_id op = t_id (run_task r)" "find_task d (t_id (run_task r)) = Some t"
    using run_ok_op [OF inv jobs_wfD(2) [OF wf m [unfolded r]]] by metis
  have "d' = snd (finish_cancelled now r d)" using c r by (simp add: cancel_waiting_def)
  then obtain e st where "d' = failed_db now op e st d"
    using finish_failures(4) [OF inv op, of now] unfolding finish_fails_def by (metis snd_conv)
  then show ?thesis using failed_evolves [OF inv op(1)] by simp
next
  case False
  with c show ?thesis by (cases j) (auto simp: cancel_waiting_def evolves_same)
qed

section \<open>The handlers\<close>

lemma saved_moves:
  assumes "tasks d' = tasks (save_task now i f d)" and "db_ok d" and "t \<in> set (tasks d)" and "t_id t = i"
    and "moved t (orm_save (touch_task now) f t)"
  shows "tasks_rel moved d d'"
  by (rule tasks_rel_save [OF _ _ assms(1)]) (use assms(3-5) task_eq [OF assms(2)] in auto)

lemma submit_evolves:
  assumes s: "submit i now t m p key rid d = Inr (op, d')" and inv: "db_inv d" and t: "t \<in> set (tasks d)"
  shows "evolves d d'"
  using submit_Inr [OF s db_invD(1) [OF inv] t]
proof (elim disjE conjE)
  assume q: "queued_in now p t op d d'"
  let ?s = "running_state (submission_kind p)"
  have s: "?s \<in> set (life_cycle (t_state t))" "t_state t \<noteq> ARCHIVED" "?s \<noteq> ARCHIVED" "late ?s = late (t_state t)"
    using q by (cases "submission_kind p"; cases "t_state t"; simp add: queued_in_def assert_transition_ok_iff late_def)+
  have "tasks_rel moved d d'"
  proof (rule saved_moves [OF _ db_invD(1) [OF inv] t refl])
    show "tasks d' = tasks (save_task now (t_id t) (\<lambda>r. r\<lparr>t_state := o_running_task_state op\<rparr>) d)"
      using queued_in_tasks [OF q] by (simp add: tasks_save_task)
    show "moved t (orm_save (touch_task now) (\<lambda>r. r\<lparr>t_state := o_running_task_state op\<rparr>) t)"
      using s q by (simp add: queued_in_def moved_def walked_def archived_ok_def stage_def)
  qed
  moreover have "versions d' = versions d" using q by (auto simp: queued_in_def enqueue_def save_task_def)
  ultimately show ?thesis by (intro evolves_moved) simp_all
qed (simp add: evolves_same)

lemma resting_late: "resting s \<Longrightarrow> s \<noteq> ARCHIVED \<Longrightarrow> s \<in> set (life_cycle ARCHIVED)"
  by (cases s) (simp_all add: resting_def running_states_def)

lemma idle_state:
  assumes inv: "db_inv d" and "assert_no_active_ai i d = Inr ()" and "t \<in> set (tasks d)" and "t_id t = i"
  shows "resting (t_state t)"
  using no_active_resting [OF inv assms(3)] assms(2,4) by (simp add: assert_no_active_ai_Inr)

lemma versioned_editable:
  assumes inv: "db_inv d" and ok: "stages_ok d" and "assert_no_active_ai i d = Inr ()" and t: "t \<in> set (tasks d)" "t_id t = i"
    and v: "v \<in> set (versions d)" "v_task_id v = i" and "t_state t \<noteq> ARCHIVED"
  shows "t_state t \<in> {EDITING, FINALIZED}"
proof -
  have "t_id t \<in> versioned d" using t(2) v by (auto intro: rev_image_eqI)
  then have "late (stage t)" using ok t(1) by (simp add: stages_ok_def list_all_iff)
  with idle_state [OF inv assms(3) t] assms(8) show ?thesis
    by (auto simp: stage_def late_def resting_def running_states_def)
qed

lemma archive_evolves:
  assumes u: "archive_task now m i d = Inr (r, d')" and inv: "db_inv d"
  shows "evolves d d'"
proof -
  from u obtain t where t: "t \<in> set (tasks d)" "t_id t = i" and idle: "assert_no_active_ai i d = Inr ()"
    and d': "d' = save_task now i (\<lambda>t'. t'\<lparr>t_state := sn_state (archive (snapshot_of t)),
        t_archived_from_state := sn_archived_from_state (archive (snapshot_of t))\<rparr>) d"
    by (auto simp: archive_task_def store_snapshot_def Let_def bind_result_eq_Inr_iff dest!: owned_task_Inr)
  have a: "ARCHIVED \<in> set (life_cycle (t_state t))" if "t_state t \<noteq> ARCHIVED"
    using idle_state [OF inv idle t] that by (cases "t_state t") (simp_all add: resting_def running_states_def)
  show ?thesis
  proof (rule evolves_moved)
    show "tasks_rel moved d d'"
      by (rule saved_moves [OF arg_cong [where f = tasks, OF d'] db_invD(1) [OF inv] t])
        (use a idle_state [OF inv idle t] in
          \<open>auto simp: archive_def snapshot_of_def moved_def walked_def archived_ok_def stage_def\<close>)
  qed (simp add: d' save_task_def)
qed

lemma restore_evolves:
  assumes u: "restore_task now m i d = Inr (r, d')" and inv: "db_inv d"
  shows "evolves d d'"
proof -
  from u obtain t s where t: "t \<in> set (tasks d)" "t_id t = i" and s: "restore (snapshot_of t) = Inr s"
    and d': "d' = save_task now i (\<lambda>t'. t'\<lparr>t_state := sn_state s, t_archived_from_state := sn_archived_from_state s\<rparr>) d"
    by (auto simp: restore_task_def store_snapshot_def Let_def bind_result_eq_Inr_iff dest!: owned_task_Inr)
  from s obtain p where p: "t_state t = ARCHIVED" "t_archived_from_state t = Some p" "sn_state s = p" "sn_archived_from_state s = None"
    by (auto simp: restore_def snapshot_of_def split: option.splits bool.splits)
  show ?thesis
  proof (rule evolves_moved)
    assume "stages_ok d"
    then have "resting p \<and> p \<noteq> ARCHIVED" using t p(1,2) by (auto simp: stages_ok_def list_all_iff archived_ok_def)
    then show "tasks_rel moved d d'"
      by (intro saved_moves [OF arg_cong [where f = tasks, OF d'] db_invD(1) [OF inv] t])
        (use p resting_late [of p] in \<open>auto simp: moved_def walked_def archived_ok_def stage_def\<close>)
  qed (simp add: d' save_task_def)
qed

lemma manual_edit_evolves:
  assumes u: "create_manual_edit i now m k vid me d = Inr (v, d')" and inv: "db_inv d"
  shows "evolves d d'"
proof -
  from u obtain t p where t: "t \<in> set (tasks d)" "t_id t = k" "t_state t \<noteq> ARCHIVED" and p: "p \<in> set (versions d)" "v_task_id p = k"
    and idle: "assert_no_active_ai k d = Inr ()" and v: "v = manual_version i now k p me"
    and d': "d' = save_task now k (\<lambda>t. t\<lparr>t_state := EDITING\<rparr>) (d\<lparr>versions := versions d @ [v]\<rparr>)"
    by (auto simp: create_manual_edit_def Let_def bind_result_eq_Inr_iff dest!: owned_task_Inr owned_version_Inr)
  show ?thesis
  proof (rule evolves_moved)
    assume ok: "stages_ok d"
    show "tasks_rel moved d d'"
      by (rule saved_moves [where f = "\<lambda>t. t\<lparr>t_state := EDITING\<rparr>" and now = now, OF _ db_invD(1) [OF inv] t(1,2)])
        (use versioned_editable [OF inv ok idle t(1,2) p t(3)] in
          \<open>auto simp: d' tasks_save_task moved_def walked_def archived_ok_def stage_def late_def\<close>)
    show "versioned d' = versioned d" using p by (force simp: d' save_task_def v manual_version_def)
  qed
qed

lemma finalize_evolves:
  assumes u: "finalize_version aware now m k vid d = Inr (v, d')" and inv: "db_inv d"
  shows "evolves d d'"
proof -
  let ?f = "\<lambda>t. t\<lparr>t_state := FINALIZED, t_finalized_at := Some now\<rparr>"
  from u obtain t p where t: "t \<in> set (tasks d)" "t_id t = k" "t_state t \<noteq> ARCHIVED" and p: "p \<in> set (versions d)" "v_task_id p = k"
    and idle: "assert_no_active_ai k d = Inr ()"
    and d': "d' = save_task now k ?f (d\<lparr>versions := set_final now k (v_id p) (versions d)\<rparr>)"
    by (auto simp: finalize_version_def bind_result_eq_Inr_iff dest!: owned_task_Inr owned_version_Inr)
  show ?thesis
  proof (rule evolves_moved)
    assume ok: "stages_ok d"
    show "tasks_rel moved d d'"
      by (rule saved_moves [where f = ?f and now = now, OF _ db_invD(1) [OF inv] t(1,2)])
        (use versioned_editable [OF inv ok idle t(1,2) p t(3)] in
          \<open>auto simp: d' tasks_save_task moved_def walked_def archived_ok_def stage_def late_def\<close>)
    have "map v_task_id (set_final now k (v_id p) (versions d)) = map v_task_id (versions d)"
      by (simp add: set_final_def update_where_def)
    then have "set (map v_task_id (versions d')) = set (map v_task_id (versions d))" by (simp only: d') (simp add: save_task_def)
    then show "versioned d' = versioned d" by simp
  qed
qed

lemma update_task_evolves:
  assumes u: "update_task now m i tu d = Inr (r, d')" and inv: "db_inv d"
  shows "evolves d d'"
proof -
  from u obtain t where t: "t \<in> set (tasks d)" and up: "repo_update_draft now t tu d = Inr (r, d')"
    by (auto simp: update_task_def bind_result_eq_Inr_iff dest!: owned_task_Inr)
  note r = repo_update_draft_Inr [OF up]
  have "settled t r" using r by (simp add: settled_def)
  then have "settled y (if t_id y = t_id t then r else y)" if "y \<in> set (tasks d)" for y
    using task_eq [OF db_invD(1) [OF inv] that t] by (cases "t_id y = t_id t") simp_all
  moreover have "tasks d' = map (\<lambda>y. if t_id y = t_id t then r else y) (tasks d)" using r by (simp add: update_where_def)
  ultimately have "tasks_rel settled d d'"
    unfolding tasks_rel_def by (intro exI [of _ "\<lambda>y. if t_id y = t_id t then r else y"]) simp
  moreover have "versions d' = versions d" using r by simp
  ultimately show ?thesis by (rule evolves_settled)
qed

lemma same_tasks:
  "create_preset i now m pc d = Inr (r1, d') \<Longrightarrow> tasks d' = tasks d \<and> versions d' = versions d"
  "update_preset now m i pu d = Inr (r1, d') \<Longrightarrow> tasks d' = tasks d \<and> versions d' = versions d"
  "delete_preset m i d = Inr (u, d') \<Longrightarrow> tasks d' = tasks d \<and> versions d' = versions d"
  "clear_ai_operation_history m d = Inr (u, d') \<Longrightarrow> tasks d' = tasks d \<and> versions d' = versions d"
  "update_analysis now m k i cor d = Inr (a, d') \<Longrightarrow> tasks d' = tasks d \<and> versions d' = versions d"
  "update_suggestion now m k i su d = Inr (s, d') \<Longrightarrow> tasks d' = tasks d \<and> versions d' = versions d"
  "create_lock i now m k vid lc d = Inr (l, d') \<Longrightarrow> tasks d' = tasks d \<and> versions d' = versions d"
  "delete_lock m k i d = Inr (u, d') \<Longrightarrow> tasks d' = tasks d \<and> versions d' = versions d"
  by (auto simp: router_defs preset_create_row_def replace_settings_def preset_delete_def
      clear_ai_operation_history_def clear_completed_def Let_def bind_result_eq_Inr_iff split: option.splits if_splits)

lemma new_task_evolves:
  assumes "db_ok d"
  shows "create_task i now m c d = Inr (t, d') \<Longrightarrow> evolves d d'"
    and "copy_task i now m k d = Inr (t, d') \<Longrightarrow> evolves d d'"
  using evolves_new_task [OF assms, of d' t]
  by (auto simp: create_task_def repo_create_def copy_task_def repo_copy_def add_task_def new_task_def Let_def
      bind_result_eq_Inr_iff split: option.splits)

lemma cancel_evolves:
  assumes c: "cancel now m i d = Inr (op', d')" and inv: "db_inv d"
  shows "evolves d d'"
proof -
  obtain op where op: "op \<in> set (operations d)" and d': "d' = release_task now op (d\<lparr>operations :=
      map (\<lambda>r. if o_id r = i \<and> o_status r = QUEUED then cancel_row now r else r) (operations d)\<rparr>)"
    using cancel_Inr [OF c db_invD(1) [OF inv]] by blast
  have "release_task now op (d\<lparr>operations := ops\<rparr>) = (release_task now op d)\<lparr>operations := ops\<rparr>" for ops
    by (simp add: release_task_def find_task_def save_task_def split: option.splits)
  then have "tasks d' = tasks (release_task now op d)" and "versions d' = versions d" by (simp_all add: d')
  with release_settles [OF db_invD(1,2) [OF inv], OF op, of now] show ?thesis
    by (intro evolves_settled) (simp_all add: tasks_rel_def)
qed

lemma http_evolves:
  assumes h: "http now fresh d d'" and inv: "db_inv d"
  shows "evolves d d'"
  using h
proof cases
  case (http_create_task i m c t)
  with new_task_evolves(1) [OF db_invD(1) [OF inv]] show ?thesis by blast
next
  case (http_update_task m i tu t)
  with update_task_evolves inv show ?thesis by blast
next
  case (http_copy_task i m s t)
  with new_task_evolves(2) [OF db_invD(1) [OF inv]] show ?thesis by blast
next
  case (http_archive_task m i t)
  with archive_evolves inv show ?thesis by blast
next
  case (http_restore_task m i t)
  with restore_evolves inv show ?thesis by blast
next
  case (http_submit i m tid sub key rid op)
  then show ?thesis
    using submit_evolves [OF _ inv] by (auto simp: submit_operation_eq bind_result_eq_Inr_iff dest!: owned_task_Inr)
next
  case (http_retry i m o' key op)
  then show ?thesis
    using submit_evolves [OF _ inv]
    by (auto simp: retry_ai_operation_def retry_def bind_result_eq_Inr_iff split: if_splits dest!: find_task_Some)
next
  case (http_cancel m i op)
  with cancel_evolves [of now m i d op d'] inv show ?thesis by (simp add: cancel_ai_operation_def)
next
  case (http_manual_edit i m tid vid me v)
  with manual_edit_evolves inv show ?thesis by blast
next
  case (http_finalize aware m tid vid v)
  with finalize_evolves inv show ?thesis by blast
qed (auto intro: evolves_same dest!: same_tasks)

section \<open>Every step\<close>

lemma step_evolves:
  assumes st: "step env s s'" and inv: "sys_inv s"
  shows "evolves (sys_db s) (sys_db s')"
  using st
proof cases
  case (step_http now jobs d d' clock)
  with http_evolves [OF step_http(3)] inv show ?thesis by (simp add: sys_inv_def)
next
  case (step_identity ps ms d jobs clock)
  then show ?thesis by (simp add: evolves_same)
next
  case (step_tick now d jobs d' jobs' clock)
  with tick_evolves [OF _ step_tick(3)] inv show ?thesis by (simp add: sys_inv_def)
next
  case (step_begin jobs m i lock now d j d' clock)
  with begin_evolves [of d jobs m i env lock now j d'] inv show ?thesis by (simp add: sys_inv_def)
next
  case (step_end jobs m r fresh now d j d' clock)
  with end_evolves [of d m r env fresh now j d'] jobs_wfD(2) [of d jobs m r] inv show ?thesis by (simp add: sys_inv_def)
next
  case (step_cleanup jobs m i e now d d' clock)
  with cleanup_evolves [of d now i e] inv show ?thesis by (simp add: sys_inv_def)
next
  case (step_cancel_job jobs m j now d j' d' clock)
  with cancel_waiting_evolves [of d jobs m j now j' d'] inv show ?thesis by (simp add: sys_inv_def)
next
  case (step_lose_job jobs m j clock now d)
  then show ?thesis by (simp add: evolves_same)
next
  case (step_crash d jobs clock)
  then show ?thesis by (simp add: evolves_same)
qed

definition stage_inv :: "system \<Rightarrow> bool" where
  "stage_inv s \<longleftrightarrow> sys_inv s \<and> stages_ok (sys_db s)"

lemma stage_inv_init: "init s \<Longrightarrow> stage_inv s"
  using sys_inv_init by (simp add: stage_inv_def stages_ok_def init_def)

lemma stage_inv_step: "step env s s' \<Longrightarrow> stage_inv s \<Longrightarrow> stage_inv s'"
  using step_evolves sys_inv_step by (auto simp: stage_inv_def evolves_def)

interpretation stages: transition_system init "step env" stage_inv for env
  by unfold_locales (auto intro: stage_inv_init stage_inv_step)

text \<open>C6: every step of the backend, whoever takes it, refines the life cycle of tasks: each task stays as
  it is or moves along the life cycle, keeps its owner and is never deleted, and a new task is a draft.
  The steps are all handlers, the ticks of the worker, claims, ends and clean-ups of executions,
  cancellations and crashes. (A cancellation by the stopping application that arrives when a success has
  just been committed is not a step; see \<open>cancellation_overwrites_success\<close> of App\_Lifespan.)\<close>

theorem steps_refine_life_cycle:
  assumes "init s0" and "(step env)\<^sup>*\<^sup>* s0 s" and "step env s s'"
  shows "life_step (life_of (sys_db s)) (life_of (sys_db s'))"
  using stages.reachable_inv [OF assms(1,2)] step_evolves [OF assms(3)] by (simp add: stage_inv_def evolves_def)

theorem steps_refine_life_cycle_witness:
  "life_step (life_of demo_empty) (life_of demo_created)"
  using steps_refine_life_cycle [OF demo_init_ok rtranclp.rtrancl_refl
    step_http [OF demo_http_create, of 0 demo_env, folded demo_init_def]]
  by (simp add: demo_init_def)

text \<open>C7: in every reachable state a task has versions exactly from \<open>EDITING\<close> on: when it is being edited,
  revised or is finalized, or is archived and was in one of these states. An archived task always knows
  the state to restore, and no execution was under way in it. (As for C6, without cancellations that arrive
  when a success has just been committed.)\<close>

theorem versions_from_editing_on:
  assumes "init s0" and "(step env)\<^sup>*\<^sup>* s0 s" and "t \<in> set (tasks (sys_db s))"
  shows "(list_ex (\<lambda>v. v_task_id v = t_id t) (versions (sys_db s)) \<longleftrightarrow>
      t_state t \<in> {EDITING, REVISING, FINALIZED} \<or>
      t_state t = ARCHIVED \<and> t_archived_from_state t \<in> {Some EDITING, Some FINALIZED}) \<and>
    (t_state t = ARCHIVED \<longrightarrow>
      t_archived_from_state t \<in> Some ` {DRAFT, ANALYSIS_READY, SUGGESTIONS_READY, EDITING, FINALIZED})"
proof -
  have a: "archived_ok t" and v: "late (stage t) \<longleftrightarrow> list_ex (\<lambda>v. v_task_id v = t_id t) (versions (sys_db s))"
    using stages.reachable_inv [OF assms(1,2)] assms(3)
    by (simp_all add: stage_inv_def stages_ok_def list_all_iff list_ex_iff image_iff eq_commute)
  have "t_archived_from_state t \<in> Some ` {DRAFT, ANALYSIS_READY, SUGGESTIONS_READY, EDITING, FINALIZED}"
    if "t_state t = ARCHIVED"
    using a that resting_late by (auto simp: archived_ok_def split: option.splits)
  with v show ?thesis
    by (cases "t_state t = ARCHIVED") (auto simp: stage_def late_def)
qed

theorem versions_from_editing_on_witness:
  "\<not> list_ex (\<lambda>v. v_task_id v = 10) (versions (sys_db demo_sys))"
  using versions_from_editing_on [OF demo_init_ok demo_reachable, of "hd (tasks demo_running)"]
  by (simp add: demo_sys_def demo_defs)

end
