(* ===== verification/Identity_Guarantees.thy ===== *)
theory Identity_Guarantees
  imports Identity_Service Ai_System
begin

text \<open>
  What the identity module guarantees: an administrator is always left, access tokens last twelve hours,
  passwords and provider settings behave as stored, members cannot touch each other's settings, and
  every operation is an identity step of the backend of Ai\_System.
\<close>

section \<open>Steps of the identity module\<close>

text \<open>One rule per operation that changes the database. \<open>update_member\<close> writes with a member and an actor
  loaded at an earlier time; identifiers and roles of members never change.\<close>

definition loaded_before :: "member \<Rightarrow> db \<Rightarrow> bool" where
  "loaded_before m d \<longleftrightarrow> list_ex (\<lambda>r. m_id r = m_id m \<and> m_role r = m_role m) (members d)"

inductive identity_step :: "identity_env \<Rightarrow> db \<Rightarrow> db \<Rightarrow> bool" for env where
  id_change_password: "change_password env now salt m cur new d = Inr (r, d') \<Longrightarrow> identity_step env d d'"
| id_create_member: "create_member env i now salt actor data d = Inr (r, d') \<Longrightarrow> identity_step env d d'"
| id_update_member: "update_member_write now actor loaded u d = Inr (r, d') \<Longrightarrow> loaded_before loaded d \<Longrightarrow>
    identity_step env d d'"
| id_put_provider: "put_provider_setting env i now iv m data d = Inr (p, d') \<Longrightarrow> identity_step env d d'"
| id_patch_provider: "patch_provider_timeout env now m t d = Inr (p', d') \<Longrightarrow> identity_step env d d'"
| id_delete_provider: "delete_provider_setting m d = Inr (r, d') \<Longrightarrow> identity_step env d d'"
| id_bootstrap: "bootstrap_first_admin env i now salt n dn pw d = Inr (b, d') \<Longrightarrow> db_ok d \<Longrightarrow> identity_step env d d'"

lemmas identity_op_defs = change_password_def create_member_def update_member_write_def put_provider_setting_def
  patch_provider_timeout_def delete_provider_setting_def bootstrap_first_admin_def add_member_def save_member_def
  insert_provider_setting_def save_provider_setting_def remove_provider_setting_def bind_result_eq_Inr_iff Let_def

text \<open>What an operation leaves alone.\<close>

lemma identity_step_frame:
  assumes "identity_step env d d'"
  shows "db_ok d' \<and> d' = d\<lparr>members := members d', provider_settings := provider_settings d'\<rparr>"
  using assms
  by cases (auto simp: identity_op_defs split: if_splits option.splits)

section \<open>The last administrator\<close>

definition has_active_admin :: "db \<Rightarrow> bool" where
  "has_active_admin d \<longleftrightarrow> list_ex active_admin (members d)"

lemma admin_stays:
  assumes "m \<in> set (members d)" and "active_admin (if p m then f m else m)"
    and "members d' = update_where p f (members d)"
  shows "has_active_admin d'"
proof -
  have "(if p m then f m else m) \<in> set (members d')"
    unfolding assms(3) set_update_where using assms(1) by (rule bexI [rotated]) (rule refl)
  with assms(2) show ?thesis unfolding has_active_admin_def list_ex_iff by (rule bexI)
qed

lemma write_member_keeps:
  assumes "changed (mu_is_active u) (m_is_active loaded) \<noteq> Some False" and "active_admin m"
  shows "active_admin (write_member now loaded u m)"
  using assms by (auto simp: write_member_def active_admin_def split: option.splits)

lemma write_member_id [simp]: "m_id (write_member now loaded u m) = m_id m"
  by (simp add: write_member_def split: option.splits)

lemma two_admins:
  assumes "distinct (map m_id rows)" and "\<not> length (filter active_admin rows) \<le> 1"
  shows "\<exists>m \<in> set rows. active_admin m \<and> m_id m \<noteq> i"
proof (rule ccontr)
  assume "\<not> ?thesis"
  then have "set (map m_id (filter active_admin rows)) \<subseteq> {i}" by auto
  then have "card (set (map m_id (filter active_admin rows))) \<le> 1" using card_mono [of "{i}"] by auto
  moreover have "distinct (map m_id (filter active_admin rows))" using assms(1) by (rule distinct_map_filter)
  ultimately show False using assms(2) distinct_card by fastforce
qed

lemma update_member_keeps_admin:
  assumes "update_member_write now actor loaded u d = Inr (r, d')" and "loaded_before loaded d"
    and "has_active_admin d"
  shows "has_active_admin d'"
proof -
  have d': "members d' = update_where (\<lambda>m. m_id m = m_id loaded) (write_member now loaded u) (members d)"
    and ok: "db_ok d'"
    and guard: "disabling_active_admin loaded u \<Longrightarrow> \<not> length (lock_active_admins d) \<le> 1"
    using assms(1) by (auto simp: update_member_write_def bind_result_eq_Inr_iff split: if_splits)
  have "map m_id (members d') = map m_id (members d)" unfolding d' by (rule map_update_where) simp
  then have dist: "distinct (map m_id (members d))"
    using ok by (simp add: db_ok_def integrity_ok_def unique_keys_def)
  show ?thesis
  proof (cases "changed (mu_is_active u) (m_is_active loaded) = Some False")
    case False
    from assms(3) obtain m where "m \<in> set (members d)" "active_admin m"
      unfolding has_active_admin_def list_ex_iff by blast
    with admin_stays [OF this(1) _ d'] write_member_keeps [OF False] show ?thesis by simp
  next
    case True
    then have off: "mu_is_active u = Some (Some False)" "m_is_active loaded"
      by (auto simp: changed_def split: option.splits if_splits)
    have "\<exists>m \<in> set (members d). active_admin m \<and> m_id m \<noteq> m_id loaded"
    proof (cases "m_role loaded = ADMIN")
      case True
      with off guard two_admins [OF dist] show ?thesis
        by (simp add: disabling_active_admin_def active_admin_def lock_active_admins_def)
    next
      case False
      obtain r where "r \<in> set (members d)" "m_id r = m_id loaded" "m_role r = m_role loaded"
        using assms(2) unfolding loaded_before_def list_ex_iff by blast
      with False distinct_key_eq [OF dist this(1)] assms(3) show ?thesis
        unfolding has_active_admin_def list_ex_iff active_admin_def by metis
    qed
    with admin_stays [OF _ _ d'] show ?thesis by force
  qed
qed

lemma identity_step_keeps_admin:
  assumes "identity_step env d d'" and "has_active_admin d"
  shows "has_active_admin d'"
  using assms(1)
proof cases
  case (id_change_password now salt m cur new r)
  then have d': "members d' = update_where (\<lambda>r. m_id r = m_id m)
      (orm_save (\<lambda>m. m\<lparr>m_updated_at := now\<rparr>) (\<lambda>m. m\<lparr>m_password_hash := password_hash env salt new\<rparr>)) (members d)"
    by (auto simp: change_password_def save_member_def split: if_splits)
  from assms(2) obtain a where "a \<in> set (members d)" "active_admin a"
    unfolding has_active_admin_def list_ex_iff by blast
  with admin_stays [OF this(1) _ d'] show ?thesis by (simp add: active_admin_def orm_save_def)
next
  case (id_create_member i now salt actor data r)
  with assms(2) show ?thesis by (auto simp: identity_op_defs has_active_admin_def split: if_splits)
next
  case (id_update_member now actor loaded u r)
  with update_member_keeps_admin assms(2) show ?thesis by blast
next
  case (id_put_provider i now iv m data p)
  with assms(2) show ?thesis by (auto simp: identity_op_defs has_active_admin_def split: option.splits)
next
  case (id_patch_provider now m t p')
  with assms(2) show ?thesis by (auto simp: identity_op_defs has_active_admin_def)
next
  case (id_delete_provider m r)
  with assms(2) show ?thesis by (auto simp: identity_op_defs has_active_admin_def)
next
  case (id_bootstrap i now salt n dn pw b)
  with assms(2) show ?thesis by (auto simp: identity_op_defs has_active_admin_def split: option.splits if_splits)
qed

interpretation identity: transition_system has_active_admin "identity_step env" has_active_admin for env
  by unfold_locales (auto intro: identity_step_keeps_admin)

section \<open>What is relied on of the libraries\<close>

text \<open>A token is decoded to what was encoded from \<open>iat\<close> until \<open>exp\<close>; a hash verifies the password it was made
  of and no other; decryption inverts encryption.\<close>

definition token_payload :: "pystr \<Rightarrow> int \<Rightarrow> int \<Rightarrow> (pystr \<times> json) list" where
  "token_payload sub iat exp = [(tx ''sub'', JStr sub), (tx ''iat'', JInt iat), (tx ''exp'', JInt exp)]"

definition jwt_lawful :: "identity_env \<Rightarrow> bool" where
  "jwt_lawful env \<longleftrightarrow> (\<forall>t sub iat exp. seconds iat \<le> t \<longrightarrow>
     ie_jwt_decode env t (ie_jwt_encode env (token_payload sub iat exp)) =
       (if t < seconds exp then Some (token_payload sub iat exp) else None))"

definition passwords_lawful :: "identity_env \<Rightarrow> bool" where
  "passwords_lawful env \<longleftrightarrow> (\<forall>salt p q. ie_verify env p (ie_hash env salt q) \<longleftrightarrow> p = q)"

definition cipher_lawful :: "identity_env \<Rightarrow> bool" where
  "cipher_lawful env \<longleftrightarrow> (\<forall>iv v. ie_decrypt env (ie_encrypt env iv v) = Some v)"

definition demo_identity :: identity_env where
  "demo_identity =
     \<lparr>ie_hash = (\<lambda>salt p. p), ie_verify = (\<lambda>p h. p = h), ie_encrypt = (\<lambda>iv v. iv # v),
      ie_decrypt = (\<lambda>v. case v of [] \<Rightarrow> None | _ # w \<Rightarrow> Some w),
      ie_jwt_encode = (\<lambda>ms. case ms of [(_, JStr s), (_, JInt a), (_, JInt e)] \<Rightarrow>
          [nat a, nat (- a), nat e, nat (- e)] @ s | _ \<Rightarrow> []),
      ie_jwt_decode = (\<lambda>t v. case v of
          a # a' # e # e' # s \<Rightarrow>
            if t < seconds (int e - int e') then Some (token_payload s (int a - int a') (int e - int e')) else None
        | _ \<Rightarrow> None),
      ie_unicode = ascii_unicode, ie_getaddrinfo = demo_names, ie_production = True\<rparr>"

lemma demo_lawful: "jwt_lawful demo_identity" "passwords_lawful demo_identity" "cipher_lawful demo_identity"
  by (auto simp: jwt_lawful_def passwords_lawful_def cipher_lawful_def demo_identity_def token_payload_def)

definition demo_account :: "uuid \<Rightarrow> string \<Rightarrow> member_role \<Rightarrow> member" where
  "demo_account i name role =
     \<lparr>m_id = i, m_username = tx name, m_display_name = tx name, m_password_hash = tx ''secret-1'', m_role = role,
      m_is_active = True, m_created_at = 0, m_updated_at = 0\<rparr>"

definition demo_members :: db where
  "demo_members =
     \<lparr>members = [demo_account 1 ''alice'' ADMIN, demo_account 2 ''bob'' ADMIN, demo_account 3 ''carol'' MEMBER],
      provider_settings = [], tasks = [], presets = [], analyses = [], suggestions = [], versions = [], locks = [],
      operations = []\<rparr>"

lemmas db_ok_eval = db_ok_def columns_ok_def integrity_ok_def unique_keys_def checks_hold_def references_hold_def

lemma demo_members_ok: "db_ok demo_members"
  by (simp add: demo_members_def db_ok_eval demo_account_def tx_def)

section \<open>Administrators\<close>

text \<open>C27: once there is an active administrator there always is one: whatever members, administrators and
  concurrent updates with stale reads do, the identity module never disables the last one.\<close>

theorem administrator_never_lost:
  assumes "has_active_admin d" and "(identity_step env)\<^sup>*\<^sup>* d d'"
  shows "has_active_admin d'"
  using identity.reachable_inv [OF assms] .

definition disable :: member_update where
  "disable = \<lparr>mu_display_name = None, mu_is_active = Some (Some False)\<rparr>"

definition demo_disabled :: db where
  "demo_disabled = demo_members\<lparr>members := [demo_account 1 ''alice'' ADMIN,
     (demo_account 2 ''bob'' ADMIN)\<lparr>m_is_active := False, m_updated_at := 5\<rparr>, demo_account 3 ''carol'' MEMBER]\<rparr>"

lemma demo_disable:
  "update_member_write 5 (demo_account 1 ''alice'' ADMIN) (demo_account 2 ''bob'' ADMIN) disable demo_members =
     Inr ((demo_account 2 ''bob'' ADMIN)\<lparr>m_is_active := False, m_updated_at := 5\<rparr>, demo_disabled)"
  by (simp add: update_member_write_def disabling_active_admin_def active_admin_def demo_account_def disable_def
      lock_active_admins_def demo_members_def demo_disabled_def has_null_def write_member_def changed_def flush_def
      db_ok_eval tx_def get_member_def)

lemma demo_disable_step: "identity_step demo_identity demo_members demo_disabled"
  by (rule id_update_member [OF demo_disable]) (simp add: loaded_before_def demo_members_def demo_account_def)

theorem administrator_never_lost_witness:
  "\<not> active_admin (members demo_disabled ! 1) \<and> has_active_admin demo_disabled"
  using administrator_never_lost [OF _ r_into_rtranclp [where r = "identity_step demo_identity", OF demo_disable_step]]
  by (simp add: has_active_admin_def demo_members_def active_admin_def demo_account_def demo_disabled_def)

text \<open>C28: every operation of the identity module is an identity step of the backend, so the guarantees for
  its reachable states hold with this module running beside the others.\<close>

theorem identity_operations_refine_backend_step:
  assumes "identity_step env d d'"
  shows "step op_env \<lparr>sys_db = d, sys_jobs = jobs, sys_clock = clock\<rparr> \<lparr>sys_db = d', sys_jobs = jobs, sys_clock = clock\<rparr>"
proof -
  have "db_ok (d\<lparr>members := members d', provider_settings := provider_settings d'\<rparr>)"
    "d' = d\<lparr>members := members d', provider_settings := provider_settings d'\<rparr>"
    using identity_step_frame [OF assms] by simp_all
  with step.step_identity [OF this(1), of op_env jobs clock] show ?thesis by simp
qed

theorem identity_operations_refine_backend_step_witness:
  "\<exists>op_env. step op_env \<lparr>sys_db = demo_members, sys_jobs = Map.empty, sys_clock = 5\<rparr>
     \<lparr>sys_db = demo_disabled, sys_jobs = Map.empty, sys_clock = 5\<rparr>"
  using identity_operations_refine_backend_step [OF demo_disable_step] by blast

text \<open>C36: the first administrator is created at most once: a successful bootstrap on accounts without an
  administrator leaves exactly one, active and with the given name, and repeating it with any
  arguments changes nothing.\<close>

theorem bootstrap_creates_one_administrator:
  assumes "bootstrap_first_admin env i now salt name display pw d = Inr (r, d')" and "br_status r = BOOTSTRAP_CREATED"
  shows "\<not> list_ex (\<lambda>m. m_role m = ADMIN) (members d) \<and>
    map m_username (filter (\<lambda>m. m_role m = ADMIN) (members d')) = [name] \<and> has_active_admin d' \<and>
    (case bootstrap_first_admin env i2 now2 salt2 name2 display2 pw2 d' of Inl _ \<Rightarrow> True | Inr (_, d2) \<Rightarrow> d2 = d')"
proof -
  let ?p = "\<lparr>mc_username = name, mc_display_name = display, mc_password = pw, mc_role = ADMIN\<rparr>"
  have none: "\<not> list_ex (\<lambda>m. m_role m = ADMIN) (members d)"
    and d': "members d' = members d @ [new_member i now (password_hash env salt pw) ?p]"
    using assms by (auto simp: bootstrap_first_admin_def mk_member_create_def bind_result_eq_Inr_iff
        split: option.splits if_splits)
  have "filter (\<lambda>m. m_role m = ADMIN) (members d) = []" using none by (auto simp: list_ex_iff filter_empty_conv)
  moreover have adm: "list_ex (\<lambda>m. m_role m = ADMIN) (members d')" by (simp add: d' new_member_def)
  moreover have "case bootstrap_first_admin env i2 now2 salt2 name2 display2 pw2 d' of Inl _ \<Rightarrow> True | Inr (_, d2) \<Rightarrow> d2 = d'"
    using adm by (auto simp: bootstrap_first_admin_def mk_member_create_def split: option.splits sum.splits)
  ultimately show ?thesis using none
    by (simp add: d' new_member_def has_active_admin_def active_admin_def)
qed

definition demo_root :: db where
  "demo_root = demo_members\<lparr>members := [demo_account 3 ''carol'' MEMBER,
     \<lparr>m_id = 9, m_username = tx ''root'', m_display_name = tx ''Root'', m_password_hash = tx ''long-password'',
      m_role = ADMIN, m_is_active = True, m_created_at = 3, m_updated_at = 3\<rparr>]\<rparr>"

lemma demo_bootstrap:
  "bootstrap_first_admin demo_identity 9 3 0 (tx ''root'') (tx ''Root'') (tx ''long-password'')
     (demo_members\<lparr>members := [demo_account 3 ''carol'' MEMBER]\<rparr>) =
   Inr (\<lparr>br_status = BOOTSTRAP_CREATED, br_username = tx ''root'', br_is_active = True\<rparr>, demo_root)"
  by (simp add: bootstrap_first_admin_def mk_member_create_def length_in_def is_username_char_def is_ascii_alpha_def
      get_member_by_username_def demo_members_def demo_account_def tx_def new_member_def password_hash_def
      demo_identity_def demo_root_def db_ok_eval)

theorem bootstrap_creates_one_administrator_witness:
  "map m_username (filter (\<lambda>m. m_role m = ADMIN) (members demo_root)) = [tx ''root''] \<and> has_active_admin demo_root"
  using bootstrap_creates_one_administrator [OF demo_bootstrap] by simp

section \<open>Sessions and passwords\<close>

text \<open>C34: a login gives a token for the member that works for twelve hours, as long as the account is
  active, and is refused from the second on at which it expires.\<close>

theorem login_token_lasts_twelve_hours:
  assumes "jwt_lawful env" and "authenticate env now name pw d = Inr (token, m)" and "now \<le> t"
    and "get_member (m_id m) d' = Some m'"
  shows "authenticated_member env t token d' =
    (if seconds ((now + seconds 43200) div 1000000) \<le> t
     then Inl (identity_error ''invalid_token'' ''Invalid or expired access token'' 401)
     else if m_is_active m' then Inr m'
     else Inl (identity_error ''member_disabled'' ''Member account is disabled'' 403))"
proof -
  have token: "token = ie_jwt_encode env
      (token_payload (uuid_str (m_id m)) (now div 1000000) ((now + seconds 43200) div 1000000))"
    using assms(2) by (auto simp: authenticate_def Let_def token_issue_def token_payload_def token_lifetime_def
        split: option.splits if_splits)
  have "seconds (now div 1000000) \<le> now" by (simp add: seconds_def)
  then have "ie_jwt_decode env t token = (if t < seconds ((now + seconds 43200) div 1000000)
      then Some (token_payload (uuid_str (m_id m)) (now div 1000000) ((now + seconds 43200) div 1000000)) else None)"
    using assms(1,3) unfolding jwt_lawful_def token by auto
  then show ?thesis using assms(4)
    by (auto simp: authenticated_member_def token_decode_def token_payload_def jget_def)
qed

theorem login_token_lasts_twelve_hours_witness:
  "authenticated_member demo_identity (seconds 43199) (token_issue demo_identity 7 3) demo_members =
     Inr (demo_account 3 ''carol'' MEMBER)"
proof -
  have "authenticate demo_identity 7 (tx ''carol '') (tx ''secret-1'') demo_members =
      Inr (token_issue demo_identity 7 3, demo_account 3 ''carol'' MEMBER)"
    by (simp add: authenticate_def Let_def get_member_by_username_def demo_members_def demo_account_def
        strip_def lstrip_def rstrip_def tx_def is_space_def password_verify_def demo_identity_def)
  from login_token_lasts_twelve_hours [OF demo_lawful(1) this, of "seconds 43199" demo_members "demo_account 3 ''carol'' MEMBER"]
  show ?thesis by (simp add: seconds_def get_member_def demo_members_def demo_account_def)
qed

text \<open>C35: after a member changed the password, the new one logs in and every other one is refused; for
  other members nothing changes.\<close>

theorem change_password_takes_effect:
  assumes "passwords_lawful env" and "db_ok d" and "get_member_by_username (strip name) d = Some m" and "m_is_active m"
    and "change_password env now salt m cur new d = Inr (r, d')"
  shows "(\<exists>m'. m_id m' = m_id m \<and> authenticate env t name pw d' =
      (if pw = new then Inr (token_issue env t (m_id m), m') else Inl invalid_credentials)) \<and>
    (strip other \<noteq> strip name \<longrightarrow> authenticate env t other pw d' = authenticate env t other pw d)"
proof -
  let ?f = "orm_save (\<lambda>m. m\<lparr>m_updated_at := now\<rparr>) (\<lambda>m. m\<lparr>m_password_hash := password_hash env salt new\<rparr>)"
  let ?g = "\<lambda>r. if m_id r = m_id m then ?f r else r"
  have d': "members d' = map ?g (members d)"
    using assms(5) by (auto simp: change_password_def save_member_def update_where_def split: if_splits)
  have u: "m_username (?g r) = m_username r" "m_id (?g r) = m_id r" "m_is_active (?g r) = m_is_active r" for r
    by (simp_all add: orm_save_def)
  have f: "get_member_by_username n d' = map_option ?g (get_member_by_username n d)" for n
    unfolding get_member_by_username_def d' by (rule find_map_same) (simp only: u(1))
  have m: "m \<in> set (members d)" "m_username m = strip name"
    using find_Some_mem [OF assms(3) [unfolded get_member_by_username_def]] by simp_all
  have h: "m_password_hash (?g m) = password_hash env salt new" by (simp add: orm_save_field [of m_password_hash])
  have A: "authenticate env t name pw d' =
      (if pw = new then Inr (token_issue env t (m_id m), ?g m) else Inl invalid_credentials)"
    using assms(1,4) f [of "strip name"] assms(3) h u [of m]
    by (simp add: authenticate_def Let_def passwords_lawful_def password_verify_def password_hash_def)
  have B: "authenticate env t other pw d' = authenticate env t other pw d" if "strip other \<noteq> strip name"
  proof (cases "get_member_by_username (strip other) d")
    case None
    with f show ?thesis by (simp add: authenticate_def)
  next
    case (Some x)
    then have "x \<in> set (members d)" "m_username x = strip other"
      using find_Some_mem [of _ "members d"] unfolding get_member_by_username_def by auto
    moreover have "distinct (map m_id (members d))" using assms(2) by (simp add: db_ok_eval)
    ultimately have "m_id x \<noteq> m_id m" using distinct_key_eq [of m_id "members d" x m] m that by metis
    with f [of "strip other"] Some show ?thesis by (simp add: authenticate_def)
  qed
  show ?thesis using u(2) [of m] A B by (intro conjI impI exI [of _ "?g m"])
qed

theorem change_password_takes_effect_witness:
  "\<exists>d'. change_password demo_identity 9 0 (demo_account 3 ''carol'' MEMBER) (tx ''secret-1'') (tx ''secret-2'') demo_members =
      Inr ((), d') \<and>
    authenticate demo_identity 10 (tx ''carol'') (tx ''secret-1'') d' = Inl invalid_credentials"
proof -
  let ?d = "demo_members\<lparr>members := [demo_account 1 ''alice'' ADMIN, demo_account 2 ''bob'' ADMIN,
     (demo_account 3 ''carol'' MEMBER)\<lparr>m_password_hash := tx ''secret-2'', m_updated_at := 9\<rparr>]\<rparr>"
  have c: "change_password demo_identity 9 0 (demo_account 3 ''carol'' MEMBER) (tx ''secret-1'') (tx ''secret-2'') demo_members =
      Inr ((), ?d)"
    by (simp add: change_password_def password_verify_def demo_identity_def demo_account_def save_member_def demo_members_def
        orm_save_def password_hash_def db_ok_eval tx_def)
  have n: "strip (tx ''carol'') = tx ''carol''" by (simp add: strip_def lstrip_def rstrip_def tx_def is_space_def)
  have g: "get_member_by_username (strip (tx ''carol'')) demo_members = Some (demo_account 3 ''carol'' MEMBER)"
    unfolding n by (simp add: get_member_by_username_def demo_members_def demo_account_def)
  have "tx ''secret-1'' \<noteq> tx ''secret-2''" by simp
  with change_password_takes_effect [OF demo_lawful(2) demo_members_ok g _ c, of 10 "tx ''secret-1''"] c
  show ?thesis by (auto simp: demo_account_def)
qed

section \<open>Provider settings\<close>

text \<open>What a successful PUT stores.\<close>

lemma put_provider_setting_stores:
  assumes "put_provider_setting env i now iv member data d = Inr (p, d')"
  obtains s url where "validate_provider_url (ie_unicode env) (ie_getaddrinfo env) (ie_production env) (psw_base_url data) = Inr url"
    and "find_provider_setting member d' = Some s" and "ps_member_id s = member"
    and "ps_encrypted_api_key s = ie_encrypt env iv (psw_api_key data)" and "ps_base_url s = url"
    and "ps_model_id s = psw_model_id data" and "ps_timeout_seconds s = psw_timeout_seconds data"
    and "p = provider_public s (psw_api_key data)"
    and "filter (\<lambda>s. ps_member_id s \<noteq> member) (provider_settings d') = filter (\<lambda>s. ps_member_id s \<noteq> member) (provider_settings d)"
proof -
  let ?key = "cipher_encrypt env iv (psw_api_key data)"
  from assms obtain url where url: "validate_provider_url (ie_unicode env) (ie_getaddrinfo env) (ie_production env)
      (psw_base_url data) = Inr url"
    by (auto simp: put_provider_setting_def bind_result_eq_Inr_iff validated_provider_url_def)
  let ?f = "\<lambda>s. s\<lparr>ps_encrypted_api_key := ?key, ps_base_url := url, ps_model_id := psw_model_id data,
                   ps_timeout_seconds := psw_timeout_seconds data\<rparr>"
  show ?thesis
  proof (cases "find_provider_setting member d")
    case None
    with assms url that show ?thesis
      by (auto simp: put_provider_setting_def bind_result_eq_Inr_iff validated_provider_url_def Let_def stored_public_def
          insert_provider_setting_def find_provider_setting_def find_append cipher_encrypt_def)
  next
    case (Some s)
    let ?g = "\<lambda>r. if ps_id r = ps_id s then orm_save (\<lambda>s. s\<lparr>ps_updated_at := now\<rparr>) ?f r else r"
    have d': "provider_settings d' = map ?g (provider_settings d)" and ok: "db_ok d'"
      using assms url Some
      by (auto simp: put_provider_setting_def bind_result_eq_Inr_iff validated_provider_url_def Let_def
          save_provider_setting_def update_where_def)
    have m: "ps_member_id (?g r) = ps_member_id r" "ps_id (?g r) = ps_id r" for r by (simp_all add: orm_save_def)
    have f: "find_provider_setting member d' = Some (?g s)"
      unfolding find_provider_setting_def d'
      by (subst find_map_same) (use Some in \<open>simp_all add: m(1) find_provider_setting_def del: if_distrib\<close>)
    have s: "s \<in> set (provider_settings d)" "ps_member_id s = member"
      using find_Some_mem [OF Some [unfolded find_provider_setting_def]] by simp_all
    have "map ps_id (provider_settings d') = map ps_id (provider_settings d)" unfolding d' by (simp add: m(2) del: if_distrib)
    then have dist: "distinct (map ps_id (provider_settings d))" using ok by (simp add: db_ok_eval)
    have "ps_id r \<noteq> ps_id s" if "r \<in> set (provider_settings d)" "ps_member_id r \<noteq> member" for r
      using distinct_key_eq [OF dist that(1) s(1)] that(2) s(2) by blast
    then have rest: "filter (\<lambda>s. ps_member_id s \<noteq> member) (provider_settings d') = filter (\<lambda>s. ps_member_id s \<noteq> member) (provider_settings d)"
      unfolding d' using s by (auto simp: filter_map comp_def m(1) intro!: map_idI simp del: if_distrib)
    have p: "p = provider_public (?g s) (psw_api_key data)"
      using assms url Some f
      by (auto simp: put_provider_setting_def bind_result_eq_Inr_iff validated_provider_url_def Let_def stored_public_def)
    show ?thesis by (rule that [OF url f _ _ _ _ _ p rest]) (simp_all add: s cipher_encrypt_def
        orm_save_field [of ps_member_id] orm_save_field [of ps_encrypted_api_key] orm_save_field [of ps_base_url]
        orm_save_field [of ps_model_id] orm_save_field [of ps_timeout_seconds])
  qed
qed

text \<open>C29: connection settings a member saved are the ones an AI operation uses: key, normalized URL, model and
  time limit come back from the database as given, and reading them shows the masked key only.\<close>

theorem saved_provider_setting_is_used:
  assumes "cipher_lawful env"
    and "oe_decrypt op_env = ie_decrypt env" and "oe_url_ok op_env = absolute_http_url (ie_unicode env)"
    and "oe_url_policy op_env =
      (\<lambda>u. case validate_provider_url (ie_unicode env) (ie_getaddrinfo env) (ie_production env) u of Inl _ \<Rightarrow> None | Inr v \<Rightarrow> Some v)"
    and "mk_provider_setting_write (ie_unicode env) key url model time_limit = Inr data"
    and "put_provider_setting env i now iv member data d = Inr (p, d')"
  shows "provider_context op_env member d' =
      Inr (\<lparr>pc_api_key = strip key, pc_base_url = normalize_url url, pc_timeout_seconds = psw_timeout_seconds data\<rparr>, strip model) \<and>
    get_provider_setting env member d' = Inr p \<and> pp_api_key_masked p = mask (strip key)"
proof -
  obtain s u where put: "validate_provider_url (ie_unicode env) (ie_getaddrinfo env) (ie_production env) (psw_base_url data) = Inr u"
    "find_provider_setting member d' = Some s" "ps_encrypted_api_key s = ie_encrypt env iv (psw_api_key data)"
    "ps_base_url s = u" "ps_model_id s = psw_model_id data" "ps_timeout_seconds s = psw_timeout_seconds data"
    "p = provider_public s (psw_api_key data)"
    using put_provider_setting_stores [OF assms(6)] by metis
  have data: "psw_api_key data = strip key" "psw_model_id data = strip model" "timeout_ok (psw_timeout_seconds data)"
    and st: "validate_provider_base_url_structure (ie_unicode env) False url = Inr (psw_base_url data)"
    using assms(5) by (auto simp: mk_provider_setting_write_def bind_result_eq_Inr_iff Let_def stripped_str_def split: if_splits)
  have u: "u = normalize_url url"
    using validate_accepts [OF put(1)] structure_normal [of _ _ "psw_base_url data" u] structure_normal [OF st] by metis
  have ok: "validate_provider_url (ie_unicode env) (ie_getaddrinfo env) (ie_production env) u = Inr u" "rstrip_char 47 u = u"
    "absolute_http_url (ie_unicode env) u"
    using accepted_again [OF put(1)] by simp_all
  have dec: "ie_decrypt env (ps_encrypted_api_key s) = Some (strip key)"
    using assms(1) put(3) data(1) by (simp add: cipher_lawful_def)
  have "find (\<lambda>s. ps_member_id s = member) (provider_settings d') = Some s"
    using put(2) by (simp add: find_provider_setting_def)
  then have "provider_context op_env member d' =
      Inr (\<lparr>pc_api_key = strip key, pc_base_url = u, pc_timeout_seconds = psw_timeout_seconds data\<rparr>, strip model)"
    using data ok dec put assms(2-4)
    by (simp add: provider_context_def mk_provider_config_def timeout_ok_def MIN_RESPONSE_TIMEOUT_SECONDS_def)
  then show ?thesis using u put(2,7) dec data(1)
    by (simp add: get_provider_setting_def cipher_decrypt_def provider_public_def)
qed

lemma structure_relax:
  assumes "validate_provider_base_url_structure un True v = Inr u"
  shows "validate_provider_base_url_structure un False v = Inr u"
proof -
  have n: "u = normalize_url v" using structure_normal [OF assms] by blast
  obtain parsed where p: "urlsplit un u = Some parsed" "us_scheme parsed = tx ''https''"
    using structure_parsed [OF assms] by blast
  from assms show ?thesis
    by (simp only: validate_provider_base_url_structure_def Let_def n [symmetric] p of_option_simps(2) bind_result_simps simp_thms)
qed

definition demo_write :: provider_setting_write where
  "demo_write = \<lparr>psw_api_key = tx ''sk-test'', psw_base_url = tx ''https://API.openai.com/v1'', psw_model_id = tx ''gpt'',
     psw_timeout_seconds = 240\<rparr>"

lemma demo_write_ok:
  "mk_provider_setting_write (ie_unicode demo_identity) (tx ''sk-test '') (tx '' https://API.openai.com/v1/ '') (tx ''gpt'') None = Inr demo_write"
proof -
  have st: "validate_provider_base_url_structure ascii_unicode False (tx '' https://API.openai.com/v1/ '') = Inr (tx ''https://API.openai.com/v1'')"
    by (rule structure_relax, rule validate_accepts [OF demo_accepted])
  have "strip (tx ''sk-test '') = tx ''sk-test''" "strip (tx ''gpt'') = tx ''gpt''"
    by (simp_all add: strip_def lstrip_def rstrip_def tx_def is_space_def)
  then show ?thesis using st
    by (simp add: mk_provider_setting_write_def demo_write_def demo_identity_def length_in_def stripped_str_def timeout_ok_def
        DEFAULT_RESPONSE_TIMEOUT_SECONDS_def MIN_RESPONSE_TIMEOUT_SECONDS_def MAX_RESPONSE_TIMEOUT_SECONDS_def
        tx_def [of "''gpt''"] tx_def [of "''sk-test''"])
qed

definition demo_saved :: db where
  "demo_saved = demo_members\<lparr>provider_settings := [\<lparr>ps_id = 20, ps_member_id = 3, ps_encrypted_api_key = 4 # tx ''sk-test'',
     ps_base_url = tx ''https://API.openai.com/v1'', ps_model_id = tx ''gpt'', ps_timeout_seconds = 240,
     ps_created_at = 9, ps_updated_at = 9\<rparr>]\<rparr>"

lemma demo_put:
  "\<exists>p. put_provider_setting demo_identity 20 9 4 3 demo_write demo_members = Inr (p, demo_saved)"
proof -
  have "validate_provider_url ascii_unicode demo_names True (tx ''https://API.openai.com/v1'') = Inr (tx ''https://API.openai.com/v1'')"
    using accepted_again [OF demo_accepted] by blast
  then show ?thesis
    by (simp add: put_provider_setting_def validated_provider_url_def demo_identity_def demo_write_def Let_def
        find_provider_setting_def demo_members_def demo_saved_def insert_provider_setting_def cipher_encrypt_def stored_public_def
        flush_def db_ok_eval demo_account_def tx_def)
qed

theorem saved_provider_setting_is_used_witness:
  "\<forall>ai. provider_context
     \<lparr>oe_ai = ai, oe_decrypt = ie_decrypt demo_identity,
      oe_url_policy = (\<lambda>u. case validate_provider_url ascii_unicode demo_names True u of Inl _ \<Rightarrow> None | Inr v \<Rightarrow> Some v),
      oe_url_ok = absolute_http_url ascii_unicode\<rparr> 3 demo_saved =
     Inr (\<lparr>pc_api_key = tx ''sk-test'', pc_base_url = tx ''https://API.openai.com/v1'', pc_timeout_seconds = 240\<rparr>, tx ''gpt'')"
proof
  fix ai
  obtain p where "put_provider_setting demo_identity 20 9 4 3 demo_write demo_members = Inr (p, demo_saved)"
    using demo_put by blast
  note T = saved_provider_setting_is_used [OF demo_lawful(3) _ _ _ demo_write_ok this, of "\<lparr>oe_ai = ai, oe_decrypt = ie_decrypt demo_identity,
      oe_url_policy = (\<lambda>u. case validate_provider_url ascii_unicode demo_names True u of Inl _ \<Rightarrow> None | Inr v \<Rightarrow> Some v),
      oe_url_ok = absolute_http_url ascii_unicode\<rparr>"]
  have "strip (tx ''sk-test '') = tx ''sk-test''" "strip (tx ''gpt'') = tx ''gpt''"
    by (simp_all add: strip_def lstrip_def rstrip_def tx_def is_space_def)
  moreover have "normalize_url (tx '' https://API.openai.com/v1/ '') = tx ''https://API.openai.com/v1''"
    by (rule validate_accepts [OF demo_accepted]) (drule structure_normal, simp)
  moreover have "psw_timeout_seconds demo_write = 240" by (simp add: demo_write_def)
  ultimately show "provider_context \<lparr>oe_ai = ai, oe_decrypt = ie_decrypt demo_identity,
      oe_url_policy = (\<lambda>u. case validate_provider_url ascii_unicode demo_names True u of Inl _ \<Rightarrow> None | Inr v \<Rightarrow> Some v),
      oe_url_ok = absolute_http_url ascii_unicode\<rparr> 3 demo_saved =
     Inr (\<lparr>pc_api_key = tx ''sk-test'', pc_base_url = tx ''https://API.openai.com/v1'', pc_timeout_seconds = 240\<rparr>, tx ''gpt'')"
    using T by (simp add: demo_identity_def)
qed

text \<open>C30: a member's requests on provider settings act on that member's row only: whatever the token's owner
  saves, changes or deletes, the settings of all others and the accounts stay as they are.\<close>

theorem provider_settings_isolated:
  assumes "db_ok d" and "token_decode env now token = Some member"
    and "put_provider_setting_endpoint env i now iv token data d = Inr (p, d') \<or>
      patch_provider_timeout_endpoint env now token timeout d = Inr (q, d') \<or>
      delete_provider_setting_endpoint env now token d = Inr (r, d')"
  shows "filter (\<lambda>s. ps_member_id s \<noteq> member) (provider_settings d') =
      filter (\<lambda>s. ps_member_id s \<noteq> member) (provider_settings d) \<and> members d' = members d"
proof -
  have ids: "distinct (map ps_id (provider_settings d))" using assms(1) by (simp add: db_ok_eval)
  have own: "s \<in> set (provider_settings d) \<and> ps_member_id s = member" if "find_provider_setting member d = Some s" for s
    using find_Some_mem [OF that [unfolded find_provider_setting_def]] by simp
  have other: "ps_id r \<noteq> ps_id s" if "find_provider_setting member d = Some s" "r \<in> set (provider_settings d)"
      "ps_member_id r \<noteq> member" for r s
    using distinct_key_eq [OF ids that(2)] own [OF that(1)] that(3) by metis
  have m: "m_id m = member" if "get_current_member env now token d = Inr m" for m
    using that assms(2) find_Some_mem [of "\<lambda>m. m_id m = member" "members d" m]
    by (auto simp: get_current_member_def authenticated_member_def bind_result_eq_Inr_iff get_member_def split: if_splits)
  from assms(3) show ?thesis
  proof (elim disjE)
    assume "put_provider_setting_endpoint env i now iv token data d = Inr (p, d')"
    then have put: "put_provider_setting env i now iv member data d = Inr (p, d')"
      using m by (auto simp: put_provider_setting_endpoint_def bind_result_eq_Inr_iff)
    have "members d' = members d" using put
      by (auto simp: identity_op_defs split: option.splits)
    then show ?thesis by (rule_tac put_provider_setting_stores [OF put]) simp
  next
    assume "patch_provider_timeout_endpoint env now token timeout d = Inr (q, d')"
    then have "patch_provider_timeout env now member timeout d = Inr (q, d')"
      using m by (auto simp: patch_provider_timeout_endpoint_def bind_result_eq_Inr_iff)
    then obtain s where s: "find_provider_setting member d = Some s"
      and d': "d' = save_provider_setting now (ps_id s) (\<lambda>s. s\<lparr>ps_timeout_seconds := timeout\<rparr>) d"
      by (auto simp: patch_provider_timeout_def bind_result_eq_Inr_iff)
    show ?thesis unfolding d' save_provider_setting_def update_where_def
      using other [OF s] by (auto simp: filter_map comp_def orm_save_def intro!: map_idI filter_cong)
  next
    assume "delete_provider_setting_endpoint env now token d = Inr (r, d')"
    then obtain s where s: "find_provider_setting member d = Some s" and d': "d' = remove_provider_setting s d"
      using m by (auto simp: delete_provider_setting_endpoint_def delete_provider_setting_def bind_result_eq_Inr_iff)
    show ?thesis unfolding d' remove_provider_setting_def using other [OF s] by (auto intro: filter_cong)
  qed
qed

theorem provider_settings_isolated_witness:
  "\<exists>p d'. put_provider_setting_endpoint demo_identity 20 9 4 (token_issue demo_identity 7 3) demo_write demo_members = Inr (p, d') \<and>
     filter (\<lambda>s. ps_member_id s \<noteq> 3) (provider_settings d') = []"
proof -
  let ?token = "token_issue demo_identity 7 3"
  obtain p where p: "put_provider_setting demo_identity 20 9 4 3 demo_write demo_members = Inr (p, demo_saved)"
    using demo_put by blast
  have t: "token_decode demo_identity 9 ?token = Some 3"
    by (simp add: token_decode_def token_issue_def demo_identity_def token_payload_def jget_def seconds_def token_lifetime_def)
  have "put_provider_setting_endpoint demo_identity 20 9 4 ?token demo_write demo_members = Inr (p, demo_saved)"
    using p by (simp add: put_provider_setting_endpoint_def get_current_member_def authenticated_member_def t get_member_def
        demo_members_def demo_account_def)
  moreover from provider_settings_isolated [OF demo_members_ok t, of 20 4 demo_write p demo_saved] this
  have "filter (\<lambda>s. ps_member_id s \<noteq> 3) (provider_settings demo_saved) = []" by (simp add: demo_members_def)
  ultimately show ?thesis by blast
qed

end
