(* ===== verification/Migrations.thy ===== *)
theory Migrations
  imports Py_Url
begin

text \<open>
  The database schema: the migration scripts of src/backend/alembic/versions as operations on a schema
  of tables, and the schema the mapped classes of src/backend/app declare (modules/tasks/models.py,
  modules/identity/models.py, core/database.py). An operation fails like the database does: duplicate or
  missing tables, columns, indexes and constraints, a dropped table that is still referenced. The
  theorems compare the migrated schema with the declared one and undo every migration.
\<close>

section \<open>Schemas\<close>

datatype col_type =
    TString nat | TText | TBoolean | TUuid | TInteger | TJson | TBinary
  | TTimestamp bool                                   \<comment> \<open>with time zone\<close>

record column =
  c_name :: string
  c_type :: col_type
  c_nullable :: bool
  c_default :: "string option"                        \<comment> \<open>server default\<close>

record foreign_key =
  fk_name :: string
  fk_column :: string
  fk_table :: string
  fk_ref :: string
  fk_ondelete :: string

record db_index =
  ix_name :: string
  ix_columns :: "string list"
  ix_unique :: bool
  ix_where :: "string option"

record table =
  tb_name :: string
  tb_columns :: "column list"
  tb_primary_key :: "string \<times> string"                 \<comment> \<open>constraint name, column\<close>
  tb_foreign_keys :: "foreign_key list"
  tb_uniques :: "(string \<times> string list) list"
  tb_checks :: "(string \<times> string) list"
  tb_indexes :: "db_index list"

type_synonym schema = "table list"

datatype sql_error =
    DuplicateTable string | UndefinedTable string | DuplicateColumn string | UndefinedColumn string
  | DuplicateObject string | UndefinedObject string | DependentObjects string
  | NotNullViolation string | UniqueViolation string

definition col :: "string \<Rightarrow> col_type \<Rightarrow> bool \<Rightarrow> column" where
  "col n t nullable = \<lparr>c_name = n, c_type = t, c_nullable = nullable, c_default = None\<rparr>"

definition timestamps :: "column list" where
  "timestamps =
     [\<lparr>c_name = ''created_at'', c_type = TTimestamp True, c_nullable = False, c_default = Some ''now''\<rparr>,
      \<lparr>c_name = ''updated_at'', c_type = TTimestamp True, c_nullable = False, c_default = Some ''now''\<rparr>]"

definition index :: "string \<Rightarrow> string list \<Rightarrow> bool \<Rightarrow> db_index" where
  "index n cs unique = \<lparr>ix_name = n, ix_columns = cs, ix_unique = unique, ix_where = None\<rparr>"

text \<open>\<open>NAMING_CONVENTION\<close> names the constraints that have no name.\<close>

definition pk_name :: "string \<Rightarrow> string" where
  "pk_name t = ''pk_'' @ t"

definition uq_name :: "string \<Rightarrow> string \<Rightarrow> string" where
  "uq_name t c = ''uq_'' @ t @ ''_'' @ c"

definition ck_name :: "string \<Rightarrow> string \<Rightarrow> string" where
  "ck_name t c = ''ck_'' @ t @ ''_'' @ c"

definition ix_conv_name :: "string \<Rightarrow> string \<Rightarrow> string" where
  "ix_conv_name t c = ''ix_'' @ t @ ''_'' @ c"

definition reference :: "string \<Rightarrow> string \<Rightarrow> string \<Rightarrow> string \<Rightarrow> foreign_key" where
  "reference t c ref ondelete =
     \<lparr>fk_name = ''fk_'' @ t @ ''_'' @ c @ ''_'' @ ref, fk_column = c, fk_table = ref, fk_ref = ''id'',
      fk_ondelete = ondelete\<rparr>"

definition named_reference :: "string \<Rightarrow> string \<Rightarrow> string \<Rightarrow> string \<Rightarrow> foreign_key" where
  "named_reference n c ref ondelete =
     \<lparr>fk_name = n, fk_column = c, fk_table = ref, fk_ref = ''id'', fk_ondelete = ondelete\<rparr>"

section \<open>Operations\<close>

definition find_table :: "string \<Rightarrow> schema \<Rightarrow> table option" where
  "find_table n s = find (\<lambda>t. tb_name t = n) s"

definition has_column :: "string \<Rightarrow> table \<Rightarrow> bool" where
  "has_column c t = list_ex (\<lambda>x. c_name x = c) (tb_columns t)"

definition change_table :: "string \<Rightarrow> (table \<Rightarrow> sql_error + table) \<Rightarrow> schema \<Rightarrow> sql_error + schema" where
  "change_table n f s =
     bind_result (of_option (UndefinedTable n) (find_table n s)) (\<lambda>t.
     bind_result (f t) (\<lambda>t'. Inr (map (\<lambda>x. if tb_name x = n then t' else x) s)))"

definition create_table :: "table \<Rightarrow> schema \<Rightarrow> sql_error + schema" where
  "create_table t s =
     (if find_table (tb_name t) s \<noteq> None then Inl (DuplicateTable (tb_name t))
      else if list_all (\<lambda>k. find_table (fk_table k) (t # s) \<noteq> None) (tb_foreign_keys t) then Inr (s @ [t])
      else Inl (UndefinedTable (tb_name t)))"

definition drop_table :: "string \<Rightarrow> schema \<Rightarrow> sql_error + schema" where
  "drop_table n s =
     (if find_table n s = None then Inl (UndefinedTable n)
      else if list_ex (\<lambda>t. tb_name t \<noteq> n \<and> list_ex (\<lambda>k. fk_table k = n) (tb_foreign_keys t)) s
      then Inl (DependentObjects n)
      else Inr (filter (\<lambda>t. tb_name t \<noteq> n) s))"

definition create_index :: "string \<Rightarrow> db_index \<Rightarrow> schema \<Rightarrow> sql_error + schema" where
  "create_index n ix s =
     (if list_ex (\<lambda>t. list_ex (\<lambda>i. ix_name i = ix_name ix) (tb_indexes t)) s then Inl (DuplicateObject (ix_name ix))
      else change_table n (\<lambda>t.
        if list_all (\<lambda>c. has_column c t) (ix_columns ix) then Inr (t\<lparr>tb_indexes := tb_indexes t @ [ix]\<rparr>)
        else Inl (UndefinedColumn (ix_name ix))) s)"

definition drop_index :: "string \<Rightarrow> string \<Rightarrow> schema \<Rightarrow> sql_error + schema" where
  "drop_index n i s =
     change_table n (\<lambda>t.
       if list_ex (\<lambda>x. ix_name x = i) (tb_indexes t)
       then Inr (t\<lparr>tb_indexes := filter (\<lambda>x. ix_name x \<noteq> i) (tb_indexes t)\<rparr>)
       else Inl (UndefinedObject i)) s"

definition add_column :: "string \<Rightarrow> column \<Rightarrow> schema \<Rightarrow> sql_error + schema" where
  "add_column n c s =
     change_table n (\<lambda>t.
       if has_column (c_name c) t then Inl (DuplicateColumn (c_name c))
       else Inr (t\<lparr>tb_columns := tb_columns t @ [c]\<rparr>)) s"

text \<open>Dropping a column drops the indexes and constraints it takes part in.\<close>

definition drop_column :: "string \<Rightarrow> string \<Rightarrow> schema \<Rightarrow> sql_error + schema" where
  "drop_column n c s =
     change_table n (\<lambda>t.
       if has_column c t
       then Inr (t\<lparr>tb_columns := filter (\<lambda>x. c_name x \<noteq> c) (tb_columns t),
                   tb_foreign_keys := filter (\<lambda>k. fk_column k \<noteq> c) (tb_foreign_keys t),
                   tb_uniques := filter (\<lambda>u. c \<notin> set (snd u)) (tb_uniques t),
                   tb_indexes := filter (\<lambda>i. c \<notin> set (ix_columns i)) (tb_indexes t)\<rparr>)
       else Inl (UndefinedColumn c)) s"

definition alter_column :: "string \<Rightarrow> string \<Rightarrow> (column \<Rightarrow> column) \<Rightarrow> schema \<Rightarrow> sql_error + schema" where
  "alter_column n c f s =
     change_table n (\<lambda>t.
       if has_column c t
       then Inr (t\<lparr>tb_columns := map (\<lambda>x. if c_name x = c then f x else x) (tb_columns t)\<rparr>)
       else Inl (UndefinedColumn c)) s"

definition create_foreign_key :: "string \<Rightarrow> foreign_key \<Rightarrow> schema \<Rightarrow> sql_error + schema" where
  "create_foreign_key n k s =
     (if find_table (fk_table k) s = None then Inl (UndefinedTable (fk_table k))
      else change_table n (\<lambda>t.
        if has_column (fk_column k) t then Inr (t\<lparr>tb_foreign_keys := tb_foreign_keys t @ [k]\<rparr>)
        else Inl (UndefinedColumn (fk_column k))) s)"

definition create_unique_constraint :: "string \<Rightarrow> string \<Rightarrow> string list \<Rightarrow> schema \<Rightarrow> sql_error + schema" where
  "create_unique_constraint n u cs s =
     change_table n (\<lambda>t.
       if list_ex (\<lambda>x. fst x = u) (tb_uniques t) then Inl (DuplicateObject u)
       else if list_all (\<lambda>c. has_column c t) cs then Inr (t\<lparr>tb_uniques := tb_uniques t @ [(u, cs)]\<rparr>)
       else Inl (UndefinedColumn u)) s"

definition drop_constraint :: "string \<Rightarrow> string \<Rightarrow> schema \<Rightarrow> sql_error + schema" where
  "drop_constraint n x s =
     change_table n (\<lambda>t.
       if list_ex (\<lambda>k. fk_name k = x) (tb_foreign_keys t) \<or> list_ex (\<lambda>u. fst u = x) (tb_uniques t)
       then Inr (t\<lparr>tb_foreign_keys := filter (\<lambda>k. fk_name k \<noteq> x) (tb_foreign_keys t),
                   tb_uniques := filter (\<lambda>u. fst u \<noteq> x) (tb_uniques t)\<rparr>)
       else Inl (UndefinedObject x)) s"

text \<open>A migration is the list of its operations.\<close>

fun run_ops :: "(schema \<Rightarrow> sql_error + schema) list \<Rightarrow> schema \<Rightarrow> sql_error + schema" where
  "run_ops [] s = Inr s"
| "run_ops (f # fs) s = bind_result (f s) (run_ops fs)"

section \<open>746f36c10c40: initial schema\<close>

definition initial_members :: table where
  "initial_members =
     \<lparr>tb_name = ''members'',
      tb_columns =
        [col ''username'' (TString 64) False, col ''display_name'' (TString 100) False,
         col ''password_hash'' (TString 255) False, col ''role'' (TString 20) False,
         col ''is_active'' TBoolean False, col ''id'' TUuid False] @
        timestamps,
      tb_primary_key = (''pk_members'', ''id''),
      tb_foreign_keys = [],
      tb_uniques = [],
      tb_checks = [],
      tb_indexes = []\<rparr>"

definition initial_model_catalog_entries :: table where
  "initial_model_catalog_entries =
     \<lparr>tb_name = ''model_catalog_entries'',
      tb_columns =
        [col ''label'' (TString 100) False, col ''provider_model_id'' (TString 150) False,
         col ''capabilities'' TJson False, col ''is_active'' TBoolean False, col ''id'' TUuid False] @
        timestamps,
      tb_primary_key = (''pk_model_catalog_entries'', ''id''),
      tb_foreign_keys = [],
      tb_uniques = [(''uq_model_catalog_entries_provider_model_id'', [''provider_model_id''])],
      tb_checks = [],
      tb_indexes = []\<rparr>"

definition initial_provider_settings :: table where
  "initial_provider_settings =
     \<lparr>tb_name = ''provider_settings'',
      tb_columns =
        [col ''member_id'' TUuid False, col ''encrypted_api_key'' TBinary False,
         col ''base_url'' (TString 500) False, col ''model_id'' TUuid False, col ''id'' TUuid False] @
        timestamps,
      tb_primary_key = (''pk_provider_settings'', ''id''),
      tb_foreign_keys = [named_reference ''fk_provider_settings_member_id_members'' ''member_id'' ''members'' ''CASCADE'',
        named_reference ''fk_provider_settings_model_id_model_catalog_entries'' ''model_id'' ''model_catalog_entries'' ''RESTRICT''],
      tb_uniques = [],
      tb_checks = [],
      tb_indexes = []\<rparr>"

definition initial_rewrite_tasks :: table where
  "initial_rewrite_tasks =
     \<lparr>tb_name = ''rewrite_tasks'',
      tb_columns =
        [col ''owner_id'' TUuid False, col ''name'' (TString 160) False, col ''source_text'' TText False,
         col ''creative_settings'' TJson False, col ''state'' (TString 32) False,
         col ''archived_from_state'' (TString 32) True, col ''finalized_at'' (TTimestamp True) True,
         col ''id'' TUuid False] @
        timestamps,
      tb_primary_key = (''pk_rewrite_tasks'', ''id''),
      tb_foreign_keys = [named_reference ''fk_rewrite_tasks_owner_id_members'' ''owner_id'' ''members'' ''CASCADE''],
      tb_uniques = [],
      tb_checks = [(''ck_rewrite_tasks_source_text_max_length'', ''length(source_text) <= 20000'')],
      tb_indexes = []\<rparr>"

definition initial_creative_presets :: table where
  "initial_creative_presets =
     \<lparr>tb_name = ''creative_presets'',
      tb_columns =
        [col ''owner_id'' TUuid False, col ''name'' (TString 120) False, col ''settings'' TJson False,
         col ''id'' TUuid False] @
        timestamps,
      tb_primary_key = (''pk_creative_presets'', ''id''),
      tb_foreign_keys = [named_reference ''fk_creative_presets_owner_id_members'' ''owner_id'' ''members'' ''CASCADE''],
      tb_uniques = [],
      tb_checks = [],
      tb_indexes = []\<rparr>"

definition initial_task_analyses :: table where
  "initial_task_analyses =
     \<lparr>tb_name = ''task_analyses'',
      tb_columns =
        [col ''task_id'' TUuid False, col ''sequence'' TInteger False, col ''payload'' TJson False,
         col ''member_notes'' TText True, col ''is_selected'' TBoolean False,
         col ''prompt_template_version'' (TString 32) False, col ''model_identifier'' (TString 160) False,
         col ''id'' TUuid False] @
        timestamps,
      tb_primary_key = (''pk_task_analyses'', ''id''),
      tb_foreign_keys = [named_reference ''fk_task_analyses_task_id_rewrite_tasks'' ''task_id'' ''rewrite_tasks'' ''CASCADE''],
      tb_uniques = [],
      tb_checks = [],
      tb_indexes = []\<rparr>"

definition initial_task_suggestions :: table where
  "initial_task_suggestions =
     \<lparr>tb_name = ''task_suggestions'',
      tb_columns =
        [col ''task_id'' TUuid False, col ''analysis_id'' TUuid False, col ''suggestion_key'' (TString 80) False,
         col ''analysis_issue_ids'' TJson False, col ''priority'' (TString 16) False,
         col ''title'' (TString 160) False, col ''problem'' TText False, col ''direction'' TText False,
         col ''reason'' TText False, col ''impact_scope'' TText False, col ''example'' TText True,
         col ''decision'' (TString 16) False, col ''member_note'' TText True, col ''id'' TUuid False] @
        timestamps,
      tb_primary_key = (''pk_task_suggestions'', ''id''),
      tb_foreign_keys = [named_reference ''fk_task_suggestions_analysis_id_task_analyses'' ''analysis_id'' ''task_analyses'' ''CASCADE'',
        named_reference ''fk_task_suggestions_task_id_rewrite_tasks'' ''task_id'' ''rewrite_tasks'' ''CASCADE''],
      tb_uniques = [],
      tb_checks = [],
      tb_indexes = []\<rparr>"

definition initial_script_versions :: table where
  "initial_script_versions =
     \<lparr>tb_name = ''script_versions'',
      tb_columns =
        [col ''task_id'' TUuid False, col ''parent_id'' TUuid True, col ''kind'' (TString 24) False,
         col ''content'' TText False, col ''instruction'' TText True, col ''provenance'' TJson False,
         col ''validation_status'' (TString 24) False, col ''validation_details'' TJson False,
         col ''is_current_final'' TBoolean False, col ''id'' TUuid False] @
        timestamps,
      tb_primary_key = (''pk_script_versions'', ''id''),
      tb_foreign_keys = [named_reference ''fk_script_versions_parent_id_script_versions'' ''parent_id'' ''script_versions'' ''RESTRICT'',
        named_reference ''fk_script_versions_task_id_rewrite_tasks'' ''task_id'' ''rewrite_tasks'' ''CASCADE''],
      tb_uniques = [],
      tb_checks = [],
      tb_indexes = []\<rparr>"

definition initial_locked_fragments :: table where
  "initial_locked_fragments =
     \<lparr>tb_name = ''locked_fragments'',
      tb_columns =
        [col ''task_id'' TUuid False, col ''source_version_id'' TUuid False, col ''text'' TText False,
         col ''start_offset'' TInteger False, col ''end_offset'' TInteger False,
         col ''order_index'' TInteger False, col ''note'' TText True, col ''id'' TUuid False] @
        timestamps,
      tb_primary_key = (''pk_locked_fragments'', ''id''),
      tb_foreign_keys = [named_reference ''fk_locked_fragments_source_version_id_script_versions'' ''source_version_id'' ''script_versions'' ''CASCADE'',
        named_reference ''fk_locked_fragments_task_id_rewrite_tasks'' ''task_id'' ''rewrite_tasks'' ''CASCADE''],
      tb_uniques = [],
      tb_checks = [(''ck_locked_fragments_end_after_start'', ''end_offset > start_offset''),
        (''ck_locked_fragments_start_offset_non_negative'', ''start_offset >= 0'')],
      tb_indexes = []\<rparr>"

definition initial_upgrade :: "(schema \<Rightarrow> sql_error + schema) list" where
  "initial_upgrade =
     [create_table initial_members,
      create_index ''members'' (index ''ix_members_username'' [''username''] True),
      create_table initial_model_catalog_entries,
      create_table initial_provider_settings,
      create_index ''provider_settings'' (index ''ix_provider_settings_member_id'' [''member_id''] True),
      create_table initial_rewrite_tasks,
      create_index ''rewrite_tasks'' (index ''ix_rewrite_tasks_owner_id'' [''owner_id''] False),
      create_index ''rewrite_tasks'' (index ''ix_rewrite_tasks_owner_updated'' [''owner_id'', ''updated_at''] False),
      create_table initial_creative_presets,
      create_index ''creative_presets'' (index ''ix_creative_presets_owner_id'' [''owner_id''] False),
      create_index ''creative_presets'' (index ''ix_creative_presets_owner_name'' [''owner_id'', ''name''] False),
      create_table initial_task_analyses,
      create_index ''task_analyses'' (index ''ix_task_analyses_task_sequence'' [''task_id'', ''sequence''] True),
      create_table initial_task_suggestions,
      create_index ''task_suggestions'' (index ''ix_task_suggestions_task_analysis'' [''task_id'', ''analysis_id''] False),
      create_table initial_script_versions,
      create_index ''script_versions'' (index ''ix_script_versions_task_created'' [''task_id'', ''created_at''] False),
      create_table initial_locked_fragments,
      create_index ''locked_fragments'' (index ''ix_locked_fragments_task_order'' [''task_id'', ''order_index''] True)]"

definition initial_downgrade :: "(schema \<Rightarrow> sql_error + schema) list" where
  "initial_downgrade =
     [drop_index ''locked_fragments'' ''ix_locked_fragments_task_order'',
      drop_table ''locked_fragments'',
      drop_index ''script_versions'' ''ix_script_versions_task_created'',
      drop_table ''script_versions'',
      drop_index ''task_suggestions'' ''ix_task_suggestions_task_analysis'',
      drop_table ''task_suggestions'',
      drop_index ''task_analyses'' ''ix_task_analyses_task_sequence'',
      drop_table ''task_analyses'',
      drop_index ''creative_presets'' ''ix_creative_presets_owner_name'',
      drop_index ''creative_presets'' ''ix_creative_presets_owner_id'',
      drop_table ''creative_presets'',
      drop_index ''rewrite_tasks'' ''ix_rewrite_tasks_owner_updated'',
      drop_index ''rewrite_tasks'' ''ix_rewrite_tasks_owner_id'',
      drop_table ''rewrite_tasks'',
      drop_index ''provider_settings'' ''ix_provider_settings_member_id'',
      drop_table ''provider_settings'',
      drop_table ''model_catalog_entries'',
      drop_index ''members'' ''ix_members_username'',
      drop_table ''members'']"

section \<open>b321f7d8e9a0: AI operations\<close>

definition added_ai_operations :: table where
  "added_ai_operations =
     \<lparr>tb_name = ''ai_operations'',
      tb_columns =
        [col ''owner_id'' TUuid False, col ''task_id'' TUuid False, col ''kind'' (TString 24) False,
         col ''status'' (TString 24) False, col ''idempotency_key'' (TString 200) True,
         col ''request_hash'' (TString 64) False, col ''initial_task_state'' (TString 32) False,
         col ''running_task_state'' (TString 32) False, col ''completed_task_state'' (TString 32) True,
         col ''resource_type'' (TString 32) True, col ''resource_id'' TUuid True,
         col ''error_code'' (TString 80) True, col ''error_message'' (TString 500) True,
         col ''error_details'' TJson False, col ''provider_request_id'' (TString 200) True,
         col ''started_at'' (TTimestamp True) False, col ''completed_at'' (TTimestamp True) True,
         col ''id'' TUuid False] @
        timestamps,
      tb_primary_key = (pk_name ''ai_operations'', ''id''),
      tb_foreign_keys = [reference ''ai_operations'' ''owner_id'' ''members'' ''CASCADE'',
        reference ''ai_operations'' ''task_id'' ''rewrite_tasks'' ''CASCADE''],
      tb_uniques = [(''uq_ai_operations_scope_idempotency_key'', [''owner_id'', ''task_id'', ''kind'', ''idempotency_key''])],
      tb_checks = [],
      tb_indexes = []\<rparr>"

definition operations_upgrade :: "(schema \<Rightarrow> sql_error + schema) list" where
  "operations_upgrade =
     [create_table added_ai_operations,
      create_index ''ai_operations'' (index ''ix_ai_operations_owner_created'' [''owner_id'', ''created_at''] False),
      create_index ''ai_operations'' (index ''ix_ai_operations_task_created'' [''task_id'', ''created_at''] False)]"

definition operations_downgrade :: "(schema \<Rightarrow> sql_error + schema) list" where
  "operations_downgrade =
     [drop_index ''ai_operations'' ''ix_ai_operations_task_created'',
      drop_index ''ai_operations'' ''ix_ai_operations_owner_created'',
      drop_table ''ai_operations'']"

section \<open>c742e9b10f63: model names in provider settings\<close>

definition restored_model_catalog_entries :: table where
  "restored_model_catalog_entries =
     \<lparr>tb_name = ''model_catalog_entries'',
      tb_columns =
        [col ''id'' TUuid False, col ''label'' (TString 100) False,
         col ''provider_model_id'' (TString 150) False, col ''capabilities'' TJson False,
         col ''is_active'' TBoolean False] @
        timestamps,
      tb_primary_key = (pk_name ''model_catalog_entries'', ''id''),
      tb_foreign_keys = [],
      tb_uniques = [(uq_name ''model_catalog_entries'' ''provider_model_id'', [''provider_model_id''])],
      tb_checks = [],
      tb_indexes = []\<rparr>"

definition model_names_upgrade :: "(schema \<Rightarrow> sql_error + schema) list" where
  "model_names_upgrade =
     [add_column ''provider_settings'' (col ''model_name'' (TString 150) True),
      drop_constraint ''provider_settings'' ''fk_provider_settings_model_id_model_catalog_entries'',
      drop_column ''provider_settings'' ''model_id'',
      alter_column ''provider_settings'' ''model_name'' (\<lambda>c. c\<lparr>c_name := ''model_id'', c_nullable := False\<rparr>),
      drop_table ''model_catalog_entries'']"

definition model_names_downgrade :: "(schema \<Rightarrow> sql_error + schema) list" where
  "model_names_downgrade =
     [create_table restored_model_catalog_entries,
      add_column ''provider_settings'' (col ''catalog_id'' TUuid True),
      drop_column ''provider_settings'' ''model_id'',
      alter_column ''provider_settings'' ''catalog_id'' (\<lambda>c. c\<lparr>c_name := ''model_id'', c_nullable := False\<rparr>),
      create_foreign_key ''provider_settings''
        (named_reference ''fk_provider_settings_model_id_model_catalog_entries'' ''model_id'' ''model_catalog_entries'' ''RESTRICT'')]"

section \<open>d953a1b7c204: response time limit\<close>

definition timeout_upgrade :: "(schema \<Rightarrow> sql_error + schema) list" where
  "timeout_upgrade =
     [add_column ''provider_settings''
        \<lparr>c_name = ''timeout_seconds'', c_type = TInteger, c_nullable = False, c_default = Some ''240''\<rparr>]"

definition timeout_downgrade :: "(schema \<Rightarrow> sql_error + schema) list" where
  "timeout_downgrade =
     [drop_column ''provider_settings'' ''timeout_seconds'']"

section \<open>e064b2c8d315: durable queue\<close>

definition active_where :: string where
  "active_where = ''status IN ('queued', 'running')''"

definition queue_upgrade :: "(schema \<Rightarrow> sql_error + schema) list" where
  "queue_upgrade =
     [add_column ''ai_operations''
        \<lparr>c_name = ''request_payload'', c_type = TJson, c_nullable = False, c_default = Some ''{}''\<rparr>,
      add_column ''ai_operations''
        \<lparr>c_name = ''task_name'', c_type = TString 200, c_nullable = False, c_default = Some ''''\<rparr>,
      alter_column ''ai_operations'' ''started_at'' (\<lambda>c. c\<lparr>c_nullable := True\<rparr>),
      create_index ''ai_operations''
        \<lparr>ix_name = ''uq_ai_operations_active_task'', ix_columns = [''task_id''], ix_unique = True,
          ix_where = Some active_where\<rparr>]"

definition queue_downgrade :: "(schema \<Rightarrow> sql_error + schema) list" where
  "queue_downgrade =
     [drop_index ''ai_operations'' ''uq_ai_operations_active_task'',
      drop_column ''ai_operations'' ''request_payload'',
      drop_column ''ai_operations'' ''task_name'',
      alter_column ''ai_operations'' ''started_at'' (\<lambda>c. c\<lparr>c_nullable := False\<rparr>)]"

section \<open>f18c62a91d47 and 23b8e1c4a912: unique preset names, request identifiers\<close>

definition preset_names_upgrade :: "(schema \<Rightarrow> sql_error + schema) list" where
  "preset_names_upgrade =
     [drop_index ''creative_presets'' ''ix_creative_presets_owner_name'',
      create_unique_constraint ''creative_presets'' ''uq_creative_presets_owner_name'' [''owner_id'', ''name'']]"

definition preset_names_downgrade :: "(schema \<Rightarrow> sql_error + schema) list" where
  "preset_names_downgrade =
     [drop_constraint ''creative_presets'' ''uq_creative_presets_owner_name'',
      create_index ''creative_presets'' (index ''ix_creative_presets_owner_name'' [''owner_id'', ''name''] False)]"

definition request_id_upgrade :: "(schema \<Rightarrow> sql_error + schema) list" where
  "request_id_upgrade =
     [add_column ''ai_operations'' (col ''request_id'' (TString 80) True),
      create_index ''ai_operations'' (index ''ix_ai_operations_request_id'' [''request_id''] False)]"

definition request_id_downgrade :: "(schema \<Rightarrow> sql_error + schema) list" where
  "request_id_downgrade =
     [drop_index ''ai_operations'' ''ix_ai_operations_request_id'',
      drop_column ''ai_operations'' ''request_id'']"

section \<open>The mapped classes\<close>

definition orm_members :: table where
  "orm_members =
     \<lparr>tb_name = ''members'',
      tb_columns =
        [col ''id'' TUuid False, col ''username'' (TString 64) False, col ''display_name'' (TString 100) False,
         col ''password_hash'' (TString 255) False, col ''role'' (TString 20) False,
         col ''is_active'' TBoolean False] @
        timestamps,
      tb_primary_key = (pk_name ''members'', ''id''),
      tb_foreign_keys = [],
      tb_uniques = [],
      tb_checks = [],
      tb_indexes = [index (ix_conv_name ''members'' ''username'') [''username''] True]\<rparr>"

definition orm_provider_settings :: table where
  "orm_provider_settings =
     \<lparr>tb_name = ''provider_settings'',
      tb_columns =
        [col ''id'' TUuid False, col ''member_id'' TUuid False, col ''encrypted_api_key'' TBinary False,
         col ''base_url'' (TString 500) False, col ''model_id'' (TString 150) False,
         \<lparr>c_name = ''timeout_seconds'', c_type = TInteger, c_nullable = False, c_default = Some ''240''\<rparr>] @
        timestamps,
      tb_primary_key = (pk_name ''provider_settings'', ''id''),
      tb_foreign_keys = [reference ''provider_settings'' ''member_id'' ''members'' ''CASCADE''],
      tb_uniques = [],
      tb_checks = [],
      tb_indexes = [index (ix_conv_name ''provider_settings'' ''member_id'') [''member_id''] True]\<rparr>"


definition orm_rewrite_tasks :: table where
  "orm_rewrite_tasks =
     \<lparr>tb_name = ''rewrite_tasks'',
      tb_columns =
        [col ''id'' TUuid False, col ''owner_id'' TUuid False, col ''name'' (TString 160) False,
         col ''source_text'' TText False, col ''creative_settings'' TJson False,
         col ''state'' (TString 32) False, col ''archived_from_state'' (TString 32) True,
         col ''finalized_at'' (TTimestamp False) True] @
        timestamps,
      tb_primary_key = (pk_name ''rewrite_tasks'', ''id''),
      tb_foreign_keys = [reference ''rewrite_tasks'' ''owner_id'' ''members'' ''CASCADE''],
      tb_uniques = [],
      tb_checks = [(ck_name ''rewrite_tasks'' ''source_text_max_length'', ''length(source_text) <= 20000'')],
      tb_indexes = [index ''ix_rewrite_tasks_owner_updated'' [''owner_id'', ''updated_at''] False,
        index (ix_conv_name ''rewrite_tasks'' ''owner_id'') [''owner_id''] False]\<rparr>"

definition orm_creative_presets :: table where
  "orm_creative_presets =
     \<lparr>tb_name = ''creative_presets'',
      tb_columns =
        [col ''id'' TUuid False, col ''owner_id'' TUuid False, col ''name'' (TString 120) False,
         col ''settings'' TJson False] @
        timestamps,
      tb_primary_key = (pk_name ''creative_presets'', ''id''),
      tb_foreign_keys = [reference ''creative_presets'' ''owner_id'' ''members'' ''CASCADE''],
      tb_uniques = [(''uq_creative_presets_owner_name'', [''owner_id'', ''name''])],
      tb_checks = [],
      tb_indexes = [index (ix_conv_name ''creative_presets'' ''owner_id'') [''owner_id''] False]\<rparr>"

definition orm_task_analyses :: table where
  "orm_task_analyses =
     \<lparr>tb_name = ''task_analyses'',
      tb_columns =
        [col ''id'' TUuid False, col ''task_id'' TUuid False, col ''sequence'' TInteger False,
         col ''payload'' TJson False, col ''member_notes'' TText True, col ''is_selected'' TBoolean False,
         col ''prompt_template_version'' (TString 32) False, col ''model_identifier'' (TString 160) False] @
        timestamps,
      tb_primary_key = (pk_name ''task_analyses'', ''id''),
      tb_foreign_keys = [reference ''task_analyses'' ''task_id'' ''rewrite_tasks'' ''CASCADE''],
      tb_uniques = [],
      tb_checks = [],
      tb_indexes = [index ''ix_task_analyses_task_sequence'' [''task_id'', ''sequence''] True]\<rparr>"

definition orm_task_suggestions :: table where
  "orm_task_suggestions =
     \<lparr>tb_name = ''task_suggestions'',
      tb_columns =
        [col ''id'' TUuid False, col ''task_id'' TUuid False, col ''analysis_id'' TUuid False,
         col ''suggestion_key'' (TString 80) False, col ''analysis_issue_ids'' TJson False,
         col ''priority'' (TString 16) False, col ''title'' (TString 160) False, col ''problem'' TText False,
         col ''direction'' TText False, col ''reason'' TText False, col ''impact_scope'' TText False,
         col ''example'' TText True, col ''decision'' (TString 16) False, col ''member_note'' TText True] @
        timestamps,
      tb_primary_key = (pk_name ''task_suggestions'', ''id''),
      tb_foreign_keys = [reference ''task_suggestions'' ''task_id'' ''rewrite_tasks'' ''CASCADE'',
        reference ''task_suggestions'' ''analysis_id'' ''task_analyses'' ''CASCADE''],
      tb_uniques = [],
      tb_checks = [],
      tb_indexes = [index ''ix_task_suggestions_task_analysis'' [''task_id'', ''analysis_id''] False]\<rparr>"

definition orm_script_versions :: table where
  "orm_script_versions =
     \<lparr>tb_name = ''script_versions'',
      tb_columns =
        [col ''id'' TUuid False, col ''task_id'' TUuid False, col ''parent_id'' TUuid True,
         col ''kind'' (TString 24) False, col ''content'' TText False, col ''instruction'' TText True,
         col ''provenance'' TJson False, col ''validation_status'' (TString 24) False,
         col ''validation_details'' TJson False, col ''is_current_final'' TBoolean False] @
        timestamps,
      tb_primary_key = (pk_name ''script_versions'', ''id''),
      tb_foreign_keys = [reference ''script_versions'' ''task_id'' ''rewrite_tasks'' ''CASCADE'',
        reference ''script_versions'' ''parent_id'' ''script_versions'' ''RESTRICT''],
      tb_uniques = [],
      tb_checks = [],
      tb_indexes = [index ''ix_script_versions_task_created'' [''task_id'', ''created_at''] False]\<rparr>"

definition orm_locked_fragments :: table where
  "orm_locked_fragments =
     \<lparr>tb_name = ''locked_fragments'',
      tb_columns =
        [col ''id'' TUuid False, col ''task_id'' TUuid False, col ''source_version_id'' TUuid False,
         col ''text'' TText False, col ''start_offset'' TInteger False, col ''end_offset'' TInteger False,
         col ''order_index'' TInteger False, col ''note'' TText True] @
        timestamps,
      tb_primary_key = (pk_name ''locked_fragments'', ''id''),
      tb_foreign_keys = [reference ''locked_fragments'' ''task_id'' ''rewrite_tasks'' ''CASCADE'',
        reference ''locked_fragments'' ''source_version_id'' ''script_versions'' ''CASCADE''],
      tb_uniques = [],
      tb_checks = [(ck_name ''locked_fragments'' ''start_offset_non_negative'', ''start_offset >= 0''),
        (ck_name ''locked_fragments'' ''end_after_start'', ''end_offset > start_offset'')],
      tb_indexes = [index ''ix_locked_fragments_task_order'' [''task_id'', ''order_index''] True]\<rparr>"

definition orm_ai_operations :: table where
  "orm_ai_operations =
     \<lparr>tb_name = ''ai_operations'',
      tb_columns =
        [col ''id'' TUuid False, col ''owner_id'' TUuid False, col ''task_id'' TUuid False,
         col ''kind'' (TString 24) False, col ''status'' (TString 24) False,
         col ''idempotency_key'' (TString 200) True, col ''request_hash'' (TString 64) False,
         \<lparr>c_name = ''request_payload'', c_type = TJson, c_nullable = False, c_default = Some ''{}''\<rparr>,
         col ''request_id'' (TString 80) True,
         \<lparr>c_name = ''task_name'', c_type = TString 200, c_nullable = False, c_default = Some ''''\<rparr>,
         col ''initial_task_state'' (TString 32) False, col ''running_task_state'' (TString 32) False,
         col ''completed_task_state'' (TString 32) True, col ''resource_type'' (TString 32) True,
         col ''resource_id'' TUuid True, col ''error_code'' (TString 80) True,
         col ''error_message'' (TString 500) True, col ''error_details'' TJson False,
         col ''provider_request_id'' (TString 200) True, col ''started_at'' (TTimestamp True) True,
         col ''completed_at'' (TTimestamp True) True] @
        timestamps,
      tb_primary_key = (pk_name ''ai_operations'', ''id''),
      tb_foreign_keys = [reference ''ai_operations'' ''owner_id'' ''members'' ''CASCADE'',
        reference ''ai_operations'' ''task_id'' ''rewrite_tasks'' ''CASCADE''],
      tb_uniques = [(''uq_ai_operations_scope_idempotency_key'', [''owner_id'', ''task_id'', ''kind'', ''idempotency_key''])],
      tb_checks = [],
      tb_indexes = [index ''ix_ai_operations_owner_created'' [''owner_id'', ''created_at''] False,
        index ''ix_ai_operations_task_created'' [''task_id'', ''created_at''] False,
        \<lparr>ix_name = ''uq_ai_operations_active_task'', ix_columns = [''task_id''], ix_unique = True,
          ix_where = Some active_where\<rparr>,
        index (ix_conv_name ''ai_operations'' ''request_id'') [''request_id''] False]\<rparr>"

definition orm_schema :: schema where
  "orm_schema =
     [orm_members, orm_provider_settings, orm_rewrite_tasks, orm_creative_presets, orm_task_analyses,
      orm_task_suggestions, orm_script_versions, orm_locked_fragments, orm_ai_operations]"


section \<open>The chain\<close>

record migration =
  mg_revision :: string
  mg_down_revision :: "string option"
  mg_upgrade :: "(schema \<Rightarrow> sql_error + schema) list"
  mg_downgrade :: "(schema \<Rightarrow> sql_error + schema) list"

definition migrations :: "migration list" where
  "migrations =
     [\<lparr>mg_revision = ''746f36c10c40'', mg_down_revision = None,
       mg_upgrade = initial_upgrade, mg_downgrade = initial_downgrade\<rparr>,
      \<lparr>mg_revision = ''b321f7d8e9a0'', mg_down_revision = Some ''746f36c10c40'',
       mg_upgrade = operations_upgrade, mg_downgrade = operations_downgrade\<rparr>,
      \<lparr>mg_revision = ''c742e9b10f63'', mg_down_revision = Some ''b321f7d8e9a0'',
       mg_upgrade = model_names_upgrade, mg_downgrade = model_names_downgrade\<rparr>,
      \<lparr>mg_revision = ''d953a1b7c204'', mg_down_revision = Some ''c742e9b10f63'',
       mg_upgrade = timeout_upgrade, mg_downgrade = timeout_downgrade\<rparr>,
      \<lparr>mg_revision = ''e064b2c8d315'', mg_down_revision = Some ''d953a1b7c204'',
       mg_upgrade = queue_upgrade, mg_downgrade = queue_downgrade\<rparr>,
      \<lparr>mg_revision = ''f18c62a91d47'', mg_down_revision = Some ''e064b2c8d315'',
       mg_upgrade = preset_names_upgrade, mg_downgrade = preset_names_downgrade\<rparr>,
      \<lparr>mg_revision = ''23b8e1c4a912'', mg_down_revision = Some ''f18c62a91d47'',
       mg_upgrade = request_id_upgrade, mg_downgrade = request_id_downgrade\<rparr>]"

definition upgrade_to :: "nat \<Rightarrow> sql_error + schema" where
  "upgrade_to k = run_ops (concat (map mg_upgrade (take k migrations))) []"

text \<open>Schemas up to the order of tables, columns, constraints and indexes.\<close>

definition same_table :: "table \<Rightarrow> table \<Rightarrow> bool" where
  "same_table a b \<longleftrightarrow>
     tb_name a = tb_name b \<and> tb_primary_key a = tb_primary_key b \<and> set (tb_columns a) = set (tb_columns b) \<and>
     set (tb_foreign_keys a) = set (tb_foreign_keys b) \<and> set (tb_uniques a) = set (tb_uniques b) \<and>
     set (tb_checks a) = set (tb_checks b) \<and> set (tb_indexes a) = set (tb_indexes b)"

definition same_schema :: "schema \<Rightarrow> schema \<Rightarrow> bool" where
  "same_schema s t \<longleftrightarrow>
     distinct (map tb_name s) \<and> length s = length t \<and> list_all (\<lambda>a. list_ex (same_table a) t) s"

text \<open>From the schema the first \<open>k\<close> migrations give, migration \<open>k\<close> up and down again is that schema.\<close>

definition undoes :: "nat \<Rightarrow> bool" where
  "undoes k =
     (case upgrade_to k of
        Inl _ \<Rightarrow> False
      | Inr s \<Rightarrow>
          (case bind_result (run_ops (mg_upgrade (migrations ! k)) s) (run_ops (mg_downgrade (migrations ! k))) of
             Inl _ \<Rightarrow> False
           | Inr t \<Rightarrow> same_schema t s))"

text \<open>The mapped classes with the time zone the migrations give \<open>rewrite_tasks.finalized_at\<close>.\<close>

definition orm_schema_with_zone :: schema where
  "orm_schema_with_zone =
     map (\<lambda>t. if tb_name t = ''rewrite_tasks''
              then t\<lparr>tb_columns := map (\<lambda>c. if c_name c = ''finalized_at'' then c\<lparr>c_type := TTimestamp True\<rparr> else c)
                (tb_columns t)\<rparr>
              else t) orm_schema"

section \<open>Correctness\<close>

text \<open>The scripts form one chain, so \<open>alembic upgrade head\<close> runs them in the order of the list.\<close>

lemma migrations_form_a_chain:
  "distinct (map mg_revision migrations) \<and> mg_down_revision (hd migrations) = None \<and>
   map mg_down_revision (tl migrations) = map (Some \<circ> mg_revision) (butlast migrations)"
  by (simp add: migrations_def)

lemma length_migrations: "length migrations = 7"
  by (simp add: migrations_def)

lemma undoes_initial: "undoes 0"
  by code_simp

lemma undoes_operations: "undoes 1"
  by code_simp

lemma undoes_model_names: "undoes 2"
  by code_simp

lemma undoes_timeout: "undoes 3"
  by code_simp

lemma undoes_queue: "undoes 4"
  by code_simp

lemma undoes_preset_names: "undoes 5"
  by code_simp

lemma undoes_request_id: "undoes 6"
  by code_simp

lemmas undoes_each = undoes_initial undoes_operations undoes_model_names undoes_timeout undoes_queue undoes_preset_names undoes_request_id

text \<open>C37: Running every migration on an empty database succeeds and creates the tables, columns, keys,
  checks and indexes the mapped classes declare, with one difference: \<open>rewrite_tasks.finalized_at\<close>
  has a time zone in the database and none in the class.\<close>

theorem migrated_schema_matches_models:
  "case upgrade_to (length migrations) of
     Inl _ \<Rightarrow> False
   | Inr s \<Rightarrow> same_schema s orm_schema_with_zone \<and> \<not> same_schema s orm_schema"
  unfolding length_migrations by code_simp

text \<open>C38: Every migration can be undone: from the schema after it, its downgrade runs without error and
  gives back the schema before it, up to the order of columns and constraints.\<close>

theorem migrations_can_be_undone: "list_all undoes [0..<length migrations]"
  using undoes_each by (simp add: length_migrations upt_rec numeral_eq_Suc)

end
