(* ===== verification/Migration_Data.thy ===== *)
theory Migration_Data
  imports Migrations Task_Store
begin

text \<open>
  What the migrations of src/backend/alembic/versions do to the rows: c742e9b10f63 replaces the
  references of provider settings into the model catalog by model names and back, e064b2c8d315 copies
  the names of tasks into their operations and cancels queued operations on the way down.
\<close>

section \<open>c742e9b10f63: model names\<close>

record catalog_entry =
  ce_id :: uuid
  ce_label :: pystr
  ce_provider_model_id :: pystr
  ce_capabilities :: "(pystr \<times> json) list"
  ce_is_active :: bool

text \<open>The column \<open>model_id\<close> of provider_settings, by the \<open>id\<close> of the row: identifiers of catalog
  entries before the migration, names after it.\<close>

type_synonym 'm model_column = "(uuid \<times> 'm) list"

definition set_not_null :: "'m option model_column \<Rightarrow> sql_error + 'm model_column" where
  "set_not_null rows =
     (if list_all (\<lambda>r. snd r \<noteq> None) rows then Inr (map (\<lambda>r. (fst r, the (snd r))) rows)
      else Inl (NotNullViolation ''model_id''))"

definition catalog_name :: "catalog_entry list \<Rightarrow> uuid \<Rightarrow> pystr option" where
  "catalog_name catalog model_id = map_option ce_provider_model_id (find (\<lambda>e. ce_id e = model_id) catalog)"

definition model_names_rows_upgrade ::
    "catalog_entry list \<Rightarrow> uuid model_column \<Rightarrow> sql_error + pystr model_column" where
  "model_names_rows_upgrade catalog rows =
     set_not_null (map (\<lambda>r. (fst r, catalog_name catalog (snd r))) rows)"

definition insert_entry :: "catalog_entry \<Rightarrow> catalog_entry list \<Rightarrow> sql_error + catalog_entry list" where
  "insert_entry e catalog =
     (if list_ex (\<lambda>x. ce_id x = ce_id e \<or> ce_provider_model_id x = ce_provider_model_id e) catalog
      then Inl (UniqueViolation ''model_catalog_entries'')
      else Inr (catalog @ [e]))"

definition entry_for :: "uuid \<Rightarrow> pystr \<Rightarrow> catalog_entry" where
  "entry_for model_id name =
     \<lparr>ce_id = model_id, ce_label = take 100 name, ce_provider_model_id = name, ce_capabilities = [],
      ce_is_active = True\<rparr>"

text \<open>The rows during the downgrade have both columns: name and \<open>catalog_id\<close>. The loop is over the
  distinct names with the values \<open>uuid4()\<close> returns for them.\<close>

fun catalog_loop ::
    "(uuid \<times> pystr) list \<Rightarrow> catalog_entry list \<Rightarrow> (uuid \<times> pystr \<times> uuid option) list \<Rightarrow>
     sql_error + (catalog_entry list \<times> (uuid \<times> pystr \<times> uuid option) list)" where
  "catalog_loop [] catalog rows = Inr (catalog, rows)"
| "catalog_loop ((model_id, name) # names) catalog rows =
     bind_result (insert_entry (entry_for model_id name) catalog) (\<lambda>catalog'.
     catalog_loop names catalog'
       (map (\<lambda>(i, n, c). (i, n, if n = name then Some model_id else c)) rows))"

definition model_names_rows_downgrade ::
    "(nat \<Rightarrow> uuid) \<Rightarrow> pystr list \<Rightarrow> pystr model_column \<Rightarrow>
     sql_error + (catalog_entry list \<times> uuid model_column)" where
  "model_names_rows_downgrade uuid4 names rows =
     bind_result (catalog_loop (zip (map uuid4 [0..<length names]) names) []
       (map (\<lambda>(i, n). (i, n, None)) rows)) (\<lambda>(catalog, rows').
     bind_result (set_not_null (map (\<lambda>(i, n, c). (i, c)) rows')) (\<lambda>ids. Inr (catalog, ids)))"

lemma insert_entry_new:
  assumes "model_id \<notin> ce_id ` set catalog" and "name \<notin> ce_provider_model_id ` set catalog"
  shows "insert_entry (entry_for model_id name) catalog = Inr (catalog @ [entry_for model_id name])"
  using assms by (auto simp: insert_entry_def entry_for_def list_ex_iff)

lemma catalog_loop_result:
  assumes "distinct (map fst ps)" and "distinct (map snd ps)"
    and "ce_id ` set catalog \<inter> fst ` set ps = {}" and "ce_provider_model_id ` set catalog \<inter> snd ` set ps = {}"
  shows "catalog_loop ps catalog rows =
     Inr (catalog @ map (\<lambda>(u, n). entry_for u n) ps,
          map (\<lambda>(i, n, c). (i, n, case map_of (map prod.swap ps) n of None \<Rightarrow> c | Some u \<Rightarrow> Some u)) rows)"
  using assms
proof (induction ps arbitrary: catalog rows)
  case Nil
  show ?case by simp
next
  case (Cons p ps)
  obtain u name where p: "p = (u, name)" by (cases p)
  have none: "map_of (map prod.swap ps) name = None"
    using Cons.prems(2) by (auto simp: p map_of_eq_None_iff image_image)
  have "catalog_loop (p # ps) catalog rows =
      catalog_loop ps (catalog @ [entry_for u name])
        (map (\<lambda>(i, n, c). (i, n, if n = name then Some u else c)) rows)"
    using Cons.prems by (simp add: p insert_entry_new)
  also have "\<dots> = Inr ((catalog @ [entry_for u name]) @ map (\<lambda>(u, n). entry_for u n) ps,
      map (\<lambda>(i, n, c). (i, n, case map_of (map prod.swap ps) n of None \<Rightarrow> c | Some u \<Rightarrow> Some u))
        (map (\<lambda>(i, n, c). (i, n, if n = name then Some u else c)) rows))"
    using Cons.prems by (intro Cons.IH) (auto simp: p entry_for_def)
  also have "\<dots> = Inr (catalog @ map (\<lambda>(u, n). entry_for u n) (p # ps),
      map (\<lambda>(i, n, c). (i, n, case map_of (map prod.swap (p # ps)) n of None \<Rightarrow> c | Some u \<Rightarrow> Some u)) rows)"
    using none by (auto simp: p split: option.splits)
  finally show ?case .
qed

lemma catalog_name_entries:
  assumes "distinct (map fst ps)" and "(u, n) \<in> set ps"
  shows "catalog_name (map (\<lambda>(u, n). entry_for u n) ps) u = Some n"
  using assms by (induction ps) (auto simp: catalog_name_def entry_for_def rev_image_eqI)

text \<open>C39: Model names survive the downgrade of c742e9b10f63: whatever order the distinct names come in,
  it builds a catalog of one entry per name with a label of at most 100 characters, every provider
  setting refers to an entry of it, and upgrading again gives every setting the name it had.\<close>

theorem model_names_survive_downgrade:
  assumes "inj_on uuid4 {..<length names}" and "distinct names" and "set names = snd ` set rows"
  shows "\<exists>catalog ids. model_names_rows_downgrade uuid4 names rows = Inr (catalog, ids) \<and>
     map ce_provider_model_id catalog = names \<and> list_all (\<lambda>e. length (ce_label e) \<le> 100) catalog \<and>
     snd ` set ids \<subseteq> ce_id ` set catalog \<and> model_names_rows_upgrade catalog ids = Inr rows"
proof -
  define ps where "ps = zip (map uuid4 [0..<length names]) names"
  define catalog where "catalog = map (\<lambda>(u, n). entry_for u n) ps"
  define look where "look n = map_of (map prod.swap ps) n" for n
  have fsts: "map fst ps = map uuid4 [0..<length names]" and snds: "map snd ps = names"
    by (simp_all add: ps_def)
  have dist: "distinct (map fst ps)" "distinct (map snd ps)"
    using assms(1,2) by (simp_all add: fsts snds distinct_map atLeast0LessThan)
  have loop: "catalog_loop ps [] (map (\<lambda>(i, n). (i, n, None)) rows) =
      Inr (catalog, map (\<lambda>(i, n). (i, n, look n)) rows)"
    using dist by (simp add: catalog_loop_result catalog_def look_def o_def case_prod_unfold option.case_eq_if)
  have found: "\<exists>u. look n = Some u \<and> (u, n) \<in> set ps" if "n \<in> snd ` set rows" for n
  proof -
    have "n \<in> set (map snd ps)" using that assms(3) snds by simp
    then obtain u where u: "look n = Some u"
      by (cases "look n") (auto simp: look_def map_of_eq_None_iff image_image)
    then have "(n, u) \<in> set (map prod.swap ps)" unfolding look_def by (rule map_of_SomeD)
    then show ?thesis using u by auto
  qed
  have not_null: "set_not_null (map (\<lambda>(i, n). (i, look n)) rows) = Inr (map (\<lambda>(i, n). (i, the (look n))) rows)"
    using found by (fastforce simp: set_not_null_def list_all_iff case_prod_unfold)
  have down: "model_names_rows_downgrade uuid4 names rows = Inr (catalog, map (\<lambda>(i, n). (i, the (look n))) rows)"
    using loop not_null by (simp add: model_names_rows_downgrade_def ps_def [symmetric] o_def case_prod_unfold)
  have name: "catalog_name catalog (the (look n)) = Some n" if "(i, n) \<in> set rows" for i n
    using found [of n] that catalog_name_entries [OF dist(1)] by (force simp: catalog_def)
  have up: "model_names_rows_upgrade catalog (map (\<lambda>(i, n). (i, the (look n))) rows) = Inr rows"
    using name by (auto simp: model_names_rows_upgrade_def set_not_null_def list_all_iff case_prod_unfold o_def
        intro!: map_idI)
  have ids: "ce_id ` set catalog = fst ` set ps"
    by (auto simp: catalog_def entry_for_def image_image case_prod_unfold)
  have "the (look n) \<in> fst ` set ps" if "(i, n) \<in> set rows" for i n
    using found [of n] that by force
  then have "snd ` set (map (\<lambda>(i, n). (i, the (look n))) rows) \<subseteq> ce_id ` set catalog"
    unfolding ids by auto
  moreover have "map ce_provider_model_id catalog = names"
    using snds by (simp add: catalog_def entry_for_def o_def case_prod_unfold)
  moreover have "list_all (\<lambda>e. length (ce_label e) \<le> 100) catalog"
    by (auto simp: catalog_def entry_for_def list_all_iff)
  ultimately show ?thesis using down up by blast
qed

theorem model_names_survive_downgrade_witness:
  "\<exists>catalog ids. model_names_rows_downgrade of_nat [[98], [97]] [(1, [97]), (2, [98]), (3, [97])] =
     Inr (catalog, ids) \<and> model_names_rows_upgrade catalog ids = Inr [(1, [97]), (2, [98]), (3, [97])]"
proof -
  have "inj_on (of_nat :: nat \<Rightarrow> uuid) {..<length [[98::nat], [97]]}"
    by (simp add: inj_on_def lessThan_Suc numeral_2_eq_2)
  moreover have "distinct [[98 :: nat], [97]]" by simp
  moreover have "set [[98 :: nat], [97]] = snd ` set [(1 :: uuid, [97]), (2, [98]), (3, [97])]" by auto
  ultimately show ?thesis
    using model_names_survive_downgrade [of of_nat "[[98], [97]]" "[(1, [97]), (2, [98]), (3, [97])]"] by blast
qed

section \<open>e064b2c8d315: queued operations\<close>

definition name_operation :: "rewrite_task list \<Rightarrow> ai_operation \<Rightarrow> ai_operation option" where
  "name_operation ts op =
     map_option (\<lambda>t. op\<lparr>o_request_payload := JObj [], o_task_name := t_name t\<rparr>)
       (find (\<lambda>t. t_id t = o_task_id op) ts)"

definition queue_rows_upgrade :: "db \<Rightarrow> sql_error + db" where
  "queue_rows_upgrade d =
     (let rows = map (name_operation (tasks d)) (operations d) in
      if None \<in> set rows then Inl (NotNullViolation ''task_name'')
      else if distinct (map o_task_id (filter active (map the rows))) then Inr (d\<lparr>operations := map the rows\<rparr>)
      else Inl (UniqueViolation ''uq_ai_operations_active_task''))"

definition started_at_created :: "ai_operation \<Rightarrow> ai_operation" where
  "started_at_created op =
     (if o_started_at op = None then op\<lparr>o_started_at := Some (o_created_at op)\<rparr> else op)"

definition cancel_if_queued :: "instant \<Rightarrow> ai_operation \<Rightarrow> ai_operation" where
  "cancel_if_queued now op =
     (if o_status op = QUEUED then op\<lparr>o_status := CANCELLED, o_completed_at := Some now\<rparr> else op)"

definition queue_rows_downgrade :: "instant \<Rightarrow> db \<Rightarrow> db" where
  "queue_rows_downgrade now d =
     d\<lparr>operations := map (cancel_if_queued now \<circ> started_at_created) (operations d)\<rparr>"

text \<open>The downgrade makes every operation startable by the older code: none is queued and all have a
  start time. It leaves the tasks alone: a task whose operation was queued keeps its AI state without an
  active operation, also after upgrading again.\<close>

lemma queue_downgrade_strands_tasks:
  assumes "list_all (\<lambda>op. o_task_id op = task_id \<longrightarrow> o_status op \<noteq> RUNNING) (operations d)"
  shows "tasks (queue_rows_downgrade now d) = tasks d \<and>
     list_all (\<lambda>op. o_task_id op = task_id \<longrightarrow> \<not> active op) (operations (queue_rows_downgrade now d)) \<and>
     list_all (\<lambda>op. o_started_at op \<noteq> None) (operations (queue_rows_downgrade now d))"
  using assms
  by (auto simp: queue_rows_downgrade_def list_all_iff cancel_if_queued_def started_at_created_def active_def
      ACTIVE_STATUSES_def)

end
