(* ===== verification/Spec2Isabelle.thy ===== *)
theory Spec2Isabelle
  imports Queue_Guarantees Content_Guarantees Handler_Answers Result_Recording Ai_Lock App_Lifespan Task_Lifecycle Task_Views Identity_Guarantees Service_Edge Migration_Data
begin

text \<open>
  The caption rewriting backend: src/backend/app of the repository.

  \<^bold>\<open>The program.\<close> Members keep rewriting tasks (a source text and creative settings). A task goes
  through AI operations: an analysis, suggestions, a first draft, revisions. The HTTP handlers
  (modules/tasks/router.py) change tasks, versions and locked fragments and put AI operations into a
  durable queue (modules/tasks/ai\_queue.py). One worker (modules/tasks/ai\_worker.py) polls the queue
  and runs at most one operation per member; an execution (modules/tasks/ai\_operations.py) claims
  the operation under the member's lease (modules/tasks/ai\_lock.py), calls the model provider through
  the AI service (modules/tasks/ai\_service.py, modules/ai) and records the outcome. All components
  share the database (modules/tasks/models.py); every commit may interleave with the others. The
  identity module (modules/identity) keeps members, sessions and their provider settings; a policy
  (core/provider\_url.py) decides which provider addresses may be called. The schema is created by the
  migrations of src/backend/alembic.

  \<^bold>\<open>Theories and sources.\<close>
  \<^item> Caption\_Prelude: strings as lists of code points (\<open>strip\<close>, \<open>find\<close>, slices), results as sums,
    list tables; Py\_Json: JSON values, \<open>json.dumps\<close>, field decoding; Sha256: the digest of
    \<open>hashlib.sha256\<close> on 32-bit words. Fragment\_Scan: the scan for locked texts that two validators
    share, as a locale.
  \<^item> Task\_Domain: domain.py and service.py (states, transition table, lock constraints, archive).
  \<^item> Ai\_Errors, Ai\_Dto, Ai\_Validation, Ai\_Workflow, Ai\_Provider: modules/ai (errors, DTOs with their
    stored JSON, validators and parsing, prompts and requests, the provider client).
  \<^item> Task\_Schemas, Ai\_Submissions, Ai\_Codec: the request models of schemas.py and the stored form of
    a submission, the \<open>request_payload\<close> a retry reads back.
  \<^item> Ai\_Service: ai\_service.py. Task\_Store: models.py, repository.py and identity/models.py.
    Ai\_Lock: ai\_lock.py. Ai\_Operations and Ai\_Execution: ai\_operations.py (preparation; claim,
    invoke, persist, outcome). Ai\_Queue, Ai\_Worker, Task\_Router: the files of those names.
  \<^item> Store\_Facts, Workflow\_Invariant, Queue\_Invariant, Execution\_Facts, Worker\_Invariant: lemmas on
    the tables, and for each unit of work what it does to the workflow invariant \<open>db_inv\<close>.
  \<^item> Ai\_System: the backend as a transition system; one step is one unit of work of a handler, a tick
    of the worker, the first or second half of an execution, its failure handler, the cancellation of
    a job while it waits (\<open>cancel_waiting\<close>) or where no handler catches it (the job is lost), a process
    crash, or a change by the identity module. Demo\_System: a concrete run for the
    witnesses.
  \<^item> Worker\_Progress: rounds of a tick and one member's job (\<open>serve\<close>), each with its own provider, lease and
    time, with the number of the member's active operations as the decreasing measure. App\_Lifespan: the
    start and the stop of the application (main.py), that is of the worker; a stop cancels every job at some
    point of its work (\<open>cancel_job\<close>). Task\_Lifecycle: the life cycle of a task as an abstract
    state machine and the proof that every step refines it. Task\_Views: the response models of schemas.py
    and the error answer of tasks/router.py, with the invariant of the stored settings.
  \<^item> Queue\_Guarantees, Content\_Guarantees: what single operations of the queue, the handlers and the
    executions promise.
  \<^item> Store\_Rows: which rows each table accepts (\<open>task\_fits\<close>, \<open>lock\_fits\<close> and the like).
    Request\_Invariant: the inputs stored with an operation. Handler\_Answers: the task endpoints of
    router.py as one function of a request (\<open>handle\<close>) and the answers they give. Result\_Recording: what
    ai\_operations.py does with a provider answer that passed the checks.
  \<^item> Py\_Url: \<open>urllib.parse.urlsplit\<close> and the module \<open>ipaddress\<close>; Provider\_Url: core/provider\_url.py.
  \<^item> Rate\_Limit: the login limiters of identity/rate\_limit.py, Redis commands included.
    Identity\_Schemas: schemas.py, errors.py, security.py and provider.py of the identity module.
    Identity\_Service: its repositories.py, services.py, bootstrap.py, router.py and
    cli/bootstrap\_admin.py. Identity\_Guarantees: what they promise.
  \<^item> Service\_Edge: core/config.py, core/request\_trace.py, telemetry/router.py.
  \<^item> Migrations: alembic/versions as operations on a schema, and the schema the mapped classes declare;
    Migration\_Data: what the migrations do to rows.

  \<^bold>\<open>State.\<close> The database is the record \<open>db\<close>: a list of rows per table, in insertion order. A unit of
  work is a function from the database to \<open>Inl exception\<close> (rolled back) or \<open>Inr (result, database)\<close>.
  \<open>commit\<close> and \<open>flush\<close> refuse what the declared constraints refuse: unique and foreign keys, checks,
  column lengths. The mapper writes a changed row and stamps \<open>updated_at\<close> only if an attribute
  differs (\<open>orm_save\<close>); bulk updates stamp every matched row. The worker's \<open>jobs\<close> dictionary maps an
  owner to the phase of its job. Clock readings and \<open>uuid4()\<close> values are arguments.

  \<^bold>\<open>Parameters.\<close> Code outside the repository is an argument: the HTTP exchange (\<open>env_post\<close>), the JSON
  reader (\<open>env_loads\<close>), number conversion (\<open>env_int_of\<close>), the schema text of the suggestion set, the
  cipher, \<open>ilike\<close>, \<open>unified_diff\<close>, the name service, Unicode case mapping, password hashing and token
  signing (fields of \<open>identity_env\<close> and \<open>unicode\<close>); whether the database driver takes a time with a zone for
  \<open>finalized_at\<close> (\<open>aware\<close>; PostgreSQL's does not) and the greatest integer it binds (\<open>max_int\<close>). The theorems hold for every value of these arguments,
  or state what they need as \<open>jwt_lawful\<close>, \<open>passwords_lawful\<close> or \<open>cipher_lawful\<close>. An execution takes the URL
  policy as an argument; Identity\_Guarantees instantiates it with the policy of Provider\_Url.

  \<^bold>\<open>What is shown.\<close>
  \<^item> This theory: in every reachable state no task is stuck in an AI state, active operations of a task
    and running operations of a member are unique, running operations agree with their tasks; claimed
    executions end in a recorded outcome; a tick recovers stale operations and serves the oldest
    queued operation of each idle member; rounds of the worker end all operations of a member, after a crash
    too, once the lease is granted and the stale limit has passed.
    App\_Lifespan: a graceful stop, wherever the cancellations arrive, leaves a reachable state: no task stuck,
    no queued operation lost, and running only what a crash or a cancellation in an unguarded commit left.
  \<^item> Task\_Lifecycle: every step moves each task along the life cycle or leaves it alone; a task has
    versions exactly from editing on. Task\_Views: the stored rows fit the response models, but for
    tasks whose settings a client set to null.
  \<^item> Ai\_Lock: both leases satisfy the interface \<open>member_lock\<close>, hence are exclusive.
  \<^item> Ai\_Validation, Task\_Domain: the lock validators accept exactly the texts with enough disjoint
    occurrences of each locked text; selection revisions change nothing but the selection; the
    transition table; archive and restore.
  \<^item> Ai\_Dto, Ai\_Codec: stored analyses and submissions are read back unchanged.
  \<^item> Queue\_Guarantees: idempotent submission, exact acceptance, retry as resubmission, blocking of edits
    and submissions while an operation is active.
  \<^item> Request\_Invariant: the inputs of every stored operation can be read back, retried and repeated;
    cancellation as the inverse of submission.
    Handler\_Answers: in a reachable state a validated request is answered with its declared status or
    with a documented error, or with a 500 and then it is one of the requests \<open>crash_cause\<close> lists (which
    are shown to crash) or carries U+0000 in a text. Result\_Recording: an answer that
    passed the checks is recorded exactly when \<open>result\_fits\<close> holds, and what readers see then.
  \<^item> Content\_Guarantees: manual edits, locks, finalization and export, analyses and suggestion sets as
    executions store them, owner isolation.
  \<^item> Provider\_Url: accepted URLs are public and in normal form; the exact answer for IPv4 literals.
    Rate\_Limit: bounds on accepted logins, and the two limiters accept the same attempts, except that they may differ
    within a millisecond after the end of a window.
  \<^item> Identity\_Guarantees: the last administrator stays; tokens last twelve hours; passwords and provider
    settings behave as stored; every identity operation is an identity step of the backend, so the
    theorems of this theory hold with the identity module running.
  \<^item> Service\_Edge: the bound on client events. Migrations, Migration\_Data: the migrated schema is the
    declared one up to one time zone, every migration can be undone, model names survive a downgrade.

  \<^bold>\<open>Assumptions of the transition system.\<close> Handlers of tasks and presets receive settings their request
  model accepted, corrections of analyses and submissions likewise (premises of \<open>http\<close>); a started
  system has no tasks and operations (\<open>init\<close>), and no presets where a theorem says so.

  \<^bold>\<open>Loops.\<close> All loops are structural recursions or have a measure (the string search and the blocks of
  the digest); no fuel is used. \<open>AiQueueWorker.run\<close> is the unbounded iteration of \<open>tick\<close>, that is the
  transition relation itself.

  \<^bold>\<open>Not modelled.\<close> The wiring of main.py (routers, CORS, exception handlers), engine and
  session set-up, the environment behind the settings, the text of log lines, the serialization of
  responses to JSON text. In Ai\_System the identity module is one step
  that may change members and provider settings within the declared constraints; its operations refine
  that step. Units of work are atomic:
  reads of one unit of work before its row lock see the same database as its writes. Failures of the
  database connection itself and characters the database refuses to store (U+0000 in PostgreSQL) are not
  modelled. When the application stops, a cancellation can also arrive in the middle of a tick, which is then
  cut short, and in an execution whose success has just been committed; these are not steps of Ai\_System. The
  second one overwrites the recorded success (\<open>cancellation_overwrites_success\<close> of App\_Lifespan).
\<close>

section \<open>The AI workflow in every reachable state\<close>

text \<open>C1: no task is ever stuck. In every reachable state a task in an AI state has exactly one
  active operation; it belongs to the task's owner and its AI state is the task's.\<close>

theorem reachable_task_not_stuck:
  assumes "init s0" and "(step env)\<^sup>*\<^sup>* s0 s"
    and "t \<in> set (tasks (sys_db s))" and "t_state t \<in> set running_states"
  shows "\<exists>op \<in> set (operations (sys_db s)). o_task_id op = t_id t \<and> active op \<and>
    o_running_task_state op = t_state t \<and> o_owner_id op = t_owner_id t \<and>
    (\<forall>op'. op' \<in> set (operations (sys_db s)) \<and> o_task_id op' = t_id t \<and> active op' \<longrightarrow> op' = op)"
proof -
  have inv: "db_inv (sys_db s)" using backend.reachable_inv [OF assms(1,2)] by (simp add: sys_inv_def)
  from db_invD(3) [OF inv] assms(3,4) obtain op where op: "op \<in> set (operations (sys_db s))"
    "o_task_id op = t_id t" "active op" "o_running_task_state op = t_state t"
    unfolding not_stuck_def resting_def by blast
  have "o_owner_id op = t_owner_id t" using db_invD(5) [OF inv] op assms(3) unfolding owners_wf_def by simp
  with op active_eq [OF db_invD(1) [OF inv] _ op(1) _ op(3)] show ?thesis by metis
qed

theorem reachable_task_not_stuck_witness:
  "\<exists>op \<in> set (operations demo_running). o_task_id op = 10 \<and> active op \<and> o_running_task_state op = ANALYZING"
  using reachable_task_not_stuck [OF demo_init_ok demo_reachable,
      of "demo_task\<lparr>t_state := ANALYZING, t_updated_at := 6\<rparr>"]
  by (simp add: demo_sys_def demo_running_def demo_queued_def running_states_def demo_task_def new_task_def)

text \<open>C5: in every reachable state a task has at most one active operation and a member at most one
  running operation.\<close>

theorem reachable_operations_exclusive:
  assumes "init s0" and "(step env)\<^sup>*\<^sup>* s0 s"
    and "op \<in> set (operations (sys_db s))" and "op' \<in> set (operations (sys_db s))"
    and "active op \<and> active op' \<and> o_task_id op = o_task_id op' \<or>
         o_status op = RUNNING \<and> o_status op' = RUNNING \<and> o_owner_id op = o_owner_id op'"
  shows "op = op'"
proof -
  have inv: "db_inv (sys_db s)" using backend.reachable_inv [OF assms(1,2)] by (simp add: sys_inv_def)
  from assms(5) show ?thesis
  proof
    assume "active op \<and> active op' \<and> o_task_id op = o_task_id op'"
    with active_eq [OF db_invD(1) [OF inv] assms(3,4)] show ?thesis by blast
  next
    assume "o_status op = RUNNING \<and> o_status op' = RUNNING \<and> o_owner_id op = o_owner_id op'"
    with distinct_key_eq [of o_owner_id "running_ops (sys_db s)" op op'] db_invD(7) [OF inv] assms(3,4)
    show ?thesis by (simp add: single_running_def in_running_ops)
  qed
qed

theorem reachable_operations_exclusive_witness:
  "{op. op \<in> set (operations demo_running) \<and> o_owner_id op = 1 \<and> o_status op = RUNNING} =
     {claim_row 8 demo_operation}"
proof -
  have "op = claim_row 8 demo_operation"
    if "op \<in> set (operations demo_running)" "o_owner_id op = 1" "o_status op = RUNNING" for op
    using reachable_operations_exclusive [OF demo_init_ok demo_reachable, of op "claim_row 8 demo_operation"] that
    by (simp add: demo_sys_def demo_running_def demo_operation_def queued_operation_def claim_row_def)
  then show ?thesis by (auto simp: demo_running_def demo_operation_def queued_operation_def claim_row_def)
qed

text \<open>While an operation runs its task stays in the operation's AI state, which is the state of
  the operation's kind, and the state kept for going back is one the AI state may be entered from.\<close>

theorem reachable_running_operation_state:
  assumes "init s0" and "(step env)\<^sup>*\<^sup>* s0 s"
    and "op \<in> set (operations (sys_db s))" and "o_status op = RUNNING"
    and "t \<in> set (tasks (sys_db s))" and "t_id t = o_task_id op"
  shows "t_state t = running_state (o_kind op) \<and>
    assert_transition (o_initial_task_state op) (running_state (o_kind op)) = Inr () \<and>
    t_owner_id t = o_owner_id op"
proof -
  have inv: "db_inv (sys_db s)" using backend.reachable_inv [OF assms(1,2)] by (simp add: sys_inv_def)
  have "op_wf op" using db_invD(2) [OF inv assms(3)] .
  moreover have "t_state t = o_running_task_state op"
    using db_invD(6) [OF inv] assms(3-6) unfolding running_wf_def by (simp add: in_running_ops)
  moreover have "t_owner_id t = o_owner_id op"
    using db_invD(5) [OF inv] assms(3,5,6) unfolding owners_wf_def by blast
  ultimately show ?thesis by (auto simp: op_wf_def)
qed

theorem reachable_running_operation_state_witness:
  "t_state (demo_task\<lparr>t_state := ANALYZING, t_updated_at := 6\<rparr>) = running_state (o_kind (claim_row 8 demo_operation))"
  using reachable_running_operation_state [OF demo_init_ok demo_reachable, of "claim_row 8 demo_operation"
      "demo_task\<lparr>t_state := ANALYZING, t_updated_at := 6\<rparr>"]
  by (simp add: demo_sys_def demo_running_def demo_queued_def demo_operation_def queued_operation_def
      claim_row_def demo_task_def new_task_def)

section \<open>Executions end\<close>

text \<open>C2: whatever the provider answers, a claimed execution ends: its operation is succeeded and the
  task in the state after its kind, or its operation is failed or cancelled, the task is back in the
  state it was submitted from, and no analysis, suggestion, version or lock has changed.\<close>

theorem claimed_execution_ends:
  assumes "init s0" and "(step env)\<^sup>*\<^sup>* s0 s" and "sys_jobs s m = Some (JobRunning r)"
    and "execute_end env' fresh now r (sys_db s) = (j, d')"
  shows "\<exists>op \<in> set (operations d'). \<exists>t \<in> set (tasks d'). o_id op = run_operation_id r \<and> o_owner_id op = m \<and>
    t_id t = o_task_id op \<and>
    (o_status op = SUCCEEDED \<and> t_state t = completed_state (o_kind op) \<and> j = JobDone \<or>
     o_status op \<in> {FAILED, CANCELLED} \<and> t_state t = o_initial_task_state op \<and>
     analyses d' = analyses (sys_db s) \<and> suggestions d' = suggestions (sys_db s) \<and>
     versions d' = versions (sys_db s) \<and> locks d' = locks (sys_db s))"
proof -
  let ?d = "sys_db s"
  have inv: "db_inv ?d" and wf: "jobs_wf ?d (sys_jobs s)"
    using backend.reachable_inv [OF assms(1,2)] by (simp_all add: sys_inv_def)
  obtain op t where op: "op \<in> set (running_ops ?d)" "o_id op = run_operation_id r"
    "o_task_id op = t_id (run_task r)" "o_owner_id op = m" "o_kind op = prepared_kind (run_prepared r)"
    and ft: "find_task ?d (t_id (run_task r)) = Some t"
    using run_ok_op [OF inv jobs_wfD(2) [OF wf assms(3)]] by metis
  have t: "t \<in> set (tasks ?d)" "t_id t = o_task_id op" using find_task_Some [OF ft] op(3) by simp_all
  have mem: "op \<in> set (operations ?d)" using op(1) by (simp add: in_running_ops)
  from execute_finish_cases [OF inv op(1-3), of env' fresh now] show ?thesis
  proof (elim disjE exE conjE)
    fix op' res rt rid d1
    assume i: "invoke env' r = Inr res" and p: "persist fresh now r res ?d = Inr ((rt, rid), d1)"
      and f: "execute_finish env' fresh now r ?d = (FinishReturned op', succeeded_db now op res rt rid d1)"
    have s: "sp_succeeded (result_state res) = completed_state (o_kind op)"
      using invoke_Inr [OF i] op(5) by (simp add: result_well_def)
    have d': "d' = succeeded_db now op res rt rid d1" "j = JobDone"
      using assms(4) f by (simp_all add: execute_end_def)
    let ?op = "orm_save (touch_operation now) (complete_operation now res rt rid) op"
    let ?t = "orm_save (touch_task now) (\<lambda>t. t\<lparr>t_state := completed_state (o_kind op)\<rparr>) t"
    have "?op \<in> set (operations d')" "?t \<in> set (tasks d')"
      using mem t persist_frame [OF p]
      by (auto simp: d' succeeded_db_def operations_save_operation tasks_save_task s)
    then show ?thesis
      using op t d'(2) by (intro bexI [of _ ?op] bexI [of _ ?t]) (auto simp: complete_operation_def)
  next
    assume "finish_fails now op ?d (execute_finish env' fresh now r ?d)"
    then obtain ex e st where st: "st \<in> {FAILED, CANCELLED}"
      and f: "execute_finish env' fresh now r ?d = (FinishRaised ex, failed_db now op e st ?d)"
      unfolding finish_fails_def by blast
    have d': "d' = failed_db now op e st ?d" using assms(4) f by (simp add: execute_end_def)
    let ?op = "orm_save (touch_operation now) (fail_operation now e st) op"
    let ?t = "orm_save (touch_task now) (\<lambda>t. t\<lparr>t_state := o_initial_task_state op\<rparr>) t"
    have "?op \<in> set (operations d')" "?t \<in> set (tasks d')"
      using mem t by (auto simp: d' failed_db_def operations_save_operation tasks_save_task)
    then show ?thesis
      using op t st by (intro bexI [of _ ?op] bexI [of _ ?t])
        (auto simp: fail_operation_def d' failed_db_def split: prod.splits)
  qed
qed

theorem claimed_execution_ends_witness:
  "\<exists>op \<in> set (operations (snd (execute_end demo_env (\<lambda>_. 99) 9 demo_run demo_running))).
     o_id op = 20 \<and> \<not> active op"
proof -
  obtain j d' where e: "execute_end demo_env (\<lambda>_. 99) 9 demo_run demo_running = (j, d')" by (metis prod.exhaust)
  from claimed_execution_ends [OF demo_init_ok demo_reachable, of 1 demo_run demo_env "\<lambda>_. 99" 9 j d'] e
  show ?thesis by (fastforce simp: demo_sys_def demo_run_def)
qed

section \<open>The worker's tick\<close>

text \<open>C11: after a tick, a running operation older than the stale limit is one the worker's own job is
  still executing; every other one has been recovered.\<close>

theorem tick_recovers_stale_operations:
  assumes "init s0" and "(step env)\<^sup>*\<^sup>* s0 s" and "tick now (sys_db s, sys_jobs s) = (d', jobs')"
    and "op \<in> set (operations d')" and "o_status op = RUNNING"
    and "o_started_at op = Some started" and "started < now - seconds AI_OPERATION_STALE_SECONDS"
  shows "\<exists>r. sys_jobs s (o_owner_id op) = Some (JobRunning r) \<and> run_operation_id r = o_id op"
proof -
  let ?owners = "remdups (map o_owner_id (filter (\<lambda>op. o_status op = RUNNING) (operations (sys_db s))))"
  have inv: "db_inv (sys_db s)" and wf: "jobs_wf (sys_db s) (sys_jobs s)"
    using backend.reachable_inv [OF assms(1,2)] by (simp_all add: sys_inv_def)
  have d': "d' = snd (recover_owners now (drop_done (sys_jobs s)) ?owners (sys_db s))"
    using tick_db [OF inv assms(3)] by blast
  have "op \<in> set (running_ops d')" using assms(4,5) by (simp add: in_running_ops)
  with recover_owners_clears [OF inv, of now "drop_done (sys_jobs s)" ?owners] d'
  have run: "op \<in> set (running_ops (sys_db s))"
    and cl: "o_owner_id op \<in> set ?owners \<and> drop_done (sys_jobs s) (o_owner_id op) = None \<longrightarrow> \<not> is_stale now op"
    by blast+
  have "is_stale now op" using assms(5-7) by (simp add: is_stale_def STALE_OPERATION_AFTER_def)
  moreover have "o_owner_id op \<in> set ?owners" using run by (auto simp: in_running_ops)
  ultimately obtain j where "drop_done (sys_jobs s) (o_owner_id op) = Some j"
    using cl by (cases "drop_done (sys_jobs s) (o_owner_id op)") simp_all
  then have "sys_jobs s (o_owner_id op) = Some j" by (simp add: drop_done_def split: if_splits)
  with jobs_wfD(3) [OF wf run] show ?thesis by blast
qed

theorem tick_recovers_stale_operations_witness:
  "\<exists>r. sys_jobs demo_sys 1 = Some (JobRunning r) \<and> run_operation_id r = 20"
proof -
  let ?now = "seconds 721"
  have "drop_done [1 \<mapsto> JobRunning demo_run] = [1 \<mapsto> JobRunning demo_run]" by (auto simp: drop_done_def)
  then have "tick ?now (sys_db demo_sys, sys_jobs demo_sys) = (demo_running, [1 \<mapsto> JobRunning demo_run])"
    by (simp add: tick_def demo_sys_def order_by2_def Let_def demo_defs claim_row_def)
  from tick_recovers_stale_operations [OF demo_init_ok demo_reachable this, of "claim_row 8 demo_operation" 8]
  show ?thesis
    by (simp add: demo_defs claim_row_def seconds_def AI_OPERATION_STALE_SECONDS_def AI_LOCK_LEASE_SECONDS_def
        MAX_RESPONSE_TIMEOUT_SECONDS_def)
qed

text \<open>C10: a tick leaves no queued operation behind: its owner has a job or a running operation
  afterwards, and a job the tick starts is for the owner's oldest queued operation.\<close>

theorem tick_serves_oldest_queued:
  assumes "init s0" and "(step env)\<^sup>*\<^sup>* s0 s" and "tick now (sys_db s, sys_jobs s) = (d', jobs')"
    and "op \<in> set (operations d')" and "o_status op = QUEUED"
  shows "(\<exists>j. sys_jobs s (o_owner_id op) = Some j \<and> j \<noteq> JobDone \<and> jobs' (o_owner_id op) = Some j) \<or>
    (\<exists>op' \<in> set (operations d'). o_owner_id op' = o_owner_id op \<and> o_status op' = RUNNING) \<or>
    (\<exists>first \<in> set (operations d'). jobs' (o_owner_id op) = Some (JobNew (o_id first)) \<and>
       o_owner_id first = o_owner_id op \<and> o_status first = QUEUED \<and> o_created_at first \<le> o_created_at op)"
proof -
  let ?m = "o_owner_id op" and ?rows = "order_by2 o_created_at o_id (filter active (operations d'))"
  let ?running = "map o_owner_id (filter (\<lambda>row. o_status row = RUNNING) ?rows)"
  have inv: "db_inv (sys_db s)" using backend.reachable_inv [OF assms(1,2)] by (simp add: sys_inv_def)
  have jobs': "jobs' = start_jobs ?running ?rows (drop_done (sys_jobs s))" using tick_db [OF inv assms(3)] by blast
  have row: "op \<in> set ?rows" using assms(4,5) by simp
  consider (job) j where "drop_done (sys_jobs s) ?m = Some j"
    | (run) "drop_done (sys_jobs s) ?m = None" "?m \<in> set ?running"
    | (start) "drop_done (sys_jobs s) ?m = None" "?m \<notin> set ?running" by blast
  then show ?thesis
  proof cases
    case job
    then have "sys_jobs s ?m = Some j \<and> j \<noteq> JobDone" by (auto simp: drop_done_def split: if_splits)
    moreover have "jobs' ?m = Some j"
      using start_jobs_cases [of ?running ?rows "drop_done (sys_jobs s)" ?m] job jobs' by auto
    ultimately show ?thesis by blast
  next
    case run
    then have "\<exists>op' \<in> set (operations d'). o_owner_id op' = ?m \<and> o_status op' = RUNNING" by auto
    then show ?thesis by blast
  next
    case start
    obtain first where first: "find (\<lambda>r. o_owner_id r = ?m) ?rows = Some first"
      using row find_None_notin [of "\<lambda>r. o_owner_id r = ?m" ?rows op] by (cases "find (\<lambda>r. o_owner_id r = ?m) ?rows") auto
    have f: "first \<in> set (operations d')" "active first" "o_owner_id first = ?m"
      using find_Some_mem [OF first] by auto
    have "o_status first \<noteq> RUNNING"
    proof
      assume "o_status first = RUNNING"
      then have "o_owner_id first \<in> set ?running" using f(1) by (auto intro!: imageI)
      with f(3) start(2) show False by simp
    qed
    with f(2) have "o_status first = QUEUED" by simp
    moreover have "o_created_at first \<le> o_created_at op"
      by (rule find_sorted_least [OF _ first row]) (simp_all add: order_by2_def)
    moreover have "jobs' ?m = Some (JobNew (o_id first))"
      using start_jobs_first [of "drop_done (sys_jobs s)" ?m ?running ?rows] start first jobs' by simp
    ultimately show ?thesis using f by blast
  qed
qed


theorem tick_serves_oldest_queued_witness:
  "(\<exists>op' \<in> set (operations demo_queued). o_owner_id op' = 1 \<and> o_status op' = RUNNING) \<or>
   (\<exists>first \<in> set (operations demo_queued). [1 \<mapsto> JobNew 20] (1 :: uuid) = Some (JobNew (o_id first)) \<and>
      o_status first = QUEUED)"
proof -
  have "tick 7 (sys_db demo_waiting, sys_jobs demo_waiting) = (demo_queued, [1 \<mapsto> JobNew 20])"
    using demo_tick by (simp add: demo_waiting_def)
  from tick_serves_oldest_queued [OF demo_init_ok demo_reachable_waiting this, of demo_operation] show ?thesis
    by (auto simp: demo_defs demo_waiting_def)
qed

section \<open>The queue drains\<close>

text \<open>C8: a member's queue drains, from every reachable state, crashes included. A round is a tick and then
  the member's job to its end. Rounds in which the member's lease is refused, or in which the stale limit
  of an operation a crash left running has not passed, may come in between. Once there have been more of
  the other rounds than the member had active operations, all of the member's operations have ended and
  none is lost, whatever the provider answers in each round and however the executions fail.\<close>

theorem queued_operations_drain:
  assumes "init s0" and "(step env)\<^sup>*\<^sup>* s0 s"
    and "length (filter (\<lambda>op. o_owner_id op = m \<and> active op) (operations (sys_db s))) <
      length (filter (\<lambda>(env, fresh, lock, now). lock = LockGranted \<and>
        (sys_jobs s m = None \<longrightarrow>
           list_all (\<lambda>op. o_owner_id op = m \<and> o_status op = RUNNING \<longrightarrow> is_stale now op) (operations (sys_db s)))) rounds)"
    and "fold (serve m) rounds (sys_db s, sys_jobs s) = (d', jobs')"
  shows "map o_id (operations d') = map o_id (operations (sys_db s)) \<and>
    list_all (\<lambda>op. o_owner_id op = m \<longrightarrow> o_status op \<in> {SUCCEEDED, FAILED, CANCELLED}) (operations d')"
proof -
  let ?st = "(sys_db s, sys_jobs s)"
  have st: "st_inv ?st" using backend.reachable_inv [OF assms(1,2)] by (simp add: sys_inv_def st_inv_def)
  have "can_serve m ?st = (\<lambda>(env, fresh, lock, now). lock = LockGranted \<and>
      (sys_jobs s m = None \<longrightarrow>
         list_all (\<lambda>op. o_owner_id op = m \<and> o_status op = RUNNING \<longrightarrow> is_stale now op) (operations (sys_db s))))"
    by (auto simp: can_serve_def orphans_def list_all_iff fun_eq_iff)
  then have "queue_length m d' = 0"
    using drained [OF st, of m rounds] assms(3,4) by (simp add: queue_length_def del: active_simps)
  moreover have "map o_id (operations d') = map o_id (operations (sys_db s))"
    using fold_serve_shrinks [OF st, of m rounds] assms(4) by (auto simp: shrinks_def)
  ultimately show ?thesis using drained_ended by blast
qed

text \<open>The witness: after a crash member 1 has one operation left running; a refused round and a round before
  the stale limit come first.\<close>

theorem queued_operations_drain_witness:
  "list_all (\<lambda>op. o_owner_id op = 1 \<longrightarrow> o_status op \<in> {SUCCEEDED, FAILED, CANCELLED})
     (operations (fst (fold (serve 1)
        [(demo_env, \<lambda>_. 99, LockBusy, 9), (demo_env, \<lambda>_. 98, LockGranted, 10),
         (demo_env, \<lambda>_. 97, LockGranted, 9000000000), (demo_env, \<lambda>_. 96, LockGranted, 9000000001)]
        (demo_running, Map.empty))))"
proof -
  let ?s = "\<lparr>sys_db = demo_running, sys_jobs = Map.empty, sys_clock = 8\<rparr>"
  have "step demo_env demo_sys ?s"
    using step_crash [of demo_env demo_running "[1 \<mapsto> JobRunning demo_run]" 8] by (simp add: demo_sys_def)
  with demo_reachable have r: "(step demo_env)\<^sup>*\<^sup>* demo_init ?s" by (rule rtranclp.rtrancl_into_rtrancl)
  let ?rounds = "[(demo_env, \<lambda>_. 99, LockBusy, 9), (demo_env, \<lambda>_. 98, LockGranted, 10),
    (demo_env, \<lambda>_. 97, LockGranted, 9000000000), (demo_env, \<lambda>_. 96, LockGranted, 9000000001)] :: round list"
  have "is_stale t (claim_row 8 demo_operation) \<longleftrightarrow> 8 < t - seconds 720" for t
    by (simp add: is_stale_def claim_row_def STALE_OPERATION_AFTER_def AI_OPERATION_STALE_SECONDS_def
        AI_LOCK_LEASE_SECONDS_def MAX_RESPONSE_TIMEOUT_SECONDS_def)
  then have "length (filter (\<lambda>op. o_owner_id op = 1 \<and> active op) (operations (sys_db ?s))) <
      length (filter (\<lambda>(env, fresh, lock, now). lock = LockGranted \<and>
        (sys_jobs ?s 1 = None \<longrightarrow>
           list_all (\<lambda>op. o_owner_id op = 1 \<and> o_status op = RUNNING \<longrightarrow> is_stale now op) (operations (sys_db ?s)))) ?rounds)"
    by (simp add: demo_running_def seconds_def)
  from queued_operations_drain [OF demo_init_ok r this] show ?thesis
    by (cases "fold (serve 1) ?rounds (sys_db ?s, sys_jobs ?s)") (simp del: fold_simps fold.simps)
qed

end
